(* ===== verification/Prelude.thy ===== *)
theory Prelude
  imports Main "HOL-Library.List_Lexorder" "HOL-Library.Char_ord" "HOL-Library.Product_Lexorder"
begin

text \<open>
  Shared layer of the development: Python's exceptions as values, the state-and-exception
  operations in which the handlers of \<open>backend/app\<close> are written, the transaction and
  \<open>finally\<close> combinators, and the generic facts on lists that the components use.

  An operation of type \<open>('s, 'a) oper\<close> takes the state and gives back the outcome, \<open>Inl\<close> of the
  exception raised or \<open>Inr\<close> of the value returned, together with the state that is left behind.
  The state left behind by an exception is the one the code leaves: only \<open>transaction\<close> undoes it.
\<close>

subsection \<open>Exceptions\<close>

text \<open>
  One constructor per exception class the modelled code raises or catches. The text carried is the
  message of the source. \<open>AdapterError\<close> stands for whatever a database driver raises and \<open>Crashed\<close>
  for the death of the process between two external effects.
\<close>

datatype exn =
    ValueError string
  | InvalidStateTransition string
  | KeyError string
  | TypeError string
  | ZeroDivisionError
  | ValidationError string
  | MultipleResultsFound
  | NoResultFound
  | ApprovalRequired string
  | DurableApprovalRequired string
  | ProductionExecutionError string
  | DurableDeploymentError string
  | DurableQuerySettingsError string
  | AuthorityInvariantError string
  | EvaluationPlanError string
  | CandidateRankingError string
  | CandidateGenerationError string
  | WorkloadSnapshotError string
  | DiagnosisServiceError string
  | OrchestrationInvariantError string
  | PermanentJobError string
  | LeaseLostError
  | InjectedCrash string
  | TransientBlock string
  | IntegrityError string
  | AdapterError string
  | DatabaseUnavailable
  | MonitoringEvidenceUnavailable string
  | WouldBlock string
  | Crashed

text \<open>\<open>except ValueError\<close> also catches the subclasses of \<open>ValueError\<close>.\<close>

fun is_value_error :: "exn \<Rightarrow> bool" where
  "is_value_error (ValueError _) = True"
| "is_value_error (InvalidStateTransition _) = True"
| "is_value_error (ValidationError _) = True"
| "is_value_error (AuthorityInvariantError _) = True"
| "is_value_error (EvaluationPlanError _) = True"
| "is_value_error (CandidateRankingError _) = True"
| "is_value_error (CandidateGenerationError _) = True"
| "is_value_error (OrchestrationInvariantError _) = True"
| "is_value_error _ = False"

subsection \<open>Operations on a state, with exceptions\<close>

type_synonym ('s, 'a) oper = "'s \<Rightarrow> (exn + 'a) \<times> 's"

definition ret :: "'a \<Rightarrow> ('s, 'a) oper" where
  "ret a = (\<lambda>s. (Inr a, s))"

definition raise :: "exn \<Rightarrow> ('s, 'a) oper" where
  "raise e = (\<lambda>s. (Inl e, s))"

definition bnd :: "('s, 'a) oper \<Rightarrow> ('a \<Rightarrow> ('s, 'b) oper) \<Rightarrow> ('s, 'b) oper" where
  "bnd m f = (\<lambda>s. case m s of (Inl e, s') \<Rightarrow> (Inl e, s') | (Inr a, s') \<Rightarrow> f a s')"

definition asks :: "('s \<Rightarrow> 'a) \<Rightarrow> ('s, 'a) oper" where
  "asks f = (\<lambda>s. (Inr (f s), s))"

definition update :: "('s \<Rightarrow> 's) \<Rightarrow> ('s, unit) oper" where
  "update f = (\<lambda>s. (Inr (), f s))"

text \<open>\<open>if not b: raise e\<close>\<close>

definition ensure :: "bool \<Rightarrow> exn \<Rightarrow> ('s, unit) oper" where
  "ensure b e = (if b then ret () else raise e)"

text \<open>A computed value or exception, with no effect.\<close>

definition lift :: "exn + 'a \<Rightarrow> ('s, 'a) oper" where
  "lift r = (\<lambda>s. (r, s))"

text \<open>
  \<open>async with engine.begin()\<close>: the block's writes are kept when it returns and undone when it
  raises.
\<close>

definition transaction :: "('s, 'a) oper \<Rightarrow> ('s, 'a) oper" where
  "transaction m = (\<lambda>s. case m s of (Inl e, _) \<Rightarrow> (Inl e, s) | (Inr a, s') \<Rightarrow> (Inr a, s'))"

text \<open>\<open>try: m finally: f\<close>, for a cleanup that does not raise.\<close>

definition finally_do :: "('s, 'a) oper \<Rightarrow> ('s \<Rightarrow> 's) \<Rightarrow> ('s, 'a) oper" where
  "finally_do m f = (\<lambda>s. case m s of (r, s') \<Rightarrow> (r, f s'))"

text \<open>\<open>try: m except ...: h\<close>; \<open>h\<close> re-raises what it does not catch.\<close>

definition catching :: "('s, 'a) oper \<Rightarrow> (exn \<Rightarrow> ('s, 'a) oper) \<Rightarrow> ('s, 'a) oper" where
  "catching m h = (\<lambda>s. case m s of (Inl e, s') \<Rightarrow> h e s' | (Inr a, s') \<Rightarrow> (Inr a, s'))"

fun for_each :: "('a \<Rightarrow> ('s, unit) oper) \<Rightarrow> 'a list \<Rightarrow> ('s, unit) oper" where
  "for_each f [] = ret ()"
| "for_each f (x # xs) = bnd (f x) (\<lambda>_. for_each f xs)"

text \<open>An operation on one field of a larger state, given by its selector and its update.\<close>

definition focus :: "('s \<Rightarrow> 't) \<Rightarrow> ('t \<Rightarrow> 's \<Rightarrow> 's) \<Rightarrow> ('t, 'a) oper \<Rightarrow> ('s, 'a) oper" where
  "focus sel put m = (\<lambda>s. case m (sel s) of (r, t) \<Rightarrow> (r, put t s))"

named_theorems oper_simps \<open>evaluation of operations at a state\<close>

lemma ret_apply [simp, oper_simps]: "ret a s = (Inr a, s)"
  by (simp add: ret_def)

lemma raise_apply [simp, oper_simps]: "raise e s = (Inl e, s)"
  by (simp add: raise_def)

lemma asks_apply [simp, oper_simps]: "asks f s = (Inr (f s), s)"
  by (simp add: asks_def)

lemma update_apply [simp, oper_simps]: "update f s = (Inr (), f s)"
  by (simp add: update_def)

lemma lift_apply [simp, oper_simps]: "lift r s = (r, s)"
  by (simp add: lift_def)

lemma ensure_apply [simp, oper_simps]: "ensure b e s = (if b then (Inr (), s) else (Inl e, s))"
  by (simp add: ensure_def)

lemma bnd_apply [oper_simps]:
  "bnd m f s = (case m s of (Inl e, s') \<Rightarrow> (Inl e, s') | (Inr a, s') \<Rightarrow> f a s')"
  by (simp add: bnd_def)

lemma transaction_apply [oper_simps]:
  "transaction m s = (case m s of (Inl e, _) \<Rightarrow> (Inl e, s) | (Inr a, s') \<Rightarrow> (Inr a, s'))"
  by (simp add: transaction_def)

lemma finally_do_apply [oper_simps]: "finally_do m f s = (fst (m s), f (snd (m s)))"
  by (simp add: finally_do_def split: prod.split)

lemma catching_apply [oper_simps]:
  "catching m h s = (case m s of (Inl e, s') \<Rightarrow> h e s' | (Inr a, s') \<Rightarrow> (Inr a, s'))"
  by (simp add: catching_def)

lemma focus_apply [oper_simps]: "focus sel put m s = (fst (m (sel s)), put (snd (m (sel s))) s)"
  by (simp add: focus_def split: prod.split)

lemma bnd_ret [simp]: "bnd (ret a) f = f a"
  by (simp add: fun_eq_iff bnd_apply)

lemma bnd_raise [simp]: "bnd (raise e) f = raise e"
  by (simp add: fun_eq_iff bnd_apply)

lemma bnd_Inr_iff:
  "bnd m f s = (Inr b, s'') \<longleftrightarrow> (\<exists>a s'. m s = (Inr a, s') \<and> f a s' = (Inr b, s''))"
  by (auto simp: bnd_apply split: prod.splits sum.splits)

lemma bnd_Inl_iff:
  "bnd m f s = (Inl e, s'') \<longleftrightarrow>
     m s = (Inl e, s'') \<or> (\<exists>a s'. m s = (Inr a, s') \<and> f a s' = (Inl e, s''))"
  by (auto simp: bnd_apply split: prod.splits sum.splits)

lemma bnd_InrE [elim]:
  assumes "bnd m f s = (Inr b, s'')"
  obtains a s' where "m s = (Inr a, s')" and "f a s' = (Inr b, s'')"
  using assms by (auto simp: bnd_Inr_iff)

lemma bnd_InrI [intro]: "m s = (Inr a, s') \<Longrightarrow> f a s' = r \<Longrightarrow> bnd m f s = r"
  by (simp add: bnd_apply)

text \<open>One step at a time: what the rest of a block starts from.\<close>

lemma bnd_step: "m s = (Inr a, s') \<Longrightarrow> bnd m f s = f a s'"
  by (simp add: bnd_apply)

lemma bnd_stop: "m s = (Inl e, s') \<Longrightarrow> bnd m f s = (Inl e, s')"
  by (simp add: bnd_apply)

lemma transaction_Inl [simp]: "fst (transaction m s) = Inl e \<Longrightarrow> snd (transaction m s) = s"
  by (auto simp: transaction_apply split: prod.splits sum.splits)

lemma transaction_Inr_iff: "transaction m s = (Inr a, s') \<longleftrightarrow> m s = (Inr a, s')"
  by (auto simp: transaction_apply split: prod.splits sum.splits)

lemma transaction_Inl_iff: "transaction m s = (Inl e, s') \<longleftrightarrow> s' = s \<and> (\<exists>t. m s = (Inl e, t))"
  by (auto simp: transaction_apply split: prod.splits sum.splits)

lemmas oper_splits = prod.splits sum.splits if_splits option.splits

text \<open>
  A relation between the state before and the state after that every run of an operation keeps,
  whether it returns or raises: the frame lemmas of the components are stated with it.
\<close>

definition keeps :: "('s \<Rightarrow> 's \<Rightarrow> bool) \<Rightarrow> ('s, 'a) oper \<Rightarrow> bool" where
  "keeps R m \<longleftrightarrow> (\<forall>s. R s (snd (m s)))"

lemma keepsD: "keeps R m \<Longrightarrow> m s = (r, s') \<Longrightarrow> R s s'"
  by (metis keeps_def snd_conv)

lemma keeps_ret [intro]: "reflp R \<Longrightarrow> keeps R (ret a)"
  by (simp add: keeps_def reflpD)

lemma keeps_raise [intro]: "reflp R \<Longrightarrow> keeps R (raise e)"
  by (simp add: keeps_def reflpD)

lemma keeps_asks [intro]: "reflp R \<Longrightarrow> keeps R (asks f)"
  by (simp add: keeps_def reflpD)

lemma keeps_lift [intro]: "reflp R \<Longrightarrow> keeps R (lift r)"
  by (simp add: keeps_def reflpD)

lemma keeps_ensure [intro]: "reflp R \<Longrightarrow> keeps R (ensure b e)"
  by (simp add: keeps_def reflpD)

lemma keeps_bnd [intro]:
  assumes "transp R" and "keeps R m" and "\<And>a. keeps R (f a)"
  shows "keeps R (bnd m f)"
proof -
  have "R s (snd (bnd m f s))" for s
  proof (cases "m s")
    case (Pair r s')
    then have 1: "R s s'" using assms(2) by (rule keepsD[rotated])
    show ?thesis
    proof (cases r)
      case (Inl e)
      then show ?thesis using 1 Pair by (simp add: bnd_apply)
    next
      case (Inr a)
      have "R s' (snd (f a s'))" using assms(3) by (simp add: keeps_def)
      then show ?thesis using 1 Pair Inr assms(1) by (auto simp: bnd_apply dest: transpD)
    qed
  qed
  then show ?thesis by (simp add: keeps_def)
qed

subsection \<open>Computations that may raise\<close>

text \<open>A computation without effects is its outcome; \<open>smap\<close> is a comprehension whose body may raise.\<close>

definition sbind :: "exn + 'a \<Rightarrow> ('a \<Rightarrow> exn + 'b) \<Rightarrow> exn + 'b" where
  "sbind r f = (case r of Inl e \<Rightarrow> Inl e | Inr a \<Rightarrow> f a)"

fun smap :: "('a \<Rightarrow> exn + 'b) \<Rightarrow> 'a list \<Rightarrow> exn + 'b list" where
  "smap f [] = Inr []"
| "smap f (x # xs) = sbind (f x) (\<lambda>y. sbind (smap f xs) (\<lambda>ys. Inr (y # ys)))"

definition require_that :: "bool \<Rightarrow> exn \<Rightarrow> exn + unit" where
  "require_that b e = (if b then Inr () else Inl e)"

lemma sbind_simps [simp]: "sbind (Inr a) f = f a" "sbind (Inl e) f = Inl e"
  by (simp_all add: sbind_def)

lemma sbind_Inr_iff: "sbind r f = Inr b \<longleftrightarrow> (\<exists>a. r = Inr a \<and> f a = Inr b)"
  by (cases r) simp_all

lemma sbind_Inl_iff: "sbind r f = Inl e \<longleftrightarrow> r = Inl e \<or> (\<exists>a. r = Inr a \<and> f a = Inl e)"
  by (cases r) simp_all

lemma require_that_simps [simp]:
  "require_that b e = Inr u \<longleftrightarrow> b" "require_that b e = Inl e' \<longleftrightarrow> \<not> b \<and> e' = e"
  by (auto simp: require_that_def)

lemma smap_Inr_iff: "smap f xs = Inr ys \<longleftrightarrow> list_all2 (\<lambda>x y. f x = Inr y) xs ys"
proof (induction xs arbitrary: ys)
  case Nil
  then show ?case by auto
next
  case (Cons x xs)
  then show ?case by (auto simp: sbind_Inr_iff list_all2_Cons1)
qed

lemma smap_length: "smap f xs = Inr ys \<Longrightarrow> length ys = length xs"
  by (auto simp: smap_Inr_iff dest: list_all2_lengthD)

lemma smap_mem: "smap f xs = Inr ys \<Longrightarrow> y \<in> set ys \<Longrightarrow> \<exists>x\<in>set xs. f x = Inr y"
  by (induction xs arbitrary: ys) (auto simp: sbind_Inr_iff)

lemma smap_image: "smap f xs = Inr ys \<Longrightarrow> x \<in> set xs \<Longrightarrow> \<exists>y\<in>set ys. f x = Inr y"
  by (induction xs arbitrary: ys) (auto simp: sbind_Inr_iff)

lemma smap_total: "(\<And>x. x \<in> set xs \<Longrightarrow> f x = Inr (g x)) \<Longrightarrow> smap f xs = Inr (map g xs)"
  by (induction xs) simp_all

subsection \<open>Query results\<close>

text \<open>
  \<open>result.one_or_none()\<close> of SQLAlchemy: the row, \<open>None\<close>, or an exception when several rows match.
\<close>

definition one_or_none :: "'a list \<Rightarrow> exn + 'a option" where
  "one_or_none rows = (case rows of [] \<Rightarrow> Inr None | [r] \<Rightarrow> Inr (Some r) | _ \<Rightarrow> Inl MultipleResultsFound)"

lemma one_or_none_None [simp]: "one_or_none rows = Inr None \<longleftrightarrow> rows = []"
  by (auto simp: one_or_none_def split: list.splits)

lemma one_or_none_Some [simp]: "one_or_none rows = Inr (Some r) \<longleftrightarrow> rows = [r]"
  by (auto simp: one_or_none_def split: list.splits)

lemma one_or_none_mem: "one_or_none rows = Inr (Some r) \<Longrightarrow> r \<in> set rows"
  by simp

lemma one_or_none_Inl [simp]: "one_or_none rows = Inl e \<longleftrightarrow> e = MultipleResultsFound \<and> 1 < length rows"
  by (auto simp: one_or_none_def split: list.splits)

text \<open>\<open>next((x for x in xs if p x), None)\<close> is \<open>find p xs\<close>.\<close>

lemma find_None_iff_ball: "find p xs = None \<longleftrightarrow> (\<forall>x\<in>set xs. \<not> p x)"
  by (induction xs) auto

lemma find_SomeD: "find p xs = Some x \<Longrightarrow> x \<in> set xs \<and> p x"
  by (induction xs) (auto split: if_splits)

lemma find_append: "find p (xs @ ys) = (case find p xs of None \<Rightarrow> find p ys | Some x \<Rightarrow> Some x)"
  by (induction xs) auto

text \<open>\<open>sorted(set(xs))\<close>\<close>

definition sorted_set :: "'a::linorder list \<Rightarrow> 'a list" where
  "sorted_set xs = sort (remdups xs)"

lemma set_sorted_set [simp]: "set (sorted_set xs) = set xs"
  by (simp add: sorted_set_def)

lemma sorted_sorted_set [simp]: "sorted (sorted_set xs)"
  by (simp add: sorted_set_def)

lemma distinct_sorted_set [simp]: "distinct (sorted_set xs)"
  by (simp add: sorted_set_def)

lemma sorted_set_cong: "set xs = set ys \<Longrightarrow> sorted_set xs = sorted_set ys"
  by (metis distinct_sorted_set set_sorted_set sorted_distinct_set_unique sorted_sorted_set)

lemma sorted_set_idem [simp]: "sorted_set (sorted_set xs) = sorted_set xs"
  by (rule sorted_set_cong) simp

end
