(* ===== verification/Json.thy ===== *)
theory Json
  imports Prelude
begin

text \<open>
  The part of Python's \<open>json\<close> and \<open>hashlib\<close> every fingerprint of the program goes through:
  \<open>json.dumps(value, sort_keys=True, separators=(",", ":"))\<close>. Strings are sequences of code points
  below 256, dictionaries are association lists with the keys in insertion order, and the only
  numbers are integers, which is all the fingerprinted states hold. The SHA-256 digest is an
  argument of the definitions that use it: what is proved holds for every digest function, and
  tamper evidence is stated by exhibiting the collision an undetected change would need.
\<close>

datatype json =
    JNull
  | JBool bool
  | JNum int
  | JStr string
  | JArr "json list"
  | JObj "(string \<times> json) list"

type_synonym digest = "string \<Rightarrow> string"

subsection \<open>Decimal integers\<close>

definition digit_char :: "nat \<Rightarrow> char" where
  "digit_char d = char_of (48 + d)"

definition is_digit :: "char \<Rightarrow> bool" where
  "is_digit c \<longleftrightarrow> 48 \<le> (of_char c :: nat) \<and> (of_char c :: nat) \<le> 57"

fun nat_str :: "nat \<Rightarrow> string" where
  "nat_str n = (if n < 10 then [digit_char n] else nat_str (n div 10) @ [digit_char (n mod 10)])"

declare nat_str.simps [simp del]

definition int_str :: "int \<Rightarrow> string" where
  "int_str i = (if i < 0 then CHR ''-'' # nat_str (nat (- i)) else nat_str (nat i))"

definition digits_value :: "string \<Rightarrow> nat" where
  "digits_value ds = foldl (\<lambda>a c. 10 * a + (of_char c - 48)) 0 ds"

lemma of_char_digit [simp]: "d < 10 \<Longrightarrow> of_char (digit_char d) = (48 + d :: nat)"
  by (simp add: digit_char_def)

lemma is_digit_digit [simp]: "d < 10 \<Longrightarrow> is_digit (digit_char d)"
  by (simp add: is_digit_def)

lemma nat_str_digits: "c \<in> set (nat_str n) \<Longrightarrow> is_digit c"
proof (induction n rule: nat_str.induct)
  case (1 n)
  then show ?case by (auto simp: nat_str.simps [of n] split: if_splits)
qed

lemma nat_str_nonempty [simp]: "nat_str n \<noteq> []"
  by (simp add: nat_str.simps [of n])

lemma digits_value_nat_str [simp]: "digits_value (nat_str n) = n"
proof (induction n rule: nat_str.induct)
  case (1 n)
  show ?case
  proof (cases "n < 10")
    case True
    then show ?thesis by (simp add: nat_str.simps [of n] digits_value_def)
  next
    case False
    then have "digits_value (nat_str n) = 10 * digits_value (nat_str (n div 10)) + n mod 10"
      by (simp add: nat_str.simps [of n] digits_value_def)
    with 1 False show ?thesis by simp
  qed
qed

text \<open>A rest of text before which a printed number stops.\<close>

definition delimited :: "string \<Rightarrow> bool" where
  "delimited r \<longleftrightarrow> (case r of [] \<Rightarrow> True | c # _ \<Rightarrow> \<not> is_digit c)"

lemma delimited_simps [simp]:
  "delimited []" "delimited (CHR '','' # r)" "delimited (CHR '']'' # r)" "delimited (CHR ''}'' # r)"
  by (simp_all add: delimited_def is_digit_def)

lemma takeWhile_nat_str: "delimited r \<Longrightarrow> takeWhile is_digit (nat_str n @ r) = nat_str n"
  by (auto simp: takeWhile_append2 nat_str_digits delimited_def takeWhile_eq_Nil_iff split: list.splits)

lemma nat_str_inject:
  assumes "nat_str m @ r = nat_str n @ s" and "delimited r" and "delimited s"
  shows "m = n \<and> r = s"
proof -
  have "nat_str m = nat_str n"
    using assms takeWhile_nat_str by metis
  then show ?thesis using assms(1) by (metis digits_value_nat_str same_append_eq)
qed

lemma nat_str_hd: "is_digit (hd (nat_str n @ r))"
  using nat_str_digits [of "hd (nat_str n)" n] by simp

lemma int_str_inject:
  assumes "int_str i @ r = int_str j @ s" and "delimited r" and "delimited s"
  shows "i = j \<and> r = s"
proof -
  have neg: "CHR ''-'' # t \<noteq> nat_str n @ u" for t n u
  proof
    assume "CHR ''-'' # t = nat_str n @ u"
    then have "is_digit CHR ''-''" using nat_str_hd [of n u] by (metis list.sel(1))
    then show False by (simp add: is_digit_def)
  qed
  from neg neg[symmetric] have "(i < 0) = (j < 0)"
    using assms(1) by (auto simp: int_str_def split: if_splits)
  then show ?thesis
    using assms by (auto simp: int_str_def split: if_splits dest!: nat_str_inject)
qed

subsection \<open>Strings\<close>

definition hex_char :: "nat \<Rightarrow> char" where
  "hex_char d = (if d < 10 then char_of (48 + d) else char_of (87 + d))"

definition hex_value :: "char \<Rightarrow> nat" where
  "hex_value c = (if (of_char c :: nat) < 58 then of_char c - 48 else of_char c - 87)"

lemma hex_value_hex_char [simp]: "d < 16 \<Longrightarrow> hex_value (hex_char d) = d"
  by (auto simp: hex_value_def hex_char_def)

definition escape_char :: "char \<Rightarrow> string" where
  "escape_char c =
     (if c = CHR 0x22 then [CHR 0x5C, CHR 0x22]
      else if c = CHR 0x5C then [CHR 0x5C, CHR 0x5C]
      else if c = CHR 0x0A then [CHR 0x5C, CHR ''n'']
      else if c = CHR 0x0D then [CHR 0x5C, CHR ''r'']
      else if c = CHR 0x09 then [CHR 0x5C, CHR ''t'']
      else if c = CHR 0x0C then [CHR 0x5C, CHR ''f'']
      else if c = CHR 0x08 then [CHR 0x5C, CHR ''b'']
      else if 32 \<le> (of_char c :: nat) \<and> (of_char c :: nat) \<le> 126 then [c]
      else [CHR 0x5C, CHR ''u'', CHR ''0'', CHR ''0'', hex_char (of_char c div 16), hex_char (of_char c mod 16)])"

definition quoted :: "string \<Rightarrow> string" where
  "quoted s = CHR 0x22 # concat (map escape_char s) @ [CHR 0x22]"

text \<open>The reader of one escaped character, used to show that escaping loses nothing.\<close>

fun unescape_head :: "string \<Rightarrow> char \<times> string" where
  "unescape_head (c # d # r) =
     (if c \<noteq> CHR 0x5C then (c, d # r)
      else if d = CHR ''n'' then (CHR 0x0A, r)
      else if d = CHR ''r'' then (CHR 0x0D, r)
      else if d = CHR ''t'' then (CHR 0x09, r)
      else if d = CHR ''f'' then (CHR 0x0C, r)
      else if d = CHR ''b'' then (CHR 0x08, r)
      else if d = CHR ''u'' then (char_of (16 * hex_value (r ! 2) + hex_value (r ! 3)), drop 4 r)
      else (d, r))"
| "unescape_head [c] = (c, [])"
| "unescape_head [] = (CHR 0x00, [])"

lemma unescape_escape: "unescape_head (escape_char c @ r) = (c, r)"
proof -
  have bound: "(of_char c :: nat) < 256" by simp
  have hex: "(of_char c :: nat) div 16 < 16" "(of_char c :: nat) mod 16 < 16"
    using bound by (simp_all add: less_mult_imp_div_less)
  have one: "unescape_head (c # r) = (c, r)" if "c \<noteq> CHR 0x5C"
    using that by (cases r) simp_all
  show ?thesis
    using hex one by (simp add: escape_char_def)
qed

lemma escape_char_inject: "escape_char c @ r = escape_char d @ s \<Longrightarrow> c = d \<and> r = s"
  by (metis prod.inject unescape_escape)

lemma escape_char_not_quote: "escape_char c @ r \<noteq> CHR 0x22 # s"
  by (simp add: escape_char_def)

lemma escape_inject:
  "concat (map escape_char s) @ CHR 0x22 # r = concat (map escape_char t) @ CHR 0x22 # u
   \<Longrightarrow> s = t \<and> r = u"
proof (induction s arbitrary: t)
  case Nil
  then show ?case by (cases t) (auto dest: escape_char_not_quote [THEN notE, OF sym])
next
  case (Cons c s)
  show ?case
  proof (cases t)
    case Nil
    with Cons.prems show ?thesis by (auto dest: escape_char_not_quote [THEN notE])
  next
    case (Cons d t')
    with Cons.prems Cons.IH [of t'] show ?thesis by (auto dest: escape_char_inject)
  qed
qed

lemma quoted_inject: "quoted s @ r = quoted t @ u \<Longrightarrow> s = t \<and> r = u"
  using escape_inject [of s r t u] by (simp add: quoted_def)

subsection \<open>Rendering\<close>

fun commas :: "string list \<Rightarrow> string" where
  "commas [] = []"
| "commas [x] = x"
| "commas (x # xs) = x @ CHR '','' # commas xs"

fun render :: "json \<Rightarrow> string" where
  "render JNull = ''null''"
| "render (JBool b) = (if b then ''true'' else ''false'')"
| "render (JNum i) = int_str i"
| "render (JStr s) = quoted s"
| "render (JArr xs) = CHR ''['' # commas (map render xs) @ [CHR '']'']"
| "render (JObj kvs) = CHR ''{'' # commas (map (\<lambda>(k, v). quoted k @ CHR '':'' # render v) kvs) @ [CHR ''}'']"

text \<open>\<open>sort_keys=True\<close>: every dictionary is written in the order of its keys.\<close>

fun canon :: "json \<Rightarrow> json" where
  "canon (JArr xs) = JArr (map canon xs)"
| "canon (JObj kvs) = JObj (sort_key fst (map (\<lambda>(k, v). (k, canon v)) kvs))"
| "canon j = j"

lemma insort_key_map: "(\<And>x. fst (g x) = fst x) \<Longrightarrow> insort_key fst (g x) (map g xs) = map g (insort_key fst x xs)"
  by (induction xs) auto

lemma sort_key_map: "(\<And>x. fst (g x) = fst x) \<Longrightarrow> sort_key fst (map g xs) = map g (sort_key fst xs)"
  by (induction xs) (simp_all add: insort_key_map)

lemma canon_idem [simp]: "canon (canon j) = canon j"
proof (induction j)
  case (JObj kvs)
  let ?g = "\<lambda>(k, v). (k, canon v)"
  have g: "fst (?g p) = fst p" for p :: "string \<times> json" by (cases p) simp
  have twice: "map ?g (map ?g kvs) = map ?g kvs"
    using JObj.IH by (auto simp: snds.simps)
  have "canon (canon (JObj kvs)) = JObj (sort_key fst (map ?g (sort_key fst (map ?g kvs))))" by simp
  also have "map ?g (sort_key fst (map ?g kvs)) = sort_key fst (map ?g (map ?g kvs))"
    by (rule sort_key_map [OF g, symmetric])
  also have "sort_key fst (sort_key fst (map ?g (map ?g kvs))) = sort_key fst (map ?g kvs)"
    by (simp only: twice) (rule sort_key_id_if_sorted, rule sorted_sort_key)
  finally show ?case by simp
next
  case (JArr xs)
  then show ?case by simp
qed simp_all

definition json_dumps :: "json \<Rightarrow> string" where
  "json_dumps j = render (canon j)"

lemma commas_Cons: "commas (x # xs) = x @ (if xs = [] then [] else CHR '','' # commas xs)"
  by (cases xs) simp_all

text \<open>
  Rendering can be read back: two values with the same text, each followed by text that does not
  go on with a digit, are equal, and so is what follows.
\<close>

lemma int_str_hd: "\<exists>c u. int_str i = c # u \<and> (c = CHR ''-'' \<or> is_digit c)"
proof (cases "i < 0")
  case False
  then show ?thesis using nat_str_hd [of "nat i" "[]"]
    by (cases "nat_str (nat i)") (auto simp: int_str_def)
qed (simp add: int_str_def)

lemma render_not_bracket:
  assumes "c = CHR '']'' \<or> c = CHR ''}''"
  shows "render j @ r \<noteq> c # s"
proof (cases j)
  case (JNum i)
  then show ?thesis using assms int_str_hd [of i] by (auto simp: is_digit_def)
qed (use assms in \<open>auto simp: quoted_def\<close>)

lemma commas_inject:
  assumes "\<forall>x\<in>set xs. \<forall>y r s. p x @ r = p y @ s \<longrightarrow> delimited r \<longrightarrow> delimited s \<longrightarrow> x = y \<and> r = s"
    and "c = CHR '']'' \<or> c = CHR ''}''"
    and "\<And>x u v. p x @ u \<noteq> c # v"
    and "commas (map p xs) @ c # r = commas (map p ys) @ c # s"
  shows "xs = ys \<and> r = s"
  using assms(1,4)
proof (induction xs arbitrary: ys)
  case Nil
  show ?case
  proof (cases ys)
    case (Cons y ys')
    with Nil.prems assms(3) [of y] show ?thesis by (auto simp: commas_Cons dest: sym)
  qed (use Nil.prems in simp)
next
  case (Cons x xs)
  show ?case
  proof (cases ys)
    case Nil
    with Cons.prems assms(3) [of x] show ?thesis by (auto simp: commas_Cons)
  next
    case (Cons y ys')
    define f where "f zs t = (if zs = [] then c # t else CHR '','' # commas (map p zs) @ c # t)" for zs t
    have delim: "delimited (f zs t)" for zs t using assms(2) by (auto simp: f_def)
    have "p x @ f xs r = p y @ f ys' s"
      using Cons.prems(2) Cons by (auto simp: commas_Cons f_def)
    then have eq: "x = y" "f xs r = f ys' s" using Cons.prems(1) delim by auto
    have comma: "c \<noteq> CHR '',''" using assms(2) by auto
    have "commas (map p xs) @ c # r = commas (map p ys') @ c # s"
      using eq(2) comma comma[symmetric] unfolding f_def by (cases "xs = []"; cases "ys' = []") simp_all
    moreover have "\<forall>x\<in>set xs. \<forall>y r s. p x @ r = p y @ s \<longrightarrow> delimited r \<longrightarrow> delimited s \<longrightarrow> x = y \<and> r = s"
      by (intro ballI) (rule bspec [OF Cons.prems(1)], simp)
    ultimately have "xs = ys' \<and> r = s" by (intro Cons.IH)
    then show ?thesis using eq(1) Cons by simp
  qed
qed

text \<open>The first character of a rendered value tells its constructor.\<close>

definition char_kind :: "char \<Rightarrow> nat" where
  "char_kind c =
     (if c = CHR ''n'' then 0 else if c = CHR ''t'' \<or> c = CHR ''f'' then 1
      else if c = CHR 0x22 then 3 else if c = CHR ''['' then 4 else if c = CHR ''{'' then 5 else 2)"

fun json_kind :: "json \<Rightarrow> nat" where
  "json_kind JNull = 0"
| "json_kind (JBool _) = 1"
| "json_kind (JNum _) = 2"
| "json_kind (JStr _) = 3"
| "json_kind (JArr _) = 4"
| "json_kind (JObj _) = 5"

lemma render_kind: "\<exists>c u. render j = c # u \<and> char_kind c = json_kind j"
proof (cases j)
  case (JNum i)
  have "char_kind c = 2" if "is_digit c" for c
    using that by (auto simp: char_kind_def is_digit_def)
  moreover have "char_kind CHR ''-'' = 2" by (simp add: char_kind_def)
  ultimately show ?thesis using JNum int_str_hd [of i] by auto
qed (simp_all add: quoted_def char_kind_def)

lemma same_kind: "render x @ r = render y @ s \<Longrightarrow> json_kind x = json_kind y"
  using render_kind [of x] render_kind [of y] by auto

lemma render_inject:
  "render x @ r = render y @ s \<Longrightarrow> delimited r \<Longrightarrow> delimited s \<Longrightarrow> x = y \<and> r = s"
proof (induction x arbitrary: y r s)
  case JNull
  have "json_kind y = 0" using same_kind [OF JNull.prems(1)] by simp
  with JNull.prems show ?case by (cases y) auto
next
  case (JBool b)
  have "json_kind y = 1" using same_kind [OF JBool.prems(1)] by simp
  with JBool.prems show ?case by (cases y) (auto split: if_splits)
next
  case (JNum i)
  have "json_kind y = 2" using same_kind [OF JNum.prems(1)] by simp
  with JNum.prems show ?case by (cases y) (auto dest: int_str_inject)
next
  case (JStr t)
  have "json_kind y = 3" using same_kind [OF JStr.prems(1)] by simp
  with JStr.prems show ?case by (cases y) (auto dest: quoted_inject)
next
  case (JArr xs)
  have "json_kind y = 4" using same_kind [OF JArr.prems(1)] by simp
  then obtain ys where y: "y = JArr ys" by (cases y) auto
  have IH: "\<forall>x\<in>set xs. \<forall>y r s. render x @ r = render y @ s \<longrightarrow> delimited r \<longrightarrow> delimited s
              \<longrightarrow> x = y \<and> r = s"
    using JArr.IH by blast
  have "commas (map render xs) @ CHR '']'' # r = commas (map render ys) @ CHR '']'' # s"
    using JArr.prems(1) y by simp
  from commas_inject [OF IH _ _ this] show ?case using y by (simp add: render_not_bracket)
next
  case (JObj kvs)
  have "json_kind y = 5" using same_kind [OF JObj.prems(1)] by simp
  then obtain lws where y: "y = JObj lws" by (cases y) auto
  let ?p = "\<lambda>(k, v). quoted k @ CHR '':'' # render v"
  have IH: "\<forall>x\<in>set kvs. \<forall>y r s. ?p x @ r = ?p y @ s \<longrightarrow> delimited r \<longrightarrow> delimited s
              \<longrightarrow> x = y \<and> r = s"
  proof (intro ballI allI impI)
    fix x y r s
    assume x: "x \<in> set kvs" and eq: "?p x @ r = ?p y @ s" and d: "delimited r" "delimited s"
    obtain k v l w where kv: "x = (k, v)" "y = (l, w)" by (cases x, cases y)
    from eq kv have "k = l" "render v @ r = render w @ s" by (auto dest: quoted_inject)
    moreover have "v = w \<and> r = s"
      by (rule JObj.IH [OF x]) (use kv d calculation in \<open>auto simp: snds.simps\<close>)
    ultimately show "x = y \<and> r = s" using kv by simp
  qed
  have "commas (map ?p kvs) @ CHR ''}'' # r = commas (map ?p lws) @ CHR ''}'' # s"
    using JObj.prems(1) y by simp
  from commas_inject [OF IH _ _ this] show ?case
    using y by (auto simp: quoted_def split: prod.splits)
qed

text \<open>
  Equal texts come from values that are equal once their dictionaries are ordered by key: nothing
  but the order of the keys is lost.
\<close>

lemma json_dumps_inject: "json_dumps x = json_dumps y \<longleftrightarrow> canon x = canon y"
  using render_inject [of "canon x" "[]" "canon y" "[]"] by (auto simp: json_dumps_def)

text \<open>\<open>hashlib.sha256(json.dumps(value, ...).encode()).hexdigest()\<close>\<close>

definition json_hash :: "digest \<Rightarrow> json \<Rightarrow> string" where
  "json_hash sha j = sha (json_dumps j)"

text \<open>Two dictionaries with the same keys and the same text have values with the same text.\<close>

lemma canon_obj_values:
  assumes "canon (JObj xs) = canon (JObj ys)" and "map fst xs = map fst ys" and "distinct (map fst xs)"
  shows "map (canon \<circ> snd) xs = map (canon \<circ> snd) ys"
proof -
  let ?f = "\<lambda>(k, v). (k, canon v)"
  have "sort_key fst (map ?f xs) = sort_key fst (map ?f ys)" using assms(1) by simp
  then have set: "set (map ?f xs) = set (map ?f ys)" by (metis set_sort)
  have len: "length xs = length ys" using assms(2) by (metis length_map)
  have "canon (snd (xs ! i)) = canon (snd (ys ! i))" if i: "i < length xs" for i
  proof -
    have "(fst (xs ! i), canon (snd (xs ! i))) \<in> set (map ?f ys)"
      using i set by (metis (no_types, lifting) case_prod_beta length_map nth_map nth_mem)
    then obtain j where j: "j < length ys" "fst (ys ! j) = fst (xs ! i)" "canon (snd (ys ! j)) = canon (snd (xs ! i))"
      by (auto simp: in_set_conv_nth split: prod.splits)
    have "fst (ys ! i) = fst (xs ! i)" using assms(2) i len by (metis nth_map)
    then have "map fst ys ! i = map fst ys ! j" using i j len by simp
    moreover have "distinct (map fst ys)" using assms(2,3) by simp
    ultimately have "i = j" using i j(1) len nth_eq_iff_index_eq [of "map fst ys" i j] by simp
    with j show ?thesis by simp
  qed
  then show ?thesis using len by (simp add: list_eq_iff_nth_eq)
qed

definition collision :: "digest \<Rightarrow> bool" where
  "collision sha \<longleftrightarrow> (\<exists>x y. x \<noteq> y \<and> sha x = sha y)"

text \<open>What the hash of a dictionary binds: its values, unless the digest collides.\<close>

lemma json_hash_binds:
  assumes "json_hash sha (JObj xs) = json_hash sha (JObj ys)"
    and "map fst xs = map fst ys" and "distinct (map fst xs)" and "\<not> collision sha"
  shows "map (canon \<circ> snd) xs = map (canon \<circ> snd) ys"
proof -
  have "json_dumps (JObj xs) = json_dumps (JObj ys)"
    using assms(1,4) unfolding json_hash_def collision_def by blast
  then have "canon (JObj xs) = canon (JObj ys)" by (simp only: json_dumps_inject)
  then show ?thesis using assms(2,3) by (rule canon_obj_values)
qed

end
