(* ===== verification/Lifecycle.thy ===== *)
theory Lifecycle
  imports Prelude "HOL-Library.Sublist"
begin

text \<open>
  \<open>backend/app/state_machine/optimization.py\<close>: the states of one optimization request, the frozen
  transition graph, and the in-memory machine that records its history. \<open>RunStatus\<close> of
  \<open>backend/app/db/models.py\<close> has the same members, and \<open>RunRepository.transition\<close> checks its edges
  against this graph, so the durable components share the type.
\<close>

subsection \<open>States and edges\<close>

datatype optimization_state =
    CREATED | SNAPSHOTTING | DIAGNOSING | GENERATING_CANDIDATES | RANKING | CALIBRATING
  | EVALUATING | ADMISSION | ADMITTED | APPROVAL_PENDING | APPROVED | DEPLOYING | DEPLOYED
  | MONITORING | COMPLETED | ROLLED_BACK | ROLLBACK_BLOCKED | FAILED

fun state_value :: "optimization_state \<Rightarrow> string" where
  "state_value CREATED = ''CREATED''"
| "state_value SNAPSHOTTING = ''SNAPSHOTTING''"
| "state_value DIAGNOSING = ''DIAGNOSING''"
| "state_value GENERATING_CANDIDATES = ''GENERATING_CANDIDATES''"
| "state_value RANKING = ''RANKING''"
| "state_value CALIBRATING = ''CALIBRATING''"
| "state_value EVALUATING = ''EVALUATING''"
| "state_value ADMISSION = ''ADMISSION''"
| "state_value ADMITTED = ''ADMITTED''"
| "state_value APPROVAL_PENDING = ''APPROVAL_PENDING''"
| "state_value APPROVED = ''APPROVED''"
| "state_value DEPLOYING = ''DEPLOYING''"
| "state_value DEPLOYED = ''DEPLOYED''"
| "state_value MONITORING = ''MONITORING''"
| "state_value COMPLETED = ''COMPLETED''"
| "state_value ROLLED_BACK = ''ROLLED_BACK''"
| "state_value ROLLBACK_BLOCKED = ''ROLLBACK_BLOCKED''"
| "state_value FAILED = ''FAILED''"

text \<open>\<open>_NEXT_STATES\<close>, each frozenset as a list.\<close>

fun next_states :: "optimization_state \<Rightarrow> optimization_state list" where
  "next_states CREATED = [SNAPSHOTTING, FAILED]"
| "next_states SNAPSHOTTING = [DIAGNOSING, FAILED]"
| "next_states DIAGNOSING = [GENERATING_CANDIDATES, FAILED]"
| "next_states GENERATING_CANDIDATES = [RANKING, COMPLETED, FAILED]"
| "next_states RANKING = [CALIBRATING, FAILED]"
| "next_states CALIBRATING = [EVALUATING, FAILED]"
| "next_states EVALUATING = [ADMISSION, FAILED]"
| "next_states ADMISSION = [ADMITTED, COMPLETED, FAILED]"
| "next_states ADMITTED = [APPROVAL_PENDING, APPROVED, FAILED]"
| "next_states APPROVAL_PENDING = [APPROVED, COMPLETED, FAILED]"
| "next_states APPROVED = [DEPLOYING, FAILED]"
| "next_states DEPLOYING = [DEPLOYED, FAILED]"
| "next_states DEPLOYED = [MONITORING, ROLLED_BACK, ROLLBACK_BLOCKED, FAILED]"
| "next_states MONITORING = [COMPLETED, ROLLED_BACK, ROLLBACK_BLOCKED, FAILED]"
| "next_states COMPLETED = []"
| "next_states ROLLED_BACK = []"
| "next_states ROLLBACK_BLOCKED = []"
| "next_states FAILED = []"

text \<open>The finitely many states, so that statements about all of them can be evaluated.\<close>

instantiation optimization_state :: enum
begin

definition enum_optimization_state :: "optimization_state list" where
  "enum_optimization_state =
     [CREATED, SNAPSHOTTING, DIAGNOSING, GENERATING_CANDIDATES, RANKING, CALIBRATING, EVALUATING,
      ADMISSION, ADMITTED, APPROVAL_PENDING, APPROVED, DEPLOYING, DEPLOYED, MONITORING, COMPLETED,
      ROLLED_BACK, ROLLBACK_BLOCKED, FAILED]"

definition enum_all_optimization_state :: "(optimization_state \<Rightarrow> bool) \<Rightarrow> bool" where
  "enum_all_optimization_state P \<longleftrightarrow> list_all P Enum.enum"

definition enum_ex_optimization_state :: "(optimization_state \<Rightarrow> bool) \<Rightarrow> bool" where
  "enum_ex_optimization_state P \<longleftrightarrow> list_ex P Enum.enum"

instance
proof
  have all: "s \<in> set Enum.enum" for s :: optimization_state
    by (cases s) (simp_all add: enum_optimization_state_def)
  then show "(UNIV :: optimization_state set) = set Enum.enum" by auto
  show "distinct (Enum.enum :: optimization_state list)" by (simp add: enum_optimization_state_def)
  show "Enum.enum_all P \<longleftrightarrow> Ball UNIV P" for P :: "optimization_state \<Rightarrow> bool"
    using all by (auto simp: enum_all_optimization_state_def list_all_iff)
  show "Enum.enum_ex P \<longleftrightarrow> Bex UNIV P" for P :: "optimization_state \<Rightarrow> bool"
    using all by (auto simp: enum_ex_optimization_state_def list_ex_iff)
qed

end

definition validate_transition :: "optimization_state \<Rightarrow> optimization_state \<Rightarrow> exn + unit" where
  "validate_transition current next_state =
     (if next_state \<notin> set (next_states current)
      then Inl (InvalidStateTransition
             (''cannot transition from '' @ state_value current @ '' to '' @ state_value next_state))
      else Inr ())"

lemma validate_transition_Inr [simp]:
  "validate_transition s t = Inr () \<longleftrightarrow> t \<in> set (next_states s)"
  by (simp add: validate_transition_def)

text \<open>The states the worker and the orchestrator treat as terminal are those without successors.\<close>

definition terminal_state :: "optimization_state \<Rightarrow> bool" where
  "terminal_state s \<longleftrightarrow> s \<in> {COMPLETED, ROLLED_BACK, ROLLBACK_BLOCKED, FAILED}"

lemma terminal_state_iff: "terminal_state s \<longleftrightarrow> next_states s = []"
  by (cases s) (simp_all add: terminal_state_def)

text \<open>A stage number that every edge increases: the graph has no cycle.\<close>

fun stage :: "optimization_state \<Rightarrow> nat" where
  "stage CREATED = 0" | "stage SNAPSHOTTING = 1" | "stage DIAGNOSING = 2"
| "stage GENERATING_CANDIDATES = 3" | "stage RANKING = 4" | "stage CALIBRATING = 5"
| "stage EVALUATING = 6" | "stage ADMISSION = 7" | "stage ADMITTED = 8"
| "stage APPROVAL_PENDING = 9" | "stage APPROVED = 10" | "stage DEPLOYING = 11"
| "stage DEPLOYED = 12" | "stage MONITORING = 13" | "stage COMPLETED = 14"
| "stage ROLLED_BACK = 14" | "stage ROLLBACK_BLOCKED = 14" | "stage FAILED = 14"

lemma stage_increases: "t \<in> set (next_states s) \<Longrightarrow> stage s < stage t"
  by (cases s) auto

lemma stage_bound: "stage s \<le> 14"
  by (cases s) simp_all

subsection \<open>The machine\<close>

record state_machine =
  sm_state :: optimization_state
  sm_history :: "optimization_state list"

definition new_machine :: state_machine where
  "new_machine = \<lparr>sm_state = CREATED, sm_history = [CREATED]\<rparr>"

definition transition :: "optimization_state \<Rightarrow> (state_machine, optimization_state) oper" where
  "transition next_state =
     bnd (asks sm_state) (\<lambda>current.
     bnd (lift (validate_transition current next_state)) (\<lambda>_.
     bnd (update (\<lambda>m. m\<lparr>sm_state := next_state, sm_history := sm_history m @ [next_state]\<rparr>)) (\<lambda>_.
     asks sm_state)))"

lemma transition_apply:
  "transition t m =
     (if t \<in> set (next_states (sm_state m))
      then (Inr t, m\<lparr>sm_state := t, sm_history := sm_history m @ [t]\<rparr>)
      else (Inl (InvalidStateTransition
             (''cannot transition from '' @ state_value (sm_state m) @ '' to '' @ state_value t)), m))"
  by (simp add: transition_def bnd_apply validate_transition_def)

text \<open>Whatever is requested of a machine, in any order, with rejected requests caught by the caller.\<close>

fun attempts :: "optimization_state list \<Rightarrow> state_machine \<Rightarrow> state_machine" where
  "attempts [] m = m"
| "attempts (t # ts) m = attempts ts (snd (transition t m))"

text \<open>A list of states that starts at \<open>CREATED\<close> and follows the edges.\<close>

inductive lifecycle_path :: "optimization_state list \<Rightarrow> bool" where
  path_start: "lifecycle_path [CREATED]"
| path_step: "lifecycle_path h \<Longrightarrow> t \<in> set (next_states (last h)) \<Longrightarrow> lifecycle_path (h @ [t])"

definition machine_ok :: "state_machine \<Rightarrow> bool" where
  "machine_ok m \<longleftrightarrow> lifecycle_path (sm_history m) \<and> last (sm_history m) = sm_state m"

lemma machine_ok_new: "machine_ok new_machine"
  by (simp add: machine_ok_def new_machine_def lifecycle_path.path_start)

lemma machine_ok_transition: "machine_ok m \<Longrightarrow> machine_ok (snd (transition t m))"
  by (auto simp: machine_ok_def transition_apply intro: lifecycle_path.path_step)

lemma machine_ok_attempts: "machine_ok m \<Longrightarrow> machine_ok (attempts ts m)"
  by (induction ts arbitrary: m) (simp_all add: machine_ok_transition)

lemma lifecycle_path_nonempty: "lifecycle_path h \<Longrightarrow> h \<noteq> []"
  by (induction rule: lifecycle_path.induct) simp_all

lemma lifecycle_path_length: "lifecycle_path h \<Longrightarrow> length h \<le> Suc (stage (last h))"
proof (induction rule: lifecycle_path.induct)
  case (path_step h t)
  from path_step.hyps(2) have "stage (last h) < stage t" by (rule stage_increases)
  with path_step.IH show ?case by simp
qed simp

lemma lifecycle_path_prefix: "lifecycle_path h \<Longrightarrow> prefix g h \<Longrightarrow> g \<noteq> [] \<Longrightarrow> lifecycle_path g"
proof (induction arbitrary: g rule: lifecycle_path.induct)
  case path_start
  then show ?case by (auto simp: prefix_Cons intro: lifecycle_path.path_start)
next
  case (path_step h t)
  then show ?case by (auto simp: prefix_snoc intro: lifecycle_path.path_step)
qed

text \<open>The one rail from \<open>CREATED\<close> to \<open>DEPLOYED\<close>, with and without the approval stage.\<close>

definition rail_to_admitted :: "optimization_state list" where
  "rail_to_admitted = [CREATED, SNAPSHOTTING, DIAGNOSING, GENERATING_CANDIDATES, RANKING,
     CALIBRATING, EVALUATING, ADMISSION, ADMITTED]"

definition rails_to_deployed :: "optimization_state list list" where
  "rails_to_deployed =
     [rail_to_admitted @ [APPROVED, DEPLOYING, DEPLOYED],
      rail_to_admitted @ [APPROVAL_PENDING, APPROVED, DEPLOYING, DEPLOYED]]"

definition all_rails :: "optimization_state list list" where
  "all_rails =
     map (\<lambda>n. take n (rail_to_admitted @ [APPROVED, DEPLOYING, DEPLOYED, MONITORING])) [1..<14] @
     map (\<lambda>n. take n (rail_to_admitted @ [APPROVAL_PENDING, APPROVED, DEPLOYING, DEPLOYED, MONITORING])) [10..<15]"

lemma all_rails_closed:
  "list_all (\<lambda>h. list_all (\<lambda>t. terminal_state t \<or> List.member all_rails (h @ [t])) (next_states (last h))) all_rails"
  by code_simp

lemma path_on_rails: "lifecycle_path h \<Longrightarrow> terminal_state (last h) \<or> h \<in> set all_rails"
proof (induction rule: lifecycle_path.induct)
  case path_start
  have "List.member all_rails [CREATED]" by code_simp
  then show ?case by simp
next
  case (path_step h t)
  have "\<not> terminal_state (last h)" using path_step.hyps(2) by (auto simp: terminal_state_iff)
  with path_step.IH have "h \<in> set all_rails" by simp
  then show ?case using all_rails_closed path_step.hyps(2) by (auto simp: list_all_iff)
qed

lemma path_to_deployed:
  assumes "lifecycle_path h" and "last h = DEPLOYED"
  shows "h \<in> set rails_to_deployed"
proof -
  have "h \<in> set all_rails" using path_on_rails [OF assms(1)] assms(2) by (auto simp: terminal_state_def)
  moreover have "list_all (\<lambda>h. last h = DEPLOYED \<longrightarrow> List.member rails_to_deployed h) all_rails" by code_simp
  ultimately show ?thesis using assms(2) by (auto simp: list_all_iff)
qed

subsection \<open>Properties\<close>

text \<open>
  Whatever transitions are requested of a fresh machine, its history is a path of the frozen
  graph that ends in the current state: rejected requests leave no trace, and no more than
  14 transitions can ever succeed.
\<close>

theorem history_follows_graph:
  "lifecycle_path (sm_history (attempts ts new_machine)) \<and>
   last (sm_history (attempts ts new_machine)) = sm_state (attempts ts new_machine) \<and>
   length (sm_history (attempts ts new_machine)) \<le> 15"
proof -
  let ?m = "attempts ts new_machine"
  have ok: "machine_ok ?m" by (rule machine_ok_attempts [OF machine_ok_new])
  then have "length (sm_history ?m) \<le> Suc (stage (last (sm_history ?m)))"
    using lifecycle_path_length unfolding machine_ok_def by blast
  then have "length (sm_history ?m) \<le> 15" using stage_bound [of "last (sm_history ?m)"] by linarith
  with ok show ?thesis by (simp add: machine_ok_def)
qed

text \<open>
  C21. A machine that has ever been \<open>DEPLOYED\<close> got there on the one rail of the design: every stage
  from \<open>CREATED\<close> through \<open>ADMISSION\<close>, \<open>ADMITTED\<close>, \<open>APPROVED\<close> and \<open>DEPLOYING\<close>, in this order, with
  \<open>APPROVAL_PENDING\<close> as the only optional stop.
\<close>

theorem deployed_only_on_rail:
  assumes "DEPLOYED \<in> set (sm_history (attempts ts new_machine))"
  shows "\<exists>r\<in>set rails_to_deployed. prefix r (sm_history (attempts ts new_machine))"
proof -
  let ?h = "sm_history (attempts ts new_machine)"
  have path: "lifecycle_path ?h"
    using machine_ok_attempts [OF machine_ok_new] by (simp add: machine_ok_def)
  from assms obtain g k where split: "?h = g @ DEPLOYED # k" by (meson split_list)
  then have pre: "prefix (g @ [DEPLOYED]) ?h" by simp
  with path have "lifecycle_path (g @ [DEPLOYED])" by (rule lifecycle_path_prefix) simp
  then have "g @ [DEPLOYED] \<in> set rails_to_deployed" by (rule path_to_deployed) simp
  with pre show ?thesis by blast
qed

theorem deployed_only_on_rail_witness:
  "\<exists>r\<in>set rails_to_deployed. prefix r
     (sm_history (attempts (tl (rail_to_admitted @ [DEPLOYED, APPROVED, DEPLOYING, DEPLOYED, MONITORING])) new_machine))"
proof (rule deployed_only_on_rail)
  show "DEPLOYED \<in> set (sm_history (attempts
    (tl (rail_to_admitted @ [DEPLOYED, APPROVED, DEPLOYING, DEPLOYED, MONITORING])) new_machine))"
    by (simp add: rail_to_admitted_def new_machine_def transition_apply)
qed

text \<open>
  C30. Terminal states absorb: once a machine is in \<open>COMPLETED\<close>, \<open>ROLLED_BACK\<close>, \<open>ROLLBACK_BLOCKED\<close> or
  \<open>FAILED\<close>, every further request raises and changes nothing; and from every other state \<open>FAILED\<close>
  can be entered.
\<close>

theorem terminal_absorbs:
  "if terminal_state (sm_state m)
   then attempts ts m = m \<and> (\<exists>msg. transition t m = (Inl (InvalidStateTransition msg), m))
   else fst (transition FAILED m) = Inr FAILED"
proof (cases "terminal_state (sm_state m)")
  case True
  then have next0: "next_states (sm_state m) = []" by (simp add: terminal_state_iff)
  then have "attempts ts m = m" by (induction ts) (simp_all add: transition_apply)
  with True next0 show ?thesis by (simp add: transition_apply)
next
  case False
  then show ?thesis by (cases "sm_state m") (simp_all add: transition_apply terminal_state_def)
qed

end
