(* ===== verification/Adapter.thy ===== *)
theory Adapter
  imports Json "HOL-Library.AList"
begin

text \<open>
  \<open>backend/app/adapters\<close>: the typed operations that are all orchestration code can do to a target
  (\<open>contracts.py\<close>), the in-memory adapters (\<open>fake.py\<close>, \<open>fake_portable.py\<close>), and the contract
  between the two as a locale. The production code is modelled over an arbitrary adapter; what it
  needs of one is the contract \<open>database_adapter\<close>, and the fake adapter is proved to keep it.
\<close>

subsection \<open>The typed contract\<close>

record index_spec =
  ix_name :: string
  ix_keys :: "(string \<times> int) list"

text \<open>
  A \<open>Namespace\<close> is its collection name, a \<open>QuerySettingsIndexHint\<close> its list of allowed indexes. The
  state behind the adapter is the type parameter; every operation may raise.
\<close>

record 't adapter =
  ad_list_namespaces :: "('t, string list) oper"
  ad_list_indexes :: "string \<Rightarrow> ('t, index_spec list) oper"
  ad_create_index :: "string \<Rightarrow> index_spec \<Rightarrow> ('t, unit) oper"
  ad_drop_index :: "string \<Rightarrow> string \<Rightarrow> ('t, unit) oper"
  ad_get_hint :: "string \<Rightarrow> string \<Rightarrow> ('t, string list option) oper"
  ad_set_hint :: "string \<Rightarrow> string \<Rightarrow> string list option \<Rightarrow> ('t, unit) oper"

text \<open>
  The state dictionary that both executors and both rollback services compute from the adapter:
  \<open>{"database", "collection", "namespace_exists", "indexes": [{"name", "keys"}]}\<close>.
\<close>

record target_state =
  ts_database :: string
  ts_collection :: string
  ts_namespace_exists :: bool
  ts_indexes :: "index_spec list"

definition keys_json :: "(string \<times> int) list \<Rightarrow> json" where
  "keys_json ks = JArr (map (\<lambda>(f, d). JArr [JStr f, JNum d]) ks)"

definition index_json :: "index_spec \<Rightarrow> json" where
  "index_json ix = JObj [(''name'', JStr (ix_name ix)), (''keys'', keys_json (ix_keys ix))]"

definition target_state_json :: "target_state \<Rightarrow> json" where
  "target_state_json st = JObj
     [(''database'', JStr (ts_database st)), (''collection'', JStr (ts_collection st)),
      (''namespace_exists'', JBool (ts_namespace_exists st)),
      (''indexes'', JArr (map index_json (ts_indexes st)))]"

definition observe_state :: "'t adapter \<Rightarrow> string \<Rightarrow> string \<Rightarrow> ('t, target_state) oper" where
  "observe_state ad database collection =
     bnd (ad_list_namespaces ad) (\<lambda>namespaces.
     bnd (if collection \<in> set namespaces then ad_list_indexes ad collection else ret []) (\<lambda>indexes.
     ret \<lparr>ts_database = database, ts_collection = collection,
          ts_namespace_exists = collection \<in> set namespaces, ts_indexes = indexes\<rparr>))"

text \<open>
  The contract. \<open>cols\<close>, \<open>idx\<close> and \<open>hint\<close> read the state behind the adapter. Reads change nothing
  and tell the truth; names of indexes are unique in a collection; an effect is either complete or
  absent, also when the call raises; and no effect touches anything else.
\<close>

definition created :: "('t \<Rightarrow> string list) \<Rightarrow> ('t \<Rightarrow> string \<Rightarrow> index_spec list) \<Rightarrow>
    ('t \<Rightarrow> string \<Rightarrow> string \<Rightarrow> string list option) \<Rightarrow> string \<Rightarrow> index_spec \<Rightarrow> 't \<Rightarrow> 't \<Rightarrow> bool" where
  "created cols idx hint c ix t t' \<longleftrightarrow>
     set (cols t') = insert c (set (cols t)) \<and>
     set (idx t' c) = insert ix (set (idx t c)) \<and>
     filter (\<lambda>i. ix_name i \<noteq> ix_name ix) (idx t' c) = idx t c \<and>
     (\<forall>c'. c' \<noteq> c \<longrightarrow> idx t' c' = idx t c') \<and> hint t' = hint t"

definition dropped :: "('t \<Rightarrow> string list) \<Rightarrow> ('t \<Rightarrow> string \<Rightarrow> index_spec list) \<Rightarrow>
    ('t \<Rightarrow> string \<Rightarrow> string \<Rightarrow> string list option) \<Rightarrow> string \<Rightarrow> string \<Rightarrow> 't \<Rightarrow> 't \<Rightarrow> bool" where
  "dropped cols idx hint c n t t' \<longleftrightarrow>
     cols t' = cols t \<and> idx t' = (idx t)(c := filter (\<lambda>i. ix_name i \<noteq> n) (idx t c)) \<and> hint t' = hint t"

definition hinted :: "('t \<Rightarrow> string list) \<Rightarrow> ('t \<Rightarrow> string \<Rightarrow> index_spec list) \<Rightarrow>
    ('t \<Rightarrow> string \<Rightarrow> string \<Rightarrow> string list option) \<Rightarrow> string \<Rightarrow> string \<Rightarrow> string list option \<Rightarrow> 't \<Rightarrow> 't \<Rightarrow> bool" where
  "hinted cols idx hint c q h t t' \<longleftrightarrow>
     cols t' = cols t \<and> idx t' = idx t \<and> hint t' = (hint t)(c := (hint t c)(q := h))"

locale database_adapter =
  fixes ad :: "'t adapter"
    and cols :: "'t \<Rightarrow> string list"
    and idx :: "'t \<Rightarrow> string \<Rightarrow> index_spec list"
    and hint :: "'t \<Rightarrow> string \<Rightarrow> string \<Rightarrow> string list option"
    and inv :: "'t \<Rightarrow> bool"
  assumes list_namespaces: "inv t \<Longrightarrow> ad_list_namespaces ad t = (r, t') \<Longrightarrow>
      t' = t \<and> (\<forall>ns. r = Inr ns \<longrightarrow> set ns = set (cols t))"
    and list_indexes: "inv t \<Longrightarrow> ad_list_indexes ad c t = (rx, t') \<Longrightarrow>
      t' = t \<and> (\<forall>xs. rx = Inr xs \<longrightarrow> xs = idx t c)"
    and unique_names: "inv t \<Longrightarrow> distinct (map ix_name (idx t c))"
    and create_index: "inv t \<Longrightarrow> ix_name ix \<notin> ix_name ` set (idx t c) \<Longrightarrow>
      ad_create_index ad c ix t = (ru, t') \<Longrightarrow>
      inv t' \<and> (created cols idx hint c ix t t' \<or> (\<exists>e. ru = Inl e) \<and> t' = t)"
    and drop_index: "inv t \<Longrightarrow> ad_drop_index ad c n t = (ru, t') \<Longrightarrow>
      inv t' \<and> (dropped cols idx hint c n t t' \<or> (\<exists>e. ru = Inl e) \<and> t' = t)"
    and get_hint: "inv t \<Longrightarrow> ad_get_hint ad c q t = (rh, t') \<Longrightarrow>
      t' = t \<and> (\<forall>h. rh = Inr h \<longrightarrow> h = hint t c q)"
    and set_hint: "inv t \<Longrightarrow> ad_set_hint ad c q h t = (ru, t') \<Longrightarrow>
      inv t' \<and> (hinted cols idx hint c q h t t' \<or> (\<exists>e. ru = Inl e) \<and> t' = t)"
begin

text \<open>What an observation returns, and that observing changes nothing.\<close>

definition true_state :: "string \<Rightarrow> string \<Rightarrow> 't \<Rightarrow> target_state" where
  "true_state db c t = \<lparr>ts_database = db, ts_collection = c, ts_namespace_exists = c \<in> set (cols t),
     ts_indexes = (if c \<in> set (cols t) then idx t c else [])\<rparr>"

lemma observe_pure:
  assumes "inv t" and "observe_state ad db c t = (r, t')"
  shows "t' = t \<and> (\<forall>st. r = Inr st \<longrightarrow> st = true_state db c t)"
proof -
  obtain r1 t1 where 1: "ad_list_namespaces ad t = (r1, t1)" by fastforce
  with assms list_namespaces have t1: "t1 = t" "\<And>ns. r1 = Inr ns \<Longrightarrow> set ns = set (cols t)" by blast+
  obtain r2 t2 where 2: "ad_list_indexes ad c t = (r2, t2)" by fastforce
  with assms list_indexes have t2: "t2 = t" "\<And>xs. r2 = Inr xs \<Longrightarrow> xs = idx t c" by blast+
  show ?thesis
    using assms(2) 1 2 t1 t2
    by (auto simp: observe_state_def bnd_apply true_state_def split: if_splits sum.splits)
qed

lemma observe_Inr: "inv t \<Longrightarrow> observe_state ad db c t = (Inr st, t') \<Longrightarrow> t' = t \<and> st = true_state db c t"
  using observe_pure by blast

lemma create_then_drop:
  assumes "created cols idx hint c ix t t1" and "dropped cols idx hint c (ix_name ix) t1 t2"
  shows "idx t2 = idx t \<and> hint t2 = hint t"
  using assms by (auto simp: created_def dropped_def)

lemma created_listing:
  assumes "inv t'" and "created cols idx hint c ix t t'"
  shows "filter (\<lambda>i. ix_name i = ix_name ix) (idx t' c) = [ix]"
proof -
  let ?f = "filter (\<lambda>i. ix_name i = ix_name ix) (idx t' c)"
  have mem: "ix \<in> set ?f" using assms(2) by (auto simp: created_def)
  have dist: "distinct (map ix_name ?f)"
    using unique_names [OF assms(1), of c] by (simp add: distinct_map_filter)
  have all: "ix_name i = ix_name ix" if "i \<in> set ?f" for i using that by simp
  show ?thesis
  proof (cases ?f)
    case Nil
    with mem show ?thesis by (simp del: set_filter)
  next
    case (Cons a g)
    have "g = []"
    proof (cases g)
      case (Cons b h)
      with \<open>?f = a # g\<close> have "ix_name a = ix_name b" using all [of a] all [of b] by (simp del: set_filter)
      with dist \<open>?f = a # g\<close> Cons show ?thesis by (simp del: set_filter)
    qed simp
    with Cons mem show ?thesis by (simp del: set_filter)
  qed
qed

end

subsection \<open>The in-memory adapter\<close>

record fake_db =
  fk_indexes :: "(string \<times> (string \<times> index_spec) list) list"
  fk_settings :: "((string \<times> string) \<times> string list) list"

definition fake_init :: "string list \<Rightarrow> fake_db" where
  "fake_init namespaces = \<lparr>fk_indexes = map (\<lambda>c. (c, [])) namespaces, fk_settings = []\<rparr>"

definition fk_collection :: "fake_db \<Rightarrow> string \<Rightarrow> (string \<times> index_spec) list" where
  "fk_collection t c = (case map_of (fk_indexes t) c of None \<Rightarrow> [] | Some m \<Rightarrow> m)"

definition fake_list_namespaces :: "(fake_db, string list) oper" where
  "fake_list_namespaces = asks (\<lambda>t. sort (map fst (fk_indexes t)))"

definition fake_list_indexes :: "string \<Rightarrow> (fake_db, index_spec list) oper" where
  "fake_list_indexes c = asks (\<lambda>t. map snd (sort_key fst (fk_collection t c)))"

definition fake_create_index :: "string \<Rightarrow> index_spec \<Rightarrow> (fake_db, unit) oper" where
  "fake_create_index c ix = update (\<lambda>t. t\<lparr>fk_indexes :=
     AList.update c (AList.update (ix_name ix) ix (fk_collection t c)) (fk_indexes t)\<rparr>)"

definition fake_drop_index :: "string \<Rightarrow> string \<Rightarrow> (fake_db, unit) oper" where
  "fake_drop_index c n = update (\<lambda>t.
     case map_of (fk_indexes t) c of
       None \<Rightarrow> t
     | Some m \<Rightarrow> t\<lparr>fk_indexes := AList.update c (AList.delete n m) (fk_indexes t)\<rparr>)"

definition fake_get_hint :: "string \<Rightarrow> string \<Rightarrow> (fake_db, string list option) oper" where
  "fake_get_hint c q = asks (\<lambda>t. map_of (fk_settings t) (c, q))"

definition fake_set_hint :: "string \<Rightarrow> string \<Rightarrow> string list option \<Rightarrow> (fake_db, unit) oper" where
  "fake_set_hint c q h = update (\<lambda>t. t\<lparr>fk_settings :=
     (case h of None \<Rightarrow> AList.delete (c, q) (fk_settings t)
              | Some names \<Rightarrow> AList.update (c, q) names (fk_settings t))\<rparr>)"

definition fake_adapter :: "fake_db adapter" where
  "fake_adapter = \<lparr>ad_list_namespaces = fake_list_namespaces, ad_list_indexes = fake_list_indexes,
     ad_create_index = fake_create_index, ad_drop_index = fake_drop_index,
     ad_get_hint = fake_get_hint, ad_set_hint = fake_set_hint\<rparr>"

lemmas fake_defs = fake_adapter_def fake_list_namespaces_def fake_list_indexes_def
  fake_create_index_def fake_drop_index_def fake_get_hint_def fake_set_hint_def

text \<open>The dictionaries have unique keys, and an index is stored under its own name.\<close>

definition fake_inv :: "fake_db \<Rightarrow> bool" where
  "fake_inv t \<longleftrightarrow> distinct (map fst (fk_indexes t)) \<and>
     (\<forall>(c, m)\<in>set (fk_indexes t). distinct (map fst m) \<and> (\<forall>(n, ix)\<in>set m. ix_name ix = n))"

definition fake_cols :: "fake_db \<Rightarrow> string list" where
  "fake_cols t = sort (map fst (fk_indexes t))"

definition fake_idx :: "fake_db \<Rightarrow> string \<Rightarrow> index_spec list" where
  "fake_idx t c = map snd (sort_key fst (fk_collection t c))"

definition fake_hint :: "fake_db \<Rightarrow> string \<Rightarrow> string \<Rightarrow> string list option" where
  "fake_hint t c q = map_of (fk_settings t) (c, q)"

lemma fk_collection_in: "(c, m) \<in> set (fk_indexes t) \<Longrightarrow> fake_inv t \<Longrightarrow> fk_collection t c = m"
  by (auto simp: fk_collection_def fake_inv_def split: option.split dest: map_of_SomeD)

lemma fk_collection_inv:
  assumes "fake_inv t"
  shows "distinct (map fst (fk_collection t c))" and "(n, ix) \<in> set (fk_collection t c) \<Longrightarrow> ix_name ix = n"
  using assms by (auto simp: fk_collection_def fake_inv_def split: option.splits dest!: map_of_SomeD)

lemma names_of_collection:
  assumes "\<forall>(n, ix)\<in>set m. ix_name ix = n"
  shows "map ix_name (map snd m) = map fst m"
  using assms by (induction m) auto

lemma delete_filter: "AList.delete n m = filter (\<lambda>(k, v). k \<noteq> n) m"
  by (induction m) auto

lemma fake_idx_names:
  assumes "fake_inv t"
  shows "map ix_name (fake_idx t c) = map fst (sort_key fst (fk_collection t c))"
proof -
  have "\<forall>(n, ix)\<in>set (sort_key fst (fk_collection t c)). ix_name ix = n"
    using fk_collection_inv(2) [OF assms] by auto
  then show ?thesis unfolding fake_idx_def by (rule names_of_collection)
qed

lemma fake_idx_name_set: "fake_inv t \<Longrightarrow> ix_name ` set (fake_idx t c) = fst ` set (fk_collection t c)"
  using arg_cong [OF fake_idx_names, of t set c] by simp

lemma sort_key_delete: "sort_key fst (AList.delete n m) = filter (\<lambda>(k, v). k \<noteq> n) (sort_key fst m)"
  by (simp add: delete_filter filter_sort)

lemma fake_idx_delete:
  assumes "fake_inv t"
  shows "map snd (sort_key fst (AList.delete n (fk_collection t c))) =
     filter (\<lambda>i. ix_name i \<noteq> n) (fake_idx t c)"
proof -
  have "filter (\<lambda>(k, v). k \<noteq> n) m = filter (\<lambda>x. ix_name (snd x) \<noteq> n) m"
    if "\<forall>(n, ix)\<in>set m. ix_name ix = n" for m :: "(string \<times> index_spec) list"
    using that by (intro filter_cong) auto
  moreover have "\<forall>(n, ix)\<in>set (sort_key fst (fk_collection t c)). ix_name ix = n"
    using fk_collection_inv(2) [OF assms] by auto
  ultimately show ?thesis
    by (simp add: fake_idx_def sort_key_delete filter_map comp_def)
qed

lemma update_fresh: "k \<notin> fst ` set m \<Longrightarrow> AList.update k v m = m @ [(k, v)]"
  by (induction m) auto

lemma fake_inv_update:
  assumes "fake_inv t" and "distinct (map fst m)" and "\<forall>(n, ix)\<in>set m. ix_name ix = n"
  shows "fake_inv (t\<lparr>fk_indexes := AList.update c m (fk_indexes t)\<rparr>)"
proof -
  have "set (AList.update c m xs) \<subseteq> insert (c, m) (set xs)" for xs :: "(string \<times> (string \<times> index_spec) list) list"
    by (induction xs) auto
  then have "d = (c, m) \<or> d \<in> set (fk_indexes t)" if "d \<in> set (AList.update c m (fk_indexes t))" for d
    using that by blast
  then show ?thesis using assms unfolding fake_inv_def
    by (auto simp: distinct_update) (metis (mono_tags, lifting) case_prodD prod.inject)+
qed

lemma fk_collection_update [simp]:
  "fk_collection (t\<lparr>fk_indexes := AList.update c m (fk_indexes t)\<rparr>) d = (if d = c then m else fk_collection t d)"
  by (simp add: fk_collection_def update_conv')

interpretation fakead: database_adapter fake_adapter fake_cols fake_idx fake_hint fake_inv
proof (unfold_locales, goal_cases)
  case (1 t r t')
  then have "r = Inr (fake_cols t)" and "t' = t" by (auto simp add: fake_defs fake_cols_def)
  then show ?case by simp
next
  case (2 t c rx t')
  then show ?case by (auto simp: fake_defs fake_idx_def)
next
  case (3 t c)
  then show ?case using fk_collection_inv(1) [OF 3, of c] by (simp add: fake_idx_names distinct_map)
next
  case (4 t ix c ru t')
  let ?m = "fk_collection t c" and ?n = "ix_name ix"
  have fresh: "?n \<notin> fst ` set ?m"
    using 4(2) fake_idx_name_set [OF 4(1)] by simp
  have t': "t' = t\<lparr>fk_indexes := AList.update c (?m @ [(?n, ix)]) (fk_indexes t)\<rparr>"
    using 4(3) by (simp add: fake_defs update_fresh [OF fresh])
  have inv: "fake_inv t'"
    unfolding t' using 4(1) fresh fk_collection_inv(1) [OF 4(1), of c] fk_collection_inv(2) [OF 4(1)]
    by (intro fake_inv_update) (auto simp: image_iff)
  have coll: "fk_collection t' d = (if d = c then ?m @ [(?n, ix)] else fk_collection t d)" for d
    by (simp add: t')
  have "filter (\<lambda>i. ix_name i \<noteq> ?n) (fake_idx t' c) =
      map snd (sort_key fst (AList.delete ?n (fk_collection t' c)))"
    using fake_idx_delete [OF inv] by simp
  also have "AList.delete ?n (fk_collection t' c) = ?m"
    using fresh by (simp add: coll delete_filter) (rule filter_True, auto simp: image_iff)
  finally have keep: "filter (\<lambda>i. ix_name i \<noteq> ?n) (fake_idx t' c) = fake_idx t c" by (simp add: fake_idx_def)
  have cols: "set (fake_cols t') = insert c (set (fake_cols t))"
    by (auto simp: fake_cols_def t' update_keys)
  show ?case
    using inv keep cols by (simp add: created_def fake_idx_def coll) (simp add: fake_hint_def t' fun_eq_iff)
next
  case (5 t c n ru t')
  show ?case
  proof (cases "map_of (fk_indexes t) c")
    case None
    then have "t' = t" "fake_idx t c = []"
      using 5(2) by (auto simp: fake_defs fake_idx_def fk_collection_def)
    then show ?thesis using 5(1) by (simp add: dropped_def fun_upd_idem)
  next
    case (Some m)
    then have m: "fk_collection t c = m" and mem: "c \<in> fst ` set (fk_indexes t)"
      by (auto simp: fk_collection_def dest: map_of_SomeD intro: rev_image_eqI)
    have t': "t' = t\<lparr>fk_indexes := AList.update c (AList.delete n m) (fk_indexes t)\<rparr>"
      using 5(2) Some by (auto simp: fake_defs)
    have coll: "fk_collection t' d = (if d = c then AList.delete n m else fk_collection t d)" for d
      by (simp add: t')
    have inv: "fake_inv t'"
      unfolding t' using 5(1) fk_collection_inv(1) [OF 5(1), of c] fk_collection_inv(2) [OF 5(1)] m
      by (intro fake_inv_update) (auto simp: distinct_map_filter delete_filter)
    have "fake_idx t' = (fake_idx t)(c := filter (\<lambda>i. ix_name i \<noteq> n) (fake_idx t c))"
      using fake_idx_delete [OF 5(1), of n c] m by (simp add: fun_eq_iff fake_idx_def coll)
    then show ?thesis
      using inv mem by (simp add: dropped_def fake_cols_def fake_hint_def t' update_keys fun_eq_iff)
  qed
next
  case (6 t c q rh t')
  then show ?case by (auto simp: fake_defs fake_hint_def)
next
  case (7 t c q h ru t')
  then have t': "t' = t\<lparr>fk_settings := fk_settings t'\<rparr>" by (auto simp: fake_defs)
  then have same: "fk_indexes t' = fk_indexes t" by (metis fake_db.select_convs(1) fake_db.surjective fake_db.update_convs(2))
  then have "fk_collection t' = fk_collection t" "fake_inv t'" "fake_cols t' = fake_cols t"
    using 7(1) by (auto simp: fk_collection_def fake_inv_def fake_cols_def fun_eq_iff)
  moreover have "fake_hint t' = (fake_hint t)(c := (fake_hint t c)(q := h))"
    using 7(2) by (cases h) (auto simp: fake_defs fake_hint_def fun_eq_iff delete_conv update_conv')
  ultimately show ?case by (simp add: hinted_def fake_idx_def fun_eq_iff)
qed

text \<open>
  What the durable services need besides: creating an index that is there already changes nothing,
  whether the call returns (as MongoDB and the in-memory adapter do) or raises.
\<close>

locale idempotent_adapter = database_adapter +
  assumes recreate: "inv t \<Longrightarrow> ix \<in> set (idx t c) \<Longrightarrow> ad_create_index ad c ix t = (ru, t') \<Longrightarrow> t' = t"
begin

text \<open>Creating an index when no other index has its name: it is there afterwards, or nothing happened.\<close>

lemma create_unless_conflict:
  assumes "inv t" and "\<And>i. i \<in> set (idx t c) \<Longrightarrow> ix_name i = ix_name ix \<Longrightarrow> i = ix" and "ad_create_index ad c ix t = (ru, t')"
  shows "inv t' \<and> (t' = t \<or> created cols idx hint c ix t t')"
proof (cases "ix_name ix \<in> ix_name ` set (idx t c)")
  case True
  then have "ix \<in> set (idx t c)" using assms(2) by fastforce
  then show ?thesis using recreate assms(1,3) by blast
next
  case False
  then show ?thesis using create_index assms(1,3) by blast
qed

end

lemma update_same: "map_of m k = Some v \<Longrightarrow> AList.update k v m = m"
  by (induction m) auto

interpretation fakeid: idempotent_adapter fake_adapter fake_cols fake_idx fake_hint fake_inv
proof (unfold_locales, goal_cases)
  case (1 t ix c ru t')
  let ?m = "fk_collection t c"
  from 1(2) obtain n where mem: "(n, ix) \<in> set ?m" by (auto simp: fake_idx_def)
  then have here: "map_of ?m (ix_name ix) = Some ix"
    using fk_collection_inv(1) [OF 1(1), of c] fk_collection_inv(2) [OF 1(1) mem] by simp
  have "map_of (fk_indexes t) c = Some ?m"
    using mem by (cases "map_of (fk_indexes t) c") (auto simp: fk_collection_def)
  then show ?case using 1(3) here by (auto simp: fake_defs update_same)
qed

end
