(* ===== verification/Ledger.thy ===== *)
theory Ledger
  imports Json
begin

text \<open>
  \<open>backend/app/ledger/chain.py\<close>: the in-memory, hash-chained action ledger. Timestamps are carried
  as their UTC ISO text, which is all the code uses of them, and the entry identifier that
  \<open>uuid4()\<close> makes and the current time are arguments of \<open>append\<close>. The digest is an argument.
\<close>

record ledger_entry =
  le_entry_id :: string
  le_created_at :: string
  le_before_state :: json
  le_intended_state :: json
  le_after_state :: json
  le_forward_action :: json
  le_inverse_action :: json
  le_evidence_hash :: string
  le_actor :: string
  le_previous_ledger_hash :: string
  le_current_ledger_hash :: string

definition GENESIS_HASH :: string where
  "GENESIS_HASH = replicate 64 CHR ''0''"

text \<open>
  \<open>_freeze_mapping\<close> reads back the sorted JSON text and makes every level immutable; the value that
  remains is the one with the keys of every dictionary in order.
\<close>

definition freeze_mapping :: "json \<Rightarrow> json" where
  "freeze_mapping value = canon value"

definition entry_payload :: "ledger_entry \<Rightarrow> (string \<times> json) list" where
  "entry_payload e =
     [(''entry_id'', JStr (le_entry_id e)), (''created_at'', JStr (le_created_at e)),
      (''before_state'', le_before_state e), (''intended_state'', le_intended_state e),
      (''after_state'', le_after_state e), (''forward_action'', le_forward_action e),
      (''inverse_action'', le_inverse_action e), (''evidence_hash'', JStr (le_evidence_hash e)),
      (''actor'', JStr (le_actor e)), (''previous_ledger_hash'', JStr (le_previous_ledger_hash e))]"

definition entry_hash :: "digest \<Rightarrow> ledger_entry \<Rightarrow> string" where
  "entry_hash sha e = json_hash sha (JObj (entry_payload e))"

text \<open>What the caller of \<open>append\<close> supplies.\<close>

record ledger_args =
  la_before_state :: json
  la_intended_state :: json
  la_after_state :: json
  la_forward_action :: json
  la_inverse_action :: json
  la_evidence_hash :: string
  la_actor :: string

definition previous_hash :: "ledger_entry list \<Rightarrow> string" where
  "previous_hash entries = (if entries = [] then GENESIS_HASH else le_current_ledger_hash (last entries))"

definition new_entry :: "digest \<Rightarrow> string \<Rightarrow> string \<Rightarrow> ledger_args \<Rightarrow> ledger_entry list \<Rightarrow> ledger_entry" where
  "new_entry sha eid now a entries =
     (let entry = \<lparr>le_entry_id = eid, le_created_at = now,
        le_before_state = freeze_mapping (la_before_state a),
        le_intended_state = freeze_mapping (la_intended_state a),
        le_after_state = freeze_mapping (la_after_state a),
        le_forward_action = freeze_mapping (la_forward_action a),
        le_inverse_action = freeze_mapping (la_inverse_action a),
        le_evidence_hash = la_evidence_hash a, le_actor = la_actor a,
        le_previous_ledger_hash = previous_hash entries, le_current_ledger_hash = []\<rparr>
      in entry\<lparr>le_current_ledger_hash := entry_hash sha entry\<rparr>)"

definition append_entry :: "digest \<Rightarrow> string \<Rightarrow> string \<Rightarrow> ledger_args \<Rightarrow> ledger_entry list \<Rightarrow> ledger_entry list" where
  "append_entry sha eid now a entries = entries @ [new_entry sha eid now a entries]"

fun verify_from :: "digest \<Rightarrow> string \<Rightarrow> ledger_entry list \<Rightarrow> bool" where
  "verify_from sha prev [] = True"
| "verify_from sha prev (e # es) =
     (if le_previous_ledger_hash e \<noteq> prev \<or> le_current_ledger_hash e \<noteq> entry_hash sha e then False
      else verify_from sha (le_current_ledger_hash e) es)"

definition verify :: "digest \<Rightarrow> ledger_entry list \<Rightarrow> bool" where
  "verify sha entries = verify_from sha GENESIS_HASH entries"

subsection \<open>The chain\<close>

lemma entry_hash_update [simp]: "entry_hash sha (e\<lparr>le_current_ledger_hash := h\<rparr>) = entry_hash sha e"
  by (simp add: entry_hash_def entry_payload_def)

lemma new_entry_links [simp]:
  "le_previous_ledger_hash (new_entry sha eid now a entries) = previous_hash entries"
  "le_current_ledger_hash (new_entry sha eid now a entries) = entry_hash sha (new_entry sha eid now a entries)"
  by (simp_all add: new_entry_def Let_def entry_hash_def entry_payload_def)

lemma verify_from_append:
  "verify_from sha prev (xs @ ys) \<longleftrightarrow>
     verify_from sha prev xs \<and> verify_from sha (if xs = [] then prev else le_current_ledger_hash (last xs)) ys"
  by (induction xs arbitrary: prev) auto

lemma verify_append: "verify sha (xs @ ys) \<longleftrightarrow> verify sha xs \<and> verify_from sha (previous_hash xs) ys"
  by (simp add: verify_def verify_from_append previous_hash_def)

lemma verify_append_entry [simp]: "verify sha (append_entry sha eid now a entries) = verify sha entries"
  by (simp add: append_entry_def verify_append)

subsection \<open>What a hash binds\<close>

lemma payload_keys: "map fst (entry_payload e) = map fst (entry_payload f)" "distinct (map fst (entry_payload e))"
  by (simp_all add: entry_payload_def)

definition frozen_entry :: "ledger_entry \<Rightarrow> bool" where
  "frozen_entry e \<longleftrightarrow>
     canon (le_before_state e) = le_before_state e \<and> canon (le_intended_state e) = le_intended_state e \<and>
     canon (le_after_state e) = le_after_state e \<and> canon (le_forward_action e) = le_forward_action e \<and>
     canon (le_inverse_action e) = le_inverse_action e"

lemma payload_binds:
  assumes "json_dumps (JObj (entry_payload e)) = json_dumps (JObj (entry_payload f))"
    and "frozen_entry e" and "frozen_entry f" and "le_current_ledger_hash e = le_current_ledger_hash f"
  shows "e = f"
proof -
  have "canon (JObj (entry_payload e)) = canon (JObj (entry_payload f))"
    using assms(1) by (simp only: json_dumps_inject)
  then have "map (canon \<circ> snd) (entry_payload e) = map (canon \<circ> snd) (entry_payload f)"
    using payload_keys by (rule canon_obj_values)
  then show ?thesis
    using assms(2-4) by (simp add: entry_payload_def frozen_entry_def)
qed

lemma entry_hash_binds:
  assumes "entry_hash sha e = entry_hash sha f" and "frozen_entry e" and "frozen_entry f"
    and "le_current_ledger_hash e = le_current_ledger_hash f"
  shows "e = f \<or> collision sha"
  using assms payload_binds unfolding entry_hash_def json_hash_def collision_def by blast

subsection \<open>Properties\<close>

fun append_all :: "digest \<Rightarrow> (string \<times> string \<times> ledger_args) list \<Rightarrow> ledger_entry list \<Rightarrow> ledger_entry list" where
  "append_all sha [] entries = entries"
| "append_all sha ((eid, now, a) # as) entries = append_all sha as (append_entry sha eid now a entries)"

lemma append_all_prefix: "\<exists>ys. append_all sha as entries = entries @ ys \<and> length ys = length as"
proof (induction as arbitrary: entries)
  case (Cons x as)
  obtain eid now a where x: "x = (eid, now, a)" by (cases x)
  from Cons [of "append_entry sha eid now a entries"] x show ?case by (auto simp: append_entry_def)
qed simp

lemma append_all_verify: "verify sha (append_all sha as entries) = verify sha entries"
  by (induction sha as entries rule: append_all.induct) simp_all

lemma append_all_append: "append_all sha (as @ bs) es = append_all sha bs (append_all sha as es)"
  by (induction sha as es rule: append_all.induct) simp_all

lemma append_all_frozen:
  "\<forall>e\<in>set entries. frozen_entry e \<Longrightarrow> \<forall>e\<in>set (append_all sha as entries). frozen_entry e"
proof (induction sha as entries rule: append_all.induct)
  case (2 sha eid now a as entries)
  have "frozen_entry (new_entry sha eid now a entries)"
    by (simp add: new_entry_def Let_def frozen_entry_def freeze_mapping_def)
  with 2 show ?case by (simp add: append_entry_def)
qed simp

text \<open>
  Appending through the one mutation the ledger has keeps the chain verifiable, keeps every
  earlier entry in place, and stores the caller's evidence frozen.
\<close>

theorem appended_chain_verifies:
  "verify sha (append_all sha as []) \<and> list_all frozen_entry (append_all sha as []) \<and>
   (\<exists>ys. append_all sha (as @ bs) [] = append_all sha as [] @ ys \<and> length ys = length bs)"
  using append_all_prefix [of sha bs "append_all sha as []"] append_all_verify [of sha as "[]"]
    append_all_frozen [of "[]" sha as]
  by (simp add: append_all_append verify_def list_all_iff)

text \<open>
  C25. Tamper evidence. Two chains of the same length that both verify and end in the same hash are
  the same chain, entry by entry, unless the digest maps two different texts to one value: whoever
  alters an entry without moving the head hash exhibits a collision.
\<close>

theorem same_head_same_history:
  assumes "verify sha xs" and "verify sha ys" and "length xs = length ys"
    and "previous_hash xs = previous_hash ys"
    and "\<forall>e\<in>set xs \<union> set ys. frozen_entry e"
  shows "xs = ys \<or> collision sha"
  using assms
proof (induction xs arbitrary: ys rule: rev_induct)
  case (snoc x xs)
  then obtain y ys' where ys: "ys = ys' @ [y]" by (cases ys rule: rev_cases) auto
  have x: "le_previous_ledger_hash x = previous_hash xs" "le_current_ledger_hash x = entry_hash sha x"
    using snoc.prems(1) by (simp_all add: verify_append split: if_splits)
  have y: "le_previous_ledger_hash y = previous_hash ys'" "le_current_ledger_hash y = entry_hash sha y"
    using snoc.prems(2) ys by (simp_all add: verify_append split: if_splits)
  have "le_current_ledger_hash x = le_current_ledger_hash y"
    using snoc.prems(4) ys by (simp add: previous_hash_def)
  then have "x = y \<or> collision sha"
    using x(2) y(2) snoc.prems(5) ys by (intro entry_hash_binds) auto
  moreover have "xs = ys' \<or> collision sha" if "x = y"
    by (rule snoc.IH) (use snoc.prems ys that x(1) y(1) in \<open>auto simp: verify_append\<close>)
  ultimately show ?case using ys by blast
qed simp

theorem same_head_same_history_witness:
  "let es = append_all id [(''e1'', ''t1'', \<lparr>la_before_state = JNull, la_intended_state = JNull,
        la_after_state = JObj [(''b'', JNum 1), (''a'', JBool True)], la_forward_action = JNull,
        la_inverse_action = JNull, la_evidence_hash = ''ev'', la_actor = ''w''\<rparr>)] []
   in verify id es \<and> (es = es \<or> collision id)"
proof -
  define es where "es = append_all id [(''e1'', ''t1'', \<lparr>la_before_state = JNull, la_intended_state = JNull,
        la_after_state = JObj [(''b'', JNum 1), (''a'', JBool True)], la_forward_action = JNull,
        la_inverse_action = JNull, la_evidence_hash = ''ev'', la_actor = ''w''\<rparr>)] []"
  have v: "verify id es" 
    unfolding es_def append_all_verify by (simp add: verify_def)
  have f: "\<forall>e\<in>set es \<union> set es. frozen_entry e"
    by (simp add: es_def append_entry_def new_entry_def Let_def frozen_entry_def freeze_mapping_def)
  show ?thesis using v same_head_same_history [OF v v refl refl f] by (simp add: es_def)
qed

text \<open>
  The chain does not protect its own end: every prefix of a chain that verifies verifies too, so
  removing the most recent entries cannot be seen from the entries alone.
\<close>

theorem truncation_verifies: "verify sha (append_all sha as []) \<and> verify sha (take n (append_all sha as []))"
proof -
  have v: "verify sha (append_all sha as [])" 
    unfolding append_all_verify by (simp add: verify_def)
  then have "verify sha (take n (append_all sha as []) @ drop n (append_all sha as []))" by simp
  then have "verify sha (take n (append_all sha as []))" by (simp only: verify_append)
  with v show ?thesis by blast
qed

end
