(* ===== verification/Actions.thy ===== *)
theory Actions
  imports Adapter
begin

text \<open>
  \<open>backend/app/actions/schemas.py\<close>: the typed actions, their declared constraints, their exact
  inverses, and their JSON form. \<open>model_validate\<close> is read off the schema declarations: unknown keys
  are refused, required keys must be there, every field obeys its bounds, and for \<open>CREATE_INDEX\<close> the
  validator \<open>enforce_autonomous_restrictions\<close> runs last. Values are taken at their JSON type; the
  coercions between types that Pydantic adds (\<open>1\<close> for \<open>true\<close>) are not modelled.
\<close>

subsection \<open>Schemas\<close>

record index_field =
  if_field :: string
  if_direction :: int

record create_index_action =
  ca_database :: string
  ca_collection :: string
  ca_index_name :: string
  ca_fields :: "index_field list"
  ca_unique :: bool
  ca_expire_after_seconds :: "int option"
  ca_sparse :: bool
  ca_partial_filter_expression :: "json option"
  ca_text :: bool
  ca_wildcard :: bool
  ca_geo :: bool
  ca_hashed :: bool

record drop_index_action =
  da_database :: string
  da_collection :: string
  da_index_name :: string

record restore_hint_action =
  ra_database :: string
  ra_collection :: string
  ra_query_shape_hash :: string
  ra_allowed_indexes :: "string list option"

record set_hint_action =
  sa_database :: string
  sa_collection :: string
  sa_query_shape_hash :: string
  sa_allowed_indexes :: "string list"
  sa_previous_allowed_indexes :: "string list option"

definition within :: "nat \<Rightarrow> nat \<Rightarrow> 'a list \<Rightarrow> bool" where
  "within lo hi xs \<longleftrightarrow> lo \<le> length xs \<and> length xs \<le> hi"

definition index_field_ok :: "index_field \<Rightarrow> bool" where
  "index_field_ok f \<longleftrightarrow> within 1 255 (if_field f) \<and> (if_direction f = -1 \<or> if_direction f = 1)"

definition forbidden_variants :: "create_index_action \<Rightarrow> string list" where
  "forbidden_variants a = map fst (filter snd
     [(''unique'', ca_unique a), (''TTL'', ca_expire_after_seconds a \<noteq> None), (''sparse'', ca_sparse a),
      (''partial'', ca_partial_filter_expression a \<noteq> None), (''text'', ca_text a),
      (''wildcard'', ca_wildcard a), (''geo'', ca_geo a), (''hashed'', ca_hashed a)])"

fun join_names :: "string list \<Rightarrow> string" where
  "join_names [] = []"
| "join_names [x] = x"
| "join_names (x # xs) = x @ '', '' @ join_names xs"

definition enforce_autonomous_restrictions :: "create_index_action \<Rightarrow> exn + create_index_action" where
  "enforce_autonomous_restrictions a =
     (let enabled = forbidden_variants a in
      if enabled \<noteq> [] then Inl (ValidationError (''Forbidden autonomous index variants: '' @ join_names enabled))
      else Inr a)"

definition create_index_fields_ok :: "create_index_action \<Rightarrow> bool" where
  "create_index_fields_ok a \<longleftrightarrow>
     within 1 63 (ca_database a) \<and> within 1 255 (ca_collection a) \<and> within 1 255 (ca_index_name a) \<and>
     within 1 5 (ca_fields a) \<and> list_all index_field_ok (ca_fields a)"

text \<open>Constructing the model: declared field constraints first, the model validator after them.\<close>

definition create_index_action_checked :: "create_index_action \<Rightarrow> exn + create_index_action" where
  "create_index_action_checked a =
     (if \<not> create_index_fields_ok a then Inl (ValidationError ''CreateIndexAction'')
      else enforce_autonomous_restrictions a)"

definition drop_index_action_ok :: "drop_index_action \<Rightarrow> bool" where
  "drop_index_action_ok a \<longleftrightarrow>
     within 1 63 (da_database a) \<and> within 1 255 (da_collection a) \<and> within 1 255 (da_index_name a)"

definition restore_hint_action_ok :: "restore_hint_action \<Rightarrow> bool" where
  "restore_hint_action_ok a \<longleftrightarrow>
     within 1 63 (ra_database a) \<and> within 1 255 (ra_collection a) \<and> within 1 255 (ra_query_shape_hash a) \<and>
     (case ra_allowed_indexes a of None \<Rightarrow> True | Some xs \<Rightarrow> within 1 5 xs)"

definition set_hint_action_ok :: "set_hint_action \<Rightarrow> bool" where
  "set_hint_action_ok a \<longleftrightarrow>
     within 1 63 (sa_database a) \<and> within 1 255 (sa_collection a) \<and> within 1 255 (sa_query_shape_hash a) \<and>
     within 1 5 (sa_allowed_indexes a) \<and>
     (case sa_previous_allowed_indexes a of None \<Rightarrow> True | Some xs \<Rightarrow> within 1 5 xs)"

subsection \<open>Inverses\<close>

definition create_index_inverse :: "create_index_action \<Rightarrow> drop_index_action" where
  "create_index_inverse a = \<lparr>da_database = ca_database a, da_collection = ca_collection a,
     da_index_name = ca_index_name a\<rparr>"

definition set_hint_inverse :: "set_hint_action \<Rightarrow> restore_hint_action" where
  "set_hint_inverse a = \<lparr>ra_database = sa_database a, ra_collection = sa_collection a,
     ra_query_shape_hash = sa_query_shape_hash a, ra_allowed_indexes = sa_previous_allowed_indexes a\<rparr>"

lemma create_index_inverse_ok: "create_index_fields_ok a \<Longrightarrow> drop_index_action_ok (create_index_inverse a)"
  by (simp add: create_index_fields_ok_def drop_index_action_ok_def create_index_inverse_def)

lemma set_hint_inverse_ok: "set_hint_action_ok a \<Longrightarrow> restore_hint_action_ok (set_hint_inverse a)"
  by (simp add: set_hint_action_ok_def restore_hint_action_ok_def set_hint_inverse_def)

text \<open>\<open>tuple((field.field, field.direction) for field in action.fields)\<close>\<close>

definition action_keys :: "create_index_action \<Rightarrow> (string \<times> int) list" where
  "action_keys a = map (\<lambda>f. (if_field f, if_direction f)) (ca_fields a)"

definition action_spec :: "create_index_action \<Rightarrow> index_spec" where
  "action_spec a = \<lparr>ix_name = ca_index_name a, ix_keys = action_keys a\<rparr>"

lemma action_spec_sel [simp]: "ix_name (action_spec a) = ca_index_name a" "ix_keys (action_spec a) = action_keys a"
  by (simp_all add: action_spec_def)

subsection \<open>JSON form\<close>

text \<open>
  \<open>model_dump(mode="json")\<close>, which Pydantic derives from the fields of the schema classes: every field in the order of
  its declaration, an absent option as null. It is library behaviour that the services rely on when they store or hash
  an action, and not itself code of the repository.
\<close>

definition names_json :: "string list \<Rightarrow> json" where
  "names_json xs = JArr (map JStr xs)"

definition option_json :: "('a \<Rightarrow> json) \<Rightarrow> 'a option \<Rightarrow> json" where
  "option_json f x = (case x of None \<Rightarrow> JNull | Some v \<Rightarrow> f v)"

definition index_field_dump :: "index_field \<Rightarrow> json" where
  "index_field_dump f = JObj [(''field'', JStr (if_field f)), (''direction'', JNum (if_direction f))]"

definition create_index_dump :: "create_index_action \<Rightarrow> (string \<times> json) list" where
  "create_index_dump a =
     [(''action_type'', JStr ''CREATE_INDEX''), (''database'', JStr (ca_database a)),
      (''collection'', JStr (ca_collection a)), (''index_name'', JStr (ca_index_name a)),
      (''fields'', JArr (map index_field_dump (ca_fields a))), (''unique'', JBool (ca_unique a)),
      (''expire_after_seconds'', option_json JNum (ca_expire_after_seconds a)),
      (''sparse'', JBool (ca_sparse a)),
      (''partial_filter_expression'', option_json id (ca_partial_filter_expression a)),
      (''text'', JBool (ca_text a)), (''wildcard'', JBool (ca_wildcard a)), (''geo'', JBool (ca_geo a)),
      (''hashed'', JBool (ca_hashed a))]"

definition drop_index_dump :: "drop_index_action \<Rightarrow> (string \<times> json) list" where
  "drop_index_dump a =
     [(''action_type'', JStr ''DROP_INDEX''), (''database'', JStr (da_database a)),
      (''collection'', JStr (da_collection a)), (''index_name'', JStr (da_index_name a))]"

definition restore_hint_dump :: "restore_hint_action \<Rightarrow> (string \<times> json) list" where
  "restore_hint_dump a =
     [(''action_type'', JStr ''RESTORE_QUERY_SETTINGS_INDEX_HINT''), (''database'', JStr (ra_database a)),
      (''collection'', JStr (ra_collection a)), (''query_shape_hash'', JStr (ra_query_shape_hash a)),
      (''allowed_indexes'', option_json names_json (ra_allowed_indexes a))]"

definition set_hint_dump :: "set_hint_action \<Rightarrow> (string \<times> json) list" where
  "set_hint_dump a =
     [(''action_type'', JStr ''SET_QUERY_SETTINGS_INDEX_HINT''), (''database'', JStr (sa_database a)),
      (''collection'', JStr (sa_collection a)), (''query_shape_hash'', JStr (sa_query_shape_hash a)),
      (''allowed_indexes'', names_json (sa_allowed_indexes a)),
      (''previous_allowed_indexes'', option_json names_json (sa_previous_allowed_indexes a))]"

text \<open>Readers of one field: \<open>None\<close> when the value does not have the declared type.\<close>

fun as_string :: "json \<Rightarrow> string option" where
  "as_string (JStr s) = Some s" | "as_string _ = None"

fun as_bool :: "json \<Rightarrow> bool option" where
  "as_bool (JBool b) = Some b" | "as_bool _ = None"

fun as_int :: "json \<Rightarrow> int option" where
  "as_int (JNum i) = Some i" | "as_int _ = None"

fun as_object :: "json \<Rightarrow> json option" where
  "as_object (JObj kvs) = Some (JObj kvs)" | "as_object _ = None"

fun as_list :: "(json \<Rightarrow> 'a option) \<Rightarrow> json \<Rightarrow> 'a list option" where
  "as_list f (JArr xs) = those (map f xs)" | "as_list f _ = None"

fun nullable :: "(json \<Rightarrow> 'a option) \<Rightarrow> json \<Rightarrow> 'a option option" where
  "nullable f JNull = Some None" | "nullable f j = map_option Some (f j)"

definition required :: "(json \<Rightarrow> 'a option) \<Rightarrow> string \<Rightarrow> (string \<times> json) list \<Rightarrow> 'a option" where
  "required f k kvs = Option.bind (map_of kvs k) f"

definition with_default :: "(json \<Rightarrow> 'a option) \<Rightarrow> 'a \<Rightarrow> string \<Rightarrow> (string \<times> json) list \<Rightarrow> 'a option" where
  "with_default f d k kvs = (case map_of kvs k of None \<Rightarrow> Some d | Some v \<Rightarrow> f v)"

text \<open>\<open>extra="forbid"\<close> and the literal \<open>action_type\<close>, which has a default.\<close>

definition only_keys :: "string list \<Rightarrow> (string \<times> json) list \<Rightarrow> bool" where
  "only_keys ks kvs \<longleftrightarrow> list_all (\<lambda>(k, _). k \<in> set ks) kvs"

definition has_type :: "string \<Rightarrow> (string \<times> json) list \<Rightarrow> bool" where
  "has_type t kvs \<longleftrightarrow> with_default as_string t ''action_type'' kvs = Some t"

fun index_field_of_json :: "json \<Rightarrow> index_field option" where
  "index_field_of_json (JObj kvs) =
     (if only_keys [''field'', ''direction''] kvs then
        Option.bind (required as_string ''field'' kvs) (\<lambda>f.
        Option.bind (required as_int ''direction'' kvs) (\<lambda>d.
        Some \<lparr>if_field = f, if_direction = d\<rparr>))
      else None)"
| "index_field_of_json _ = None"

definition create_index_keys :: "string list" where
  "create_index_keys = [''action_type'', ''database'', ''collection'', ''index_name'', ''fields'', ''unique'',
     ''expire_after_seconds'', ''sparse'', ''partial_filter_expression'', ''text'', ''wildcard'', ''geo'', ''hashed'']"

definition create_index_parse :: "(string \<times> json) list \<Rightarrow> create_index_action option" where
  "create_index_parse kvs =
     (if \<not> only_keys create_index_keys kvs \<or> \<not> has_type ''CREATE_INDEX'' kvs then None else
      Option.bind (required as_string ''database'' kvs) (\<lambda>db.
      Option.bind (required as_string ''collection'' kvs) (\<lambda>co.
      Option.bind (required as_string ''index_name'' kvs) (\<lambda>nm.
      Option.bind (required (as_list index_field_of_json) ''fields'' kvs) (\<lambda>fs.
      Option.bind (with_default as_bool False ''unique'' kvs) (\<lambda>un.
      Option.bind (with_default (nullable as_int) None ''expire_after_seconds'' kvs) (\<lambda>ttl.
      Option.bind (with_default as_bool False ''sparse'' kvs) (\<lambda>sp.
      Option.bind (with_default (nullable as_object) None ''partial_filter_expression'' kvs) (\<lambda>pf.
      Option.bind (with_default as_bool False ''text'' kvs) (\<lambda>tx.
      Option.bind (with_default as_bool False ''wildcard'' kvs) (\<lambda>wc.
      Option.bind (with_default as_bool False ''geo'' kvs) (\<lambda>ge.
      Option.bind (with_default as_bool False ''hashed'' kvs) (\<lambda>ha.
      Some \<lparr>ca_database = db, ca_collection = co, ca_index_name = nm, ca_fields = fs, ca_unique = un,
        ca_expire_after_seconds = ttl, ca_sparse = sp, ca_partial_filter_expression = pf, ca_text = tx,
        ca_wildcard = wc, ca_geo = ge, ca_hashed = ha\<rparr>)))))))))))))"

definition create_index_validate :: "(string \<times> json) list \<Rightarrow> exn + create_index_action" where
  "create_index_validate kvs =
     (case create_index_parse kvs of
        None \<Rightarrow> Inl (ValidationError ''CreateIndexAction'')
      | Some a \<Rightarrow> create_index_action_checked a)"

definition set_hint_keys :: "string list" where
  "set_hint_keys = [''action_type'', ''database'', ''collection'', ''query_shape_hash'', ''allowed_indexes'',
     ''previous_allowed_indexes'']"

definition set_hint_validate :: "(string \<times> json) list \<Rightarrow> exn + set_hint_action" where
  "set_hint_validate kvs =
     (case (if \<not> only_keys set_hint_keys kvs \<or> \<not> has_type ''SET_QUERY_SETTINGS_INDEX_HINT'' kvs then None else
        Option.bind (required as_string ''database'' kvs) (\<lambda>db.
        Option.bind (required as_string ''collection'' kvs) (\<lambda>co.
        Option.bind (required as_string ''query_shape_hash'' kvs) (\<lambda>q.
        Option.bind (required (as_list as_string) ''allowed_indexes'' kvs) (\<lambda>al.
        Option.bind (with_default (nullable (as_list as_string)) None ''previous_allowed_indexes'' kvs) (\<lambda>pr.
        Some \<lparr>sa_database = db, sa_collection = co, sa_query_shape_hash = q, sa_allowed_indexes = al,
          sa_previous_allowed_indexes = pr\<rparr>)))))) of
        None \<Rightarrow> Inl (ValidationError ''SetQuerySettingsIndexHintAction'')
      | Some a \<Rightarrow> if set_hint_action_ok a then Inr a else Inl (ValidationError ''SetQuerySettingsIndexHintAction''))"

subsection \<open>Reading back what was written\<close>

lemma those_map_Some: "(\<And>x. x \<in> set xs \<Longrightarrow> f (g x) = Some x) \<Longrightarrow> those (map (f \<circ> g) xs) = Some xs"
  by (induction xs) auto

lemma index_field_roundtrip: "index_field_of_json (index_field_dump f) = Some f"
  by (simp add: index_field_dump_def required_def only_keys_def)

lemma fields_roundtrip: "those (map (index_field_of_json \<circ> index_field_dump) fs) = Some fs"
  by (rule those_map_Some) (rule index_field_roundtrip)

lemma names_roundtrip: "as_list as_string (names_json xs) = Some xs"
  unfolding names_json_def as_list.simps map_map by (rule those_map_Some) simp

lemma nullable_names_roundtrip: "nullable (as_list as_string) (option_json names_json x) = Some x"
  using names_roundtrip by (cases x) (simp_all add: option_json_def names_json_def)

lemma option_json_None: "option_json f None = JNull"
  by (simp add: option_json_def)

lemma nullable_int_roundtrip: "nullable as_int (option_json JNum x) = Some x"
  by (cases x) (simp_all add: option_json_def)

text \<open>None of the eight forbidden options, said of the options themselves.\<close>

definition unrestricted :: "create_index_action \<Rightarrow> bool" where
  "unrestricted a \<longleftrightarrow> \<not> ca_unique a \<and> ca_expire_after_seconds a = None \<and> \<not> ca_sparse a \<and>
     ca_partial_filter_expression a = None \<and> \<not> ca_text a \<and> \<not> ca_wildcard a \<and> \<not> ca_geo a \<and> \<not> ca_hashed a"

lemmas unrestricted_iff = unrestricted_def

lemma forbidden_variants_none: "forbidden_variants a = [] \<longleftrightarrow> unrestricted a"
  by (auto simp: unrestricted_def forbidden_variants_def)

lemma checked_Inr_iff:
  "create_index_action_checked a = Inr b \<longleftrightarrow> b = a \<and> create_index_fields_ok a \<and> unrestricted a"
  by (auto simp: create_index_action_checked_def enforce_autonomous_restrictions_def Let_def forbidden_variants_none)

subsection \<open>What a payload must say\<close>

text \<open>
  The specification of an acceptable \<open>CREATE_INDEX\<close> payload on the raw JSON, key by key: nothing but the declared
  keys, a name of the right length in each place, one to five fields with a direction of 1 or -1, and the eight
  options absent or switched off.
\<close>

definition text_at :: "nat \<Rightarrow> string \<Rightarrow> (string \<times> json) list \<Rightarrow> bool" where
  "text_at n k p \<longleftrightarrow> (\<exists>t. map_of p k = Some (JStr t) \<and> 1 \<le> length t \<and> length t \<le> n)"

definition field_payload :: "json \<Rightarrow> bool" where
  "field_payload j \<longleftrightarrow> (\<exists>kvs. j = JObj kvs \<and> fst ` set kvs \<subseteq> {''field'', ''direction''} \<and> text_at 255 ''field'' kvs \<and>
     map_of kvs ''direction'' \<in> {Some (JNum 1), Some (JNum (-1))})"

definition plain_index_payload :: "(string \<times> json) list \<Rightarrow> bool" where
  "plain_index_payload p \<longleftrightarrow>
     fst ` set p \<subseteq> {''action_type'', ''database'', ''collection'', ''index_name'', ''fields'', ''unique'', ''expire_after_seconds'',
       ''sparse'', ''partial_filter_expression'', ''text'', ''wildcard'', ''geo'', ''hashed''} \<and>
     map_of p ''action_type'' \<in> {None, Some (JStr ''CREATE_INDEX'')} \<and>
     text_at 63 ''database'' p \<and> text_at 255 ''collection'' p \<and> text_at 255 ''index_name'' p \<and>
     (\<exists>js. map_of p ''fields'' = Some (JArr js) \<and> 1 \<le> length js \<and> length js \<le> 5 \<and> (\<forall>j\<in>set js. field_payload j)) \<and>
     (\<forall>k\<in>{''unique'', ''sparse'', ''text'', ''wildcard'', ''geo'', ''hashed''}. map_of p k \<in> {None, Some (JBool False)}) \<and>
     (\<forall>k\<in>{''expire_after_seconds'', ''partial_filter_expression''}. map_of p k \<in> {None, Some JNull})"

lemma reader_Some:
  "as_string j = Some t \<longleftrightarrow> j = JStr t" "as_bool j = Some b \<longleftrightarrow> j = JBool b" "as_int j = Some i \<longleftrightarrow> j = JNum i"
  "as_list f j = Some xs \<longleftrightarrow> (\<exists>js. j = JArr js \<and> those (map f js) = Some xs)"
  "nullable f j = Some y \<longleftrightarrow> (if j = JNull then y = None else map_option Some (f j) = Some y)"
  by (cases j; auto)+

lemma required_Some: "required f k p = Some x \<longleftrightarrow> (\<exists>v. map_of p k = Some v \<and> f v = Some x)"
  by (auto simp: required_def Option.bind_eq_Some_conv)

lemma with_default_Some:
  "with_default f d k p = Some x \<longleftrightarrow> map_of p k = None \<and> x = d \<or> (\<exists>v. map_of p k = Some v \<and> f v = Some x)"
  by (auto simp: with_default_def split: option.splits)

lemma only_keys_iff: "only_keys ks p \<longleftrightarrow> fst ` set p \<subseteq> set ks"
  by (auto simp: only_keys_def list_all_iff)

lemma those_Some: "those ys = Some xs \<longleftrightarrow> ys = map Some xs"
  by (induction ys arbitrary: xs) (auto split: option.splits)

lemma field_parse:
  "index_field_of_json j = Some f \<longleftrightarrow> (\<exists>kvs. j = JObj kvs \<and> fst ` set kvs \<subseteq> {''field'', ''direction''} \<and>
     map_of kvs ''field'' = Some (JStr (if_field f)) \<and> map_of kvs ''direction'' = Some (JNum (if_direction f)))"
  by (cases j; cases f) (auto simp: only_keys_iff Option.bind_eq_Some_conv required_Some reader_Some)

lemma field_payload_iff: "field_payload j \<longleftrightarrow> (\<exists>f. index_field_of_json j = Some f \<and> index_field_ok f)"
proof
  assume "field_payload j"
  then obtain kvs t d where "j = JObj kvs" "fst ` set kvs \<subseteq> {''field'', ''direction''}" "map_of kvs ''field'' = Some (JStr t)"
      "1 \<le> length t" "length t \<le> 255" "map_of kvs ''direction'' = Some (JNum d)" "d = 1 \<or> d = -1"
    by (auto simp: field_payload_def text_at_def)
  then show "\<exists>f. index_field_of_json j = Some f \<and> index_field_ok f"
    by (intro exI [of _ "\<lparr>if_field = t, if_direction = d\<rparr>"]) (auto simp: field_parse index_field_ok_def within_def simp del: index_field_of_json.simps)
qed (auto simp: field_payload_def field_parse index_field_ok_def within_def text_at_def simp del: index_field_of_json.simps)

lemma fields_parse:
  "(\<exists>fs. those (map index_field_of_json js) = Some fs \<and> within 1 5 fs \<and> list_all index_field_ok fs) \<longleftrightarrow>
     1 \<le> length js \<and> length js \<le> 5 \<and> (\<forall>j\<in>set js. field_payload j)" (is "?L \<longleftrightarrow> ?R")
proof
  assume ?L
  then obtain fs where fs: "map index_field_of_json js = map Some fs" "within 1 5 fs" "list_all index_field_ok fs"
    by (auto simp: those_Some)
  have "length js = length fs" using fs(1) by (rule map_eq_imp_length_eq)
  moreover have "field_payload j" if "j \<in> set js" for j
  proof -
    have "index_field_of_json j \<in> set (map Some fs)" using that by (simp flip: fs(1))
    then show ?thesis using fs(3) by (auto simp: field_payload_iff list_all_iff)
  qed
  ultimately show ?R using fs(2) by (simp add: within_def)
next
  assume R: ?R
  let ?fs = "map (\<lambda>j. the (index_field_of_json j)) js"
  have "map index_field_of_json js = map Some ?fs" "list_all index_field_ok ?fs"
    using R by (auto simp: field_payload_iff list_all_iff)
  then show ?L using R by (intro exI [of _ ?fs]) (simp add: those_Some within_def)
qed

text \<open>What the reader found is what the payload says.\<close>

lemma create_index_parse_Some:
  assumes "create_index_parse p = Some a"
  shows "only_keys create_index_keys p" and "map_of p ''action_type'' \<in> {None, Some (JStr ''CREATE_INDEX'')}"
    and "map_of p ''database'' = Some (JStr (ca_database a))" and "map_of p ''collection'' = Some (JStr (ca_collection a))"
    and "map_of p ''index_name'' = Some (JStr (ca_index_name a))"
    and "\<exists>js. map_of p ''fields'' = Some (JArr js) \<and> those (map index_field_of_json js) = Some (ca_fields a)"
    and "map_of p ''unique'' = None \<and> \<not> ca_unique a \<or> map_of p ''unique'' = Some (JBool (ca_unique a))"
    and "map_of p ''sparse'' = None \<and> \<not> ca_sparse a \<or> map_of p ''sparse'' = Some (JBool (ca_sparse a))"
    and "map_of p ''text'' = None \<and> \<not> ca_text a \<or> map_of p ''text'' = Some (JBool (ca_text a))"
    and "map_of p ''wildcard'' = None \<and> \<not> ca_wildcard a \<or> map_of p ''wildcard'' = Some (JBool (ca_wildcard a))"
    and "map_of p ''geo'' = None \<and> \<not> ca_geo a \<or> map_of p ''geo'' = Some (JBool (ca_geo a))"
    and "map_of p ''hashed'' = None \<and> \<not> ca_hashed a \<or> map_of p ''hashed'' = Some (JBool (ca_hashed a))"
    and "ca_expire_after_seconds a = None \<longleftrightarrow> map_of p ''expire_after_seconds'' \<in> {None, Some JNull}"
    and "ca_partial_filter_expression a = None \<longleftrightarrow> map_of p ''partial_filter_expression'' \<in> {None, Some JNull}"
proof -
  from assms obtain db co nm fs un ttl sp pf tx wc ge ha where
    keys: "only_keys create_index_keys p" "has_type ''CREATE_INDEX'' p"
    and names: "required as_string ''database'' p = Some db" "required as_string ''collection'' p = Some co"
      "required as_string ''index_name'' p = Some nm" "required (as_list index_field_of_json) ''fields'' p = Some fs"
    and flags: "with_default as_bool False ''unique'' p = Some un" "with_default as_bool False ''sparse'' p = Some sp"
      "with_default as_bool False ''text'' p = Some tx" "with_default as_bool False ''wildcard'' p = Some wc"
      "with_default as_bool False ''geo'' p = Some ge" "with_default as_bool False ''hashed'' p = Some ha"
    and opts: "with_default (nullable as_int) None ''expire_after_seconds'' p = Some ttl"
      "with_default (nullable as_object) None ''partial_filter_expression'' p = Some pf"
    and a: "a = \<lparr>ca_database = db, ca_collection = co, ca_index_name = nm, ca_fields = fs, ca_unique = un,
        ca_expire_after_seconds = ttl, ca_sparse = sp, ca_partial_filter_expression = pf, ca_text = tx,
        ca_wildcard = wc, ca_geo = ge, ca_hashed = ha\<rparr>"
    unfolding create_index_parse_def by (auto simp: Option.bind_eq_Some_conv split: if_splits)
  show "only_keys create_index_keys p" by (rule keys)
  show "map_of p ''action_type'' \<in> {None, Some (JStr ''CREATE_INDEX'')}"
    using keys(2) by (auto simp: has_type_def with_default_Some reader_Some)
  show "map_of p ''database'' = Some (JStr (ca_database a))" "map_of p ''collection'' = Some (JStr (ca_collection a))"
      "map_of p ''index_name'' = Some (JStr (ca_index_name a))"
      "\<exists>js. map_of p ''fields'' = Some (JArr js) \<and> those (map index_field_of_json js) = Some (ca_fields a)"
    using names by (auto simp: a required_Some reader_Some)
  show "map_of p ''unique'' = None \<and> \<not> ca_unique a \<or> map_of p ''unique'' = Some (JBool (ca_unique a))"
      "map_of p ''sparse'' = None \<and> \<not> ca_sparse a \<or> map_of p ''sparse'' = Some (JBool (ca_sparse a))"
      "map_of p ''text'' = None \<and> \<not> ca_text a \<or> map_of p ''text'' = Some (JBool (ca_text a))"
      "map_of p ''wildcard'' = None \<and> \<not> ca_wildcard a \<or> map_of p ''wildcard'' = Some (JBool (ca_wildcard a))"
      "map_of p ''geo'' = None \<and> \<not> ca_geo a \<or> map_of p ''geo'' = Some (JBool (ca_geo a))"
      "map_of p ''hashed'' = None \<and> \<not> ca_hashed a \<or> map_of p ''hashed'' = Some (JBool (ca_hashed a))"
    using flags by (simp_all add: a with_default_Some reader_Some)
  show "ca_expire_after_seconds a = None \<longleftrightarrow> map_of p ''expire_after_seconds'' \<in> {None, Some JNull}"
      "ca_partial_filter_expression a = None \<longleftrightarrow> map_of p ''partial_filter_expression'' \<in> {None, Some JNull}"
    using opts by (auto simp: a with_default_Some reader_Some split: if_splits)
qed

lemma create_index_validate_Inr:
  "create_index_validate p = Inr a \<longleftrightarrow> create_index_parse p = Some a \<and> create_index_fields_ok a \<and> unrestricted a"
  by (auto simp: create_index_validate_def checked_Inr_iff split: option.splits)

text \<open>The schema accepts exactly the payloads of the specification.\<close>

lemma create_index_accepts: "(\<exists>a. create_index_validate p = Inr a) \<longleftrightarrow> plain_index_payload p"
proof
  assume "\<exists>a. create_index_validate p = Inr a"
  then obtain a where a: "create_index_parse p = Some a" "create_index_fields_ok a" "unrestricted a"
    by (auto simp: create_index_validate_Inr)
  note p = create_index_parse_Some [OF a(1)]
  have keys: "fst ` set p \<subseteq> {''action_type'', ''database'', ''collection'', ''index_name'', ''fields'', ''unique'', ''expire_after_seconds'',
       ''sparse'', ''partial_filter_expression'', ''text'', ''wildcard'', ''geo'', ''hashed''}"
    using p(1) by (simp add: only_keys_iff create_index_keys_def)
  have t: "text_at 63 ''database'' p" "text_at 255 ''collection'' p" "text_at 255 ''index_name'' p"
    using p(3-5) a(2) by (auto simp: text_at_def create_index_fields_ok_def within_def)
  obtain js where js: "map_of p ''fields'' = Some (JArr js)" "those (map index_field_of_json js) = Some (ca_fields a)"
    using p(6) by blast
  have len: "1 \<le> length js" "length js \<le> 5" "\<And>j. j \<in> set js \<Longrightarrow> field_payload j"
    using js(2) a(2) fields_parse [of js] unfolding create_index_fields_ok_def by blast+
  have flag: "map_of p k \<in> {None, Some (JBool False)}" if "k \<in> {''unique'', ''sparse'', ''text'', ''wildcard'', ''geo'', ''hashed''}" for k
    using that p(7-12) a(3) unfolding unrestricted_def by (elim insertE emptyE) simp_all
  have opt: "map_of p k \<in> {None, Some JNull}" if "k \<in> {''expire_after_seconds'', ''partial_filter_expression''}" for k
    using that p(13,14) a(3) unfolding unrestricted_def by (elim insertE emptyE) simp_all
  show "plain_index_payload p"
    unfolding plain_index_payload_def
    by (intro conjI ballI exI [of _ js] keys t p(2) js(1) len(1,2)) (erule len(3) flag opt)+
next
  assume p: "plain_index_payload p"
  then obtain db co nm js where names: "map_of p ''database'' = Some (JStr db)" "map_of p ''collection'' = Some (JStr co)"
      "map_of p ''index_name'' = Some (JStr nm)" "map_of p ''fields'' = Some (JArr js)"
    and len: "within 1 63 db" "within 1 255 co" "within 1 255 nm"
    and js: "1 \<le> length js \<and> length js \<le> 5 \<and> (\<forall>j\<in>set js. field_payload j)"
    unfolding plain_index_payload_def text_at_def within_def by blast
  obtain fs where fs: "those (map index_field_of_json js) = Some fs" "within 1 5 fs" "list_all index_field_ok fs"
    using js unfolding fields_parse [symmetric] by blast
  have flag: "with_default as_bool False k p = Some False" if "k \<in> {''unique'', ''sparse'', ''text'', ''wildcard'', ''geo'', ''hashed''}" for k
  proof -
    have "\<forall>k\<in>{''unique'', ''sparse'', ''text'', ''wildcard'', ''geo'', ''hashed''}. map_of p k \<in> {None, Some (JBool False)}"
      using p unfolding plain_index_payload_def by (elim conjE)
    then have "map_of p k \<in> {None, Some (JBool False)}" using that by (rule bspec)
    then show ?thesis by (auto simp: with_default_def)
  qed
  have opt: "with_default (nullable f) None k p = Some None" if "k \<in> {''expire_after_seconds'', ''partial_filter_expression''}"
    for k and f :: "json \<Rightarrow> 'b option"
  proof -
    have "\<forall>k\<in>{''expire_after_seconds'', ''partial_filter_expression''}. map_of p k \<in> {None, Some JNull}"
      using p unfolding plain_index_payload_def by (elim conjE)
    then have "map_of p k \<in> {None, Some JNull}" using that by (rule bspec)
    then show ?thesis by (auto simp: with_default_def)
  qed
  have keys: "only_keys create_index_keys p" "has_type ''CREATE_INDEX'' p"
  proof -
    have 1: "fst ` set p \<subseteq> {''action_type'', ''database'', ''collection'', ''index_name'', ''fields'', ''unique'', ''expire_after_seconds'',
        ''sparse'', ''partial_filter_expression'', ''text'', ''wildcard'', ''geo'', ''hashed''}"
      and 2: "map_of p ''action_type'' \<in> {None, Some (JStr ''CREATE_INDEX'')}"
      using p unfolding plain_index_payload_def by - (elim conjE, assumption)+
    show "only_keys create_index_keys p" using 1 unfolding only_keys_iff create_index_keys_def by simp
    show "has_type ''CREATE_INDEX'' p" using 2 by (auto simp: has_type_def with_default_def)
  qed
  have read: "required as_string ''database'' p = Some db" "required as_string ''collection'' p = Some co"
      "required as_string ''index_name'' p = Some nm" "required (as_list index_field_of_json) ''fields'' p = Some fs"
    using names fs(1) by (simp_all add: required_def)
  have "create_index_parse p = Some \<lparr>ca_database = db, ca_collection = co, ca_index_name = nm, ca_fields = fs, ca_unique = False,
      ca_expire_after_seconds = None, ca_sparse = False, ca_partial_filter_expression = None, ca_text = False,
      ca_wildcard = False, ca_geo = False, ca_hashed = False\<rparr>"
    unfolding create_index_parse_def using keys by (simp add: read flag opt)
  then show "\<exists>a. create_index_validate p = Inr a"
    using len fs by (auto simp: create_index_validate_Inr create_index_fields_ok_def unrestricted_def)
qed

definition names_payload :: "json \<Rightarrow> bool" where
  "names_payload j \<longleftrightarrow> (\<exists>xs. j = JArr (map JStr xs) \<and> 1 \<le> length xs \<and> length xs \<le> 5)"

definition bounded_hint_payload :: "(string \<times> json) list \<Rightarrow> bool" where
  "bounded_hint_payload p \<longleftrightarrow>
     fst ` set p \<subseteq> {''action_type'', ''database'', ''collection'', ''query_shape_hash'', ''allowed_indexes'', ''previous_allowed_indexes''} \<and>
     map_of p ''action_type'' \<in> {None, Some (JStr ''SET_QUERY_SETTINGS_INDEX_HINT'')} \<and>
     text_at 63 ''database'' p \<and> text_at 255 ''collection'' p \<and> text_at 255 ''query_shape_hash'' p \<and>
     (\<exists>j. map_of p ''allowed_indexes'' = Some j \<and> names_payload j) \<and>
     (map_of p ''previous_allowed_indexes'' \<in> {None, Some JNull} \<or> (\<exists>j. map_of p ''previous_allowed_indexes'' = Some j \<and> names_payload j))"

lemma JStr_inj: "inj JStr"
  by (simp add: inj_def)

lemma names_read: "as_list as_string j = Some xs \<longleftrightarrow> j = JArr (map JStr xs)"
proof -
  have "those (map as_string js) = Some xs \<longleftrightarrow> js = map JStr xs" for js
    unfolding those_Some by (induction js arbitrary: xs) (auto simp: reader_Some(1) Cons_eq_map_conv)
  then show ?thesis by (auto simp: reader_Some)
qed

text \<open>What an accepted index-hint payload says is what the action has.\<close>

lemma set_hint_validate_Inr:
  "set_hint_validate p = Inr h \<longleftrightarrow> only_keys set_hint_keys p \<and> has_type ''SET_QUERY_SETTINGS_INDEX_HINT'' p \<and>
     map_of p ''database'' = Some (JStr (sa_database h)) \<and> map_of p ''collection'' = Some (JStr (sa_collection h)) \<and>
     map_of p ''query_shape_hash'' = Some (JStr (sa_query_shape_hash h)) \<and>
     map_of p ''allowed_indexes'' = Some (names_json (sa_allowed_indexes h)) \<and>
     with_default (nullable (as_list as_string)) None ''previous_allowed_indexes'' p = Some (sa_previous_allowed_indexes h) \<and>
     set_hint_action_ok h"
proof -
  have "set_hint_validate p = Inr h \<longleftrightarrow> only_keys set_hint_keys p \<and> has_type ''SET_QUERY_SETTINGS_INDEX_HINT'' p \<and>
      Option.bind (required as_string ''database'' p) (\<lambda>db. Option.bind (required as_string ''collection'' p) (\<lambda>co.
        Option.bind (required as_string ''query_shape_hash'' p) (\<lambda>q. Option.bind (required (as_list as_string) ''allowed_indexes'' p) (\<lambda>al.
        Option.bind (with_default (nullable (as_list as_string)) None ''previous_allowed_indexes'' p) (\<lambda>pr.
        Some \<lparr>sa_database = db, sa_collection = co, sa_query_shape_hash = q, sa_allowed_indexes = al,
          sa_previous_allowed_indexes = pr\<rparr>))))) = Some h \<and> set_hint_action_ok h"
    unfolding set_hint_validate_def by (auto split: option.split if_split)
  then show ?thesis
    by (cases h) (auto simp: Option.bind_eq_Some_conv required_Some reader_Some(1) names_read names_json_def)
qed

lemma set_hint_accepts: "(\<exists>h. set_hint_validate p = Inr h) \<longleftrightarrow> bounded_hint_payload p"
proof
  assume "\<exists>h. set_hint_validate p = Inr h"
  then obtain h where h: "set_hint_validate p = Inr h" ..
  note p = h [unfolded set_hint_validate_Inr]
  have ok: "set_hint_action_ok h" using p by blast
  have keys: "fst ` set p \<subseteq> {''action_type'', ''database'', ''collection'', ''query_shape_hash'', ''allowed_indexes'', ''previous_allowed_indexes''}"
    using p by (simp add: only_keys_iff set_hint_keys_def)
  have ty: "map_of p ''action_type'' \<in> {None, Some (JStr ''SET_QUERY_SETTINGS_INDEX_HINT'')}"
    using p by (auto simp: has_type_def with_default_Some reader_Some(1))
  have t: "text_at 63 ''database'' p" "text_at 255 ''collection'' p" "text_at 255 ''query_shape_hash'' p"
    using p ok by (simp_all add: text_at_def set_hint_action_ok_def within_def)
  have al: "\<exists>j. map_of p ''allowed_indexes'' = Some j \<and> names_payload j"
    using p ok by (auto simp: names_payload_def names_json_def set_hint_action_ok_def within_def)
  have "with_default (nullable (as_list as_string)) None ''previous_allowed_indexes'' p = Some (sa_previous_allowed_indexes h)"
    using p by blast
  then have pr: "map_of p ''previous_allowed_indexes'' \<in> {None, Some JNull} \<or> (\<exists>j. map_of p ''previous_allowed_indexes'' = Some j \<and> names_payload j)"
    using ok by (auto simp: with_default_Some reader_Some(5) names_read names_payload_def set_hint_action_ok_def within_def
        split: if_splits option.splits)
  show "bounded_hint_payload p" unfolding bounded_hint_payload_def by (intro conjI keys ty t al pr)
next
  assume p: "bounded_hint_payload p"
  then obtain db co q al where names: "map_of p ''database'' = Some (JStr db)" "map_of p ''collection'' = Some (JStr co)"
      "map_of p ''query_shape_hash'' = Some (JStr q)" "map_of p ''allowed_indexes'' = Some (JArr (map JStr al))"
    and len: "within 1 63 db" "within 1 255 co" "within 1 255 q" "within 1 5 al"
    unfolding bounded_hint_payload_def text_at_def names_payload_def within_def by blast
  obtain pr where pr: "with_default (nullable (as_list as_string)) None ''previous_allowed_indexes'' p = Some pr"
      "case pr of None \<Rightarrow> True | Some xs \<Rightarrow> within 1 5 xs"
  proof -
    have "map_of p ''previous_allowed_indexes'' \<in> {None, Some JNull} \<or> (\<exists>j. map_of p ''previous_allowed_indexes'' = Some j \<and> names_payload j)"
      using p unfolding bounded_hint_payload_def by (elim conjE)
    then show thesis
    proof (elim disjE exE conjE)
      assume "map_of p ''previous_allowed_indexes'' \<in> {None, Some JNull}"
      then show thesis by (intro that [of None]) (auto simp: with_default_def)
    next
      fix j assume j: "map_of p ''previous_allowed_indexes'' = Some j" "names_payload j"
      then obtain xs where "j = JArr (map JStr xs)" "within 1 5 xs" by (auto simp: names_payload_def within_def)
      then show thesis using j by (intro that [of "Some xs"]) (simp_all add: with_default_Some reader_Some(5) names_read del: as_list.simps)
    qed
  qed
  have keys: "only_keys set_hint_keys p" "has_type ''SET_QUERY_SETTINGS_INDEX_HINT'' p"
  proof -
    have 1: "fst ` set p \<subseteq> {''action_type'', ''database'', ''collection'', ''query_shape_hash'', ''allowed_indexes'', ''previous_allowed_indexes''}"
      and 2: "map_of p ''action_type'' \<in> {None, Some (JStr ''SET_QUERY_SETTINGS_INDEX_HINT'')}"
      using p unfolding bounded_hint_payload_def by - (elim conjE, assumption)+
    show "only_keys set_hint_keys p" using 1 unfolding only_keys_iff set_hint_keys_def by simp
    show "has_type ''SET_QUERY_SETTINGS_INDEX_HINT'' p" using 2 by (auto simp: has_type_def with_default_def)
  qed
  have "set_hint_validate p = Inr \<lparr>sa_database = db, sa_collection = co, sa_query_shape_hash = q, sa_allowed_indexes = al,
      sa_previous_allowed_indexes = pr\<rparr>"
    unfolding set_hint_validate_Inr using keys names len pr by (simp add: names_json_def set_hint_action_ok_def)
  then show "\<exists>h. set_hint_validate p = Inr h" ..
qed

text \<open>
  C37. A payload is accepted by \<open>CreateIndexAction\<close> only if it is an ordinary B-tree index: the action says what the
  payload says, has one to five named fields in ascending or descending order, read from the payload one by one, and is not
  unique, has no expiry, is not sparse, has no partial filter, and is no text, wildcard, geo or hashed index; and its
  inverse is a valid \<open>DROP_INDEX\<close> of the same index on the same collection of the same database.
\<close>

theorem validated_action_is_plain_index:
  assumes "create_index_validate payload = Inr a"
  shows "\<not> ca_unique a \<and> ca_expire_after_seconds a = None \<and> \<not> ca_sparse a \<and> ca_partial_filter_expression a = None \<and>
     \<not> ca_text a \<and> \<not> ca_wildcard a \<and> \<not> ca_geo a \<and> \<not> ca_hashed a \<and>
     map_of payload ''database'' = Some (JStr (ca_database a)) \<and> map_of payload ''collection'' = Some (JStr (ca_collection a)) \<and>
     map_of payload ''index_name'' = Some (JStr (ca_index_name a)) \<and>
     (\<exists>js. map_of payload ''fields'' = Some (JArr js) \<and>
        list_all2 (\<lambda>j (f, d). \<exists>kvs. j = JObj kvs \<and> map_of kvs ''field'' = Some (JStr f) \<and> map_of kvs ''direction'' = Some (JNum d))
          js (action_keys a)) \<and>
     1 \<le> length (action_keys a) \<and> length (action_keys a) \<le> 5 \<and>
     (\<forall>(f, d)\<in>set (action_keys a). 1 \<le> length f \<and> length f \<le> 255 \<and> (d = 1 \<or> d = -1)) \<and>
     drop_index_action_ok (create_index_inverse a) \<and>
     map_of payload ''database'' = Some (JStr (da_database (create_index_inverse a))) \<and>
     map_of payload ''collection'' = Some (JStr (da_collection (create_index_inverse a))) \<and>
     map_of payload ''index_name'' = Some (JStr (da_index_name (create_index_inverse a)))"
proof -
  from assms have a: "create_index_parse payload = Some a" "create_index_fields_ok a" "unrestricted a"
    by (auto simp: create_index_validate_Inr)
  note p = create_index_parse_Some [OF a(1)]
  from p(6) obtain js where js: "map_of payload ''fields'' = Some (JArr js)" "map index_field_of_json js = map Some (ca_fields a)"
    by (auto simp: those_Some)
  from js(2) have "list_all2 (\<lambda>j f. index_field_of_json j = Some f) js (ca_fields a)"
    by (simp add: list.rel_eq [symmetric] list.rel_map)
  then have "list_all2 (\<lambda>j (f, d). \<exists>kvs. j = JObj kvs \<and> map_of kvs ''field'' = Some (JStr f) \<and> map_of kvs ''direction'' = Some (JNum d))
      js (action_keys a)"
    unfolding action_keys_def list.rel_map by (rule list.rel_mono_strong) (auto simp: field_parse simp del: index_field_of_json.simps)
  then have fields: "\<exists>js. map_of payload ''fields'' = Some (JArr js) \<and>
      list_all2 (\<lambda>j (f, d). \<exists>kvs. j = JObj kvs \<and> map_of kvs ''field'' = Some (JStr f) \<and> map_of kvs ''direction'' = Some (JNum d))
        js (action_keys a)" using js(1) by blast
  have bounds: "1 \<le> length (action_keys a)" "length (action_keys a) \<le> 5"
      "\<forall>(f, d)\<in>set (action_keys a). 1 \<le> length f \<and> length f \<le> 255 \<and> (d = 1 \<or> d = -1)"
    using a(2) by (auto simp: action_keys_def create_index_fields_ok_def within_def list_all_iff index_field_ok_def)
  show ?thesis
    using a(3) p(3-5) fields bounds create_index_inverse_ok [OF a(2)]
    by (simp add: unrestricted_def) (simp add: create_index_inverse_def)
qed

definition sample_action :: create_index_action where
  "sample_action = \<lparr>ca_database = ''shop'', ca_collection = ''orders'', ca_index_name = ''optimizer_1'',
     ca_fields = [\<lparr>if_field = ''status'', if_direction = 1\<rparr>, \<lparr>if_field = ''ts'', if_direction = -1\<rparr>],
     ca_unique = False, ca_expire_after_seconds = None, ca_sparse = False,
     ca_partial_filter_expression = None, ca_text = False, ca_wildcard = False, ca_geo = False, ca_hashed = False\<rparr>"

lemma create_index_roundtrip_parse:
  assumes "ca_partial_filter_expression a = None"
  shows "create_index_parse (create_index_dump a) = Some a"
  using assms
  by (cases a) (simp add: create_index_parse_def create_index_dump_def only_keys_def create_index_keys_def
      has_type_def with_default_def required_def nullable_int_roundtrip fields_roundtrip option_json_None)

lemma sample_action_checked: "create_index_action_checked sample_action = Inr sample_action"
  by (simp add: checked_Inr_iff unrestricted_iff create_index_fields_ok_def within_def index_field_ok_def sample_action_def)

lemma sample_action_validated: "create_index_validate (create_index_dump sample_action) = Inr sample_action"
  using sample_action_checked by (simp add: create_index_validate_def create_index_roundtrip_parse sample_action_def)

theorem validated_action_is_plain_index_witness:
  "action_keys sample_action = [(''status'', 1), (''ts'', -1)] \<and> \<not> ca_unique sample_action \<and>
     drop_index_action_ok (create_index_inverse sample_action) \<and> da_collection (create_index_inverse sample_action) = ''orders''"
proof -
  have "map_of (create_index_dump sample_action) ''collection'' = Some (JStr ''orders'')"
    by (simp add: create_index_dump_def sample_action_def)
  then show ?thesis
    using validated_action_is_plain_index [OF sample_action_validated] by (simp add: action_keys_def sample_action_def)
qed

end
