(* ===== verification/Approvals.thy ===== *)
theory Approvals
  imports Prelude "HOL-Library.AList"
begin

text \<open>
  \<open>backend/app/approvals/flow.py\<close>: the in-memory approval flow. The dictionary of approvals is an
  association list in insertion order, assignment to a key that is there keeps its place. The clock
  is the callable the constructor takes: \<open>af_clock k\<close> is what its \<open>k\<close>-th call returns, and every
  call of the code is a \<open>read_clock\<close>. The identifier \<open>uuid4()\<close> makes is an argument of \<open>request\<close>.
\<close>

datatype approval_status = APPR_PENDING | APPR_APPROVED | APPR_STALE | APPR_EXPIRED

record approval =
  ap_approval_id :: string
  ap_action_id :: string
  ap_target_id :: string
  ap_evidence_hash :: string
  ap_requested_at :: int
  ap_expires_at :: int
  ap_status :: approval_status
  ap_approved_by :: "string option"
  ap_approved_at :: "int option"

record approval_flow =
  af_approvals :: "(string \<times> approval) list"
  af_ttl :: int
  af_clock :: "nat \<Rightarrow> int"
  af_ticks :: nat

definition new_flow :: "int \<Rightarrow> (nat \<Rightarrow> int) \<Rightarrow> exn + approval_flow" where
  "new_flow ttl clock =
     (if ttl \<le> 0 then Inl (ValueError ''approval TTL must be positive'')
      else Inr \<lparr>af_approvals = [], af_ttl = ttl, af_clock = clock, af_ticks = 0\<rparr>)"

definition read_clock :: "(approval_flow, int) oper" where
  "read_clock = (\<lambda>s. (Inr (af_clock s (af_ticks s)), s\<lparr>af_ticks := Suc (af_ticks s)\<rparr>))"

definition put_approval :: "approval \<Rightarrow> (approval_flow, unit) oper" where
  "put_approval a = update (\<lambda>s. s\<lparr>af_approvals := AList.update (ap_approval_id a) a (af_approvals s)\<rparr>)"

definition request_approval :: "string \<Rightarrow> string \<Rightarrow> string \<Rightarrow> string \<Rightarrow> (approval_flow, approval) oper" where
  "request_approval new_id action_id evidence_hash target_id =
     bnd read_clock (\<lambda>requested_at.
     bnd (asks af_ttl) (\<lambda>ttl.
     let a = \<lparr>ap_approval_id = new_id, ap_action_id = action_id, ap_target_id = target_id,
              ap_evidence_hash = evidence_hash, ap_requested_at = requested_at,
              ap_expires_at = requested_at + ttl, ap_status = APPR_PENDING,
              ap_approved_by = None, ap_approved_at = None\<rparr>
     in bnd (put_approval a) (\<lambda>_. ret a)))"

definition get_approval :: "string \<Rightarrow> (approval_flow, approval) oper" where
  "get_approval approval_id = (\<lambda>s. case map_of (af_approvals s) approval_id of
     None \<Rightarrow> (Inl (KeyError approval_id), s) | Some a \<Rightarrow> (Inr a, s))"

definition approve :: "string \<Rightarrow> string \<Rightarrow> (approval_flow, approval) oper" where
  "approve approval_id approver =
     bnd (get_approval approval_id) (\<lambda>a.
     bnd read_clock (\<lambda>now.
     if ap_expires_at a \<le> now then
       bnd (update (\<lambda>s. s\<lparr>af_approvals := AList.update approval_id (a\<lparr>ap_status := APPR_EXPIRED\<rparr>) (af_approvals s)\<rparr>)) (\<lambda>_.
       raise (ApprovalRequired (''approval has expired: '' @ approval_id)))
     else if ap_status a \<noteq> APPR_PENDING then
       raise (ApprovalRequired (''approval is not pending: '' @ approval_id))
     else
       bnd read_clock (\<lambda>now2.
       let approved = a\<lparr>ap_status := APPR_APPROVED, ap_approved_by := Some approver, ap_approved_at := Some now2\<rparr>
       in bnd (update (\<lambda>s. s\<lparr>af_approvals := AList.update approval_id approved (af_approvals s)\<rparr>)) (\<lambda>_.
          ret approved))))"

text \<open>One turn of the invalidation loop; the clock is read only for approved entries.\<close>

definition invalidate_one :: "string \<Rightarrow> approval \<Rightarrow> (approval_flow, unit) oper" where
  "invalidate_one current_evidence_hash a =
     (if ap_status a = APPR_APPROVED then
        bnd read_clock (\<lambda>now.
        if ap_expires_at a \<le> now then put_approval (a\<lparr>ap_status := APPR_EXPIRED\<rparr>)
        else if ap_evidence_hash a \<noteq> current_evidence_hash then put_approval (a\<lparr>ap_status := APPR_STALE\<rparr>)
        else ret ())
      else ret ())"

definition is_current :: "string \<Rightarrow> string \<Rightarrow> string \<Rightarrow> approval \<Rightarrow> bool" where
  "is_current action_id current_evidence_hash target_id a \<longleftrightarrow>
     ap_action_id a = action_id \<and> ap_status a = APPR_APPROVED \<and>
     ap_evidence_hash a = current_evidence_hash \<and> ap_target_id a = target_id"

definition require_current_approval :: "string \<Rightarrow> string \<Rightarrow> string \<Rightarrow> (approval_flow, approval) oper" where
  "require_current_approval action_id current_evidence_hash target_id =
     bnd (asks (\<lambda>s. filter (\<lambda>a. ap_action_id a = action_id) (map snd (af_approvals s)))) (\<lambda>matching.
     bnd (for_each (invalidate_one current_evidence_hash) matching) (\<lambda>_.
     bnd (asks (\<lambda>s. find (is_current action_id current_evidence_hash target_id) (map snd (af_approvals s)))) (\<lambda>found.
     case found of
       Some a \<Rightarrow> ret a
     | None \<Rightarrow> raise (ApprovalRequired
         (''current approval required for semi-autonomous action: '' @ action_id)))))"

subsection \<open>Invariant\<close>

text \<open>
  Entries are stored under their own identifier, and an approved entry names who approved it.
\<close>

definition approval_ok :: "approval \<Rightarrow> bool" where
  "approval_ok a \<longleftrightarrow> (ap_status a = APPR_APPROVED \<longrightarrow> ap_approved_by a \<noteq> None)"

definition flow_inv :: "approval_flow \<Rightarrow> bool" where
  "flow_inv s \<longleftrightarrow> distinct (map fst (af_approvals s)) \<and>
     (\<forall>(i, a)\<in>set (af_approvals s). ap_approval_id a = i \<and> approval_ok a)"

text \<open>
  How an entry may evolve: the binding to action, target, evidence and lifetime is fixed, and the
  status only moves forward in \<open>PENDING < APPROVED < STALE < EXPIRED\<close>.
\<close>

fun status_rank :: "approval_status \<Rightarrow> nat" where
  "status_rank APPR_PENDING = 0" | "status_rank APPR_APPROVED = 1"
| "status_rank APPR_STALE = 2" | "status_rank APPR_EXPIRED = 3"

definition binding :: "approval \<Rightarrow> string \<times> string \<times> string \<times> string \<times> int \<times> int" where
  "binding a = (ap_approval_id a, ap_action_id a, ap_target_id a, ap_evidence_hash a, ap_requested_at a, ap_expires_at a)"

definition evolves :: "approval \<Rightarrow> approval \<Rightarrow> bool" where
  "evolves a b \<longleftrightarrow> binding b = binding a \<and> status_rank (ap_status a) \<le> status_rank (ap_status b)"

definition flow_evolves :: "approval_flow \<Rightarrow> approval_flow \<Rightarrow> bool" where
  "flow_evolves s s' \<longleftrightarrow> af_clock s' = af_clock s \<and> af_ttl s' = af_ttl s \<and> af_ticks s \<le> af_ticks s' \<and>
     (\<forall>i a. map_of (af_approvals s) i = Some a \<longrightarrow>
        (\<exists>b. map_of (af_approvals s') i = Some b \<and> evolves a b))"

lemma evolves_refl: "evolves a a"
  by (simp add: evolves_def)

lemma flow_evolves_refl: "flow_evolves s s"
  by (simp add: flow_evolves_def evolves_refl)

lemma evolves_trans: "evolves a b \<Longrightarrow> evolves b c \<Longrightarrow> evolves a c"
  by (simp add: evolves_def)

lemma flow_evolves_trans: "flow_evolves s t \<Longrightarrow> flow_evolves t u \<Longrightarrow> flow_evolves s u"
proof -
  assume 1: "flow_evolves s t" and 2: "flow_evolves t u"
  have "\<exists>c. map_of (af_approvals u) i = Some c \<and> evolves a c" if "map_of (af_approvals s) i = Some a" for i a
  proof -
    obtain b where b: "map_of (af_approvals t) i = Some b" "evolves a b"
      using 1 \<open>map_of (af_approvals s) i = Some a\<close> unfolding flow_evolves_def by blast
    obtain c where "map_of (af_approvals u) i = Some c" "evolves b c"
      using 2 b(1) unfolding flow_evolves_def by blast
    then show ?thesis using b(2) evolves_trans by blast
  qed
  then show ?thesis using 1 2 unfolding flow_evolves_def by simp
qed

lemma flow_inv_get: "flow_inv s \<Longrightarrow> map_of (af_approvals s) i = Some a \<Longrightarrow> ap_approval_id a = i \<and> approval_ok a"
proof -
  assume "flow_inv s" and "map_of (af_approvals s) i = Some a"
  from bspec [OF conjunct2 [OF this(1) [unfolded flow_inv_def]] map_of_SomeD [OF this(2)]]
  show ?thesis by simp
qed

lemma set_alist_update: "p \<in> set (AList.update k v xs) \<Longrightarrow> p = (k, v) \<or> p \<in> set xs"
  by (induction xs) (auto split: if_splits)

lemma flow_inv_put:
  assumes "flow_inv s" and "approval_ok a" and "af_approvals s' = AList.update (ap_approval_id a) a (af_approvals s)"
  shows "flow_inv s'"
proof -
  have old: "ap_approval_id (snd p) = fst p \<and> approval_ok (snd p)" if "p \<in> set (af_approvals s)" for p
    using bspec [OF conjunct2 [OF assms(1) [unfolded flow_inv_def]] that] by (simp add: case_prod_beta)
  have "ap_approval_id (snd p) = fst p \<and> approval_ok (snd p)" if "p \<in> set (af_approvals s')" for p
  proof -
    have "p = (ap_approval_id a, a) \<or> p \<in> set (af_approvals s)"
      using that unfolding assms(3) by (rule set_alist_update)
    then show ?thesis using old assms(2) by (elim disjE) simp_all
  qed
  moreover have "distinct (map fst (af_approvals s'))"
    using assms(1,3) by (simp add: flow_inv_def distinct_update)
  ultimately show ?thesis by (simp add: flow_inv_def case_prod_beta)
qed

lemma flow_evolves_put:
  assumes "map_of (af_approvals s) (ap_approval_id b) = Some a" and "evolves a b"
    and "af_approvals s' = AList.update (ap_approval_id b) b (af_approvals s)"
    and "af_clock s' = af_clock s" and "af_ttl s' = af_ttl s" and "af_ticks s \<le> af_ticks s'"
  shows "flow_evolves s s'"
proof -
  have "\<exists>y. map_of (af_approvals s') i = Some y \<and> evolves x y" if "map_of (af_approvals s) i = Some x" for i x
    using that assms(1-3) evolves_refl [of x]
    by (cases "i = ap_approval_id b") (simp_all add: update_conv')
  then show ?thesis using assms(4-6) by (simp add: flow_evolves_def)
qed

lemma request_spec:
  assumes inv: "flow_inv s" and run: "request_approval i act ev tgt s = (r, s')"
  shows "flow_inv s' \<and> (map_of (af_approvals s) i = None \<longrightarrow> flow_evolves s s') \<and>
     (\<exists>a. r = Inr a \<and> map_of (af_approvals s') i = Some a \<and> ap_status a = APPR_PENDING \<and>
          ap_action_id a = act \<and> ap_evidence_hash a = ev \<and> ap_target_id a = tgt \<and>
          ap_expires_at a = af_clock s (af_ticks s) + af_ttl s)"
proof -
  let ?a = "\<lparr>ap_approval_id = i, ap_action_id = act, ap_target_id = tgt, ap_evidence_hash = ev,
     ap_requested_at = af_clock s (af_ticks s), ap_expires_at = af_clock s (af_ticks s) + af_ttl s,
     ap_status = APPR_PENDING, ap_approved_by = None, ap_approved_at = None\<rparr>"
  have s': "s' = s\<lparr>af_ticks := Suc (af_ticks s), af_approvals := AList.update i ?a (af_approvals s)\<rparr>"
    and r: "r = Inr ?a"
    using run by (simp_all add: request_approval_def read_clock_def put_approval_def bnd_apply Let_def)
  have "flow_inv s'" using s' by (intro flow_inv_put [OF inv, of ?a]) (simp_all add: approval_ok_def)
  moreover have "flow_evolves s s'" if none: "map_of (af_approvals s) i = None"
  proof -
    have "\<exists>y. map_of (af_approvals s') k = Some y \<and> evolves x y" if "map_of (af_approvals s) k = Some x" for k x
      using that none s' evolves_refl [of x] by (cases "k = i") (simp_all add: update_conv')
    then show ?thesis using s' by (simp add: flow_evolves_def)
  qed
  ultimately show ?thesis using r s' by (simp add: update_conv')
qed

lemma approve_spec:
  assumes "flow_inv s" and "approve i who s = (r, s')"
  shows "flow_inv s' \<and> flow_evolves s s' \<and>
     (\<forall>a. r = Inr a \<longrightarrow> map_of (af_approvals s') i = Some a \<and> ap_status a = APPR_APPROVED \<and>
        ap_approved_by a = Some who \<and>
        (\<exists>p. map_of (af_approvals s) i = Some p \<and> ap_status p = APPR_PENDING \<and>
             af_clock s (af_ticks s) < ap_expires_at p))"
proof (cases "map_of (af_approvals s) i")
  case None
  then show ?thesis using assms by (auto simp: approve_def get_approval_def bnd_apply flow_evolves_refl)
next
  case (Some a)
  with flow_inv_get [OF assms(1)] have id: "ap_approval_id a = i" and ok: "approval_ok a" by blast+
  have tick: "flow_evolves s (s\<lparr>af_ticks := n\<rparr>)" if "af_ticks s \<le> n" for n
    using that by (simp add: flow_evolves_def evolves_refl)
  have inv_tick: "flow_inv (s\<lparr>af_ticks := n\<rparr>)" for n using assms(1) by (simp add: flow_inv_def)
  consider "ap_expires_at a \<le> af_clock s (af_ticks s)"
    | "af_clock s (af_ticks s) < ap_expires_at a" "ap_status a \<noteq> APPR_PENDING"
    | "af_clock s (af_ticks s) < ap_expires_at a" "ap_status a = APPR_PENDING" by linarith
  then show ?thesis
  proof cases
    case 1
    let ?b = "a\<lparr>ap_status := APPR_EXPIRED\<rparr>"
    have s': "s' = s\<lparr>af_ticks := Suc (af_ticks s), af_approvals := AList.update i ?b (af_approvals s)\<rparr>"
      and r: "\<exists>e. r = Inl e"
      using assms(2) Some 1 by (auto simp: approve_def get_approval_def read_clock_def bnd_apply)
    have "evolves a ?b" by (cases "ap_status a") (simp_all add: evolves_def binding_def)
    then have "flow_evolves s s'" using Some s' id by (intro flow_evolves_put [of s ?b a]) auto
    moreover have "flow_inv s'" using s' id by (intro flow_inv_put [OF assms(1), of ?b]) (auto simp: approval_ok_def)
    ultimately show ?thesis using r by auto
  next
    case 2
    then have "s' = s\<lparr>af_ticks := Suc (af_ticks s)\<rparr>" "\<exists>e. r = Inl e"
      using assms(2) Some by (auto simp: approve_def get_approval_def read_clock_def bnd_apply)
    then show ?thesis using tick inv_tick by auto
  next
    case 3
    let ?b = "a\<lparr>ap_status := APPR_APPROVED, ap_approved_by := Some who,
                ap_approved_at := Some (af_clock s (Suc (af_ticks s)))\<rparr>"
    have s': "s' = s\<lparr>af_ticks := Suc (Suc (af_ticks s)), af_approvals := AList.update i ?b (af_approvals s)\<rparr>"
      and r: "r = Inr ?b"
      using assms(2) Some 3 by (auto simp: approve_def get_approval_def read_clock_def bnd_apply Let_def)
    have "evolves a ?b" using 3 by (simp add: evolves_def binding_def)
    then have "flow_evolves s s'" using Some s' id by (intro flow_evolves_put [of s ?b a]) auto
    moreover have "flow_inv s'" using s' id by (intro flow_inv_put [OF assms(1), of ?b]) (auto simp: approval_ok_def)
    ultimately show ?thesis using r s' Some 3 by (auto simp: update_conv')
  qed
qed


subsection \<open>The invalidation loop\<close>

definition ticked :: "nat \<Rightarrow> approval_flow \<Rightarrow> approval_flow" where
  "ticked n s = s\<lparr>af_ticks := n\<rparr>"

lemma invalidate_one_spec:
  assumes inv: "flow_inv s" and cur: "map_of (af_approvals s) (ap_approval_id a) = Some a"
    and run: "invalidate_one h a s = (r, s')"
  shows "flow_inv s' \<and> flow_evolves s s' \<and> r = Inr () \<and>
     (\<forall>j. j \<noteq> ap_approval_id a \<longrightarrow> map_of (af_approvals s') j = map_of (af_approvals s) j) \<and>
     (\<forall>b. map_of (af_approvals s') (ap_approval_id a) = Some b \<and> ap_status b = APPR_APPROVED \<longrightarrow>
        (\<exists>k. af_ticks s \<le> k \<and> k < af_ticks s' \<and> af_clock s k < ap_expires_at b))"
proof (cases "ap_status a = APPR_APPROVED")
  case False
  then show ?thesis using assms flow_evolves_refl by (auto simp: invalidate_one_def)
next
  case True
  let ?now = "af_clock s (af_ticks s)"
  have step: "flow_inv s' \<and> flow_evolves s s' \<and> r = Inr () \<and>
     (\<forall>j. j \<noteq> ap_approval_id a \<longrightarrow> map_of (af_approvals s') j = map_of (af_approvals s) j) \<and>
     map_of (af_approvals s') (ap_approval_id a) = Some b"
    if b: "b = a\<lparr>ap_status := st\<rparr>" "st \<in> {APPR_STALE, APPR_EXPIRED}"
      and out: "s' = s\<lparr>af_ticks := Suc (af_ticks s), af_approvals := AList.update (ap_approval_id a) b (af_approvals s)\<rparr>"
        "r = Inr ()" for b st
  proof -
    have 1: "ap_approval_id b = ap_approval_id a" "approval_ok b" using b by (auto simp: approval_ok_def)
    have ev: "evolves a b" using b True by (auto simp: evolves_def binding_def)
    have "flow_inv s'" using 1 out by (intro flow_inv_put [OF inv, of b]) simp_all
    moreover have "flow_evolves s s'" using cur 1 out by (intro flow_evolves_put [OF _ ev]) simp_all
    ultimately show ?thesis using out by (simp add: update_conv')
  qed
  consider "ap_expires_at a \<le> ?now" | "?now < ap_expires_at a" "ap_evidence_hash a \<noteq> h"
    | "?now < ap_expires_at a" "ap_evidence_hash a = h" by linarith
  then show ?thesis
  proof cases
    case 1
    let ?b = "a\<lparr>ap_status := APPR_EXPIRED\<rparr>"
    have "s' = s\<lparr>af_ticks := Suc (af_ticks s), af_approvals := AList.update (ap_approval_id a) ?b (af_approvals s)\<rparr>" "r = Inr ()"
      using run True 1 by (simp_all add: invalidate_one_def read_clock_def put_approval_def bnd_apply)
    then show ?thesis using step [of ?b APPR_EXPIRED] by simp
  next
    case 2
    let ?b = "a\<lparr>ap_status := APPR_STALE\<rparr>"
    have "s' = s\<lparr>af_ticks := Suc (af_ticks s), af_approvals := AList.update (ap_approval_id a) ?b (af_approvals s)\<rparr>" "r = Inr ()"
      using run True 2 by (simp_all add: invalidate_one_def read_clock_def put_approval_def bnd_apply)
    then show ?thesis using step [of ?b APPR_STALE] by simp
  next
    case 3
    have s': "s' = s\<lparr>af_ticks := Suc (af_ticks s)\<rparr>" and r: "r = Inr ()"
      using run True 3 by (simp_all add: invalidate_one_def read_clock_def put_approval_def bnd_apply)
    have "flow_inv s'" using inv s' by (simp add: flow_inv_def)
    moreover have "flow_evolves s s'" using s' by (simp add: flow_evolves_def evolves_refl)
    moreover have "af_clock s (af_ticks s) < ap_expires_at b"
      if "map_of (af_approvals s') (ap_approval_id a) = Some b" for b
      using that s' cur 3 by simp
    ultimately show ?thesis using s' r by (auto intro: exI [of _ "af_ticks s"])
  qed
qed

lemma invalidation_loop_spec:
  assumes "flow_inv s" and "distinct (map ap_approval_id as)"
    and "\<And>a. a \<in> set as \<Longrightarrow> map_of (af_approvals s) (ap_approval_id a) = Some a"
    and "for_each (invalidate_one h) as s = (r, s')"
  shows "flow_inv s' \<and> flow_evolves s s' \<and> r = Inr () \<and>
     (\<forall>j. j \<notin> ap_approval_id ` set as \<longrightarrow> map_of (af_approvals s') j = map_of (af_approvals s) j) \<and>
     (\<forall>a\<in>set as. \<forall>b. map_of (af_approvals s') (ap_approval_id a) = Some b \<and> ap_status b = APPR_APPROVED \<longrightarrow>
        (\<exists>k. af_ticks s \<le> k \<and> k < af_ticks s' \<and> af_clock s k < ap_expires_at b))"
  using assms
proof (induction as arbitrary: s)
  case (Cons a as)
  obtain r1 t where t: "invalidate_one h a s = (r1, t)" by fastforce
  have cur: "map_of (af_approvals s) (ap_approval_id a) = Some a" using Cons.prems(3) by simp
  note one = invalidate_one_spec [OF Cons.prems(1) cur t]
  have rest: "for_each (invalidate_one h) as t = (r, s')"
    using Cons.prems(4) t one by (simp add: bnd_apply)
  have "map_of (af_approvals t) (ap_approval_id x) = Some x" if "x \<in> set as" for x
  proof -
    have "ap_approval_id a \<notin> ap_approval_id ` set as" using Cons.prems(2) by simp
    then have "ap_approval_id x \<noteq> ap_approval_id a" using imageI [OF that, of ap_approval_id] by metis
    then show ?thesis using one Cons.prems(3) [of x] that by simp
  qed
  note IH = Cons.IH [OF conjunct1 [OF one] _ this rest]
  have d: "distinct (map ap_approval_id as)" and new: "ap_approval_id a \<notin> ap_approval_id ` set as"
    using Cons.prems(2) by simp_all
  note IH = IH [OF d]
  have ticks: "af_ticks s \<le> af_ticks t" "af_ticks t \<le> af_ticks s'" and clk: "af_clock t = af_clock s"
    using one IH by (simp_all add: flow_evolves_def)
  have "\<exists>k. af_ticks s \<le> k \<and> k < af_ticks s' \<and> af_clock s k < ap_expires_at b"
    if x: "x \<in> set (a # as)" and b: "map_of (af_approvals s') (ap_approval_id x) = Some b" "ap_status b = APPR_APPROVED" for x b
  proof (cases "x = a")
    case True
    then have "map_of (af_approvals t) (ap_approval_id a) = Some b" using b new IH by simp
    then obtain k where "af_ticks s \<le> k" "k < af_ticks t" "af_clock s k < ap_expires_at b"
      using one b(2) by blast
    then show ?thesis using ticks by (intro exI [of _ k]) simp
  next
    case False
    then have "x \<in> set as" using x by simp
    then obtain k where "af_ticks t \<le> k" "k < af_ticks s'" "af_clock t k < ap_expires_at b"
      using IH b by blast
    then show ?thesis using ticks clk by (intro exI [of _ k]) simp
  qed
  then show ?case using one IH flow_evolves_trans [of s t s'] by simp
qed (simp add: flow_evolves_refl)

lemma require_spec:
  assumes inv: "flow_inv s" and run: "require_current_approval act h tgt s = (r, s')"
  shows "flow_inv s' \<and> flow_evolves s s' \<and>
     (\<forall>a. r = Inr a \<longrightarrow> is_current act h tgt a \<and> ap_approved_by a \<noteq> None \<and>
        map_of (af_approvals s') (ap_approval_id a) = Some a \<and>
        (\<exists>k. af_ticks s \<le> k \<and> k < af_ticks s' \<and> af_clock s k < ap_expires_at a)) \<and>
     (\<forall>e. r = Inl e \<longrightarrow> e = ApprovalRequired (''current approval required for semi-autonomous action: '' @ act) \<and>
        (\<forall>(i, a)\<in>set (af_approvals s'). \<not> is_current act h tgt a))"
proof -
  let ?m = "filter (\<lambda>a. ap_action_id a = act) (map snd (af_approvals s))"
  have keys: "map ap_approval_id (map snd (af_approvals s)) = map fst (af_approvals s)"
    using inv unfolding flow_inv_def by (induction "af_approvals s") auto
  then have dist: "distinct (map ap_approval_id ?m)"
    using inv by (metis distinct_map_filter flow_inv_def)
  have cur: "map_of (af_approvals s) (ap_approval_id a) = Some a" if mem: "a \<in> set ?m" for a
  proof -
    obtain i where i: "(i, a) \<in> set (af_approvals s)" using mem by auto
    then have "map_of (af_approvals s) i = Some a" using inv by (simp add: flow_inv_def)
    then show ?thesis using flow_inv_get [OF inv] by metis
  qed
  obtain q t where t: "for_each (invalidate_one h) ?m s = (q, t)" by fastforce
  note loop = invalidation_loop_spec [OF inv dist cur t]
  have st: "s' = t" and r: "r = (case find (is_current act h tgt) (map snd (af_approvals t)) of
       Some a \<Rightarrow> Inr a
     | None \<Rightarrow> Inl (ApprovalRequired (''current approval required for semi-autonomous action: '' @ act)))"
    using run t loop by (auto simp: require_current_approval_def bnd_apply split: option.splits)
  have found: "is_current act h tgt a \<and> ap_approved_by a \<noteq> None \<and>
        map_of (af_approvals s') (ap_approval_id a) = Some a \<and>
        (\<exists>k. af_ticks s \<le> k \<and> k < af_ticks s' \<and> af_clock s k < ap_expires_at a)" if "r = Inr a" for a
  proof -
    have "find (is_current act h tgt) (map snd (af_approvals t)) = Some a"
      using that r by (auto split: option.splits)
    from find_SomeD [OF this] obtain i where i: "(i, a) \<in> set (af_approvals t)" and c: "is_current act h tgt a" by auto
    have m: "map_of (af_approvals t) i = Some a" using i loop by (simp add: flow_inv_def)
    have id: "ap_approval_id a = i" "approval_ok a" using flow_inv_get [of t] m loop by blast+
    have "i \<in> ap_approval_id ` set ?m"
    proof (rule ccontr)
      assume no: "i \<notin> ap_approval_id ` set ?m"
      then have "map_of (af_approvals s) i = Some a" using loop m by simp
      then have "(i, a) \<in> set (af_approvals s)" by (rule map_of_SomeD)
      moreover have "ap_action_id a = act" using c by (simp add: is_current_def)
      ultimately show False using no id by force
    qed
    then obtain x where x: "x \<in> set ?m" "i = ap_approval_id x" by blast
    have "\<exists>k. af_ticks s \<le> k \<and> k < af_ticks s' \<and> af_clock s k < ap_expires_at a"
      using loop x m c st unfolding is_current_def by blast
    then show ?thesis using c id m st by (simp add: is_current_def approval_ok_def)
  qed
  have missing: "e = ApprovalRequired (''current approval required for semi-autonomous action: '' @ act) \<and>
        (\<forall>(i, a)\<in>set (af_approvals s'). \<not> is_current act h tgt a)" if "r = Inl e" for e
    using that r st by (auto simp: find_None_iff_ball split: option.splits)
  show ?thesis using found missing loop st by blast
qed

subsection \<open>Sequences of calls\<close>

text \<open>
  One call on the flow. The identifier of a request is fresh, as those of \<open>uuid4\<close> are.
\<close>

inductive flow_step :: "approval_flow \<Rightarrow> approval_flow \<Rightarrow> bool" where
  flow_request: "map_of (af_approvals s) i = None \<Longrightarrow> flow_step s (snd (request_approval i act h tgt s))"
| flow_approve: "flow_step s (snd (approve i who s))"
| flow_require: "flow_step s (snd (require_current_approval act h tgt s))"

lemma flow_step_spec: "flow_step s s' \<Longrightarrow> flow_inv s \<Longrightarrow> flow_inv s' \<and> flow_evolves s s'"
proof (induction rule: flow_step.induct)
  case (flow_request s i act h tgt)
  then show ?case using request_spec [of s i act h tgt] by (cases "request_approval i act h tgt s") auto
next
  case (flow_approve s i who)
  then show ?case using approve_spec [of s i who] by (cases "approve i who s") auto
next
  case (flow_require s act h tgt)
  then show ?case using require_spec [of s act h tgt] by (cases "require_current_approval act h tgt s") auto
qed

lemma flow_steps_spec: "flow_step\<^sup>*\<^sup>* s s' \<Longrightarrow> flow_inv s \<Longrightarrow> flow_inv s' \<and> flow_evolves s s'"
proof (induction rule: rtranclp_induct)
  case base
  then show ?case by (simp add: flow_evolves_refl)
next
  case (step t u)
  then show ?case using flow_step_spec [of t u] flow_evolves_trans [of s t u] by simp
qed

lemma new_flow_inv: "new_flow ttl clock = Inr s \<Longrightarrow> flow_inv s"
  by (auto simp: new_flow_def flow_inv_def split: if_splits)

subsection \<open>Properties\<close>

text \<open>
  C16. Whatever calls were made on a new flow, an approval that \<open>require_current_approval\<close> returns
  is approved, by a named approver, for exactly the action, evidence hash and target asked for, and
  had not expired at an instant read during the call; when it raises, it raises
  \<open>ApprovalRequired\<close> and the flow holds no approval that would do.
\<close>

theorem required_approval_is_current:
  assumes "new_flow ttl clock = Inr s0" and "flow_step\<^sup>*\<^sup>* s0 s"
    and "require_current_approval act h tgt s = (r, s')"
  shows "case r of
      Inr a \<Rightarrow> ap_status a = APPR_APPROVED \<and> ap_approved_by a \<noteq> None \<and> ap_action_id a = act \<and>
        ap_evidence_hash a = h \<and> ap_target_id a = tgt \<and>
        (\<exists>k. af_ticks s \<le> k \<and> k < af_ticks s' \<and> clock k < ap_expires_at a)
    | Inl e \<Rightarrow> e = ApprovalRequired (''current approval required for semi-autonomous action: '' @ act) \<and>
        (\<forall>(i, a)\<in>set (af_approvals s'). \<not> is_current act h tgt a)"
proof -
  have steps: "flow_inv s" "flow_evolves s0 s"
    using flow_steps_spec [OF assms(2) new_flow_inv [OF assms(1)]] by simp_all
  then have "af_clock s = clock" using assms(1) by (auto simp: flow_evolves_def new_flow_def split: if_splits)
  then show ?thesis using require_spec [OF steps(1) assms(3)]
    by (auto simp: is_current_def split: sum.split)
qed

text \<open>
  An approval that was revoked, because it expired or because its evidence changed, stays
  revoked under every later sequence of calls, with its action, target, evidence and lifetime
  unchanged, and can never be approved again.
\<close>

theorem revoked_approval_stays_revoked:
  assumes "flow_inv s" and "map_of (af_approvals s) i = Some a"
    and "ap_status a \<in> {APPR_STALE, APPR_EXPIRED}" and "flow_step\<^sup>*\<^sup>* s s'"
  shows "\<exists>b. map_of (af_approvals s') i = Some b \<and> binding b = binding a \<and>
     ap_status b \<in> {APPR_STALE, APPR_EXPIRED} \<and> (\<forall>who. \<exists>e. fst (approve i who s') = Inl e)"
proof -
  have inv: "flow_inv s'" and ev: "flow_evolves s s'" using flow_steps_spec [OF assms(4,1)] by simp_all
  then obtain b where b: "map_of (af_approvals s') i = Some b" "evolves a b"
    using assms(2) unfolding flow_evolves_def by blast
  have st: "ap_status b \<in> {APPR_STALE, APPR_EXPIRED}"
    using b(2) assms(3) by (cases "ap_status b") (auto simp: evolves_def)
  have "\<exists>e. fst (approve i who s') = Inl e" for who
    using approve_spec [OF inv, of i who] b(1) st
    by (cases "approve i who s'"; cases "fst (approve i who s')") auto
  then show ?thesis using b st by (auto simp: evolves_def)
qed

definition demo_clock :: "nat \<Rightarrow> int" where
  "demo_clock k = int k * 10"

definition demo_flow :: approval_flow where
  "demo_flow = \<lparr>af_approvals = [], af_ttl = 100, af_clock = demo_clock, af_ticks = 0\<rparr>"

definition demo_approved :: approval_flow where
  "demo_approved = snd (approve ''a1'' ''dba'' (snd (request_approval ''a1'' ''act'' ''h'' ''t'' demo_flow)))"

lemma demo_flow_new: "new_flow 100 demo_clock = Inr demo_flow"
  by (simp add: new_flow_def demo_flow_def)

lemma demo_approved_reached: "flow_step\<^sup>*\<^sup>* demo_flow demo_approved"
proof -
  have 1: "flow_step demo_flow (snd (request_approval ''a1'' ''act'' ''h'' ''t'' demo_flow))"
    by (rule flow_request) (simp add: demo_flow_def)
  show ?thesis unfolding demo_approved_def
    using r_into_rtranclp [of flow_step, OF 1] flow_approve by (rule rtranclp.rtrancl_into_rtrancl)
qed

theorem required_approval_is_current_witness:
  "\<exists>a. fst (require_current_approval ''act'' ''h'' ''t'' demo_approved) = Inr a \<and>
     ap_status a = APPR_APPROVED \<and> ap_approved_by a \<noteq> None \<and> ap_evidence_hash a = ''h''"
proof -
  obtain r s' where run: "require_current_approval ''act'' ''h'' ''t'' demo_approved = (r, s')" by fastforce
  then have "\<exists>a. r = Inr a"
    using arg_cong [OF run, of fst] by (simp add: require_current_approval_def demo_approved_def demo_flow_def demo_clock_def approve_def
        request_approval_def get_approval_def read_clock_def put_approval_def invalidate_one_def is_current_def
        bnd_apply Let_def) blast
  then show ?thesis
    using required_approval_is_current [OF demo_flow_new demo_approved_reached run] run by auto
qed

definition demo_stale :: approval_flow where
  "demo_stale = snd (require_current_approval ''act'' ''h2'' ''t'' demo_approved)"

theorem revoked_approval_stays_revoked_witness:
  "\<exists>a. map_of (af_approvals demo_stale) ''a1'' = Some a \<and> ap_status a \<in> {APPR_STALE, APPR_EXPIRED} \<and>
     (\<exists>e. fst (approve ''a1'' ''dba'' demo_stale) = Inl e)"
proof -
  have "flow_step\<^sup>*\<^sup>* demo_flow demo_stale"
    unfolding demo_stale_def
    by (rule rtranclp.rtrancl_into_rtrancl [OF demo_approved_reached flow_require])
  then have inv: "flow_inv demo_stale"
    using flow_steps_spec new_flow_inv [OF demo_flow_new] by blast
  obtain a where a: "map_of (af_approvals demo_stale) ''a1'' = Some a" "ap_status a = APPR_STALE"
    by (simp add: demo_stale_def require_current_approval_def demo_approved_def demo_flow_def demo_clock_def approve_def
        request_approval_def get_approval_def read_clock_def put_approval_def invalidate_one_def is_current_def
        bnd_apply Let_def)
  from a have "ap_status a \<in> {APPR_STALE, APPR_EXPIRED}" by simp
  from revoked_approval_stays_revoked [OF inv a(1) this rtranclp.rtrancl_refl] a show ?thesis by auto
qed

end
