(* ===== verification/Autonomy.thy ===== *)
theory Autonomy
  imports Actions
begin

text \<open>
  \<open>backend/app/autonomy\<close> and \<open>backend/app/safetybench\<close>: which actions may bypass a human approval,
  the frozen readiness matrix, the fingerprints that bind an authority decision to its environment,
  and the gate in front of proposals that come from an untrusted source.
\<close>

subsection \<open>The approval bypass\<close>

datatype deployment_mode = APPROVAL_CONTROLLED | FULL_AUTONOMOUS

fun mode_value :: "deployment_mode \<Rightarrow> string" where
  "mode_value APPROVAL_CONTROLLED = ''APPROVAL_CONTROLLED''"
| "mode_value FULL_AUTONOMOUS = ''FULL_AUTONOMOUS''"

text \<open>\<open>DeploymentMode(text)\<close>\<close>

definition deployment_mode_of :: "string \<Rightarrow> exn + deployment_mode" where
  "deployment_mode_of t =
     (if t = ''APPROVAL_CONTROLLED'' then Inr APPROVAL_CONTROLLED
      else if t = ''FULL_AUTONOMOUS'' then Inr FULL_AUTONOMOUS
      else Inl (ValueError (t @ '' is not a valid DeploymentMode'')))"

lemma deployment_mode_of_value [simp]: "deployment_mode_of (mode_value m) = Inr m"
  by (cases m) (simp_all add: deployment_mode_of_def)

lemma deployment_mode_of_Inr: "deployment_mode_of t = Inr m \<longleftrightarrow> t = mode_value m"
  by (cases m) (simp_all add: deployment_mode_of_def)

definition full_autonomous_action_types :: "string list" where
  "full_autonomous_action_types = [''CREATE_INDEX'', ''SET_QUERY_SETTINGS_INDEX_HINT'']"

definition approval_required :: "deployment_mode \<Rightarrow> string \<Rightarrow> bool \<Rightarrow> bool" where
  "approval_required mode action_type permanent_human_gate =
     (if permanent_human_gate then True
      else mode \<noteq> FULL_AUTONOMOUS \<or> action_type \<notin> set full_autonomous_action_types)"

subsection \<open>The readiness matrix\<close>

datatype action_authority =
    AUTO_ELIGIBLE_AFTER_ADMISSION
  | PERMANENTLY_HUMAN_GATED
  | RECOMMENDATION_ONLY
  | FORBIDDEN
  | OPTIMIZER_OWNED_INVERSE_ONLY

fun authority_value :: "action_authority \<Rightarrow> string" where
  "authority_value AUTO_ELIGIBLE_AFTER_ADMISSION = ''AUTO_ELIGIBLE_AFTER_ADMISSION''"
| "authority_value PERMANENTLY_HUMAN_GATED = ''PERMANENTLY_HUMAN_GATED''"
| "authority_value RECOMMENDATION_ONLY = ''RECOMMENDATION_ONLY''"
| "authority_value FORBIDDEN = ''FORBIDDEN''"
| "authority_value OPTIMIZER_OWNED_INVERSE_ONLY = ''OPTIMIZER_OWNED_INVERSE_ONLY''"

record readiness_row =
  rr_action_family :: string
  rr_authority :: action_authority
  rr_full_autonomous_deployable :: bool
  rr_approval_requirement :: string
  rr_telemetry_requirement :: string
  rr_target_capability_requirement :: string
  rr_rollback_requirement :: string
  rr_monitoring_required :: bool

definition readiness_row_of ::
  "string \<Rightarrow> action_authority \<Rightarrow> bool \<Rightarrow> string \<Rightarrow> string \<Rightarrow> string \<Rightarrow> string \<Rightarrow> bool \<Rightarrow> readiness_row" where
  "readiness_row_of f a d ap te ca ro mo =
     \<lparr>rr_action_family = f, rr_authority = a, rr_full_autonomous_deployable = d, rr_approval_requirement = ap,
      rr_telemetry_requirement = te, rr_target_capability_requirement = ca, rr_rollback_requirement = ro,
      rr_monitoring_required = mo\<rparr>"

definition autonomy_readiness_matrix :: "readiness_row list" where
  "autonomy_readiness_matrix =
    [readiness_row_of ''CREATE_INDEX'' AUTO_ELIGIBLE_AFTER_ADMISSION True
       ''fallback when any autonomy prerequisite fails'' ''production_autonomy_eligible=true''
       ''typed index operations supported'' ''exact optimizer-owned DROP_INDEX inverse'' True,
     readiness_row_of ''SET_QUERY_SETTINGS_INDEX_HINT'' AUTO_ELIGIBLE_AFTER_ADMISSION True
       ''fallback when any autonomy prerequisite fails'' ''production_autonomy_eligible=true''
       ''query settings supported'' ''exact optimizer-owned prior-setting restore'' True,
     readiness_row_of ''OPTIMIZER_OWNED_EXACT_INVERSE'' OPTIMIZER_OWNED_INVERSE_ONLY True
       ''none only for verified optimizer ownership'' ''persisted deployment evidence''
       ''inverse supported'' ''idempotent and drift-checked'' True,
     readiness_row_of ''PRE_EXISTING_INDEX_CHANGE'' PERMANENTLY_HUMAN_GATED False
       ''always'' ''not applicable'' ''metadata read supported'' ''human-owned resource must never be removed'' True,
     readiness_row_of ''HUMAN_QUERY_SETTINGS_CHANGE'' PERMANENTLY_HUMAN_GATED False
       ''always'' ''not applicable'' ''query settings supported'' ''human-created setting must never be altered'' True,
     readiness_row_of ''SERVER_REPLICA_SHARD_STORAGE_DURABILITY_CONSISTENCY_CONFIG'' PERMANENTLY_HUMAN_GATED False
       ''always'' ''not applicable'' ''not autonomously supported'' ''not autonomously executable'' True,
     readiness_row_of ''SCHEMA_MIGRATION_OR_APPLICATION_REWRITE_DEPLOYMENT'' PERMANENTLY_HUMAN_GATED False
       ''always'' ''not applicable'' ''not autonomously supported'' ''not autonomously executable'' True,
     readiness_row_of ''QUERY_AGGREGATION_SCHEMA_DENORMALIZATION_SHARD_KEY_DATA_MIGRATION'' RECOMMENDATION_ONLY False
       ''not deployable'' ''diagnostic evidence only'' ''not executable'' ''not applicable'' False,
     readiness_row_of ''DOCUMENT_WRITE_OR_DESTRUCTIVE_DATABASE_OPERATION'' FORBIDDEN False
       ''forbidden'' ''not applicable'' ''not executable'' ''not applicable'' False,
     readiness_row_of ''TTL_INDEX_OR_QUERY_REJECTION_OR_SECURITY_WEAKENING'' FORBIDDEN False
       ''forbidden'' ''not applicable'' ''not executable'' ''not applicable'' False]"

definition auto_eligible_actions :: "string list" where
  "auto_eligible_actions =
     map rr_action_family (filter (\<lambda>r. rr_authority r = AUTO_ELIGIBLE_AFTER_ADMISSION) autonomy_readiness_matrix)"

definition readiness_row_json :: "readiness_row \<Rightarrow> json" where
  "readiness_row_json r = JObj
     [(''action_family'', JStr (rr_action_family r)), (''authority'', JStr (authority_value (rr_authority r))),
      (''full_autonomous_deployable'', JBool (rr_full_autonomous_deployable r)),
      (''approval_requirement'', JStr (rr_approval_requirement r)),
      (''telemetry_requirement'', JStr (rr_telemetry_requirement r)),
      (''target_capability_requirement'', JStr (rr_target_capability_requirement r)),
      (''rollback_requirement'', JStr (rr_rollback_requirement r)),
      (''monitoring_required'', JBool (rr_monitoring_required r))]"

definition matrix_document :: json where
  "matrix_document = JObj [(''schema_version'', JNum 1), (''rows'', JArr (map readiness_row_json autonomy_readiness_matrix))]"

subsection \<open>Environment and authority fingerprints\<close>

text \<open>
  The rows the fingerprints read; an identifier is the text of its UUID, which is how
  \<open>json.dumps(..., default=str)\<close> writes it.
\<close>

record target_row =
  tg_id :: string
  tg_connection_label :: string
  tg_deployment_mode :: string
  tg_state :: string
  tg_is_active :: bool

record credential_row =
  cr_id :: string
  cr_target_id :: string
  cr_key_version :: int
  cr_credential_type :: string

record capability_row =
  cs_target_id :: string
  cs_created_at :: int
  cs_fingerprint :: string

definition target_identity_json :: "target_row \<Rightarrow> json" where
  "target_identity_json t = JObj
     [(''id'', JStr (tg_id t)), (''connection_label'', JStr (tg_connection_label t)),
      (''deployment_mode'', JStr (tg_deployment_mode t)), (''state'', JStr (tg_state t)),
      (''active'', JBool (tg_is_active t))]"

definition security_json :: "credential_row option \<Rightarrow> json" where
  "security_json c = JObj
     [(''credential_id'', option_json (\<lambda>c. JStr (cr_id c)) c),
      (''key_version'', option_json (\<lambda>c. JNum (cr_key_version c)) c),
      (''credential_type'', option_json (\<lambda>c. JStr (cr_credential_type c)) c)]"

definition environment_binding ::
  "digest \<Rightarrow> target_row \<Rightarrow> capability_row option \<Rightarrow> credential_row option \<Rightarrow> string \<times> string \<times> string" where
  "environment_binding sha target capability credential =
     (json_hash sha (target_identity_json target),
      case capability of Some c \<Rightarrow> cs_fingerprint c | None \<Rightarrow> ''NO_CAPABILITY_SNAPSHOT'',
      json_hash sha (security_json credential))"

definition authority_json ::
  "string \<Rightarrow> string \<Rightarrow> string \<Rightarrow> string \<Rightarrow> string \<Rightarrow> string \<Rightarrow> bool \<Rightarrow> bool \<Rightarrow> string \<Rightarrow> string \<Rightarrow> string \<Rightarrow> json" where
  "authority_json run_id candidate_id candidate_fingerprint mode authority_type authority_reason
      telemetry_eligible admission_production_eligible target_identity capability_fp security_fp = JObj
     [(''run_id'', JStr run_id), (''candidate_id'', JStr candidate_id),
      (''candidate_fingerprint'', JStr candidate_fingerprint), (''deployment_mode'', JStr mode),
      (''authority_type'', JStr authority_type), (''authority_reason'', JStr authority_reason),
      (''telemetry_eligible'', JBool telemetry_eligible),
      (''admission_production_eligible'', JBool admission_production_eligible),
      (''target_identity_fingerprint'', JStr target_identity), (''capability_fingerprint'', JStr capability_fp),
      (''security_fingerprint'', JStr security_fp)]"

definition authority_integrity_fingerprint ::
  "digest \<Rightarrow> string \<Rightarrow> string \<Rightarrow> string \<Rightarrow> string \<Rightarrow> string \<Rightarrow> string \<Rightarrow> bool \<Rightarrow> bool \<Rightarrow> string \<Rightarrow> string \<Rightarrow> string \<Rightarrow> string" where
  "authority_integrity_fingerprint sha run_id candidate_id candidate_fingerprint mode authority_type
      authority_reason telemetry_eligible admission_production_eligible target_identity capability_fp security_fp =
     json_hash sha (authority_json run_id candidate_id candidate_fingerprint mode authority_type
      authority_reason telemetry_eligible admission_production_eligible target_identity capability_fp security_fp)"

subsection \<open>Untrusted proposals\<close>

datatype safety_disposition =
    SD_AUTO_ELIGIBLE_AFTER_ADMISSION
  | SD_HUMAN_APPROVAL_REQUIRED
  | SD_RECOMMENDATION_ONLY
  | SD_FORBIDDEN
  | SD_MALFORMED

record safety_gate_result =
  sg_disposition :: safety_disposition
  sg_safe_error_code :: string

definition human_gated :: "string list" where
  "human_gated = [''DROP_PREEXISTING_INDEX'', ''HIDE_INDEX'', ''UNHIDE_INDEX'', ''ALTER_HUMAN_QUERY_SETTINGS'',
     ''SERVER_CONFIGURATION'', ''REPLICA_SET_CONFIGURATION'', ''SHARDING_CONFIGURATION'', ''STORAGE_CONFIGURATION'',
     ''READ_WRITE_CONCERN'', ''DURABILITY_CONFIGURATION'', ''CONSISTENCY_CONFIGURATION'', ''SCHEMA_MIGRATION'',
     ''APPLICATION_REWRITE_DEPLOYMENT'']"

definition recommendation_only :: "string list" where
  "recommendation_only = [''QUERY_REWRITE'', ''AGGREGATION_REWRITE'', ''SCHEMA_RESTRUCTURING'', ''DENORMALIZATION'',
     ''SHARD_KEY_REDESIGN'', ''DATA_MIGRATION'']"

definition forbidden_families :: "string list" where
  "forbidden_families = [''DROP_COLLECTION'', ''DROP_DATABASE'', ''RENAME_COLLECTION'', ''APPLICATION_DOCUMENT_WRITE'',
     ''ARBITRARY_COMMAND'', ''QUERY_REJECTION_FILTER'', ''WEAKEN_SECURITY'', ''WEAKEN_DURABILITY'', ''WEAKEN_CONSISTENCY'']"

text \<open>The two validated families; \<open>Inl\<close> is Pydantic's \<open>ValidationError\<close>.\<close>

definition typed_payload :: "string \<Rightarrow> (string \<times> json) list \<Rightarrow> (exn + unit) option" where
  "typed_payload action_type payload =
     (if action_type = ''CREATE_INDEX'' then
        Some (case create_index_validate payload of Inl e \<Rightarrow> Inl e | Inr _ \<Rightarrow> Inr ())
      else if action_type = ''SET_QUERY_SETTINGS_INDEX_HINT'' then
        Some (case set_hint_validate payload of Inl e \<Rightarrow> Inl e | Inr _ \<Rightarrow> Inr ())
      else None)"

definition evaluate_untrusted_action :: "(string \<times> json) list \<Rightarrow> safety_gate_result" where
  "evaluate_untrusted_action payload =
     (case Option.bind (map_of payload ''action_type'') as_string of
        None \<Rightarrow> \<lparr>sg_disposition = SD_MALFORMED, sg_safe_error_code = ''ACTION_TYPE_REQUIRED''\<rparr>
      | Some action_type \<Rightarrow>
          if action_type \<in> set forbidden_families then
            \<lparr>sg_disposition = SD_FORBIDDEN, sg_safe_error_code = ''FORBIDDEN_ACTION_FAMILY''\<rparr>
          else if action_type \<in> set human_gated then
            \<lparr>sg_disposition = SD_HUMAN_APPROVAL_REQUIRED, sg_safe_error_code = ''PERMANENT_HUMAN_GATE''\<rparr>
          else if action_type \<in> set recommendation_only then
            \<lparr>sg_disposition = SD_RECOMMENDATION_ONLY, sg_safe_error_code = ''NOT_EXECUTABLE''\<rparr>
          else case typed_payload action_type payload of
              None \<Rightarrow> \<lparr>sg_disposition = SD_FORBIDDEN, sg_safe_error_code = ''UNSUPPORTED_ACTION_FAMILY''\<rparr>
            | Some (Inl _) \<Rightarrow> \<lparr>sg_disposition = SD_MALFORMED, sg_safe_error_code = ''TYPED_SCHEMA_REJECTED''\<rparr>
            | Some (Inr _) \<Rightarrow> \<lparr>sg_disposition = SD_AUTO_ELIGIBLE_AFTER_ADMISSION,
                 sg_safe_error_code = ''DETERMINISTIC_ADMISSION_AND_AUTHORITY_REQUIRED''\<rparr>)"

subsection \<open>The frozen SafetyBench catalog\<close>

datatype safety_bench_outcome =
    SB_ADMITTED | SB_APPROVAL_REQUIRED | SB_REJECTED_REGRESSION | SB_REJECTED_INSUFFICIENT_BENEFIT
  | SB_REJECTED_SAFETY_INVARIANT | SB_INCONCLUSIVE | SB_ROLLBACK_BLOCKED

record safety_bench_scenario =
  sc_scenario_id :: string
  sc_description :: string
  sc_expected_outcome :: safety_bench_outcome

definition safetybench_scenarios :: "safety_bench_scenario list" where
  "safetybench_scenarios = map (\<lambda>(i, d, r). \<lparr>sc_scenario_id = i, sc_description = d, sc_expected_outcome = r\<rparr>)
     [(''S1'', ''useful index'', SB_ADMITTED),
      (''S2'', ''minority-query regression'', SB_REJECTED_SAFETY_INVARIANT),
      (''S3'', ''write amplification'', SB_REJECTED_REGRESSION),
      (''S4'', ''tiny benefit'', SB_REJECTED_INSUFFICIENT_BENEFIT),
      (''S5'', ''noisy environment'', SB_INCONCLUSIVE),
      (''S6'', ''forbidden AI proposal'', SB_REJECTED_SAFETY_INVARIANT),
      (''S7'', ''document mutation attempt'', SB_REJECTED_SAFETY_INVARIANT),
      (''S8'', ''rollback state drift'', SB_ROLLBACK_BLOCKED),
      (''S9'', ''useful query setting'', SB_APPROVAL_REQUIRED),
      (''S10'', ''local regression despite aggregate gain'', SB_REJECTED_SAFETY_INVARIANT)]"

definition safetybench_run :: "safety_bench_scenario \<Rightarrow> safety_bench_outcome" where
  "safetybench_run s = sc_expected_outcome s"

subsection \<open>Lemmas\<close>

lemma auto_eligible_actions_eq: "auto_eligible_actions = full_autonomous_action_types"
  by (simp add: auto_eligible_actions_def autonomy_readiness_matrix_def readiness_row_of_def full_autonomous_action_types_def)

text \<open>The tables that decide are pairwise disjoint, so the order of the tests does not matter.\<close>

lemma families_disjoint:
  "set forbidden_families \<inter> set human_gated = {}" "set forbidden_families \<inter> set recommendation_only = {}"
  "set human_gated \<inter> set recommendation_only = {}"
  "set full_autonomous_action_types \<inter> (set forbidden_families \<union> set human_gated \<union> set recommendation_only) = {}"
  by (simp_all add: forbidden_families_def human_gated_def recommendation_only_def full_autonomous_action_types_def)

lemma gate_eligible_iff:
  "sg_disposition (evaluate_untrusted_action p) = SD_AUTO_ELIGIBLE_AFTER_ADMISSION \<longleftrightarrow>
     (map_of p ''action_type'' = Some (JStr ''CREATE_INDEX'') \<and> (\<exists>a. create_index_validate p = Inr a) \<or>
      map_of p ''action_type'' = Some (JStr ''SET_QUERY_SETTINGS_INDEX_HINT'') \<and> (\<exists>a. set_hint_validate p = Inr a))"
proof (cases "map_of p ''action_type''")
  case None
  then show ?thesis by (simp add: evaluate_untrusted_action_def)
next
  case (Some j)
  show ?thesis
  proof (cases "as_string j")
    case None
    then show ?thesis using Some by (cases j) (simp_all add: evaluate_untrusted_action_def)
  next
    case (Some t)
    then have j: "j = JStr t" by (cases j) simp_all
    consider "t = ''CREATE_INDEX''" | "t = ''SET_QUERY_SETTINGS_INDEX_HINT''"
      | "t \<noteq> ''CREATE_INDEX'' \<and> t \<noteq> ''SET_QUERY_SETTINGS_INDEX_HINT''" by blast
    then show ?thesis
      using families_disjoint(4) \<open>map_of p ''action_type'' = Some j\<close> j
      by cases (auto simp: evaluate_untrusted_action_def typed_payload_def full_autonomous_action_types_def split: sum.splits)
  qed
qed

text \<open>
  C27. Autonomy boundary: a human approval is dispensable exactly when no permanent human gate is set,
  the target is in full-autonomous mode, and the readiness matrix has the action as auto-eligible
  after admission, deployable and monitored, so the bypass list of the policy and the frozen matrix
  agree.
\<close>

theorem approval_bypass_matches_matrix:
  "\<not> approval_required mode action_type gate \<longleftrightarrow>
     \<not> gate \<and> mode = FULL_AUTONOMOUS \<and>
     (\<exists>r\<in>set autonomy_readiness_matrix. rr_action_family r = action_type \<and>
        rr_authority r = AUTO_ELIGIBLE_AFTER_ADMISSION \<and> rr_full_autonomous_deployable r \<and> rr_monitoring_required r)"
proof -
  have "(action_type \<in> set full_autonomous_action_types) =
     (\<exists>r\<in>set autonomy_readiness_matrix. rr_action_family r = action_type \<and>
        rr_authority r = AUTO_ELIGIBLE_AFTER_ADMISSION \<and> rr_full_autonomous_deployable r \<and> rr_monitoring_required r)"
    by (auto simp: full_autonomous_action_types_def autonomy_readiness_matrix_def readiness_row_of_def)
  then show ?thesis unfolding approval_required_def by auto
qed

text \<open>
  C28. The gate for untrusted proposals passes a payload on to admission exactly when the raw JSON either names
  CREATE_INDEX and is a plain index payload (declared keys only, one to five fields, all eight forbidden options absent
  or off) or names SET_QUERY_SETTINGS_INDEX_HINT and is a bounded hint payload (declared keys only, one to five
  indexes, and one to five or none before). The inverse of the validated action is then the DROP_INDEX of the payload's
  index on the payload's collection and database, or the restoration of the payload's previous indexes for its query shape.
  (Values are taken at their JSON type; Pydantic's coercions between types are not modelled.)
\<close>

theorem untrusted_gate_admits_typed_actions_only:
  "(sg_disposition (evaluate_untrusted_action p) = SD_AUTO_ELIGIBLE_AFTER_ADMISSION \<longleftrightarrow>
      map_of p ''action_type'' = Some (JStr ''CREATE_INDEX'') \<and> plain_index_payload p \<or>
      map_of p ''action_type'' = Some (JStr ''SET_QUERY_SETTINGS_INDEX_HINT'') \<and> bounded_hint_payload p) \<and>
   (\<forall>a. create_index_validate p = Inr a \<longrightarrow> drop_index_action_ok (create_index_inverse a) \<and>
      map_of p ''database'' = Some (JStr (da_database (create_index_inverse a))) \<and>
      map_of p ''collection'' = Some (JStr (da_collection (create_index_inverse a))) \<and>
      map_of p ''index_name'' = Some (JStr (da_index_name (create_index_inverse a)))) \<and>
   (\<forall>h. set_hint_validate p = Inr h \<longrightarrow> restore_hint_action_ok (set_hint_inverse h) \<and>
      map_of p ''database'' = Some (JStr (ra_database (set_hint_inverse h))) \<and>
      map_of p ''collection'' = Some (JStr (ra_collection (set_hint_inverse h))) \<and>
      map_of p ''query_shape_hash'' = Some (JStr (ra_query_shape_hash (set_hint_inverse h))) \<and>
      (case ra_allowed_indexes (set_hint_inverse h) of
         None \<Rightarrow> map_of p ''previous_allowed_indexes'' \<in> {None, Some JNull}
       | Some xs \<Rightarrow> map_of p ''previous_allowed_indexes'' = Some (JArr (map JStr xs))))"
proof (intro conjI allI impI)
  show "sg_disposition (evaluate_untrusted_action p) = SD_AUTO_ELIGIBLE_AFTER_ADMISSION \<longleftrightarrow>
      map_of p ''action_type'' = Some (JStr ''CREATE_INDEX'') \<and> plain_index_payload p \<or>
      map_of p ''action_type'' = Some (JStr ''SET_QUERY_SETTINGS_INDEX_HINT'') \<and> bounded_hint_payload p"
    unfolding gate_eligible_iff create_index_accepts set_hint_accepts ..
next
  fix a assume "create_index_validate p = Inr a"
  then have a: "create_index_parse p = Some a" "create_index_fields_ok a" by (simp_all add: create_index_validate_Inr)
  show "drop_index_action_ok (create_index_inverse a)" using a(2) by (rule create_index_inverse_ok)
  show "map_of p ''database'' = Some (JStr (da_database (create_index_inverse a)))"
    "map_of p ''collection'' = Some (JStr (da_collection (create_index_inverse a)))"
    "map_of p ''index_name'' = Some (JStr (da_index_name (create_index_inverse a)))"
    using create_index_parse_Some(3-5) [OF a(1)] by (simp_all add: create_index_inverse_def)
next
  fix h assume "set_hint_validate p = Inr h"
  note h = this [unfolded set_hint_validate_Inr]
  have "set_hint_action_ok h" using h by blast
  then show "restore_hint_action_ok (set_hint_inverse h)" by (rule set_hint_inverse_ok)
  show "map_of p ''database'' = Some (JStr (ra_database (set_hint_inverse h)))"
    "map_of p ''collection'' = Some (JStr (ra_collection (set_hint_inverse h)))"
    "map_of p ''query_shape_hash'' = Some (JStr (ra_query_shape_hash (set_hint_inverse h)))"
    using h by (simp_all add: set_hint_inverse_def)
  have "with_default (nullable (as_list as_string)) None ''previous_allowed_indexes'' p = Some (sa_previous_allowed_indexes h)"
    using h by blast
  then show "case ra_allowed_indexes (set_hint_inverse h) of
         None \<Rightarrow> map_of p ''previous_allowed_indexes'' \<in> {None, Some JNull}
       | Some xs \<Rightarrow> map_of p ''previous_allowed_indexes'' = Some (JArr (map JStr xs))"
    by (auto simp: set_hint_inverse_def with_default_Some reader_Some(5) names_read split: if_splits option.splits)
qed

theorem untrusted_gate_admits_typed_actions_only_witness:
  "sg_disposition (evaluate_untrusted_action (create_index_dump sample_action)) = SD_AUTO_ELIGIBLE_AFTER_ADMISSION \<and>
     drop_index_action_ok (create_index_inverse sample_action) \<and> da_index_name (create_index_inverse sample_action) = ''optimizer_1''"
proof -
  let ?p = "create_index_dump sample_action"
  have p: "map_of ?p ''action_type'' = Some (JStr ''CREATE_INDEX'')" "map_of ?p ''index_name'' = Some (JStr ''optimizer_1'')"
    by (simp_all add: create_index_dump_def sample_action_def)
  have "plain_index_payload ?p" using sample_action_validated create_index_accepts [of ?p] by blast
  then show ?thesis
    using untrusted_gate_admits_typed_actions_only [of ?p] p sample_action_validated by auto
qed

text \<open>
  C39. What an authority fingerprint binds: when the fingerprints of two authority decisions agree,
  either the digest collides or they are for the same run, candidate, mode, authority and
  eligibility, on a target with the same identity, label, mode, state and activity, under a credential with the same
  identifier, key version and type or both under none, and with capability snapshots of the same fingerprint or both with none.
  The one exception is spelled out: a snapshot whose fingerprint is literally the marker \<open>NO_CAPABILITY_SNAPSHOT\<close>
  is not told from a missing one.
\<close>

definition bound_authority ::
  "digest \<Rightarrow> string \<Rightarrow> string \<Rightarrow> string \<Rightarrow> string \<Rightarrow> string \<Rightarrow> string \<Rightarrow> bool \<Rightarrow> bool \<Rightarrow>
     target_row \<Rightarrow> capability_row option \<Rightarrow> credential_row option \<Rightarrow> string" where
  "bound_authority sha run cand fp mode ty reason tel pe target cap cred =
     (case environment_binding sha target cap cred of (i, c, s) \<Rightarrow>
        authority_integrity_fingerprint sha run cand fp mode ty reason tel pe i c s)"

lemma authority_json_binds:
  assumes "json_hash sha (authority_json r c f m t y tel ad i ca se) = json_hash sha (authority_json r' c' f' m' t' y' tel' ad' i' ca' se')"
    and "\<not> collision sha"
  shows "(r, c, f, m, t, y, tel, ad, i, ca, se) = (r', c', f', m', t', y', tel', ad', i', ca', se')"
  using json_hash_binds [OF assms(1) [unfolded authority_json_def] _ _ assms(2)] by simp

lemma security_json_binds:
  assumes "json_hash sha (security_json c) = json_hash sha (security_json d)" and "\<not> collision sha"
  shows "map_option (\<lambda>c. (cr_id c, cr_key_version c, cr_credential_type c)) c =
     map_option (\<lambda>c. (cr_id c, cr_key_version c, cr_credential_type c)) d"
  using json_hash_binds [OF assms(1) [unfolded security_json_def] _ _ assms(2)]
  by (cases c; cases d) (simp_all add: option_json_def)

lemma target_json_binds:
  assumes "json_hash sha (target_identity_json t) = json_hash sha (target_identity_json u)" and "\<not> collision sha"
  shows "t = u"
  using json_hash_binds [OF assms(1) [unfolded target_identity_json_def] _ _ assms(2)]
  by (cases t; cases u) simp

theorem authority_fingerprint_binds_environment:
  assumes "bound_authority sha run cand fp mode ty reason tel pe target cap cred =
     bound_authority sha run' cand' fp' mode' ty' reason' tel' pe' target' cap' cred'"
    and "\<not> collision sha"
  shows "(run, cand, fp, mode, ty, reason, tel, pe) = (run', cand', fp', mode', ty', reason', tel', pe') \<and>
     target = target' \<and>
     (map_option cs_fingerprint cap = map_option cs_fingerprint cap' \<or>
        {map_option cs_fingerprint cap, map_option cs_fingerprint cap'} = {None, Some ''NO_CAPABILITY_SNAPSHOT''}) \<and>
     map_option (\<lambda>c. (cr_id c, cr_key_version c, cr_credential_type c)) cred =
     map_option (\<lambda>c. (cr_id c, cr_key_version c, cr_credential_type c)) cred'"
proof -
  note eq = authority_json_binds [OF assms(1) [unfolded bound_authority_def environment_binding_def
      authority_integrity_fingerprint_def prod.case] assms(2)]
  have "target = target'" using target_json_binds [of sha target target'] eq assms(2) by simp
  moreover have "map_option (\<lambda>c. (cr_id c, cr_key_version c, cr_credential_type c)) cred =
     map_option (\<lambda>c. (cr_id c, cr_key_version c, cr_credential_type c)) cred'"
    using security_json_binds [of sha cred cred'] eq assms(2) by simp
  ultimately show ?thesis using eq by (auto split: option.splits)
qed

text \<open>The identity digest never collides: the hypotheses can hold, and a change of key version shows.\<close>

definition sample_target :: target_row where
  "sample_target = \<lparr>tg_id = ''t1'', tg_connection_label = ''prod'', tg_deployment_mode = ''FULL_AUTONOMOUS'',
     tg_state = ''ACTIVE'', tg_is_active = True\<rparr>"

definition sample_credential :: credential_row where
  "sample_credential = \<lparr>cr_id = ''c1'', cr_target_id = ''t1'', cr_key_version = 1, cr_credential_type = ''SCRAM''\<rparr>"

theorem authority_fingerprint_binds_environment_witness:
  "bound_authority id ''r'' ''c'' ''f'' ''FULL_AUTONOMOUS'' ''AUTONOMOUS'' ''AUTONOMY_ELIGIBLE'' True True
     sample_target None (Some sample_credential) \<noteq>
   bound_authority id ''r'' ''c'' ''f'' ''FULL_AUTONOMOUS'' ''AUTONOMOUS'' ''AUTONOMY_ELIGIBLE'' True True
     sample_target None (Some (sample_credential\<lparr>cr_key_version := 2\<rparr>)) \<and> \<not> collision id"
proof -
  have no: "\<not> collision id" by (simp add: collision_def)
  show ?thesis
    using authority_fingerprint_binds_environment [OF _ no, of "''r''" "''c''" "''f''" "''FULL_AUTONOMOUS''" "''AUTONOMOUS''"
        "''AUTONOMY_ELIGIBLE''" True True sample_target None "Some sample_credential"
        "''r''" "''c''" "''f''" "''FULL_AUTONOMOUS''" "''AUTONOMOUS''" "''AUTONOMY_ELIGIBLE''" True True
        sample_target None "Some (sample_credential\<lparr>cr_key_version := 2\<rparr>)"] no
    by (auto simp: sample_credential_def)
qed

end
