(* ===== verification/Admission.thy ===== *)
theory Admission
  imports Json Complex_Main
begin

text \<open>
  \<open>backend/app/admission\<close>: the frozen profiles and the paired-bootstrap admission engine. Floating
  point numbers are reals, so rounding is not modelled; an observation that is NaN or infinite is
  the constructor \<open>NotFinite\<close>. NumPy is not part of the repository: its generator and its percentile
  are the two functions of \<open>numerics\<close>, and what is assumed of them is \<open>numerics_ok\<close>.
\<close>

subsection \<open>Data (\<open>models.py\<close>)\<close>

datatype admission_status =
    ADMITTED
  | REJECTED_SAFETY_INVARIANT
  | REJECTED_REGRESSION
  | REJECTED_NO_MEANINGFUL_BENEFIT
  | INCONCLUSIVE_NOISE
  | INCONCLUSIVE_ENVIRONMENT
  | INCONCLUSIVE_MISSING_METRIC

datatype metric_direction = LOWER_IS_BETTER | HIGHER_IS_BETTER | ZERO_TOLERANCE

datatype comparison_mode = LOG_RATIO | ABSOLUTE_DELTA | BOOLEAN_INVARIANT

datatype benchmark_profile = SMOKE | AUTONOMOUS | PUBLICATION

record profile_settings =
  ps_production_eligible :: bool
  ps_warmup_seconds :: nat
  ps_measurement_seconds :: nat
  ps_bootstrap_samples :: nat
  ps_confidence :: real
  ps_candidate_pairs :: "nat option"
  ps_pilot_aa_pairs :: "nat option"
  ps_minimum_candidate_pairs :: "nat option"
  ps_maximum_candidate_pairs :: "nat option"

record metric_policy =
  mp_metric_key :: string
  mp_direction :: metric_direction
  mp_comparison_mode :: comparison_mode
  mp_relative_cap :: "real option"
  mp_absolute_cap :: "real option"
  mp_hard_upper_boundary :: "real option"
  mp_headroom_fraction :: "real option"
  mp_minimum_benefit :: real

datatype observation = Fin real | NotFinite

record metric_input =
  mi_metric_key :: string
  mi_scope_type :: string
  mi_scope_id :: string
  mi_policy :: metric_policy
  mi_baseline_values :: "observation list"
  mi_candidate_values :: "observation list"
  mi_required :: bool
  mi_applicable :: bool
  mi_aa_scores :: "observation list"

record metric_result =
  mr_metric_key :: string
  mr_scope_type :: string
  mr_scope_id :: string
  mr_direction :: metric_direction
  mr_comparison_mode :: comparison_mode
  mr_baseline_reference :: real
  mr_allowed_regression_original_units :: real
  mr_allowed_regression_transformed :: real
  mr_pair_count :: nat
  mr_bootstrap_sample_count :: nat
  mr_confidence_level :: real
  mr_point_estimate_transformed :: real
  mr_upper_confidence_bound :: real
  mr_lower_confidence_bound :: real
  mr_passed :: bool
  mr_failure_reason :: "string option"
  mr_minimum_meaningful_improvement :: "real option"
  mr_transformed_minimum_benefit :: "real option"
  mr_primary_benefit_lower_ci :: "real option"
  mr_benefit_passed :: "bool option"

record admission_request =
  aq_candidate_id :: string
  aq_evaluation_run_id :: string
  aq_profile :: benchmark_profile
  aq_primary_metric_key :: string
  aq_metrics :: "metric_input list"
  aq_environment_valid :: bool
  aq_safety_invariants_safe :: bool
  aq_safety_invariant_results :: "string list"

record admission_result =
  ar_candidate_id :: string
  ar_evaluation_run_id :: string
  ar_profile :: benchmark_profile
  ar_primary_metric_key :: string
  ar_required_pair_count :: nat
  ar_actual_pair_count :: nat
  ar_status :: admission_status
  ar_reason_codes :: "string list"
  ar_protected_metric_results :: "metric_result list"
  ar_primary_benefit_result :: "metric_result option"
  ar_safety_invariant_results :: "string list"
  ar_production_eligible :: bool
  ar_family_wise_passed :: "bool option"
  ar_family_wise_upper_bound :: "real option"

subsection \<open>Profiles (\<open>policy.py\<close>)\<close>

fun profile_settings_of :: "benchmark_profile \<Rightarrow> profile_settings" where
  "profile_settings_of SMOKE = \<lparr>ps_production_eligible = False, ps_warmup_seconds = 5, ps_measurement_seconds = 10,
     ps_bootstrap_samples = 1000, ps_confidence = 95 / 100, ps_candidate_pairs = Some 3, ps_pilot_aa_pairs = None,
     ps_minimum_candidate_pairs = None, ps_maximum_candidate_pairs = None\<rparr>"
| "profile_settings_of AUTONOMOUS = \<lparr>ps_production_eligible = True, ps_warmup_seconds = 30, ps_measurement_seconds = 60,
     ps_bootstrap_samples = 10000, ps_confidence = 95 / 100, ps_candidate_pairs = None, ps_pilot_aa_pairs = Some 10,
     ps_minimum_candidate_pairs = Some 10, ps_maximum_candidate_pairs = Some 30\<rparr>"
| "profile_settings_of PUBLICATION = \<lparr>ps_production_eligible = False, ps_warmup_seconds = 60, ps_measurement_seconds = 120,
     ps_bootstrap_samples = 10000, ps_confidence = 95 / 100, ps_candidate_pairs = None, ps_pilot_aa_pairs = Some 12,
     ps_minimum_candidate_pairs = Some 15, ps_maximum_candidate_pairs = Some 40\<rparr>"

subsection \<open>Transforms (\<open>statistics.py\<close>)\<close>

definition EPSILON :: real where "EPSILON = 1 / 10 ^ 12"
definition ONE_SIDED_Z_95 :: real where "ONE_SIDED_Z_95 = 1645 / 1000"
definition ZERO_REGRESSION_SENTINEL :: real where "ZERO_REGRESSION_SENTINEL = 1000000000"
definition MINIMUM_OBSERVATIONS :: nat where "MINIMUM_OBSERVATIONS = 3"

lemma EPSILON_pos [simp]: "0 < EPSILON"
  by (simp add: EPSILON_def)

fun validate_value :: "observation \<Rightarrow> exn + real" where
  "validate_value NotFinite = Inl (ValueError ''Metric values must be finite and non-negative.'')"
| "validate_value (Fin v) =
     (if v < 0 then Inl (ValueError ''Metric values must be finite and non-negative.'') else Inr v)"

definition regression_score :: "metric_direction \<Rightarrow> comparison_mode \<Rightarrow> real \<Rightarrow> real \<Rightarrow> real" where
  "regression_score dir mode baseline candidate =
     (if mode = BOOLEAN_INVARIANT then (if baseline = candidate then 0 else 1)
      else if mode = ABSOLUTE_DELTA then
        (if dir = LOWER_IS_BETTER then candidate - baseline else baseline - candidate)
      else if baseline = 0 \<and> candidate = 0 then 0
      else if baseline = 0 then
        (if dir = LOWER_IS_BETTER then ZERO_REGRESSION_SENTINEL else - ZERO_REGRESSION_SENTINEL)
      else if candidate = 0 then
        (if dir = LOWER_IS_BETTER then - ZERO_REGRESSION_SENTINEL else ZERO_REGRESSION_SENTINEL)
      else ln (if dir = LOWER_IS_BETTER then candidate / baseline else baseline / candidate))"

definition transform_regression ::
  "observation \<Rightarrow> observation \<Rightarrow> metric_direction \<Rightarrow> comparison_mode \<Rightarrow> exn + real" where
  "transform_regression baseline candidate dir mode =
     sbind (validate_value baseline) (\<lambda>b. sbind (validate_value candidate) (\<lambda>c. Inr (regression_score dir mode b c)))"

definition benefit_score :: "metric_direction \<Rightarrow> real \<Rightarrow> real \<Rightarrow> real" where
  "benefit_score dir baseline candidate =
     (if baseline = candidate \<and> candidate = 0 then 0
      else if baseline = 0 then
        (if dir = LOWER_IS_BETTER then - ZERO_REGRESSION_SENTINEL else ZERO_REGRESSION_SENTINEL)
      else if candidate = 0 then
        (if dir = LOWER_IS_BETTER then ZERO_REGRESSION_SENTINEL else - ZERO_REGRESSION_SENTINEL)
      else ln (if dir = LOWER_IS_BETTER then baseline / candidate else candidate / baseline))"

definition transform_benefit :: "observation \<Rightarrow> observation \<Rightarrow> metric_direction \<Rightarrow> exn + real" where
  "transform_benefit baseline candidate dir =
     sbind (validate_value baseline) (\<lambda>b. sbind (validate_value candidate) (\<lambda>c. Inr (benefit_score dir b c)))"

definition finite_array :: "observation list \<Rightarrow> exn + real list" where
  "finite_array values = smap (\<lambda>v. case v of Fin x \<Rightarrow> Inr x
     | NotFinite \<Rightarrow> Inl (ValueError ''Metric observations must be finite.'')) values"

definition mean :: "real list \<Rightarrow> real" where
  "mean xs = sum_list xs / real (length xs)"

subsection \<open>References and margins\<close>

definition calculate_baseline_reference :: "observation list \<Rightarrow> comparison_mode \<Rightarrow> exn + real" where
  "calculate_baseline_reference values mode =
     sbind (finite_array values) (\<lambda>xs.
     if length xs = 0 then Inl (ValueError ''Baseline observations are required.'')
     else if mode = LOG_RATIO then
       (if \<exists>x\<in>set xs. x < 0 then Inl (ValueError ''Log-ratio baseline reference cannot contain negative observations.'')
        else if \<exists>x\<in>set xs. x = 0 then Inr 0
        else Inr (exp (mean (map ln xs))))
     else Inr (mean xs))"

definition margin_candidates :: "real \<Rightarrow> metric_policy \<Rightarrow> real list" where
  "margin_candidates baseline_reference p =
     (case mp_relative_cap p of Some c \<Rightarrow> [baseline_reference * c] | None \<Rightarrow> []) @
     (case mp_absolute_cap p of Some c \<Rightarrow> [c] | None \<Rightarrow> []) @
     (case (mp_hard_upper_boundary p, mp_headroom_fraction p) of
        (Some h, Some f) \<Rightarrow> [f * max (h - baseline_reference) 0] | _ \<Rightarrow> [])"

definition calculate_allowed_regression :: "real \<Rightarrow> metric_policy \<Rightarrow> exn + real" where
  "calculate_allowed_regression baseline_reference p =
     (if (case mp_hard_upper_boundary p of Some h \<Rightarrow> h \<le> baseline_reference | None \<Rightarrow> False) then Inr 0
      else if margin_candidates baseline_reference p = [] then
        Inl (ValueError ''Protected metric policy has no regression margin.'')
      else Inr (Min (set (margin_candidates baseline_reference p))))"

text \<open>
  \<open>math.log\<close> raises for an argument that is not positive: a negative cap can make the sum in the first branch
  so, while the second branch has its own test.
\<close>

definition calculate_transformed_regression_margin :: "real \<Rightarrow> real \<Rightarrow> metric_policy \<Rightarrow> exn + real" where
  "calculate_transformed_regression_margin baseline_reference allowed p =
     (if mp_comparison_mode p = ABSOLUTE_DELTA then Inr allowed
      else if mp_comparison_mode p \<noteq> LOG_RATIO then Inr 0
      else if baseline_reference \<le> 0 then Inr 0
      else if mp_direction p = LOWER_IS_BETTER then
        (if baseline_reference + allowed \<le> 0 then Inl (ValueError ''math domain error'')
         else Inr (ln ((baseline_reference + allowed) / baseline_reference)))
      else if baseline_reference - allowed \<le> 0 then
        Inl (ValueError ''Higher-is-better log policy has invalid minimum candidate value.'')
      else Inr (ln (baseline_reference / (baseline_reference - allowed))))"

definition calculate_transformed_minimum_benefit :: "metric_direction \<Rightarrow> real \<Rightarrow> exn + real" where
  "calculate_transformed_minimum_benefit dir minimum_benefit =
     (if \<not> (0 < minimum_benefit \<and> minimum_benefit < 1) then Inl (ValueError ''Minimum benefit must be in (0, 1).'')
      else if dir = LOWER_IS_BETTER then Inr (ln (1 / (1 - minimum_benefit)))
      else Inr (ln (1 + minimum_benefit)))"

text \<open>\<open>np.std(scores, ddof=1)\<close>\<close>

definition sample_std :: "real list \<Rightarrow> real" where
  "sample_std xs = sqrt (sum_list (map (\<lambda>x. (x - mean xs) ^ 2) xs) / (real (length xs) - 1))"

definition estimate_required_pairs :: "observation list \<Rightarrow> real \<Rightarrow> nat \<Rightarrow> exn + nat" where
  "estimate_required_pairs aa_scores transformed_margin maximum_pairs =
     (if transformed_margin \<le> EPSILON then Inr maximum_pairs
      else sbind (finite_array aa_scores) (\<lambda>scores.
        if length scores < 2 then Inl (ValueError ''A/A calibration requires at least two scores.'')
        else Inr (nat \<lceil>(ONE_SIDED_Z_95 * sample_std scores / (5 / 10 * transformed_margin)) ^ 2\<rceil>)))"

subsection \<open>The bootstrap\<close>

text \<open>
  \<open>nm_resample seed samples n\<close> is \<open>default_rng(seed).integers(0, n, size=(samples, n))\<close> row by row,
  and \<open>nm_percentile xs q\<close> is \<open>np.percentile(xs, q)\<close>.
\<close>

record numerics =
  nm_resample :: "nat \<Rightarrow> nat \<Rightarrow> nat \<Rightarrow> nat list list"
  nm_percentile :: "real list \<Rightarrow> real \<Rightarrow> real"

definition pick :: "real list \<Rightarrow> nat list \<Rightarrow> real list" where
  "pick xs is = map (\<lambda>i. xs ! i) is"

definition resampled_means :: "numerics \<Rightarrow> nat \<Rightarrow> nat \<Rightarrow> real list \<Rightarrow> real list" where
  "resampled_means nm seed samples xs = map (\<lambda>is. mean (pick xs is)) (nm_resample nm seed samples (length xs))"

definition paired_bootstrap_ci :: "numerics \<Rightarrow> real list \<Rightarrow> nat \<Rightarrow> nat \<Rightarrow> real \<Rightarrow> exn + (real \<times> real \<times> real)" where
  "paired_bootstrap_ci nm scores bootstrap_samples seed confidence =
     (if length scores = 0 then Inl (ValueError ''Bootstrap requires at least one finite score.'')
      else let means = resampled_means nm seed bootstrap_samples scores
        in Inr (mean scores, nm_percentile nm means ((1 - confidence) * 100), nm_percentile nm means (confidence * 100)))"

text \<open>
  \<open>int.from_bytes(sha256(text).digest()[:8], "big")\<close>: the digest is given as its hexadecimal text.
\<close>

definition hex_number :: "string \<Rightarrow> nat" where
  "hex_number s = foldl (\<lambda>acc c. acc * 16 + hex_value c) 0 s"

definition seed_of :: "digest \<Rightarrow> string \<Rightarrow> nat" where
  "seed_of sha text = hex_number (take 16 (sha text))"

definition bootstrap_seed :: "digest \<Rightarrow> string \<Rightarrow> metric_input \<Rightarrow> nat" where
  "bootstrap_seed sha run m = seed_of sha (run @ ''|'' @ mi_metric_key m @ ''|'' @ mi_scope_type m @ ''|'' @ mi_scope_id m @ ''|bootstrap'')"

definition deterministic_arm_order :: "digest \<Rightarrow> string \<Rightarrow> nat \<Rightarrow> string" where
  "deterministic_arm_order sha run pair_index =
     (if hex_number (take 2 (sha (run @ ''|'' @ nat_str pair_index))) mod 2 = 0 then ''AB'' else ''BA'')"

text \<open>The scores of one metric: \<open>zip\<close> stops at the shorter list.\<close>

definition regression_scores :: "metric_input \<Rightarrow> exn + real list" where
  "regression_scores m = smap (\<lambda>(b, c). transform_regression b c (mp_direction (mi_policy m)) (mp_comparison_mode (mi_policy m)))
     (zip (mi_baseline_values m) (mi_candidate_values m))"

definition benefit_scores :: "metric_input \<Rightarrow> exn + real list" where
  "benefit_scores m = smap (\<lambda>(b, c). transform_benefit b c (mp_direction (mi_policy m)))
     (zip (mi_baseline_values m) (mi_candidate_values m))"

text \<open>The reference, the margin in original units and the transformed margin of one metric.\<close>

definition metric_margin :: "metric_input \<Rightarrow> exn + (real \<times> real \<times> real)" where
  "metric_margin m =
     sbind (calculate_baseline_reference (mi_baseline_values m) (mp_comparison_mode (mi_policy m))) (\<lambda>reference.
     sbind (calculate_allowed_regression reference (mi_policy m)) (\<lambda>allowed.
     sbind (calculate_transformed_regression_margin reference allowed (mi_policy m)) (\<lambda>margin.
     Inr (reference, allowed, margin))))"

definition family_excess :: "metric_input \<Rightarrow> exn + real list" where
  "family_excess m = sbind (metric_margin m) (\<lambda>(_, _, margin).
     sbind (regression_scores m) (\<lambda>scores. Inr (map (\<lambda>s. s - margin) scores)))"

definition paired_max_statistic_upper_bound ::
  "digest \<Rightarrow> numerics \<Rightarrow> metric_input list \<Rightarrow> string \<Rightarrow> nat \<Rightarrow> real \<Rightarrow> exn + real" where
  "paired_max_statistic_upper_bound sha nm family run samples confidence =
     (if family = [] then Inl (ValueError ''A protected metric family is required.'')
      else let pair_count = length (mi_baseline_values (hd family)) in
        if pair_count < MINIMUM_OBSERVATIONS \<or>
          (\<exists>m\<in>set family. length (mi_baseline_values m) \<noteq> pair_count \<or> length (mi_candidate_values m) \<noteq> pair_count)
        then Inl (ValueError ''Protected metric family requires aligned minimum observations.'')
        else sbind (smap family_excess family) (\<lambda>excesses.
          let rows = nm_resample nm (seed_of sha (run @ ''|family-max-bootstrap'')) samples pair_count;
              maxima = map (\<lambda>is. Max (set (map (\<lambda>scores. mean (pick scores is)) excesses))) rows
          in Inr (nm_percentile nm maxima (confidence * 100))))"

definition evaluate_non_regression ::
  "digest \<Rightarrow> numerics \<Rightarrow> metric_input \<Rightarrow> string \<Rightarrow> nat \<Rightarrow> real \<Rightarrow> exn + metric_result" where
  "evaluate_non_regression sha nm m run samples confidence =
     sbind (metric_margin m) (\<lambda>(reference, allowed, margin).
     sbind (regression_scores m) (\<lambda>scores.
     sbind (paired_bootstrap_ci nm scores samples (bootstrap_seed sha run m) (95 / 100)) (\<lambda>(point, lower, upper).
     let passed = (upper \<le> margin + EPSILON) in
     Inr \<lparr>mr_metric_key = mi_metric_key m, mr_scope_type = mi_scope_type m, mr_scope_id = mi_scope_id m,
       mr_direction = mp_direction (mi_policy m), mr_comparison_mode = mp_comparison_mode (mi_policy m),
       mr_baseline_reference = reference, mr_allowed_regression_original_units = allowed,
       mr_allowed_regression_transformed = margin, mr_pair_count = length scores,
       mr_bootstrap_sample_count = samples, mr_confidence_level = confidence, mr_point_estimate_transformed = point,
       mr_upper_confidence_bound = upper, mr_lower_confidence_bound = lower, mr_passed = passed,
       mr_failure_reason = (if passed then None else Some ''UPPER_CI_EXCEEDS_REGRESSION_MARGIN''),
       mr_minimum_meaningful_improvement = None, mr_transformed_minimum_benefit = None,
       mr_primary_benefit_lower_ci = None, mr_benefit_passed = None\<rparr>)))"

definition evaluate_primary_benefit ::
  "digest \<Rightarrow> numerics \<Rightarrow> metric_input \<Rightarrow> string \<Rightarrow> nat \<Rightarrow> real \<Rightarrow> exn + metric_result" where
  "evaluate_primary_benefit sha nm m run samples confidence =
     sbind (evaluate_non_regression sha nm m run samples confidence) (\<lambda>protected.
     sbind (benefit_scores m) (\<lambda>scores.
     sbind (paired_bootstrap_ci nm scores samples (bootstrap_seed sha run m) (95 / 100)) (\<lambda>(_, lower, _).
     sbind (calculate_transformed_minimum_benefit (mp_direction (mi_policy m)) (mp_minimum_benefit (mi_policy m))) (\<lambda>threshold.
     Inr (protected\<lparr>mr_lower_confidence_bound := lower,
       mr_minimum_meaningful_improvement := Some (mp_minimum_benefit (mi_policy m)),
       mr_transformed_minimum_benefit := Some threshold, mr_primary_benefit_lower_ci := Some lower,
       mr_benefit_passed := Some (threshold \<le> lower + EPSILON)\<rparr>)))))"

definition required_for_metric :: "metric_input \<Rightarrow> nat \<Rightarrow> exn + nat" where
  "required_for_metric m maximum_pairs =
     sbind (metric_margin m) (\<lambda>(_, _, margin). estimate_required_pairs (mi_aa_scores m) margin maximum_pairs)"

definition required_for_primary :: "metric_input \<Rightarrow> nat \<Rightarrow> exn + nat" where
  "required_for_primary m maximum_pairs =
     sbind (calculate_transformed_minimum_benefit (mp_direction (mi_policy m)) (mp_minimum_benefit (mi_policy m)))
       (\<lambda>margin. estimate_required_pairs (mi_aa_scores m) margin maximum_pairs)"

subsection \<open>The admission decision\<close>

definition metric_id :: "metric_input \<Rightarrow> string" where
  "metric_id m = mi_metric_key m @ ''|'' @ mi_scope_type m @ ''|'' @ mi_scope_id m"

definition required_metrics :: "admission_request \<Rightarrow> metric_input list" where
  "required_metrics rq = filter (\<lambda>m. mi_required m \<and> mi_applicable m) (aq_metrics rq)"

definition actual_pairs :: "admission_request \<Rightarrow> nat" where
  "actual_pairs rq = (case map (\<lambda>m. length (mi_baseline_values m)) (required_metrics rq) of
     [] \<Rightarrow> 0 | n # ns \<Rightarrow> Min (set (n # ns)))"

text \<open>\<open>{metric_id(m): f(m) for m in metrics}\<close>: a later metric with the same identity replaces an earlier one.\<close>

definition dict_of :: "(string \<times> nat) list \<Rightarrow> string \<Rightarrow> nat option" where
  "dict_of kvs = map_of (rev kvs)"

definition profile_pairs :: "profile_settings \<Rightarrow> nat" where
  "profile_pairs st = (case ps_candidate_pairs st of Some n \<Rightarrow> n
     | None \<Rightarrow> (case ps_minimum_candidate_pairs st of Some n \<Rightarrow> n | None \<Rightarrow> 0))"

definition max_list :: "nat \<Rightarrow> nat list \<Rightarrow> nat" where
  "max_list n ns = Max (set (n # ns))"

text \<open>
  The result every early return builds: no metric results; the safety results only for a failed
  invariant.
\<close>

definition base_result :: "admission_request \<Rightarrow> admission_result" where
  "base_result rq = \<lparr>ar_candidate_id = aq_candidate_id rq, ar_evaluation_run_id = aq_evaluation_run_id rq,
     ar_profile = aq_profile rq, ar_primary_metric_key = aq_primary_metric_key rq, ar_required_pair_count = 0,
     ar_actual_pair_count = actual_pairs rq, ar_status = INCONCLUSIVE_MISSING_METRIC, ar_reason_codes = [],
     ar_protected_metric_results = [], ar_primary_benefit_result = None, ar_safety_invariant_results = [],
     ar_production_eligible = ps_production_eligible (profile_settings_of (aq_profile rq)),
     ar_family_wise_passed = None, ar_family_wise_upper_bound = None\<rparr>"

definition early :: "admission_request \<Rightarrow> nat \<Rightarrow> admission_status \<Rightarrow> string \<Rightarrow> admission_result" where
  "early rq pairs status reason =
     (base_result rq)\<lparr>ar_required_pair_count := pairs, ar_status := status, ar_reason_codes := [reason]\<rparr>"

text \<open>
  The number of pairs the profile asks for and the requirement of each metric. \<open>Inl\<close> is the result
  returned early: the \<open>except ValueError\<close> branches and the noise branch.
\<close>

definition pair_requirements ::
  "admission_request \<Rightarrow> metric_input \<Rightarrow> admission_result + (nat \<times> (string \<Rightarrow> nat option))" where
  "pair_requirements rq primary =
     (let st = profile_settings_of (aq_profile rq);
          ms = required_metrics rq;
          default = dict_of (map (\<lambda>m. (metric_id m, max MINIMUM_OBSERVATIONS (profile_pairs st))) ms)
      in if aq_profile rq \<noteq> SMOKE then
        (let maximum = (case ps_maximum_candidate_pairs st of Some n \<Rightarrow> n | None \<Rightarrow> 0) in
         case sbind (smap (\<lambda>m. required_for_metric m maximum) ms) (\<lambda>rs.
              sbind (required_for_primary primary maximum) (\<lambda>r. Inr (rs @ [r]))) of
           Inl _ \<Rightarrow> Inl (early rq 0 INCONCLUSIVE_MISSING_METRIC ''INVALID_METRIC_DATA'')
         | Inr requirements \<Rightarrow>
             let required = max_list MINIMUM_OBSERVATIONS
               ((case ps_minimum_candidate_pairs st of Some n \<Rightarrow> n | None \<Rightarrow> 0) # requirements) in
             if maximum < required then
               Inl (early rq required INCONCLUSIVE_NOISE ''AA_CALIBRATION_EXCEEDS_PROFILE_MAXIMUM'')
             else case smap (\<lambda>m. sbind (required_for_metric m maximum) (\<lambda>r.
                    Inr (metric_id m, max MINIMUM_OBSERVATIONS r))) ms of
                 Inl _ \<Rightarrow> Inl (early rq 0 INCONCLUSIVE_MISSING_METRIC ''INVALID_METRIC_DATA'')
               | Inr kvs \<Rightarrow> Inr (required, dict_of kvs))
      else Inr (case map (\<lambda>m. max MINIMUM_OBSERVATIONS (profile_pairs st)) ms of
             [] \<Rightarrow> MINIMUM_OBSERVATIONS | n # ns \<Rightarrow> max_list n ns, default))"

definition gate_evidence ::
  "digest \<Rightarrow> numerics \<Rightarrow> admission_request \<Rightarrow> metric_input \<Rightarrow> exn + (metric_result list \<times> metric_result \<times> real)" where
  "gate_evidence sha nm rq primary =
     (let st = profile_settings_of (aq_profile rq); run = aq_evaluation_run_id rq in
      sbind (smap (\<lambda>m. evaluate_non_regression sha nm m run (ps_bootstrap_samples st) (ps_confidence st)) (required_metrics rq)) (\<lambda>protected.
      sbind (evaluate_primary_benefit sha nm primary run (ps_bootstrap_samples st) (ps_confidence st)) (\<lambda>primary_result.
      sbind (paired_max_statistic_upper_bound sha nm (required_metrics rq) run (ps_bootstrap_samples st) (ps_confidence st)) (\<lambda>family.
      Inr (protected, primary_result, family)))))"

definition evaluate_candidate_admission :: "digest \<Rightarrow> numerics \<Rightarrow> admission_request \<Rightarrow> admission_result" where
  "evaluate_candidate_admission sha nm rq =
     (let ms = required_metrics rq in
      if \<not> aq_safety_invariants_safe rq then
        (early rq 0 REJECTED_SAFETY_INVARIANT ''SAFETY_INVARIANT_FAILED'')
          \<lparr>ar_safety_invariant_results := aq_safety_invariant_results rq\<rparr>
      else if \<not> aq_environment_valid rq then early rq 0 INCONCLUSIVE_ENVIRONMENT ''ENVIRONMENT_MISMATCH''
      else if \<exists>m\<in>set ms. length (mi_baseline_values m) = 0 \<or> length (mi_baseline_values m) \<noteq> length (mi_candidate_values m)
        then early rq 0 INCONCLUSIVE_MISSING_METRIC ''REQUIRED_METRIC_MISSING''
      else case find (\<lambda>m. mi_metric_key m = aq_primary_metric_key rq) ms of
        None \<Rightarrow> early rq 0 INCONCLUSIVE_MISSING_METRIC ''PRIMARY_METRIC_MISSING''
      | Some primary \<Rightarrow>
        (case pair_requirements rq primary of
          Inl result \<Rightarrow> result
        | Inr (required, by_metric) \<Rightarrow>
          if \<exists>m\<in>set ms. length (mi_baseline_values m) < the (by_metric (metric_id m))
          then early rq required INCONCLUSIVE_MISSING_METRIC ''INSUFFICIENT_CANDIDATE_PAIRS''
          else case gate_evidence sha nm rq primary of
            Inl _ \<Rightarrow> early rq required INCONCLUSIVE_MISSING_METRIC ''INVALID_METRIC_DATA''
          | Inr (protected, primary_result, family) \<Rightarrow>
              let full = (base_result rq)\<lparr>ar_required_pair_count := required,
                ar_protected_metric_results := protected, ar_primary_benefit_result := Some primary_result,
                ar_family_wise_upper_bound := Some family\<rparr> in
              if (\<exists>r\<in>set protected. \<not> mr_passed r) \<or> EPSILON < family then
                full\<lparr>ar_status := REJECTED_REGRESSION,
                  ar_reason_codes := ''PROTECTED_METRIC_REGRESSION'' #
                    (if EPSILON < family then [''FAMILY_WISE_PROTECTION_FAILED''] else []),
                  ar_family_wise_passed := Some (family \<le> EPSILON)\<rparr>
              else if mr_benefit_passed primary_result \<noteq> Some True then
                full\<lparr>ar_status := REJECTED_NO_MEANINGFUL_BENEFIT, ar_reason_codes := [''PRIMARY_BENEFIT_NOT_PROVEN''],
                  ar_family_wise_passed := Some True\<rparr>
              else full\<lparr>ar_status := Admission.ADMITTED, ar_reason_codes := [], ar_family_wise_passed := Some True\<rparr>))"

subsection \<open>Lemmas\<close>

text \<open>What an early return has: never an admission.\<close>

lemma early_status [simp]: "ar_status (early rq n st r) = st"
  by (simp add: early_def)

lemma pair_requirements_Inl:
  "pair_requirements rq p = Inl result \<Longrightarrow> ar_status result \<in> {INCONCLUSIVE_MISSING_METRIC, INCONCLUSIVE_NOISE}"
  by (auto simp: pair_requirements_def Let_def split: if_splits sum.splits)

text \<open>Everything that had to hold for a candidate to be admitted.\<close>

lemma admitted_cases:
  assumes "ar_status (evaluate_candidate_admission sha nm rq) = Admission.ADMITTED"
  obtains primary required by_metric protected result family where
    "aq_safety_invariants_safe rq" "aq_environment_valid rq"
    "\<And>m. m \<in> set (required_metrics rq) \<Longrightarrow> mi_baseline_values m \<noteq> [] \<and> length (mi_candidate_values m) = length (mi_baseline_values m)"
    "find (\<lambda>m. mi_metric_key m = aq_primary_metric_key rq) (required_metrics rq) = Some primary"
    "pair_requirements rq primary = Inr (required, by_metric)"
    "\<And>m. m \<in> set (required_metrics rq) \<Longrightarrow> the (by_metric (metric_id m)) \<le> length (mi_baseline_values m)"
    "gate_evidence sha nm rq primary = Inr (protected, result, family)"
    "\<And>r. r \<in> set protected \<Longrightarrow> mr_passed r" "family \<le> EPSILON" "mr_benefit_passed result = Some True"
proof -
  let ?ms = "required_metrics rq"
  have a: "aq_safety_invariants_safe rq" "aq_environment_valid rq"
    "\<not> (\<exists>m\<in>set ?ms. length (mi_baseline_values m) = 0 \<or> length (mi_baseline_values m) \<noteq> length (mi_candidate_values m))"
    using assms by (auto simp: evaluate_candidate_admission_def Let_def split: if_splits)
  then obtain primary where p: "find (\<lambda>m. mi_metric_key m = aq_primary_metric_key rq) ?ms = Some primary"
    using assms by (cases "find (\<lambda>m. mi_metric_key m = aq_primary_metric_key rq) ?ms")
      (simp_all add: evaluate_candidate_admission_def Let_def)
  obtain required by_metric where q: "pair_requirements rq primary = Inr (required, by_metric)"
  proof (cases "pair_requirements rq primary")
    case (Inl res)
    then show ?thesis using pair_requirements_Inl [OF Inl] assms a p
      by (simp add: evaluate_candidate_admission_def Let_def)
  next
    case (Inr x)
    then show ?thesis using that by (cases x) auto
  qed
  have l: "\<not> (\<exists>m\<in>set ?ms. length (mi_baseline_values m) < the (by_metric (metric_id m)))"
    using assms a p q by (simp add: evaluate_candidate_admission_def Let_def split: if_splits)
  obtain protected result family where g: "gate_evidence sha nm rq primary = Inr (protected, result, family)"
  proof (cases "gate_evidence sha nm rq primary")
    case (Inl e)
    then show ?thesis using assms a p q l by (simp add: evaluate_candidate_admission_def Let_def)
  next
    case (Inr x)
    then show ?thesis using that by (cases x) auto
  qed
  have "\<not> ((\<exists>r\<in>set protected. \<not> mr_passed r) \<or> EPSILON < family)" "mr_benefit_passed result = Some True"
    using assms a p q l g by (simp_all add: evaluate_candidate_admission_def Let_def split: if_splits)
  then show ?thesis using that a p q l g by (auto simp: not_less not_le)
qed

lemma dict_of_mem: "k \<in> fst ` set kvs \<Longrightarrow> (\<And>k v. (k, v) \<in> set kvs \<Longrightarrow> n \<le> v) \<Longrightarrow> n \<le> the (dict_of kvs k)"
proof -
  assume k: "k \<in> fst ` set kvs" and all: "\<And>k v. (k, v) \<in> set kvs \<Longrightarrow> n \<le> v"
  have "map_of (rev kvs) k \<noteq> None" using k by (simp add: map_of_eq_None_iff)
  then obtain v where v: "map_of (rev kvs) k = Some v" by blast
  then have "(k, v) \<in> set (rev kvs)" by (rule map_of_SomeD)
  then show ?thesis using all v by (simp add: dict_of_def)
qed

lemma pair_requirements_min:
  assumes "pair_requirements rq p = Inr (required, by_metric)" and m: "m \<in> set (required_metrics rq)"
  shows "MINIMUM_OBSERVATIONS \<le> the (by_metric (metric_id m))"
proof -
  let ?ms = "required_metrics rq"
  have *: "MINIMUM_OBSERVATIONS \<le> the (dict_of kvs (metric_id m))"
    if "smap (\<lambda>m. sbind (f m) (\<lambda>r. Inr (metric_id m, max MINIMUM_OBSERVATIONS r))) ?ms = Inr kvs" for f kvs
  proof (rule dict_of_mem)
    obtain kv where kv: "kv \<in> set kvs" "sbind (f m) (\<lambda>r. Inr (metric_id m, max MINIMUM_OBSERVATIONS r)) = Inr kv"
      using smap_image [OF \<open>smap _ ?ms = Inr kvs\<close> m] by blast
    then have "fst kv = metric_id m" by (auto simp: sbind_Inr_iff)
    then show "metric_id m \<in> fst ` set kvs" using kv(1) by force
    show "MINIMUM_OBSERVATIONS \<le> v" if "(k, v) \<in> set kvs" for k v
      using smap_mem [OF \<open>smap _ ?ms = Inr kvs\<close> that] by (auto simp: sbind_Inr_iff)
  qed
  have "MINIMUM_OBSERVATIONS \<le> the (dict_of (map (\<lambda>m. (metric_id m, max MINIMUM_OBSERVATIONS n)) ?ms) (metric_id m))" for n
    by (rule dict_of_mem) (use m in force)+
  then show ?thesis
    using assms(1) * by (auto simp: pair_requirements_def Let_def split: if_splits sum.splits)
qed

lemma find_mem: "find P xs = Some x \<Longrightarrow> x \<in> set xs \<and> P x"
  by (rule find_SomeD)

subsection \<open>Numerics\<close>

text \<open>
  What is documented of the two NumPy functions: the generator returns \<open>samples\<close> rows of \<open>n\<close>
  indices below \<open>n\<close>, and a percentile lies between the smallest and the largest value.
\<close>

definition numerics_ok :: "numerics \<Rightarrow> bool" where
  "numerics_ok nm \<longleftrightarrow>
     (\<forall>seed samples n. length (nm_resample nm seed samples n) = samples \<and>
        (\<forall>is\<in>set (nm_resample nm seed samples n). length is = n \<and> (\<forall>i\<in>set is. i < n))) \<and>
     (\<forall>xs q. xs \<noteq> [] \<longrightarrow> Min (set xs) \<le> nm_percentile nm xs q \<and> nm_percentile nm xs q \<le> Max (set xs))"

lemma mean_le: "xs \<noteq> [] \<Longrightarrow> (\<And>x. x \<in> set xs \<Longrightarrow> x \<le> b) \<Longrightarrow> mean xs \<le> b"
proof -
  assume ne: "xs \<noteq> []" and le: "\<And>x. x \<in> set xs \<Longrightarrow> x \<le> b"
  have "sum_list xs \<le> real (length xs) * b" using le
    by (induction xs) (simp_all add: algebra_simps add_mono)
  then show ?thesis using ne by (simp add: mean_def divide_le_eq mult.commute)
qed

lemma resampled_means_le:
  assumes "numerics_ok nm" and "xs \<noteq> []" and "\<And>x. x \<in> set xs \<Longrightarrow> x \<le> b" and "y \<in> set (resampled_means nm seed n xs)"
  shows "y \<le> b"
proof -
  obtain r where r: "r \<in> set (nm_resample nm seed n (length xs))" "y = mean (pick xs r)"
    using assms(4) by (auto simp: resampled_means_def)
  then have "length r = length xs" "\<And>i. i \<in> set r \<Longrightarrow> i < length xs" using assms(1) by (auto simp: numerics_ok_def)
  then have "pick xs r \<noteq> []" "\<And>x. x \<in> set (pick xs r) \<Longrightarrow> x \<le> b"
    using assms(2,3) by (auto simp: pick_def)
  then show ?thesis using r(2) mean_le by blast
qed

lemma percentile_of_means_le:
  assumes "numerics_ok nm" and "xs \<noteq> []" and "\<And>x. x \<in> set xs \<Longrightarrow> x \<le> b" and "0 < n"
  shows "nm_percentile nm (resampled_means nm seed n xs) q \<le> b"
proof -
  have len: "length (resampled_means nm seed n xs) = n"
    using assms(1) by (simp add: resampled_means_def numerics_ok_def)
  then have ne: "resampled_means nm seed n xs \<noteq> []" using assms(4) by auto
  then have "Max (set (resampled_means nm seed n xs)) \<le> b"
    using resampled_means_le [OF assms(1-3)] by (subst Max_le_iff) auto
  then show ?thesis using assms(1) ne unfolding numerics_ok_def by (meson order_trans)
qed

subsection \<open>Scores\<close>

definition worse :: "metric_direction \<Rightarrow> real \<Rightarrow> real \<Rightarrow> bool" where
  "worse dir b c \<longleftrightarrow> (if dir = LOWER_IS_BETTER then b < c else c < b)"

lemma ln_ratio_pos: "0 < x \<Longrightarrow> 0 < y \<Longrightarrow> (0 < ln (x / y)) = (y < (x::real))"
  by (simp add: ln_gt_zero_iff divide_simps)

lemma ln_ratio_swap: "0 < x \<Longrightarrow> 0 < y \<Longrightarrow> ln (x / y) = - ln (y / (x::real))"
  by (simp add: ln_div)

text \<open>
  A regression score means what it says: for valid observations it is positive exactly when the
  candidate is strictly worse than the baseline in the metric's direction, exchanging the two arms
  negates it, and in the log domain the benefit is its negation, also at the zero sentinels.
\<close>

theorem regression_score_sign:
  assumes "0 \<le> b" and "0 \<le> c" and "mode \<noteq> BOOLEAN_INVARIANT"
  shows "(0 < regression_score dir mode b c \<longleftrightarrow> worse dir b c) \<and>
     regression_score dir mode c b = - regression_score dir mode b c \<and>
     regression_score dir LOG_RATIO b c = - benefit_score dir b c"
proof -
  consider "b = 0" "c = 0" | "b = 0" "0 < c" | "0 < b" "c = 0" | "0 < b" "0 < c" using assms(1,2) by linarith
  then show ?thesis
  proof cases
    case 4
    then show ?thesis
      using assms(3) ln_ratio_pos [of b c] ln_ratio_pos [of c b] ln_ratio_swap [of b c]
      by (cases mode) (simp_all add: regression_score_def benefit_score_def worse_def)
  qed (use assms(3) in \<open>cases mode; simp add: regression_score_def benefit_score_def worse_def ZERO_REGRESSION_SENTINEL_def\<close>)+
qed

theorem regression_score_sign_witness:
  "0 < regression_score LOWER_IS_BETTER ABSOLUTE_DELTA 1 2 \<and> 0 < regression_score LOWER_IS_BETTER LOG_RATIO 0 1"
  using regression_score_sign [of 1 2 ABSOLUTE_DELTA LOWER_IS_BETTER]
    regression_score_sign [of 0 1 LOG_RATIO LOWER_IS_BETTER]
  by (simp add: worse_def)

subsection \<open>Margins\<close>

definition policy_ok :: "metric_policy \<Rightarrow> bool" where
  "policy_ok p \<longleftrightarrow> (\<forall>c. mp_relative_cap p = Some c \<longrightarrow> 0 \<le> c) \<and> (\<forall>c. mp_absolute_cap p = Some c \<longrightarrow> 0 \<le> c) \<and>
     (\<forall>f. mp_headroom_fraction p = Some f \<longrightarrow> 0 \<le> f \<and> f \<le> 1)"

text \<open>
  C32. The margin of a protected metric never exceeds any declared cap and is never negative, it is
  zero once the baseline is at the hard boundary, and a baseline below a boundary with headroom stays
  at or below that boundary when the whole margin is used up.
\<close>

theorem margin_respects_caps:
  assumes "policy_ok p" and "0 \<le> ref" and "calculate_allowed_regression ref p = Inr a"
  shows "0 \<le> a \<and> (\<forall>c. mp_relative_cap p = Some c \<longrightarrow> a \<le> ref * c) \<and>
     (\<forall>c. mp_absolute_cap p = Some c \<longrightarrow> a \<le> c) \<and>
     (\<forall>h. mp_hard_upper_boundary p = Some h \<and> h \<le> ref \<longrightarrow> a = 0) \<and>
     (\<forall>h f. mp_hard_upper_boundary p = Some h \<and> mp_headroom_fraction p = Some f \<and> ref < h \<longrightarrow> ref + a \<le> h)"
proof (cases "case mp_hard_upper_boundary p of Some h \<Rightarrow> h \<le> ref | None \<Rightarrow> False")
  case True
  then have "a = 0" using assms(3) by (simp add: calculate_allowed_regression_def)
  then show ?thesis using assms(1,2) True by (auto simp: policy_ok_def split: option.splits)
next
  case False
  let ?M = "set (margin_candidates ref p)"
  have ne: "?M \<noteq> {}" and a: "a = Min ?M"
    using assms(3) False by (auto simp: calculate_allowed_regression_def split: if_splits)
  have le: "a \<le> x" if "x \<in> ?M" for x using that a by simp
  have "0 \<le> x" if "x \<in> ?M" for x
    using that assms(1,2) by (auto simp: margin_candidates_def policy_ok_def split: option.splits)
  then have pos: "0 \<le> a" using a ne by simp
  have rel: "a \<le> ref * c" if "mp_relative_cap p = Some c" for c
    using that by (intro le) (simp add: margin_candidates_def)
  have abs: "a \<le> c" if "mp_absolute_cap p = Some c" for c
    using that by (intro le) (simp add: margin_candidates_def)
  have head: "ref + a \<le> h" if "mp_hard_upper_boundary p = Some h" "mp_headroom_fraction p = Some f" "ref < h" for h f
  proof -
    have "a \<le> f * (h - ref)" using that le [of "f * (h - ref)"] by (simp add: margin_candidates_def max_def)
    also have "\<dots> \<le> 1 * (h - ref)" using that assms(1) by (intro mult_right_mono) (auto simp: policy_ok_def)
    finally show ?thesis by simp
  qed
  show ?thesis using pos rel abs head False by auto
qed

definition latency_policy :: metric_policy where
  "latency_policy = \<lparr>mp_metric_key = ''latency'', mp_direction = LOWER_IS_BETTER, mp_comparison_mode = ABSOLUTE_DELTA,
     mp_relative_cap = Some (1 / 10), mp_absolute_cap = Some 1, mp_hard_upper_boundary = Some 100,
     mp_headroom_fraction = Some (1 / 2), mp_minimum_benefit = 5 / 100\<rparr>"

theorem margin_respects_caps_witness:
  "calculate_allowed_regression 99 latency_policy = Inr (1 / 2) \<and> (99::real) + 1 / 2 \<le> 100"
proof -
  have run: "calculate_allowed_regression 99 latency_policy = Inr (1 / 2)"
    by (simp add: calculate_allowed_regression_def margin_candidates_def latency_policy_def)
  have "policy_ok latency_policy" by (simp add: policy_ok_def latency_policy_def)
  from margin_respects_caps [OF this _ run] run show ?thesis by (simp add: latency_policy_def)
qed

subsection \<open>Admission\<close>

text \<open>
  Precedence of the verdicts: a failed invariant decides before everything else, an invalid
  environment before any data is looked at, and missing data before calibration; no other data of
  the request can change these verdicts, and none of them is an admission.
\<close>

theorem admission_precedence:
  "ar_status (evaluate_candidate_admission sha nm rq) =
     (if \<not> aq_safety_invariants_safe rq then REJECTED_SAFETY_INVARIANT
      else if \<not> aq_environment_valid rq then INCONCLUSIVE_ENVIRONMENT
      else if \<exists>m\<in>set (aq_metrics rq). mi_required m \<and> mi_applicable m \<and>
          (mi_baseline_values m = [] \<or> length (mi_baseline_values m) \<noteq> length (mi_candidate_values m))
        then INCONCLUSIVE_MISSING_METRIC
      else if \<forall>m\<in>set (aq_metrics rq). mi_required m \<and> mi_applicable m \<longrightarrow> mi_metric_key m \<noteq> aq_primary_metric_key rq
        then INCONCLUSIVE_MISSING_METRIC
      else ar_status (evaluate_candidate_admission sha nm rq))"
proof -
  have "find (\<lambda>m. mi_metric_key m = aq_primary_metric_key rq) (required_metrics rq) = None"
    if "\<forall>m\<in>set (aq_metrics rq). mi_required m \<and> mi_applicable m \<longrightarrow> mi_metric_key m \<noteq> aq_primary_metric_key rq"
    using that by (auto simp: find_None_iff_ball required_metrics_def)
  then show ?thesis by (auto simp: evaluate_candidate_admission_def Let_def required_metrics_def)
qed

lemma non_regression_result:
  assumes "evaluate_non_regression sha nm m run n conf = Inr r"
  shows "mr_metric_key r = mi_metric_key m \<and>
     (mr_passed r \<longleftrightarrow> mr_upper_confidence_bound r \<le> mr_allowed_regression_transformed r + EPSILON)"
  using assms by (auto simp: evaluate_non_regression_def sbind_Inr_iff Let_def)

lemma primary_result:
  assumes "evaluate_primary_benefit sha nm m run n conf = Inr r"
  obtains scores point lower upper threshold where
    "benefit_scores m = Inr scores"
    "paired_bootstrap_ci nm scores n (bootstrap_seed sha run m) (95 / 100) = Inr (point, lower, upper)"
    "calculate_transformed_minimum_benefit (mp_direction (mi_policy m)) (mp_minimum_benefit (mi_policy m)) = Inr threshold"
    "mr_benefit_passed r = Some (threshold \<le> lower + EPSILON)"
    "mr_transformed_minimum_benefit r = Some threshold" "mr_primary_benefit_lower_ci r = Some lower"
  using assms by (auto simp: evaluate_primary_benefit_def sbind_Inr_iff split: prod.splits)

text \<open>
  C4. An admitted candidate passed every gate: the invariants hold, the environment is valid, every
  required metric has at least three aligned pairs and an upper confidence bound within its
  margin, the family-wise bound (the upper quantile of the resampled largest excess over all required
  metrics at once) exists and is not positive, and the lower confidence bound of the primary
  benefit reaches the minimum meaningful benefit (all up to the engine's epsilon).
\<close>

theorem admitted_passes_every_gate:
  assumes "ar_status (evaluate_candidate_admission sha nm rq) = Admission.ADMITTED"
  shows "aq_safety_invariants_safe rq \<and> aq_environment_valid rq \<and>
     (\<forall>m\<in>set (aq_metrics rq). mi_required m \<and> mi_applicable m \<longrightarrow>
        3 \<le> length (mi_baseline_values m) \<and> length (mi_candidate_values m) = length (mi_baseline_values m) \<and>
        (\<exists>r. evaluate_non_regression sha nm m (aq_evaluation_run_id rq)
             (ps_bootstrap_samples (profile_settings_of (aq_profile rq))) (ps_confidence (profile_settings_of (aq_profile rq))) = Inr r \<and>
           mr_upper_confidence_bound r \<le> mr_allowed_regression_transformed r + EPSILON)) \<and>
     (\<exists>m\<in>set (aq_metrics rq). \<exists>r lower threshold. mi_metric_key m = aq_primary_metric_key rq \<and>
        evaluate_primary_benefit sha nm m (aq_evaluation_run_id rq)
          (ps_bootstrap_samples (profile_settings_of (aq_profile rq))) (ps_confidence (profile_settings_of (aq_profile rq))) = Inr r \<and>
        mr_primary_benefit_lower_ci r = Some lower \<and> mr_transformed_minimum_benefit r = Some threshold \<and>
        threshold \<le> lower + EPSILON) \<and>
     (\<exists>family. paired_max_statistic_upper_bound sha nm (filter (\<lambda>m. mi_required m \<and> mi_applicable m) (aq_metrics rq))
          (aq_evaluation_run_id rq) (ps_bootstrap_samples (profile_settings_of (aq_profile rq)))
          (ps_confidence (profile_settings_of (aq_profile rq))) = Inr family \<and> family \<le> EPSILON)"
  using assms
proof (rule admitted_cases)
  fix primary :: metric_input and required :: nat and by_metric and protected :: "metric_result list"
    and result :: metric_result and family :: real
  let ?n = "ps_bootstrap_samples (profile_settings_of (aq_profile rq))"
  let ?c = "ps_confidence (profile_settings_of (aq_profile rq))"
  let ?ev = "\<lambda>m. evaluate_non_regression sha nm m (aq_evaluation_run_id rq) ?n ?c"
  assume 1: "aq_safety_invariants_safe rq" "aq_environment_valid rq"
    and 2: "\<And>m. m \<in> set (required_metrics rq) \<Longrightarrow> mi_baseline_values m \<noteq> [] \<and> length (mi_candidate_values m) = length (mi_baseline_values m)"
    and 3: "find (\<lambda>m. mi_metric_key m = aq_primary_metric_key rq) (required_metrics rq) = Some primary"
    and 4: "pair_requirements rq primary = Inr (required, by_metric)"
    and 5: "\<And>m. m \<in> set (required_metrics rq) \<Longrightarrow> the (by_metric (metric_id m)) \<le> length (mi_baseline_values m)"
    and 6: "gate_evidence sha nm rq primary = Inr (protected, result, family)"
    and 7: "\<And>r. r \<in> set protected \<Longrightarrow> mr_passed r" "family \<le> EPSILON" "mr_benefit_passed result = Some True"
  have ev: "smap ?ev (required_metrics rq) = Inr protected"
    and pr: "evaluate_primary_benefit sha nm primary (aq_evaluation_run_id rq) ?n ?c = Inr result"
    using 6 by (auto simp: gate_evidence_def Let_def sbind_Inr_iff)
  have A: "3 \<le> length (mi_baseline_values m) \<and> length (mi_candidate_values m) = length (mi_baseline_values m) \<and>
        (\<exists>r. ?ev m = Inr r \<and> mr_upper_confidence_bound r \<le> mr_allowed_regression_transformed r + EPSILON)"
    if m: "m \<in> set (required_metrics rq)" for m
  proof -
    obtain r where r: "r \<in> set protected" "?ev m = Inr r" using smap_image [OF ev m] by blast
    then have "mr_upper_confidence_bound r \<le> mr_allowed_regression_transformed r + EPSILON"
      using 7(1) non_regression_result [OF r(2)] by blast
    then show ?thesis
      using r 2 [OF m] 5 [OF m] pair_requirements_min [OF 4 m] by (auto simp: MINIMUM_OBSERVATIONS_def)
  qed
  obtain lower threshold where "mr_primary_benefit_lower_ci result = Some lower"
      "mr_transformed_minimum_benefit result = Some threshold" "threshold \<le> lower + EPSILON"
    using primary_result [OF pr] 7(3) by (metis option.inject)
  then have B: "\<exists>m\<in>set (aq_metrics rq). \<exists>r lower threshold. mi_metric_key m = aq_primary_metric_key rq \<and>
        evaluate_primary_benefit sha nm m (aq_evaluation_run_id rq) ?n ?c = Inr r \<and>
        mr_primary_benefit_lower_ci r = Some lower \<and> mr_transformed_minimum_benefit r = Some threshold \<and>
        threshold \<le> lower + EPSILON"
    using pr find_SomeD [OF 3] by (auto simp: required_metrics_def)
  have "paired_max_statistic_upper_bound sha nm (required_metrics rq) (aq_evaluation_run_id rq) ?n ?c = Inr family"
    using 6 by (auto simp: gate_evidence_def Let_def sbind_Inr_iff)
  then have C: "\<exists>family. paired_max_statistic_upper_bound sha nm (filter (\<lambda>m. mi_required m \<and> mi_applicable m) (aq_metrics rq))
      (aq_evaluation_run_id rq) ?n ?c = Inr family \<and> family \<le> EPSILON"
    using 7(2) by (auto simp: required_metrics_def)
  show ?thesis using 1 A B C by (auto simp: required_metrics_def)
qed

lemma benefit_nonpos:
  assumes "transform_benefit b c dir = Inr x" and "\<And>u v. b = Fin u \<Longrightarrow> c = Fin v \<Longrightarrow> \<not> worse dir v u"
  shows "x \<le> 0"
proof -
  obtain u v where uv: "b = Fin u" "c = Fin v" "0 \<le> u" "0 \<le> v" "x = benefit_score dir u v"
    using assms(1) by (cases b; cases c) (auto simp: transform_benefit_def split: if_splits)
  have "\<not> 0 < regression_score dir LOG_RATIO v u"
    using regression_score_sign [of v u LOG_RATIO dir] uv assms(2) [OF uv(1,2)] by simp
  then show ?thesis
    using regression_score_sign [of u v LOG_RATIO dir] uv by simp
qed

lemma minimum_benefit_pos:
  assumes "calculate_transformed_minimum_benefit dir mb = Inr t" and "2 * EPSILON < mb"
  shows "EPSILON < t"
proof -
  have mb: "0 < mb" "mb < 1" using assms(1) by (auto simp: calculate_transformed_minimum_benefit_def split: if_splits)
  have 1: "mb \<le> ln (1 / (1 - mb))"
  proof -
    have "ln (1 - mb) \<le> (1 - mb) - 1" using mb by (intro ln_le_minus_one) simp
    then show ?thesis using mb by (simp add: ln_div)
  qed
  have 2: "mb / 2 \<le> ln (1 + mb)"
  proof -
    have "ln (1 / (1 + mb)) \<le> 1 / (1 + mb) - 1" using mb by (intro ln_le_minus_one) simp
    moreover have "1 / (1 + mb) - 1 = - (mb / (1 + mb))" using mb by (simp add: field_simps)
    ultimately have "mb / (1 + mb) \<le> ln (1 + mb)" using mb by (simp add: ln_div)
    moreover have "mb / 2 \<le> mb / (1 + mb)" using mb by (intro divide_left_mono) auto
    ultimately show ?thesis by linarith
  qed
  have "EPSILON < ln (1 / (1 - mb))" "EPSILON < ln (1 + mb)" using assms(2) 1 2 EPSILON_pos by linarith+
  then show ?thesis
    using assms(1) by (auto simp: calculate_transformed_minimum_benefit_def split: if_splits)
qed

text \<open>
  C31. Where the minimum benefit of the primary metric is more than twice the engine's epsilon (the
  default is five per cent, epsilon is \<open>1e-12\<close>; the code itself accepts smaller values, for which two equal arms
  can be admitted), no candidate is admitted without a real gain: whatever the random generator draws, an
  admitted candidate beats the baseline strictly in at least one observed pair of the primary metric, so
  noise between two equal arms cannot produce an admission.
\<close>

theorem admission_needs_observed_gain:
  assumes "numerics_ok nm"
    and "ar_status (evaluate_candidate_admission sha nm rq) = Admission.ADMITTED"
    and "\<And>m. m \<in> set (aq_metrics rq) \<Longrightarrow> mi_metric_key m = aq_primary_metric_key rq \<Longrightarrow> 2 * EPSILON < mp_minimum_benefit (mi_policy m)"
  shows "\<exists>m\<in>set (aq_metrics rq). mi_metric_key m = aq_primary_metric_key rq \<and>
     (\<exists>u v. (Fin u, Fin v) \<in> set (zip (mi_baseline_values m) (mi_candidate_values m)) \<and>
        worse (mp_direction (mi_policy m)) v u)"
  using assms(2)
proof (rule admitted_cases)
  fix primary :: metric_input and required :: nat and by_metric and protected :: "metric_result list"
    and result :: metric_result and family :: real
  let ?n = "ps_bootstrap_samples (profile_settings_of (aq_profile rq))"
  let ?dir = "mp_direction (mi_policy primary)"
  let ?pairs = "zip (mi_baseline_values primary) (mi_candidate_values primary)"
  assume 3: "find (\<lambda>m. mi_metric_key m = aq_primary_metric_key rq) (required_metrics rq) = Some primary"
    and 6: "gate_evidence sha nm rq primary = Inr (protected, result, family)" "mr_benefit_passed result = Some True"
  have mem: "primary \<in> set (aq_metrics rq)" "mi_metric_key primary = aq_primary_metric_key rq"
    using find_SomeD [OF 3] by (auto simp: required_metrics_def)
  have pr: "evaluate_primary_benefit sha nm primary (aq_evaluation_run_id rq) ?n
      (ps_confidence (profile_settings_of (aq_profile rq))) = Inr result"
    using 6 by (auto simp: gate_evidence_def Let_def sbind_Inr_iff)
  obtain scores point lower upper threshold where
    sc: "benefit_scores primary = Inr scores"
    and ci: "paired_bootstrap_ci nm scores ?n (bootstrap_seed sha (aq_evaluation_run_id rq) primary) (95 / 100) = Inr (point, lower, upper)"
    and th: "calculate_transformed_minimum_benefit ?dir (mp_minimum_benefit (mi_policy primary)) = Inr threshold"
    and ok: "threshold \<le> lower + EPSILON"
    using primary_result [OF pr] 6(2) by (metis option.inject)
  have "EPSILON < threshold" using th assms(3) [OF mem] by (rule minimum_benefit_pos)
  have n: "0 < ?n" by (cases "aq_profile rq") simp_all
  show ?thesis
  proof (rule ccontr)
    assume none: "\<not> ?thesis"
    have "x \<le> 0" if "x \<in> set scores" for x
    proof -
      obtain p where p: "p \<in> set ?pairs" "transform_benefit (fst p) (snd p) ?dir = Inr x"
        using smap_mem [OF sc [unfolded benefit_scores_def] \<open>x \<in> set scores\<close>] by (auto simp: case_prod_beta)
      show ?thesis
        using none mem p(1) by (intro benefit_nonpos [OF p(2)]) (metis prod.collapse)
    qed
    moreover have "scores \<noteq> []" using ci by (auto simp: paired_bootstrap_ci_def)
    ultimately have "lower \<le> 0"
      using ci percentile_of_means_le [OF assms(1) _ _ n, of scores 0] by (auto simp: paired_bootstrap_ci_def Let_def)
    moreover have "threshold \<le> EPSILON" using \<open>lower \<le> 0\<close> ok by linarith
    ultimately show False using \<open>EPSILON < threshold\<close> by linarith
  qed
qed

subsection \<open>A run with three pairs\<close>

definition demo_numerics :: numerics where
  "demo_numerics = \<lparr>nm_resample = (\<lambda>seed samples n. replicate samples [0..<n]), nm_percentile = (\<lambda>xs q. hd xs)\<rparr>"

lemma demo_numerics_ok: "numerics_ok demo_numerics"
  by (auto simp: numerics_ok_def demo_numerics_def)

definition three_pair_metric :: metric_input where
  "three_pair_metric = \<lparr>mi_metric_key = ''latency'', mi_scope_type = ''GLOBAL'', mi_scope_id = ''ALL'',
     mi_policy = latency_policy, mi_baseline_values = [Fin 2, Fin 2, Fin 2],
     mi_candidate_values = [Fin 1, Fin 1, Fin 1], mi_required = True, mi_applicable = True,
     mi_aa_scores = [Fin 0, Fin 0]\<rparr>"

definition three_pair_request :: admission_request where
  "three_pair_request = \<lparr>aq_candidate_id = ''c'', aq_evaluation_run_id = ''e'', aq_profile = AUTONOMOUS,
     aq_primary_metric_key = ''latency'', aq_metrics = [three_pair_metric], aq_environment_valid = True,
     aq_safety_invariants_safe = True, aq_safety_invariant_results = []\<rparr>"

lemma three_pair_margin: "metric_margin three_pair_metric = Inr (2, 1 / 5, 1 / 5)"
  by (simp add: metric_margin_def three_pair_metric_def calculate_baseline_reference_def finite_array_def mean_def
      calculate_allowed_regression_def margin_candidates_def latency_policy_def calculate_transformed_regression_margin_def)

lemma three_pair_scores:
  "regression_scores three_pair_metric = Inr [-1, -1, -1]" "benefit_scores three_pair_metric = Inr [ln 2, ln 2, ln 2]"
  by (simp_all add: regression_scores_def benefit_scores_def three_pair_metric_def transform_regression_def
      transform_benefit_def regression_score_def benefit_score_def latency_policy_def)

lemma demo_ci:
  assumes "0 < n"
  shows "paired_bootstrap_ci demo_numerics [x, x, x] n seed c = Inr (x, x, x)"
proof -
  have "[0..<3] = [0, 1, 2::nat]" by (simp add: upt_rec)
  then have "resampled_means demo_numerics seed n [x, x, x] = replicate n x"
    by (simp add: resampled_means_def demo_numerics_def pick_def mean_def map_replicate numeral_3_eq_3 upt_rec)
  then show ?thesis using assms by (simp add: paired_bootstrap_ci_def demo_numerics_def mean_def Let_def)
qed

lemma demo_required: "required_for_metric three_pair_metric n = Inr 0"
proof -
  have aa: "mi_aa_scores three_pair_metric = [Fin 0, Fin 0]" by (simp add: three_pair_metric_def)
  show ?thesis
    by (simp add: required_for_metric_def three_pair_margin estimate_required_pairs_def EPSILON_def aa
        finite_array_def sample_std_def mean_def)
qed

lemma demo_threshold: "calculate_transformed_minimum_benefit LOWER_IS_BETTER (1 / 20) = Inr (ln (20 / 19))"
  by (simp add: calculate_transformed_minimum_benefit_def)

lemma demo_threshold_bounds: "EPSILON < ln (20 / 19)" "ln (20 / 19) \<le> ln (2::real)"
proof -
  show "EPSILON < ln (20 / 19)"
    using minimum_benefit_pos [OF demo_threshold] by (simp add: EPSILON_def)
qed simp

lemma demo_required_primary: "required_for_primary three_pair_metric n = Inr 0"
  using demo_threshold demo_threshold_bounds(1)
  by (simp add: required_for_primary_def estimate_required_pairs_def three_pair_metric_def latency_policy_def
      finite_array_def sample_std_def mean_def)

lemma demo_requirements:
  "pair_requirements three_pair_request three_pair_metric = Inr (10, dict_of [(metric_id three_pair_metric, 3)])"
proof -
  have "required_metrics three_pair_request = [three_pair_metric]"
    by (simp add: required_metrics_def three_pair_request_def three_pair_metric_def)
  then show ?thesis
    by (simp add: pair_requirements_def three_pair_request_def demo_required demo_required_primary Let_def
        max_list_def MINIMUM_OBSERVATIONS_def)
qed

lemma demo_family:
  "paired_max_statistic_upper_bound sha demo_numerics [three_pair_metric] run 10000 c = Inr (- 6 / 5)"
proof -
  have "length (mi_baseline_values three_pair_metric) = 3" "length (mi_candidate_values three_pair_metric) = 3"
    by (simp_all add: three_pair_metric_def)
  moreover have "[0..<3] = [0, 1, 2::nat]" by (simp add: upt_rec)
  ultimately show ?thesis
    by (simp add: paired_max_statistic_upper_bound_def MINIMUM_OBSERVATIONS_def family_excess_def three_pair_margin
        three_pair_scores Let_def demo_numerics_def pick_def mean_def map_replicate)
qed

lemma three_pair_admitted:
  "ar_status (evaluate_candidate_admission sha demo_numerics three_pair_request) = Admission.ADMITTED \<and>
   ar_production_eligible (evaluate_candidate_admission sha demo_numerics three_pair_request) \<and>
   ar_actual_pair_count (evaluate_candidate_admission sha demo_numerics three_pair_request) = 3 \<and>
   ar_required_pair_count (evaluate_candidate_admission sha demo_numerics three_pair_request) = 10"
proof -
  let ?rq = three_pair_request and ?m = three_pair_metric
  have ms: "required_metrics ?rq = [?m]"
    by (simp add: required_metrics_def three_pair_request_def three_pair_metric_def)
  obtain r where r: "evaluate_non_regression sha demo_numerics ?m ''e'' 10000 (95 / 100) = Inr r" "mr_passed r"
    using three_pair_margin three_pair_scores(1) demo_ci [of 10000 "-1"]
    by (simp add: evaluate_non_regression_def EPSILON_def)
  have dir: "mp_direction (mi_policy ?m) = LOWER_IS_BETTER" "mp_minimum_benefit (mi_policy ?m) = 1 / 20"
    by (simp_all add: three_pair_metric_def latency_policy_def)
  obtain q where q: "evaluate_primary_benefit sha demo_numerics ?m ''e'' 10000 (95 / 100) = Inr q"
    "mr_benefit_passed q = Some True"
    using r three_pair_scores(2) demo_ci [of 10000 "ln 2"] demo_threshold demo_threshold_bounds(2)
    by (simp add: evaluate_primary_benefit_def dir EPSILON_def)
  have g: "gate_evidence sha demo_numerics ?rq ?m = Inr ([r], q, - 6 / 5)"
    using r q demo_family by (simp add: gate_evidence_def Let_def ms) (simp add: three_pair_request_def)
  have facts: "aq_safety_invariants_safe ?rq" "aq_environment_valid ?rq"
      "mi_metric_key ?m = aq_primary_metric_key ?rq" "length (mi_baseline_values ?m) = 3" "mi_baseline_values ?m \<noteq> []"
      "length (mi_candidate_values ?m) = 3" "ps_production_eligible (profile_settings_of (aq_profile ?rq))"
    by (simp_all add: three_pair_request_def three_pair_metric_def)
  then have "actual_pairs ?rq = 3" by (simp add: actual_pairs_def ms)
  then show ?thesis
    using facts r(2) q(2)
    by (simp add: evaluate_candidate_admission_def Let_def ms demo_requirements g dict_of_def base_result_def EPSILON_def)
qed

theorem admission_needs_observed_gain_witness:
  "\<exists>m\<in>set (aq_metrics three_pair_request). \<exists>u v. (Fin u, Fin v) \<in> set (zip (mi_baseline_values m) (mi_candidate_values m)) \<and>
     worse (mp_direction (mi_policy m)) v u"
  using admission_needs_observed_gain [OF demo_numerics_ok conjunct1 [OF three_pair_admitted [of id]]]
  by (simp add: three_pair_request_def three_pair_metric_def latency_policy_def EPSILON_def)

theorem admitted_passes_every_gate_witness:
  "(\<exists>r. evaluate_non_regression id demo_numerics three_pair_metric ''e'' 10000 (95 / 100) = Inr r \<and>
     mr_upper_confidence_bound r \<le> mr_allowed_regression_transformed r + EPSILON) \<and>
   (\<exists>family. paired_max_statistic_upper_bound id demo_numerics [three_pair_metric] ''e'' 10000 (95 / 100) = Inr family \<and> family \<le> EPSILON)"
  using admitted_passes_every_gate [OF conjunct1 [OF three_pair_admitted [of id]]]
  by (simp add: three_pair_request_def) (simp add: three_pair_metric_def)

text \<open>
  The minimum number of pairs of the autonomous profile is reported, not enforced: there is a
  request of the production-eligible profile, whose minimum is ten pairs, that is admitted on three
  pairs, with a required count of ten in its own result.
\<close>

theorem profile_minimum_not_enforced:
  "\<exists>rq. ps_minimum_candidate_pairs (profile_settings_of (aq_profile rq)) = Some 10 \<and>
     ar_status (evaluate_candidate_admission sha demo_numerics rq) = Admission.ADMITTED \<and>
     ar_production_eligible (evaluate_candidate_admission sha demo_numerics rq) \<and>
     ar_actual_pair_count (evaluate_candidate_admission sha demo_numerics rq) <
       ar_required_pair_count (evaluate_candidate_admission sha demo_numerics rq)"
proof -
  have "ps_minimum_candidate_pairs (profile_settings_of (aq_profile three_pair_request)) = Some 10"
    by (simp add: three_pair_request_def)
  then show ?thesis using three_pair_admitted [of sha] by (intro exI [of _ three_pair_request]) simp
qed

end
