(* ===== verification/Executor.thy ===== *)
theory Executor
  imports Actions Autonomy Approvals Ledger Admission
begin

text \<open>
  \<open>backend/app/production/executor.py\<close> and \<open>backend/app/rollback/owned_index.py\<close>: the fail-closed
  executor of an admitted index action and the rollback of exactly what it applied, over any adapter
  that keeps the contract \<open>database_adapter\<close>.

  The objects the two services share are the fields of one state: the database behind the adapter,
  the approval flow, the ledger, and the asyncio locks that are held. \<open>pc_fresh k\<close> is the identifier
  and the time that the \<open>k\<close>-th \<open>append\<close> of the ledger takes from \<open>uuid4()\<close> and the clock.
\<close>

record 't cell =
  pc_target :: 't
  pc_flow :: approval_flow
  pc_ledger :: "ledger_entry list"
  pc_fresh :: "nat \<Rightarrow> string \<times> string"
  pc_used :: nat
  pc_locks :: "string list"

definition on_target :: "('t, 'a) oper \<Rightarrow> ('t cell, 'a) oper" where
  "on_target m = focus pc_target (\<lambda>t s. s\<lparr>pc_target := t\<rparr>) m"

definition on_flow :: "(approval_flow, 'a) oper \<Rightarrow> ('t cell, 'a) oper" where
  "on_flow m = focus pc_flow (\<lambda>f s. s\<lparr>pc_flow := f\<rparr>) m"

definition ledger_append :: "digest \<Rightarrow> ledger_args \<Rightarrow> ('t cell, ledger_entry) oper" where
  "ledger_append sha a = (\<lambda>s. case pc_fresh s (pc_used s) of (eid, now) \<Rightarrow>
     (Inr (new_entry sha eid now a (pc_ledger s)),
      s\<lparr>pc_ledger := append_entry sha eid now a (pc_ledger s), pc_used := Suc (pc_used s)\<rparr>))"

text \<open>
  \<open>async with lock\<close>: the lock of the target is free on entry, or the caller waits; it is released
  however the block ends.
\<close>

definition with_target_lock :: "string \<Rightarrow> ('t cell, 'a) oper \<Rightarrow> ('t cell, 'a) oper" where
  "with_target_lock target_id m =
     bnd (asks pc_locks) (\<lambda>held.
     if target_id \<in> set held then raise (WouldBlock target_id)
     else finally_do (bnd (update (\<lambda>s. s\<lparr>pc_locks := target_id # pc_locks s\<rparr>)) (\<lambda>_. m))
       (\<lambda>s. s\<lparr>pc_locks := removeAll target_id (pc_locks s)\<rparr>))"

subsection \<open>Deployment\<close>

record deployment_request =
  dq_target_id :: string
  dq_action_id :: string
  dq_action :: create_index_action
  dq_admission :: admission_result
  dq_evidence_hash :: string
  dq_expected_state_hash :: string
  dq_actor :: string
  dq_deployment_mode :: deployment_mode

record deployment_result =
  dr_prepared_entry :: ledger_entry
  dr_applied_entry :: ledger_entry
  dr_resulting_state_hash :: string

definition state_hash :: "digest \<Rightarrow> target_state \<Rightarrow> string" where
  "state_hash sha st = json_hash sha (target_state_json st)"

definition index_fingerprint :: "digest \<Rightarrow> index_spec \<Rightarrow> string" where
  "index_fingerprint sha ix = json_hash sha (index_json ix)"

definition current_state :: "'t adapter \<Rightarrow> create_index_action \<Rightarrow> ('t, target_state) oper" where
  "current_state ad a = observe_state ad (ca_database a) (ca_collection a)"

definition current_state_hash :: "digest \<Rightarrow> 't adapter \<Rightarrow> create_index_action \<Rightarrow> ('t, string) oper" where
  "current_state_hash sha ad a = bnd (current_state ad a) (\<lambda>st. ret (state_hash sha st))"

definition verify_preconditions :: "target_state \<Rightarrow> create_index_action \<Rightarrow> exn + unit" where
  "verify_preconditions st a =
     (if \<not> ts_namespace_exists st then Inl (ProductionExecutionError ''target namespace is absent'')
      else if \<exists>i\<in>set (ts_indexes st). ix_name i = ca_index_name a
        then Inl (ProductionExecutionError ''target index already exists'')
      else Inr ())"

definition verify_applied :: "target_state \<Rightarrow> create_index_action \<Rightarrow> exn + unit" where
  "verify_applied st a =
     (let matching = filter (\<lambda>i. ix_name i = ca_index_name a) (ts_indexes st) in
      if length matching \<noteq> 1 \<or> ix_keys (hd matching) \<noteq> action_keys a
      then Inl (ProductionExecutionError ''resulting target state does not match typed action'')
      else Inr ())"

definition intended_state :: "target_state \<Rightarrow> create_index_action \<Rightarrow> target_state" where
  "intended_state before a = before\<lparr>ts_indexes := ts_indexes before @ [action_spec a]\<rparr>"

definition forward_json :: "digest \<Rightarrow> string \<Rightarrow> string \<Rightarrow> create_index_action \<Rightarrow> json" where
  "forward_json sha phase target_id a = JObj
     ([(''phase'', JStr phase), (''target_id'', JStr target_id),
       (''index_fingerprint'', JStr (index_fingerprint sha (action_spec a)))] @ create_index_dump a)"

definition deploy_entry :: "digest \<Rightarrow> deployment_request \<Rightarrow> string \<Rightarrow> target_state \<Rightarrow> target_state \<Rightarrow> ledger_args" where
  "deploy_entry sha rq phase before after = \<lparr>la_before_state = target_state_json before,
     la_intended_state = target_state_json (intended_state before (dq_action rq)),
     la_after_state = target_state_json after,
     la_forward_action = forward_json sha phase (dq_target_id rq) (dq_action rq),
     la_inverse_action = JObj (drop_index_dump (create_index_inverse (dq_action rq))),
     la_evidence_hash = dq_evidence_hash rq, la_actor = dq_actor rq\<rparr>"

definition check_approval :: "deployment_request \<Rightarrow> ('t cell, unit) oper" where
  "check_approval rq =
     (if approval_required (dq_deployment_mode rq) ''CREATE_INDEX'' False
      then bnd (on_flow (require_current_approval (dq_action_id rq) (dq_evidence_hash rq) (dq_target_id rq))) (\<lambda>_. ret ())
      else ret ())"

text \<open>The checks under the lock, in their order; they give the state the effect starts from.\<close>

definition deploy_checks :: "digest \<Rightarrow> 't adapter \<Rightarrow> deployment_request \<Rightarrow> ('t cell, target_state) oper" where
  "deploy_checks sha ad rq =
     bnd (check_approval rq) (\<lambda>_.
     bnd (on_target (current_state ad (dq_action rq))) (\<lambda>before.
     bnd (ensure (state_hash sha before = dq_expected_state_hash rq)
       (ProductionExecutionError ''current target state differs from verified evidence'')) (\<lambda>_.
     bnd (lift (verify_preconditions before (dq_action rq))) (\<lambda>_. ret before))))"

text \<open>Ledger the intent, create the index, verify it, ledger the effect.\<close>

definition deploy_effect :: "digest \<Rightarrow> 't adapter \<Rightarrow> deployment_request \<Rightarrow> target_state \<Rightarrow> ('t cell, deployment_result) oper" where
  "deploy_effect sha ad rq before =
     bnd (ledger_append sha (deploy_entry sha rq ''PREPARED'' before before)) (\<lambda>prepared.
     bnd (on_target (ad_create_index ad (ca_collection (dq_action rq)) (action_spec (dq_action rq)))) (\<lambda>_.
     bnd (on_target (current_state ad (dq_action rq))) (\<lambda>after.
     bnd (lift (verify_applied after (dq_action rq))) (\<lambda>_.
     bnd (ledger_append sha (deploy_entry sha rq ''APPLIED'' before after)) (\<lambda>applied.
     ret \<lparr>dr_prepared_entry = prepared, dr_applied_entry = applied, dr_resulting_state_hash = state_hash sha after\<rparr>)))))"

definition deploy :: "digest \<Rightarrow> 't adapter \<Rightarrow> deployment_request \<Rightarrow> ('t cell, deployment_result) oper" where
  "deploy sha ad rq =
     (if ar_status (dq_admission rq) \<noteq> Admission.ADMITTED \<or> \<not> ar_production_eligible (dq_admission rq)
      then raise (ProductionExecutionError ''only production-eligible admitted actions may deploy'')
      else with_target_lock (dq_target_id rq)
        (bnd (deploy_checks sha ad rq) (deploy_effect sha ad rq)))"

subsection \<open>Rollback of an owned index\<close>

datatype rollback_status = RB_ROLLED_BACK | RB_ROLLBACK_BLOCKED

record rollback_request =
  rq_target_id :: string
  rq_applied_ledger_entry_id :: string
  rq_actor :: string

record rollback_result =
  rr_status :: rollback_status
  rr_reason_codes :: "string list"
  rr_ledger_entry :: "ledger_entry option"

definition blocked :: "string list \<Rightarrow> rollback_result" where
  "blocked reasons = \<lparr>rr_status = RB_ROLLBACK_BLOCKED, rr_reason_codes = reasons, rr_ledger_entry = None\<rparr>"

text \<open>\<open>mapping.get(key)\<close>: a missing key reads as \<open>None\<close>.\<close>

fun obj_items :: "json \<Rightarrow> (string \<times> json) list" where
  "obj_items (JObj kvs) = kvs" | "obj_items _ = []"

definition py_get :: "json \<Rightarrow> string \<Rightarrow> json" where
  "py_get j k = (case map_of (obj_items j) k of Some v \<Rightarrow> v | None \<Rightarrow> JNull)"

text \<open>One item of \<open>fields\<close>; Python's \<open>True\<close> and \<open>False\<close> are the integers one and zero.\<close>

fun expected_key :: "json \<Rightarrow> (string \<times> int) list" where
  "expected_key (JObj kvs) = (case (map_of kvs ''field'', map_of kvs ''direction'') of
     (Some (JStr f), Some (JNum d)) \<Rightarrow> [(f, d)]
   | (Some (JStr f), Some (JBool b)) \<Rightarrow> [(f, if b then 1 else 0)]
   | _ \<Rightarrow> [])"
| "expected_key _ = []"

definition expected_keys :: "json \<Rightarrow> exn + (string \<times> int) list" where
  "expected_keys action = (case map_of (obj_items action) ''fields'' of
     None \<Rightarrow> Inr []
   | Some (JArr xs) \<Rightarrow> Inr (concat (map expected_key xs))
   | Some (JStr _) \<Rightarrow> Inr []
   | Some (JObj _) \<Rightarrow> Inr []
   | Some _ \<Rightarrow> Inl (TypeError ''object is not iterable''))"

definition ownership_failures ::
  "digest \<Rightarrow> ledger_entry \<Rightarrow> json \<Rightarrow> target_state \<Rightarrow> (string \<times> int) list \<Rightarrow> string list" where
  "ownership_failures sha entry action current keys =
     (let matching = filter (\<lambda>i. JStr (ix_name i) = py_get action ''index_name'') (ts_indexes current);
          fingerprint = (if length matching = 1 then JStr (index_fingerprint sha (hd matching)) else JNull)
      in (if length matching \<noteq> 1 \<or> ix_keys (hd matching) \<noteq> keys then [''INDEX_SPEC_MISMATCH''] else []) @
         (if fingerprint \<noteq> py_get action ''index_fingerprint'' then [''FINGERPRINT_MISMATCH''] else []) @
         (if state_hash sha current \<noteq> json_hash sha (le_after_state entry) then [''RELEVANT_DRIFT_DETECTED''] else []))"

definition verify_ownership :: "digest \<Rightarrow> 't adapter \<Rightarrow> ledger_entry \<Rightarrow> string \<Rightarrow> ('t cell, string list) oper" where
  "verify_ownership sha ad entry target_id =
     (let action = le_forward_action entry;
          mismatch = (if py_get action ''target_id'' \<noteq> JStr target_id then [''TARGET_MISMATCH''] else [])
      in if py_get action ''phase'' \<noteq> JStr ''APPLIED'' \<or> py_get action ''action_type'' \<noteq> JStr ''CREATE_INDEX''
         then ret [''LEDGER_OWNERSHIP_MISSING'']
         else case (py_get action ''database'', py_get action ''collection'') of
           (JStr database, JStr collection) \<Rightarrow>
             bnd (on_target (observe_state ad database collection)) (\<lambda>current.
             if \<not> ts_namespace_exists current then ret (mismatch @ [''NAMESPACE_MISMATCH''])
             else bnd (lift (expected_keys action)) (\<lambda>keys.
               ret (mismatch @ ownership_failures sha entry action current keys)))
         | _ \<Rightarrow> ret (mismatch @ [''NAMESPACE_MISMATCH'']))"

text \<open>\<open>str(value)\<close> of a value that the checks have shown to be text.\<close>

fun text_of :: "json \<Rightarrow> string" where
  "text_of (JStr s) = s" | "text_of j = render j"

definition rollback_entry :: "ledger_entry \<Rightarrow> rollback_request \<Rightarrow> target_state \<Rightarrow> target_state \<Rightarrow> ledger_args" where
  "rollback_entry entry rq before after = \<lparr>la_before_state = target_state_json before,
     la_intended_state = target_state_json after, la_after_state = target_state_json after,
     la_forward_action = JObj ((''phase'', JStr ''ROLLED_BACK'') # obj_items (le_inverse_action entry)),
     la_inverse_action = le_forward_action entry, la_evidence_hash = le_evidence_hash entry, la_actor = rq_actor rq\<rparr>"

definition rollback_index :: "digest \<Rightarrow> 't adapter \<Rightarrow> rollback_request \<Rightarrow> ('t cell, rollback_result) oper" where
  "rollback_index sha ad rq =
     bnd (asks (\<lambda>s. find (\<lambda>e. le_entry_id e = rq_applied_ledger_entry_id rq) (pc_ledger s))) (\<lambda>found.
     case found of
       None \<Rightarrow> ret (blocked [''LEDGER_OWNERSHIP_MISSING''])
     | Some entry \<Rightarrow>
       bnd (verify_ownership sha ad entry (rq_target_id rq)) (\<lambda>failures.
       if failures \<noteq> [] then ret (blocked failures)
       else
         (let collection = text_of (py_get (le_forward_action entry) ''collection'');
              database = text_of (py_get (le_forward_action entry) ''database'');
              name = text_of (py_get (le_forward_action entry) ''index_name'')
          in bnd (on_target (observe_state ad database collection)) (\<lambda>before.
             bnd (on_target (ad_drop_index ad collection name)) (\<lambda>_.
             bnd (on_target (observe_state ad database collection)) (\<lambda>after.
             if \<exists>i\<in>set (ts_indexes after). ix_name i = name then ret (blocked [''RESULTING_STATE_MISMATCH''])
             else bnd (ledger_append sha (rollback_entry entry rq before after)) (\<lambda>e.
               ret \<lparr>rr_status = RB_ROLLED_BACK, rr_reason_codes = [], rr_ledger_entry = Some e\<rparr>)))))))"

subsection \<open>The pieces of a deployment\<close>

lemma on_target_apply [oper_simps]: "on_target m s = (fst (m (pc_target s)), s\<lparr>pc_target := snd (m (pc_target s))\<rparr>)"
  by (simp add: on_target_def focus_apply)

lemma on_flow_apply [oper_simps]: "on_flow m s = (fst (m (pc_flow s)), s\<lparr>pc_flow := snd (m (pc_flow s))\<rparr>)"
  by (simp add: on_flow_def focus_apply)

definition fresh_entry :: "digest \<Rightarrow> ledger_args \<Rightarrow> 't cell \<Rightarrow> ledger_entry" where
  "fresh_entry sha a s = new_entry sha (fst (pc_fresh s (pc_used s))) (snd (pc_fresh s (pc_used s))) a (pc_ledger s)"

lemma fresh_entry_frame [simp]:
  "fresh_entry sha a (s\<lparr>pc_target := t\<rparr>) = fresh_entry sha a s"
  "fresh_entry sha a (s\<lparr>pc_flow := f\<rparr>) = fresh_entry sha a s"
  "fresh_entry sha a (s\<lparr>pc_locks := l\<rparr>) = fresh_entry sha a s"
  by (simp_all add: fresh_entry_def)

lemma ledger_append_apply [oper_simps]:
  "ledger_append sha a s =
     (Inr (fresh_entry sha a s), s\<lparr>pc_ledger := pc_ledger s @ [fresh_entry sha a s], pc_used := Suc (pc_used s)\<rparr>)"
  by (simp add: ledger_append_def fresh_entry_def append_entry_def split: prod.split)

lemma verify_fresh: "verify sha (pc_ledger s @ [fresh_entry sha a s]) = verify sha (pc_ledger s)"
  using verify_append_entry [of sha _ _ a "pc_ledger s"] by (simp add: fresh_entry_def append_entry_def)

lemma with_target_lock_apply:
  "with_target_lock tid m s =
     (if tid \<in> set (pc_locks s) then (Inl (WouldBlock tid), s)
      else case m (s\<lparr>pc_locks := tid # pc_locks s\<rparr>) of (r, s') \<Rightarrow> (r, s'\<lparr>pc_locks := removeAll tid (pc_locks s')\<rparr>))"
  by (simp add: with_target_lock_def bnd_apply finally_do_apply split: prod.split)

subsection \<open>Reading back a frozen action\<close>

lemma map_of_sort_key: "distinct (map fst xs) \<Longrightarrow> map_of (sort_key fst xs) = map_of xs"
proof -
  assume d: "distinct (map fst xs)"
  then have "distinct (map fst (sort_key fst xs))" by (simp add: distinct_map)
  then show ?thesis using d by (simp add: map_of_inject_set)
qed

lemma py_get_canon:
  assumes "distinct (map fst kvs)"
  shows "py_get (canon (JObj kvs)) k = canon (py_get (JObj kvs) k)"
proof -
  let ?f = "\<lambda>(k, v). (k, canon v)"
  have "map fst (map ?f kvs) = map fst kvs" by (induction kvs) auto
  then have "map_of (sort_key fst (map ?f kvs)) = map_of (map ?f kvs)"
    using assms by (intro map_of_sort_key) (simp only:)
  moreover have "map_of (map ?f kvs) k = map_option canon (map_of kvs k)" by (simp add: map_of_map)
  ultimately show ?thesis by (simp add: py_get_def split: option.split)
qed

lemma frozen_keys: "expected_key (canon (index_field_dump f)) = [(if_field f, if_direction f)]"
  by (simp add: index_field_dump_def)

lemma concat_frozen_keys: "concat (map expected_key (map canon (map index_field_dump fs))) = map (\<lambda>f. (if_field f, if_direction f)) fs"
  by (induction fs) (simp_all add: frozen_keys)

lemma forward_lookup:
  "py_get (canon (forward_json sha ph tid a)) ''phase'' = JStr ph"
  "py_get (canon (forward_json sha ph tid a)) ''target_id'' = JStr tid"
  "py_get (canon (forward_json sha ph tid a)) ''action_type'' = JStr ''CREATE_INDEX''"
  "py_get (canon (forward_json sha ph tid a)) ''database'' = JStr (ca_database a)"
  "py_get (canon (forward_json sha ph tid a)) ''collection'' = JStr (ca_collection a)"
  "py_get (canon (forward_json sha ph tid a)) ''index_name'' = JStr (ca_index_name a)"
  "py_get (canon (forward_json sha ph tid a)) ''index_fingerprint'' = JStr (index_fingerprint sha (action_spec a))"
  "py_get (canon (forward_json sha ph tid a)) ''fields'' = JArr (map canon (map index_field_dump (ca_fields a)))"
proof -
  have d: "distinct (map fst ([(''phase'', JStr ph), (''target_id'', JStr tid),
       (''index_fingerprint'', JStr (index_fingerprint sha (action_spec a)))] @ create_index_dump a))"
    by (simp add: create_index_dump_def)
  note * = py_get_canon [OF d, folded forward_json_def]
  show "py_get (canon (forward_json sha ph tid a)) ''phase'' = JStr ph"
    "py_get (canon (forward_json sha ph tid a)) ''target_id'' = JStr tid"
    "py_get (canon (forward_json sha ph tid a)) ''action_type'' = JStr ''CREATE_INDEX''"
    "py_get (canon (forward_json sha ph tid a)) ''database'' = JStr (ca_database a)"
    "py_get (canon (forward_json sha ph tid a)) ''collection'' = JStr (ca_collection a)"
    "py_get (canon (forward_json sha ph tid a)) ''index_name'' = JStr (ca_index_name a)"
    "py_get (canon (forward_json sha ph tid a)) ''index_fingerprint'' = JStr (index_fingerprint sha (action_spec a))"
    "py_get (canon (forward_json sha ph tid a)) ''fields'' = JArr (map canon (map index_field_dump (ca_fields a)))"
    by (simp_all add: *) (simp_all add: forward_json_def py_get_def create_index_dump_def)
qed

lemma expected_keys_py_get: "py_get action ''fields'' = JArr xs \<Longrightarrow> expected_keys action = Inr (concat (map expected_key xs))"
  by (auto simp: py_get_def expected_keys_def split: option.splits)

lemma forward_expected_keys: "expected_keys (canon (forward_json sha ph tid a)) = Inr (action_keys a)"
  using expected_keys_py_get [OF forward_lookup(8)] by (simp only: concat_frozen_keys action_keys_def)

definition approval_given :: "deployment_request \<Rightarrow> approval_flow \<Rightarrow> bool" where
  "approval_given rq f \<longleftrightarrow> (approval_required (dq_deployment_mode rq) ''CREATE_INDEX'' False \<longrightarrow>
     (\<exists>a. fst (require_current_approval (dq_action_id rq) (dq_evidence_hash rq) (dq_target_id rq) f) = Inr a))"

context database_adapter
begin

lemma observe_on_target:
  assumes "inv (pc_target s)" and "on_target (observe_state ad db c) s = (r, s')"
  shows "s' = s \<and> (\<forall>st. r = Inr st \<longrightarrow> st = true_state db c (pc_target s))"
  using observe_pure [OF assms(1), of db c "fst (observe_state ad db c (pc_target s))"
      "snd (observe_state ad db c (pc_target s))"] assms(2)
  by (auto simp: on_target_apply)

text \<open>What the checks have established when they return, and that they touch only the approvals.\<close>

definition gates_hold :: "digest \<Rightarrow> deployment_request \<Rightarrow> 't cell \<Rightarrow> target_state \<Rightarrow> bool" where
  "gates_hold sha rq s before \<longleftrightarrow>
     (let db = ca_database (dq_action rq); c = ca_collection (dq_action rq) in
      before = true_state db c (pc_target s) \<and> state_hash sha before = dq_expected_state_hash rq \<and>
      c \<in> set (cols (pc_target s)) \<and> ca_index_name (dq_action rq) \<notin> ix_name ` set (idx (pc_target s) c) \<and>
      approval_given rq (pc_flow s))"

lemma verify_preconditions_true_state:
  "verify_preconditions (true_state db (ca_collection a) t) a = Inr u \<Longrightarrow>
     ca_collection a \<in> set (cols t) \<and> ca_index_name a \<notin> ix_name ` set (idx t (ca_collection a))"
  by (auto simp: verify_preconditions_def true_state_def split: if_splits)

lemma deploy_checks_spec:
  assumes inv: "inv (pc_target s)" and run: "deploy_checks sha ad rq s = (r, s')"
  shows "(\<exists>f. s' = s\<lparr>pc_flow := f\<rparr>) \<and> (\<forall>before. r = Inr before \<longrightarrow> gates_hold sha rq s before)"
proof -
  let ?a = "dq_action rq"
  obtain r1 s1 where 1: "check_approval rq s = (r1, s1)" by fastforce
  then have f1: "\<exists>f. s1 = s\<lparr>pc_flow := f\<rparr>" and ap: "r1 = Inr () \<Longrightarrow> approval_given rq (pc_flow s)"
    by (auto simp: check_approval_def bnd_apply on_flow_apply approval_given_def split: if_splits sum.splits intro: exI [of _ "pc_flow s"])
  show ?thesis
  proof (cases r1)
    case (Inl e)
    have "(r, s') = (Inl e, s1)"
      using run by (simp add: deploy_checks_def bnd_apply [of "check_approval rq"] 1 Inl)
    then show ?thesis using f1 by simp
  next
    case (Inr u)
    have t1: "pc_target s1 = pc_target s" using f1 by auto
    obtain r2 s2 where 2: "on_target (current_state ad ?a) s1 = (r2, s2)" by fastforce
    then have o: "s2 = s1" "\<And>st. r2 = Inr st \<Longrightarrow> st = true_state (ca_database ?a) (ca_collection ?a) (pc_target s)"
      using observe_on_target [of s1 "ca_database ?a" "ca_collection ?a" r2 s2] inv t1 by (auto simp: current_state_def)
    have rest: "(r, s') = bnd (on_target (current_state ad ?a)) (\<lambda>before.
       bnd (ensure (state_hash sha before = dq_expected_state_hash rq)
         (ProductionExecutionError ''current target state differs from verified evidence'')) (\<lambda>_.
       bnd (lift (verify_preconditions before ?a)) (\<lambda>_. ret before))) s1"
      using run by (simp add: deploy_checks_def bnd_apply [of "check_approval rq"] 1 Inr)
    show ?thesis
    proof (cases r2)
      case (Inl e)
      then show ?thesis using rest 2 o f1 by (simp add: bnd_apply)
    next
      case (Inr st)
      then have st: "st = true_state (ca_database ?a) (ca_collection ?a) (pc_target s)" using o(2) by simp
      have "s' = s1" and "r = Inr before \<Longrightarrow> before = st \<and> state_hash sha st = dq_expected_state_hash rq \<and>
          verify_preconditions st ?a = Inr ()" for before
        using rest 2 Inr o(1) by (auto simp: bnd_apply split: if_splits sum.splits)
      then show ?thesis
        using f1 ap \<open>r1 = Inr u\<close> st verify_preconditions_true_state [of _ ?a "pc_target s"]
        by (auto simp: gates_hold_def Let_def)
    qed
  qed
qed

definition effect_args :: "digest \<Rightarrow> deployment_request \<Rightarrow> target_state \<Rightarrow> 't \<Rightarrow> ledger_args" where
  "effect_args sha rq before t =
     deploy_entry sha rq ''APPLIED'' before (true_state (ca_database (dq_action rq)) (ca_collection (dq_action rq)) t)"

lemma deploy_effect_spec:
  assumes inv: "inv (pc_target s)"
    and fresh: "ca_index_name (dq_action rq) \<notin> ix_name ` set (idx (pc_target s) (ca_collection (dq_action rq)))"
    and run: "deploy_effect sha ad rq before s = (r, s')"
    and prep: "prep = fresh_entry sha (deploy_entry sha rq ''PREPARED'' before before) s"
  shows "inv (pc_target s') \<and> pc_locks s' = pc_locks s \<and> pc_flow s' = pc_flow s \<and>
     (pc_target s' = pc_target s \<or>
        created cols idx hint (ca_collection (dq_action rq)) (action_spec (dq_action rq)) (pc_target s) (pc_target s')) \<and>
     (case r of
        Inl e \<Rightarrow> pc_ledger s' = pc_ledger s @ [prep]
      | Inr res \<Rightarrow> dr_prepared_entry res = prep \<and>
          dr_applied_entry res = fresh_entry sha (effect_args sha rq before (pc_target s'))
            (s\<lparr>pc_ledger := pc_ledger s @ [prep], pc_used := Suc (pc_used s)\<rparr>) \<and>
          pc_ledger s' = pc_ledger s @ [prep, dr_applied_entry res] \<and> pc_fresh s' = pc_fresh s \<and>
          created cols idx hint (ca_collection (dq_action rq)) (action_spec (dq_action rq)) (pc_target s) (pc_target s'))"
proof -
  let ?a = "dq_action rq"
  let ?c = "ca_collection ?a"
  let ?s1 = "s\<lparr>pc_ledger := pc_ledger s @ [prep], pc_used := Suc (pc_used s)\<rparr>"
  obtain r2 t2 where 2: "ad_create_index ad ?c (action_spec ?a) (pc_target s) = (r2, t2)" by fastforce
  have c: "inv t2" "created cols idx hint ?c (action_spec ?a) (pc_target s) t2 \<or> (\<exists>e. r2 = Inl e) \<and> t2 = pc_target s"
    using create_index [OF inv _ 2] fresh by auto
  let ?s2 = "?s1\<lparr>pc_target := t2\<rparr>"
  have rest: "(r, s') = (case r2 of Inl e \<Rightarrow> (Inl e, ?s2) | Inr _ \<Rightarrow>
     bnd (on_target (current_state ad ?a)) (\<lambda>after.
     bnd (lift (verify_applied after ?a)) (\<lambda>_.
     bnd (ledger_append sha (deploy_entry sha rq ''APPLIED'' before after)) (\<lambda>applied.
     ret \<lparr>dr_prepared_entry = prep, dr_applied_entry = applied, dr_resulting_state_hash = state_hash sha after\<rparr>))) ?s2)"
  proof -
    have app: "ledger_append sha (deploy_entry sha rq ''PREPARED'' before before) s = (Inr prep, ?s1)"
      by (simp add: ledger_append_apply prep)
    have cre: "on_target (ad_create_index ad ?c (action_spec ?a)) ?s1 = (r2, ?s2)"
      using 2 by (simp add: on_target_apply)
    show ?thesis
      using run
      by (cases r2) (simp_all add: deploy_effect_def cre
        bnd_apply [of "ledger_append sha (deploy_entry sha rq ''PREPARED'' before before)"] app
        bnd_apply [of "on_target (ad_create_index ad ?c (action_spec ?a))"] del: fun_upd_apply)
  qed
  show ?thesis
  proof (cases r2)
    case (Inl e)
    then show ?thesis using rest c by auto
  next
    case (Inr u)
    then have cr: "created cols idx hint ?c (action_spec ?a) (pc_target s) t2" using c(2) by simp
    obtain r3 s3 where 3: "on_target (current_state ad ?a) ?s2 = (r3, s3)" by fastforce
    then have o: "s3 = ?s2" "\<And>st. r3 = Inr st \<Longrightarrow> st = true_state (ca_database ?a) ?c t2"
      using observe_on_target [of ?s2 "ca_database ?a" ?c r3 s3] c(1) by (auto simp: current_state_def)
    show ?thesis
    proof (cases r3)
      case (Inl e)
      then show ?thesis using rest Inr 3 o cr c(1) by (simp add: bnd_apply)
    next
      case (Inr after)
      then have af: "after = true_state (ca_database ?a) ?c t2" using o by simp
      let ?app = "fresh_entry sha (deploy_entry sha rq ''APPLIED'' before after) ?s1"
      have out: "(r, s') = (case verify_applied after ?a of Inl e \<Rightarrow> (Inl e, ?s2) | Inr _ \<Rightarrow>
          (Inr \<lparr>dr_prepared_entry = prep, dr_applied_entry = ?app, dr_resulting_state_hash = state_hash sha after\<rparr>,
           ?s2\<lparr>pc_ledger := pc_ledger ?s1 @ [?app], pc_used := Suc (pc_used ?s1)\<rparr>))"
        unfolding rest \<open>r2 = Inr u\<close>
        by (cases "verify_applied after ?a") (simp_all add: bnd_apply 3 Inr o(1) ledger_append_apply)
      have app: "?app = fresh_entry sha (effect_args sha rq before t2) ?s1" by (simp add: effect_args_def af)
      show ?thesis
      proof (cases "verify_applied after ?a")
        case (Inl e)
        then have "r = Inl e" "s' = ?s2" using out by simp_all
        then show ?thesis using cr c(1) by simp
      next
        case (Inr v)
        then have "r = Inr \<lparr>dr_prepared_entry = prep, dr_applied_entry = ?app, dr_resulting_state_hash = state_hash sha after\<rparr>"
          "s' = ?s2\<lparr>pc_ledger := pc_ledger ?s1 @ [?app], pc_used := Suc (pc_used ?s1)\<rparr>" using out by simp_all
        then show ?thesis using cr c(1) by (simp add: app [symmetric] effect_args_def af)
      qed
    qed
  qed
qed

lemma deploy_spec:
  assumes inv: "inv (pc_target s)" and run: "deploy sha ad rq s = (r, s')"
  shows "inv (pc_target s') \<and> pc_locks s' = pc_locks s \<and>
     ((\<exists>before prep. ar_status (dq_admission rq) = Admission.ADMITTED \<and> ar_production_eligible (dq_admission rq) \<and>
        gates_hold sha rq s before \<and>
        prep = fresh_entry sha (deploy_entry sha rq ''PREPARED'' before before) s \<and>
        (pc_target s' = pc_target s \<or>
          created cols idx hint (ca_collection (dq_action rq)) (action_spec (dq_action rq)) (pc_target s) (pc_target s')) \<and>
        (case r of Inl e \<Rightarrow> pc_ledger s' = pc_ledger s @ [prep]
         | Inr res \<Rightarrow> dr_prepared_entry res = prep \<and>
          dr_applied_entry res = fresh_entry sha (effect_args sha rq before (pc_target s'))
            (s\<lparr>pc_ledger := pc_ledger s @ [prep], pc_used := Suc (pc_used s)\<rparr>) \<and>
          pc_ledger s' = pc_ledger s @ [prep, dr_applied_entry res] \<and> pc_fresh s' = pc_fresh s \<and>
          created cols idx hint (ca_collection (dq_action rq)) (action_spec (dq_action rq)) (pc_target s) (pc_target s'))) \<or>
      (\<exists>e. r = Inl e) \<and> pc_target s' = pc_target s \<and> pc_ledger s' = pc_ledger s)"
proof (cases "ar_status (dq_admission rq) = Admission.ADMITTED \<and> ar_production_eligible (dq_admission rq) \<and>
    dq_target_id rq \<notin> set (pc_locks s)")
  case False
  then have "s' = s" "\<exists>e. r = Inl e"
    using run by (auto simp: deploy_def with_target_lock_apply split: if_splits)
  then show ?thesis using inv by blast
next
  case True
  let ?tid = "dq_target_id rq"
  let ?s0 = "s\<lparr>pc_locks := ?tid # pc_locks s\<rparr>"
  have locks: "removeAll ?tid (pc_locks s) = pc_locks s" using True by simp
  obtain r1 s1 where 1: "deploy_checks sha ad rq ?s0 = (r1, s1)" by fastforce
  obtain f where s1: "s1 = ?s0\<lparr>pc_flow := f\<rparr>" and g: "\<And>before. r1 = Inr before \<Longrightarrow> gates_hold sha rq ?s0 before"
    using deploy_checks_spec [OF _ 1] inv by auto
  have body: "(r, s') = (case bnd (deploy_checks sha ad rq) (deploy_effect sha ad rq) ?s0 of
      (r, s') \<Rightarrow> (r, s'\<lparr>pc_locks := removeAll ?tid (pc_locks s')\<rparr>))"
    using run True by (simp add: deploy_def with_target_lock_apply)
  show ?thesis
  proof (cases r1)
    case (Inl e)
    then have "r = Inl e" "s' = s1\<lparr>pc_locks := removeAll ?tid (pc_locks s1)\<rparr>"
      using body 1 by (simp_all add: bnd_apply)
    then show ?thesis using s1 locks inv by simp
  next
    case (Inr before)
    have gates: "gates_hold sha rq s before" 
    proof -
      have "gates_hold sha rq ?s0 before = gates_hold sha rq s before" by (simp add: gates_hold_def)
      then show ?thesis using g [OF Inr] by simp
    qed
    obtain r2 s2 where 2: "deploy_effect sha ad rq before s1 = (r2, s2)" by fastforce
    have out: "r = r2" "s' = s2\<lparr>pc_locks := removeAll ?tid (pc_locks s2)\<rparr>"
      using body 1 2 Inr by (simp_all add: bnd_apply)
    let ?prep = "fresh_entry sha (deploy_entry sha rq ''PREPARED'' before before) s1"
    have prep: "?prep = fresh_entry sha (deploy_entry sha rq ''PREPARED'' before before) s"
      by (simp add: s1)
    have t1: "pc_target s1 = pc_target s" "pc_ledger s1 = pc_ledger s" "pc_used s1 = pc_used s"
      "pc_fresh s1 = pc_fresh s" "pc_locks s1 = ?tid # pc_locks s" by (simp_all add: s1)
    have fresh: "ca_index_name (dq_action rq) \<notin> ix_name ` set (idx (pc_target s1) (ca_collection (dq_action rq)))"
      using gates t1 by (simp add: gates_hold_def Let_def)
    have fe: "fresh_entry sha a (s1\<lparr>pc_ledger := l, pc_used := n\<rparr>) = fresh_entry sha a (s\<lparr>pc_ledger := l, pc_used := n\<rparr>)" for a l n
      by (simp add: fresh_entry_def t1)
    note eff = deploy_effect_spec [OF _ fresh 2 refl, unfolded t1 fe prep, OF inv]
    have same: "pc_target s' = pc_target s2" "pc_ledger s' = pc_ledger s2" "pc_fresh s' = pc_fresh s2"
      "pc_locks s' = pc_locks s" using out eff locks by simp_all
    show ?thesis
      unfolding same out(1)
      by (rule conjI [OF _ conjI [OF _ disjI1 [OF exI [of _ before, OF exI
          [of _ "fresh_entry sha (deploy_entry sha rq ''PREPARED'' before before) s"]]]]])
        (use eff gates True in blast)+
  qed
qed

text \<open>What a rollback has established before it drops anything.\<close>

definition owned :: "digest \<Rightarrow> rollback_request \<Rightarrow> ledger_entry \<Rightarrow> 't \<Rightarrow> string \<Rightarrow> string \<Rightarrow> string \<Rightarrow> index_spec \<Rightarrow> bool" where
  "owned sha rq entry t db c n ix \<longleftrightarrow>
     (let action = le_forward_action entry in
      py_get action ''phase'' = JStr ''APPLIED'' \<and> py_get action ''action_type'' = JStr ''CREATE_INDEX'' \<and>
      py_get action ''target_id'' = JStr (rq_target_id rq) \<and> py_get action ''database'' = JStr db \<and>
      py_get action ''collection'' = JStr c \<and> py_get action ''index_name'' = JStr n \<and> c \<in> set (cols t) \<and>
      filter (\<lambda>i. ix_name i = n) (idx t c) = [ix] \<and> expected_keys action = Inr (ix_keys ix) \<and>
      py_get action ''index_fingerprint'' = JStr (index_fingerprint sha ix) \<and>
      state_hash sha (true_state db c t) = json_hash sha (le_after_state entry))"

lemma ownership_failures_none:
  assumes "ownership_failures sha entry action (true_state db c t) keys = []" and c: "c \<in> set (cols t)"
  shows "\<exists>n ix. py_get action ''index_name'' = JStr n \<and> filter (\<lambda>i. ix_name i = n) (idx t c) = [ix] \<and>
     ix_keys ix = keys \<and> py_get action ''index_fingerprint'' = JStr (index_fingerprint sha ix) \<and>
     state_hash sha (true_state db c t) = json_hash sha (le_after_state entry)"
proof -
  let ?m = "filter (\<lambda>i. JStr (ix_name i) = py_get action ''index_name'') (idx t c)"
  have 1: "length ?m = 1" "ix_keys (hd ?m) = keys" "JStr (index_fingerprint sha (hd ?m)) = py_get action ''index_fingerprint''"
    "state_hash sha (true_state db c t) = json_hash sha (le_after_state entry)"
    using assms by (auto simp: ownership_failures_def Let_def true_state_def split: if_splits)
  then obtain ix where m: "?m = [ix]" by (auto simp: length_Suc_conv)
  then have "ix \<in> set ?m" by simp
  then have n: "py_get action ''index_name'' = JStr (ix_name ix)" by simp
  show ?thesis using 1 m n by (intro exI [of _ "ix_name ix"] exI [of _ ix]) (simp add: n)
qed

lemma verify_ownership_spec:
  assumes inv: "inv (pc_target s)" and run: "verify_ownership sha ad entry tid s = (r, s')" and tid: "tid = rq_target_id rq"
  shows "s' = s \<and> (r = Inr [] \<longrightarrow> (\<exists>db c n ix. owned sha rq entry (pc_target s) db c n ix))"
proof (cases "py_get (le_forward_action entry) ''phase'' \<noteq> JStr ''APPLIED'' \<or>
    py_get (le_forward_action entry) ''action_type'' \<noteq> JStr ''CREATE_INDEX''")
  case True
  then show ?thesis using run by (auto simp: verify_ownership_def Let_def)
next
  case False
  let ?act = "le_forward_action entry"
  show ?thesis
  proof (cases "\<exists>db c. py_get ?act ''database'' = JStr db \<and> py_get ?act ''collection'' = JStr c")
    case no: False
    then have "s' = s \<and> r \<noteq> Inr []"
      using run False by (auto simp: verify_ownership_def Let_def split: json.splits)
    then show ?thesis by blast
  next
    case yes: True
    then obtain db c where dc: "py_get ?act ''database'' = JStr db" "py_get ?act ''collection'' = JStr c" by blast
    obtain r1 s1 where 1: "on_target (observe_state ad db c) s = (r1, s1)" by fastforce
    note o = observe_on_target [OF inv 1]
    let ?mm = "if py_get ?act ''target_id'' \<noteq> JStr tid then [''TARGET_MISMATCH''] else []"
    have eq: "(r, s') = bnd (on_target (observe_state ad db c)) (\<lambda>current.
             if \<not> ts_namespace_exists current then ret (?mm @ [''NAMESPACE_MISMATCH''])
             else bnd (lift (expected_keys ?act)) (\<lambda>keys.
               ret (?mm @ ownership_failures sha entry ?act current keys))) s"
      using run False dc by (simp add: verify_ownership_def Let_def)
    show ?thesis
    proof (cases r1)
      case (Inl e)
      then show ?thesis using eq 1 o by (simp add: bnd_apply)
    next
      case (Inr st)
      then have st: "st = true_state db c (pc_target s)" "s1 = s" using o by simp_all
      show ?thesis
      proof (cases "c \<in> set (cols (pc_target s)) \<and> (\<exists>keys. expected_keys ?act = Inr keys)")
        case no: False
        then have "s' = s \<and> r \<noteq> Inr []"
          using eq 1 Inr st by (cases "expected_keys ?act") (auto simp: bnd_apply true_state_def split: if_splits)
        then show ?thesis by blast
      next
        case ok: True
        then obtain keys where keys: "expected_keys ?act = Inr keys" by blast
        have "s' = s" "r = Inr (?mm @ ownership_failures sha entry ?act st keys)"
          using eq 1 Inr st ok keys by (simp_all add: bnd_apply true_state_def)
        then show ?thesis
          using ownership_failures_none [of sha entry ?act db c "pc_target s" keys] ok keys dc False tid st
          by (auto simp: owned_def Let_def split: if_splits)
      qed
    qed
  qed
qed

lemma rollback_spec:
  assumes inv: "inv (pc_target s)" and run: "rollback_index sha ad rq s = (r, s')"
  shows "inv (pc_target s') \<and> pc_locks s' = pc_locks s \<and>
     (pc_target s' = pc_target s \<and> pc_ledger s' = pc_ledger s \<and>
        (\<forall>res. r = Inr res \<longrightarrow> rr_status res = RB_ROLLBACK_BLOCKED \<and>
          (\<forall>entry. find (\<lambda>e. le_entry_id e = rq_applied_ledger_entry_id rq) (pc_ledger s) = Some entry \<longrightarrow>
            fst (verify_ownership sha ad entry (rq_target_id rq) s) = Inr (rr_reason_codes res) \<and> rr_reason_codes res \<noteq> [])) \<or>
      (\<exists>entry db c n ix. find (\<lambda>e. le_entry_id e = rq_applied_ledger_entry_id rq) (pc_ledger s) = Some entry \<and>
        owned sha rq entry (pc_target s) db c n ix \<and> dropped cols idx hint c n (pc_target s) (pc_target s') \<and>
        (case r of Inl e \<Rightarrow> pc_ledger s' = pc_ledger s
         | Inr res \<Rightarrow> rr_status res = RB_ROLLED_BACK \<and>
             (\<exists>e. rr_ledger_entry res = Some e \<and> pc_ledger s' = pc_ledger s @ [e] \<and>
               le_inverse_action e = freeze_mapping (le_forward_action entry)))))"
proof (cases "find (\<lambda>e. le_entry_id e = rq_applied_ledger_entry_id rq) (pc_ledger s)")
  case None
  then show ?thesis using run inv by (auto simp: rollback_index_def bnd_apply blocked_def)
next
  case (Some entry)
  obtain r1 s1 where 1: "verify_ownership sha ad entry (rq_target_id rq) s = (r1, s1)" by fastforce
  note v = verify_ownership_spec [OF inv 1 refl]
  show ?thesis
  proof (cases "r1 = Inr []")
    case False
    then have "s' = s \<and> (\<forall>res. r = Inr res \<longrightarrow> rr_status res = RB_ROLLBACK_BLOCKED \<and> r1 = Inr (rr_reason_codes res) \<and> rr_reason_codes res \<noteq> [])"
      using run Some 1 v by (cases r1) (auto simp: rollback_index_def bnd_apply blocked_def)
    then show ?thesis using inv 1 Some by (cases r) auto
  next
    case True
    then obtain db c n ix where own: "owned sha rq entry (pc_target s) db c n ix" using v by blast
    then have names: "text_of (py_get (le_forward_action entry) ''database'') = db"
      "text_of (py_get (le_forward_action entry) ''collection'') = c"
      "text_of (py_get (le_forward_action entry) ''index_name'') = n" and cc: "c \<in> set (cols (pc_target s))"
      by (simp_all add: owned_def Let_def)
    have eq: "(r, s') = bnd (on_target (observe_state ad db c)) (\<lambda>before.
             bnd (on_target (ad_drop_index ad c n)) (\<lambda>_.
             bnd (on_target (observe_state ad db c)) (\<lambda>after.
             if \<exists>i\<in>set (ts_indexes after). ix_name i = n then ret (blocked [''RESULTING_STATE_MISMATCH''])
             else bnd (ledger_append sha (rollback_entry entry rq before after)) (\<lambda>e.
               ret \<lparr>rr_status = RB_ROLLED_BACK, rr_reason_codes = [], rr_ledger_entry = Some e\<rparr>)))) s"
      using run Some 1 v True names by (simp add: rollback_index_def bnd_apply [of "asks _"] bnd_apply [of "verify_ownership _ _ _ _"] Let_def)
    obtain r2 s2 where 2: "on_target (observe_state ad db c) s = (r2, s2)" by fastforce
    note o2 = observe_on_target [OF inv 2]
    obtain r3 t3 where 3: "ad_drop_index ad c n (pc_target s) = (r3, t3)" by fastforce
    note d = drop_index [OF inv 3]
    let ?s3 = "s\<lparr>pc_target := t3\<rparr>"
    have d3: "on_target (ad_drop_index ad c n) s = (r3, ?s3)" using 3 by (simp add: on_target_apply)
    obtain r4 s4 where 4: "on_target (observe_state ad db c) ?s3 = (r4, s4)" by fastforce
    have o4: "s4 = ?s3 \<and> (\<forall>st. r4 = Inr st \<longrightarrow> st = true_state db c t3)"
      using observe_on_target [OF _ 4] d by simp
    show ?thesis
    proof (cases "\<exists>b u. r2 = Inr b \<and> r3 = Inr u")
      case False
      then obtain e where r: "r = Inl e" and s': "s' = s \<or> s' = ?s3 \<and> (\<exists>e. r3 = Inl e)"
        using eq 2 o2 d3 by (cases r2; cases r3) (simp_all add: bnd_apply)
      show ?thesis
      proof (cases "s' = s \<or> t3 = pc_target s")
        case True
        then show ?thesis using r s' inv by auto
      next
        case False
        then have "s' = ?s3" "dropped cols idx hint c n (pc_target s) t3" using s' d by blast+
        then show ?thesis using r d own Some by simp blast
      qed
    next
      case True
      then obtain b u where bu: "r2 = Inr b" "r3 = Inr u" by blast
      then have dr: "dropped cols idx hint c n (pc_target s) t3" using d by simp
      show ?thesis
      proof (cases r4)
        case (Inl e)
        then have "r = Inl e" "s' = ?s3" using eq 2 o2 d3 bu 4 o4 by (simp_all add: bnd_apply)
        then show ?thesis using d dr own Some by auto
      next
        case (Inr st)
        then have st: "st = true_state db c t3" using o4 by simp
        have gone: "\<not> (\<exists>i\<in>set (ts_indexes st). ix_name i = n)" using dr by (auto simp: st true_state_def dropped_def)
        let ?e = "fresh_entry sha (rollback_entry entry rq b st) ?s3"
        have "r = Inr \<lparr>rr_status = RB_ROLLED_BACK, rr_reason_codes = [], rr_ledger_entry = Some ?e\<rparr>"
          "pc_target s' = t3" "pc_ledger s' = pc_ledger s @ [?e]" "pc_locks s' = pc_locks s"
          using eq 2 o2 d3 bu 4 o4 Inr gone by (simp_all add: bnd_apply ledger_append_apply)
        moreover have "le_inverse_action ?e = freeze_mapping (le_forward_action entry)"
          by (simp add: fresh_entry_def new_entry_def Let_def rollback_entry_def)
        ultimately show ?thesis using d dr own Some by auto
      qed
    qed
  qed
qed

text \<open>
  What the applied entry of a deployment is to the rollback: found under its identifier, naming the
  collection and the index, and owned as long as the observation itself does not raise.
\<close>

lemma deployed_entry:
  assumes inv: "inv (pc_target s)"
    and ids: "fst (pc_fresh s (pc_used s)) \<noteq> fst (pc_fresh s (Suc (pc_used s)))"
      "fst (pc_fresh s (Suc (pc_used s))) \<notin> le_entry_id ` set (pc_ledger s)"
    and dep: "deploy sha ad rq s = (Inr res, s1)" and e: "e = dr_applied_entry res"
  shows "inv (pc_target s1) \<and>
     created cols idx hint (ca_collection (dq_action rq)) (action_spec (dq_action rq)) (pc_target s) (pc_target s1) \<and>
     find (\<lambda>x. le_entry_id x = le_entry_id e) (pc_ledger s1) = Some e \<and>
     py_get (le_forward_action e) ''database'' = JStr (ca_database (dq_action rq)) \<and>
     py_get (le_forward_action e) ''collection'' = JStr (ca_collection (dq_action rq)) \<and>
     py_get (le_forward_action e) ''index_name'' = JStr (ca_index_name (dq_action rq)) \<and>
     (case verify_ownership sha ad e (dq_target_id rq) s1 of
        (Inl x, _) \<Rightarrow> \<exists>x. fst (observe_state ad (ca_database (dq_action rq)) (ca_collection (dq_action rq)) (pc_target s1)) = Inl x
      | (Inr fs, t) \<Rightarrow> fs = [] \<and> t = s1)"
proof -
  let ?a = "dq_action rq" and ?t = "pc_target s1"
  obtain before where inv1: "inv ?t"
    and ap: "e = fresh_entry sha (effect_args sha rq before ?t) (s\<lparr>pc_ledger := pc_ledger s @ [dr_prepared_entry res], pc_used := Suc (pc_used s)\<rparr>)"
    and pr: "dr_prepared_entry res = fresh_entry sha (deploy_entry sha rq ''PREPARED'' before before) s"
    and led: "pc_ledger s1 = pc_ledger s @ [dr_prepared_entry res, e]"
    and cr: "created cols idx hint (ca_collection ?a) (action_spec ?a) (pc_target s) ?t"
    using deploy_spec [OF inv dep] by (auto simp: e)
  have eid: "le_entry_id e = fst (pc_fresh s (Suc (pc_used s)))" "le_entry_id (dr_prepared_entry res) = fst (pc_fresh s (pc_used s))"
    by (subst ap, simp add: fresh_entry_def new_entry_def Let_def) (subst pr, simp add: fresh_entry_def new_entry_def Let_def)
  have found: "find (\<lambda>x. le_entry_id x = le_entry_id e) (pc_ledger s1) = Some e"
  proof -
    have "find (\<lambda>x. le_entry_id x = le_entry_id e) (pc_ledger s) = None"
      using ids(2) eid(1) by (simp add: find_None_iff_ball) (metis image_eqI)
    then show ?thesis using ids(1) eid by (simp add: led find_append)
  qed
  have fwd: "le_forward_action e = canon (forward_json sha ''APPLIED'' (dq_target_id rq) ?a)"
    and aft: "le_after_state e = canon (target_state_json (true_state (ca_database ?a) (ca_collection ?a) ?t))"
    by (subst ap, simp add: fresh_entry_def new_entry_def Let_def effect_args_def deploy_entry_def freeze_mapping_def)+
  have listing: "filter (\<lambda>i. ix_name i = ca_index_name ?a) (idx ?t (ca_collection ?a)) = [action_spec ?a]"
    using created_listing [OF inv1 cr] by simp
  have cc: "ca_collection ?a \<in> set (cols ?t)" using cr by (simp add: created_def)
  have hash: "state_hash sha (true_state (ca_database ?a) (ca_collection ?a) ?t) = json_hash sha (le_after_state e)"
    by (simp add: aft state_hash_def json_hash_def json_dumps_def)
  have none: "ownership_failures sha e (le_forward_action e) (true_state (ca_database ?a) (ca_collection ?a) ?t) (action_keys ?a) = []"
    using listing cc hash by (simp add: ownership_failures_def Let_def fwd forward_lookup true_state_def)
  obtain r1 s1' where 1: "on_target (observe_state ad (ca_database ?a) (ca_collection ?a)) s1 = (r1, s1')" by fastforce
  note o = observe_on_target [OF inv1 1]
  have r1: "r1 = fst (observe_state ad (ca_database ?a) (ca_collection ?a) ?t)" using 1 by (auto simp: on_target_apply)
  have "verify_ownership sha ad e (dq_target_id rq) s1 = (case r1 of Inl x \<Rightarrow> (Inl x, s1) | Inr _ \<Rightarrow> (Inr [], s1))"
    using 1 o cc none
    by (cases r1) (simp_all add: verify_ownership_def Let_def fwd forward_lookup forward_expected_keys bnd_apply true_state_def)
  then have "case verify_ownership sha ad e (dq_target_id rq) s1 of
        (Inl x, _) \<Rightarrow> \<exists>x. fst (observe_state ad (ca_database ?a) (ca_collection ?a) ?t) = Inl x
      | (Inr fs, t) \<Rightarrow> fs = [] \<and> t = s1"
    unfolding r1 by (simp split: sum.split)
  then show ?thesis using inv1 cr found by (simp add: fwd forward_lookup)
qed

lemma deploy_then_rollback:
  assumes inv: "inv (pc_target s)"
    and ids: "fst (pc_fresh s (pc_used s)) \<noteq> fst (pc_fresh s (Suc (pc_used s)))"
      "fst (pc_fresh s (Suc (pc_used s))) \<notin> le_entry_id ` set (pc_ledger s)"
    and dep: "deploy sha ad rq s = (Inr res, s1)"
    and rb: "rollback_index sha ad \<lparr>rq_target_id = dq_target_id rq,
        rq_applied_ledger_entry_id = le_entry_id (dr_applied_entry res), rq_actor = who\<rparr> s1 = (Inr out, s2)"
  shows "rr_status out = RB_ROLLED_BACK \<and> idx (pc_target s2) = idx (pc_target s) \<and> hint (pc_target s2) = hint (pc_target s)"
proof -
  let ?a = "dq_action rq" and ?e = "dr_applied_entry res" and ?t = "pc_target s1"
  let ?rq = "\<lparr>rq_target_id = dq_target_id rq, rq_applied_ledger_entry_id = le_entry_id ?e, rq_actor = who\<rparr>"
  note d = deployed_entry [OF inv ids dep refl]
  have inv1: "inv ?t" and cr: "created cols idx hint (ca_collection ?a) (action_spec ?a) (pc_target s) ?t"
    and found: "find (\<lambda>x. le_entry_id x = le_entry_id ?e) (pc_ledger s1) = Some ?e"
    and names: "py_get (le_forward_action ?e) ''collection'' = JStr (ca_collection ?a)"
      "py_get (le_forward_action ?e) ''index_name'' = JStr (ca_index_name ?a)"
    using d by simp_all
  have none: "fs = []" if "fst (verify_ownership sha ad ?e (dq_target_id rq) s1) = Inr fs" for fs
    using d that by (cases "verify_ownership sha ad ?e (dq_target_id rq) s1") simp
  obtain entry db c n ix where x: "find (\<lambda>x. le_entry_id x = le_entry_id ?e) (pc_ledger s1) = Some entry"
      "owned sha ?rq entry ?t db c n ix" "dropped cols idx hint c n ?t (pc_target s2)" "rr_status out = RB_ROLLED_BACK"
    using rollback_spec [OF inv1 rb] found none by auto
  then have "entry = ?e" using found by simp
  then have "c = ca_collection ?a" "n = ca_index_name ?a"
    using x(2) names by (simp_all add: owned_def Let_def)
  then show ?thesis using create_then_drop [OF cr, of "pc_target s2"] x(3,4) by simp
qed

text \<open>When the driver answers, the rollback returns.\<close>

lemma rollback_returns:
  assumes inv: "inv (pc_target s)"
    and ids: "fst (pc_fresh s (pc_used s)) \<noteq> fst (pc_fresh s (Suc (pc_used s)))"
      "fst (pc_fresh s (Suc (pc_used s))) \<notin> le_entry_id ` set (pc_ledger s)"
    and dep: "deploy sha ad rq s = (Inr res, s1)"
    and up: "\<And>db c t. \<exists>st. observe_state ad db c t = (Inr st, t)" "\<And>c n t. \<exists>t'. ad_drop_index ad c n t = (Inr (), t')"
  shows "\<exists>out s2. rollback_index sha ad \<lparr>rq_target_id = dq_target_id rq,
        rq_applied_ledger_entry_id = le_entry_id (dr_applied_entry res), rq_actor = who\<rparr> s1 = (Inr out, s2)"
proof -
  let ?e = "dr_applied_entry res"
  note d = deployed_entry [OF inv ids dep refl]
  have "\<nexists>x. fst (observe_state ad (ca_database (dq_action rq)) (ca_collection (dq_action rq)) (pc_target s1)) = Inl x"
    using up(1) [of "ca_database (dq_action rq)" "ca_collection (dq_action rq)" "pc_target s1"] by auto
  then have v: "verify_ownership sha ad ?e (dq_target_id rq) s1 = (Inr [], s1)"
    using d by (auto split: prod.splits sum.splits)
  have obs: "\<exists>st. on_target (observe_state ad db c) x = (Inr st, x)" for db c x
    using up(1) [of db c "pc_target x"] by (auto simp: on_target_apply)
  have drop: "\<exists>x'. on_target (ad_drop_index ad c n) x = (Inr (), x')" for c n x
    using up(2) [of c n "pc_target x"] by (auto simp: on_target_apply)
  let ?db = "text_of (py_get (le_forward_action ?e) ''database'')" and ?c = "text_of (py_get (le_forward_action ?e) ''collection'')"
    and ?n = "text_of (py_get (le_forward_action ?e) ''index_name'')"
  obtain b where b: "on_target (observe_state ad ?db ?c) s1 = (Inr b, s1)" using obs by blast
  obtain x' where x': "on_target (ad_drop_index ad ?c ?n) s1 = (Inr (), x')" using drop by blast
  obtain a where a: "on_target (observe_state ad ?db ?c) x' = (Inr a, x')" using obs by blast
  show ?thesis
    using d v b x' a by (simp add: rollback_index_def bnd_apply Let_def ledger_append_apply)
qed

lemma fails_closed:
  assumes "inv (pc_target s)" and "deploy sha ad rq s = (r, s')"
  shows "inv (pc_target s') \<and> pc_locks s' = pc_locks s \<and>
     (pc_target s' = pc_target s \<or>
       ar_status (dq_admission rq) = Admission.ADMITTED \<and> ar_production_eligible (dq_admission rq) \<and>
       state_hash sha \<lparr>ts_database = ca_database (dq_action rq), ts_collection = ca_collection (dq_action rq),
         ts_namespace_exists = True, ts_indexes = idx (pc_target s) (ca_collection (dq_action rq))\<rparr> = dq_expected_state_hash rq \<and>
       ca_collection (dq_action rq) \<in> set (cols (pc_target s)) \<and>
       ca_index_name (dq_action rq) \<notin> ix_name ` set (idx (pc_target s) (ca_collection (dq_action rq))) \<and>
       approval_given rq (pc_flow s) \<and>
       created cols idx hint (ca_collection (dq_action rq)) (action_spec (dq_action rq)) (pc_target s) (pc_target s') \<and>
       (\<exists>prep rest. pc_ledger s' = pc_ledger s @ prep # rest \<and>
          le_forward_action prep = freeze_mapping (forward_json sha ''PREPARED'' (dq_target_id rq) (dq_action rq))))"
proof -
  note spec = deploy_spec [OF assms]
  show ?thesis
  proof (cases "pc_target s' = pc_target s")
    case True
    then show ?thesis using spec by simp
  next
    case False
    then obtain before prep where 1: "ar_status (dq_admission rq) = Admission.ADMITTED" "ar_production_eligible (dq_admission rq)"
        "gates_hold sha rq s before" "prep = fresh_entry sha (deploy_entry sha rq ''PREPARED'' before before) s"
        "created cols idx hint (ca_collection (dq_action rq)) (action_spec (dq_action rq)) (pc_target s) (pc_target s')"
      and 0: "case r of Inl e \<Rightarrow> pc_ledger s' = pc_ledger s @ [prep]
         | Inr res \<Rightarrow> dr_prepared_entry res = prep \<and>
          dr_applied_entry res = fresh_entry sha (effect_args sha rq before (pc_target s'))
            (s\<lparr>pc_ledger := pc_ledger s @ [prep], pc_used := Suc (pc_used s)\<rparr>) \<and>
          pc_ledger s' = pc_ledger s @ [prep, dr_applied_entry res] \<and> pc_fresh s' = pc_fresh s \<and>
          created cols idx hint (ca_collection (dq_action rq)) (action_spec (dq_action rq)) (pc_target s) (pc_target s')"
      using spec by blast
    have "le_forward_action prep = freeze_mapping (forward_json sha ''PREPARED'' (dq_target_id rq) (dq_action rq))"
      by (simp add: 1(4) fresh_entry_def new_entry_def Let_def deploy_entry_def)
    moreover have "\<exists>rest. pc_ledger s' = pc_ledger s @ prep # rest" using 0 by (cases r) auto
    ultimately show ?thesis using spec 1(1-3,5) by (auto simp: gates_hold_def Let_def true_state_def)
  qed
qed

lemma deploy_result:
  assumes "inv (pc_target s)" and "deploy sha ad rq s = (Inr res, s')"
  shows "created cols idx hint (ca_collection (dq_action rq)) (action_spec (dq_action rq)) (pc_target s) (pc_target s') \<and>
     pc_ledger s' = pc_ledger s @ [dr_prepared_entry res, dr_applied_entry res] \<and>
     le_forward_action (dr_prepared_entry res) = freeze_mapping (forward_json sha ''PREPARED'' (dq_target_id rq) (dq_action rq)) \<and>
     le_forward_action (dr_applied_entry res) = freeze_mapping (forward_json sha ''APPLIED'' (dq_target_id rq) (dq_action rq)) \<and>
     json_hash sha (le_after_state (dr_applied_entry res)) = state_hash sha
       (true_state (ca_database (dq_action rq)) (ca_collection (dq_action rq)) (pc_target s')) \<and>
     verify sha (pc_ledger s') = verify sha (pc_ledger s)"
proof -
  obtain before where pr: "dr_prepared_entry res = fresh_entry sha (deploy_entry sha rq ''PREPARED'' before before) s"
    and ap: "dr_applied_entry res = fresh_entry sha (effect_args sha rq before (pc_target s'))
        (s\<lparr>pc_ledger := pc_ledger s @ [dr_prepared_entry res], pc_used := Suc (pc_used s)\<rparr>)"
    and led: "pc_ledger s' = pc_ledger s @ [dr_prepared_entry res, dr_applied_entry res]"
    and cr: "created cols idx hint (ca_collection (dq_action rq)) (action_spec (dq_action rq)) (pc_target s) (pc_target s')"
    using deploy_spec [OF assms] by auto
  have 1: "le_forward_action (dr_prepared_entry res) = freeze_mapping (forward_json sha ''PREPARED'' (dq_target_id rq) (dq_action rq))"
    by (subst pr) (simp add: fresh_entry_def new_entry_def Let_def deploy_entry_def)
  have 2: "le_forward_action (dr_applied_entry res) = freeze_mapping (forward_json sha ''APPLIED'' (dq_target_id rq) (dq_action rq))"
    "le_after_state (dr_applied_entry res) = freeze_mapping (target_state_json (true_state (ca_database (dq_action rq)) (ca_collection (dq_action rq)) (pc_target s')))"
    by (subst ap, simp add: fresh_entry_def new_entry_def Let_def deploy_entry_def effect_args_def)+
  have "verify sha (pc_ledger s @ [dr_prepared_entry res]) = verify sha (pc_ledger s)"
    unfolding pr by (rule verify_fresh)
  moreover have "verify sha ((pc_ledger s @ [dr_prepared_entry res]) @ [dr_applied_entry res]) = verify sha (pc_ledger s @ [dr_prepared_entry res])"
    using verify_fresh [of sha "s\<lparr>pc_ledger := pc_ledger s @ [dr_prepared_entry res], pc_used := Suc (pc_used s)\<rparr>"
      "effect_args sha rq before (pc_target s')", folded ap] by simp
  ultimately show ?thesis using 1 2 led cr by (simp add: freeze_mapping_def json_hash_def json_dumps_def state_hash_def)
qed

lemma rollback_only_owned:
  assumes "inv (pc_target s)" and "rollback_index sha ad rq s = (r, s')" and "pc_target s' \<noteq> pc_target s"
  shows "\<exists>entry db c n ix. find (\<lambda>e. le_entry_id e = rq_applied_ledger_entry_id rq) (pc_ledger s) = Some entry \<and>
     py_get (le_forward_action entry) ''phase'' = JStr ''APPLIED'' \<and>
     py_get (le_forward_action entry) ''action_type'' = JStr ''CREATE_INDEX'' \<and>
     py_get (le_forward_action entry) ''target_id'' = JStr (rq_target_id rq) \<and>
     py_get (le_forward_action entry) ''collection'' = JStr c \<and> py_get (le_forward_action entry) ''index_name'' = JStr n \<and>
     filter (\<lambda>i. ix_name i = n) (idx (pc_target s) c) = [ix] \<and> expected_keys (le_forward_action entry) = Inr (ix_keys ix) \<and>
     json_hash sha (le_after_state entry) = state_hash sha \<lparr>ts_database = db, ts_collection = c,
       ts_namespace_exists = True, ts_indexes = idx (pc_target s) c\<rparr> \<and>
     dropped cols idx hint c n (pc_target s) (pc_target s')"
proof -
  obtain entry db c n ix where x: "find (\<lambda>e. le_entry_id e = rq_applied_ledger_entry_id rq) (pc_ledger s) = Some entry"
      "owned sha rq entry (pc_target s) db c n ix" "dropped cols idx hint c n (pc_target s) (pc_target s')"
    using rollback_spec [OF assms(1,2)] assms(3) by blast
  have "c \<in> set (cols (pc_target s))" using x(2) by (simp add: owned_def Let_def)
  then have "json_hash sha (le_after_state entry) = state_hash sha \<lparr>ts_database = db, ts_collection = c,
       ts_namespace_exists = True, ts_indexes = idx (pc_target s) c\<rparr>"
    using x(2) by (simp add: owned_def Let_def true_state_def)
  then show ?thesis using x unfolding owned_def Let_def by blast
qed

end

subsection \<open>Properties\<close>

text \<open>
  C3. Fail closed: whatever the driver, the approvals and the state do, a deployment leaves the target
  exactly as it was unless the admission verdict is production-eligible, the observed state hashes to
  the verified one, the collection exists and has no index of that name, and a current approval was
  given where one is required; the only change it can then make is to create that one index, and the
  intent is in the ledger first. The lock is released however the call ends.
\<close>

theorem deploy_fails_closed:
  assumes "database_adapter ad cols idx hint ok" and "ok (pc_target s)" and "deploy sha ad rq s = (r, s')"
  shows "ok (pc_target s') \<and> pc_locks s' = pc_locks s \<and>
     (pc_target s' = pc_target s \<or>
       ar_status (dq_admission rq) = Admission.ADMITTED \<and> ar_production_eligible (dq_admission rq) \<and>
       state_hash sha \<lparr>ts_database = ca_database (dq_action rq), ts_collection = ca_collection (dq_action rq),
         ts_namespace_exists = True, ts_indexes = idx (pc_target s) (ca_collection (dq_action rq))\<rparr> = dq_expected_state_hash rq \<and>
       ca_collection (dq_action rq) \<in> set (cols (pc_target s)) \<and>
       ca_index_name (dq_action rq) \<notin> ix_name ` set (idx (pc_target s) (ca_collection (dq_action rq))) \<and>
       approval_given rq (pc_flow s) \<and>
       created cols idx hint (ca_collection (dq_action rq)) (action_spec (dq_action rq)) (pc_target s) (pc_target s') \<and>
       (\<exists>prep rest. pc_ledger s' = pc_ledger s @ prep # rest \<and>
          le_forward_action prep = freeze_mapping (forward_json sha ''PREPARED'' (dq_target_id rq) (dq_action rq))))"
  using database_adapter.fails_closed [OF assms] .

text \<open>
  C10. A rollback touches only what the ledger proves to be its own: when it changes the target at all,
  the named entry is an applied \<open>CREATE_INDEX\<close> for that target, the index is there exactly once
  with the ledgered keys, the whole observed state hashes to what was recorded after the
  deployment, and the one change is to drop that index.
\<close>

theorem rollback_drops_only_owned_index:
  assumes "database_adapter ad cols idx hint ok" and "ok (pc_target s)" and "rollback_index sha ad rq s = (r, s')"
    and "pc_target s' \<noteq> pc_target s"
  shows "\<exists>entry db c n ix. find (\<lambda>e. le_entry_id e = rq_applied_ledger_entry_id rq) (pc_ledger s) = Some entry \<and>
     py_get (le_forward_action entry) ''phase'' = JStr ''APPLIED'' \<and>
     py_get (le_forward_action entry) ''action_type'' = JStr ''CREATE_INDEX'' \<and>
     py_get (le_forward_action entry) ''target_id'' = JStr (rq_target_id rq) \<and>
     py_get (le_forward_action entry) ''collection'' = JStr c \<and> py_get (le_forward_action entry) ''index_name'' = JStr n \<and>
     filter (\<lambda>i. ix_name i = n) (idx (pc_target s) c) = [ix] \<and> expected_keys (le_forward_action entry) = Inr (ix_keys ix) \<and>
     json_hash sha (le_after_state entry) = state_hash sha \<lparr>ts_database = db, ts_collection = c,
       ts_namespace_exists = True, ts_indexes = idx (pc_target s) c\<rparr> \<and>
     dropped cols idx hint c n (pc_target s) (pc_target s')"
  using database_adapter.rollback_only_owned [OF assms] .

text \<open>
  C19. Deploying and rolling back is the identity on the database: after a deployment that returned, a
  rollback of its applied entry that returns is never blocked, and every collection has the indexes,
  in the order, and every query setting the value it had before the deployment, for any digest and
  any adapter that keeps the contract. The two identifiers the ledger drew are new, as those of
  \<open>uuid4\<close> are.
\<close>

theorem deploy_then_rollback_restores:
  assumes "database_adapter ad cols idx hint ok" and "ok (pc_target s)"
    and "fst (pc_fresh s (pc_used s)) \<noteq> fst (pc_fresh s (Suc (pc_used s)))"
    and "fst (pc_fresh s (Suc (pc_used s))) \<notin> le_entry_id ` set (pc_ledger s)"
    and "deploy sha ad rq s = (Inr res, s1)"
    and "rollback_index sha ad \<lparr>rq_target_id = dq_target_id rq,
        rq_applied_ledger_entry_id = le_entry_id (dr_applied_entry res), rq_actor = who\<rparr> s1 = (Inr out, s2)"
  shows "rr_status out = RB_ROLLED_BACK \<and> idx (pc_target s2) = idx (pc_target s) \<and> hint (pc_target s2) = hint (pc_target s)"
  using database_adapter.deploy_then_rollback [OF assms] .

text \<open>
  C40. What a deployment that returns has done: exactly the requested index is created, the ledger has
  grown by a prepared and an applied entry of that action whose recorded after-state is the state
  that is there, and the hash chain verifies if it did before.
\<close>

theorem deploy_records_what_it_did:
  assumes "database_adapter ad cols idx hint ok" and "ok (pc_target s)" and "deploy sha ad rq s = (Inr res, s')"
  shows "created cols idx hint (ca_collection (dq_action rq)) (action_spec (dq_action rq)) (pc_target s) (pc_target s') \<and>
     pc_ledger s' = pc_ledger s @ [dr_prepared_entry res, dr_applied_entry res] \<and>
     le_forward_action (dr_prepared_entry res) = freeze_mapping (forward_json sha ''PREPARED'' (dq_target_id rq) (dq_action rq)) \<and>
     le_forward_action (dr_applied_entry res) = freeze_mapping (forward_json sha ''APPLIED'' (dq_target_id rq) (dq_action rq)) \<and>
     json_hash sha (le_after_state (dr_applied_entry res)) = state_hash sha
       \<lparr>ts_database = ca_database (dq_action rq), ts_collection = ca_collection (dq_action rq), ts_namespace_exists = True,
        ts_indexes = idx (pc_target s') (ca_collection (dq_action rq))\<rparr> \<and>
     verify sha (pc_ledger s') = verify sha (pc_ledger s)"
proof -
  note * = database_adapter.deploy_result [OF assms]
  then have c: "(ca_collection (dq_action rq) \<in> set (cols (pc_target s'))) = True" by (simp add: created_def)
  show ?thesis
    using * [unfolded database_adapter.true_state_def [OF assms(1)] c if_True] .
qed

subsection \<open>A deployment on the in-memory adapter\<close>

definition demo_admission :: admission_result where
  "demo_admission = \<lparr>ar_candidate_id = ''c'', ar_evaluation_run_id = ''e'', ar_profile = AUTONOMOUS,
     ar_primary_metric_key = ''latency'', ar_required_pair_count = 10, ar_actual_pair_count = 10,
     ar_status = Admission.ADMITTED, ar_reason_codes = [], ar_protected_metric_results = [],
     ar_primary_benefit_result = None, ar_safety_invariant_results = [], ar_production_eligible = True,
     ar_family_wise_passed = Some True, ar_family_wise_upper_bound = Some 0\<rparr>"

definition demo_cell :: "fake_db cell" where
  "demo_cell = \<lparr>pc_target = fake_init [''orders''], pc_flow = demo_flow, pc_ledger = [],
     pc_fresh = (\<lambda>k. (''entry'' @ nat_str k, ''2024-01-01T00:00:00+00:00'')), pc_used = 0, pc_locks = []\<rparr>"

definition demo_request :: deployment_request where
  "demo_request = \<lparr>dq_target_id = ''t1'', dq_action_id = ''a1'', dq_action = sample_action,
     dq_admission = demo_admission, dq_evidence_hash = ''h'',
     dq_expected_state_hash = state_hash id \<lparr>ts_database = ''shop'', ts_collection = ''orders'',
       ts_namespace_exists = True, ts_indexes = []\<rparr>, dq_actor = ''worker'', dq_deployment_mode = FULL_AUTONOMOUS\<rparr>"

lemma demo_cell_inv: "fake_inv (pc_target demo_cell)"
  by (simp add: demo_cell_def fake_init_def fake_inv_def)

lemma demo_request_action [simp]:
  "dq_action demo_request = sample_action" "dq_target_id demo_request = ''t1''"
  "ca_collection sample_action = ''orders''" "ca_database sample_action = ''shop''"
  "ca_index_name sample_action = ''optimizer_1''"
  by (simp_all add: demo_request_def sample_action_def)

lemma demo_cell_sel [simp]: "pc_target demo_cell = fake_init [''orders'']" "pc_locks demo_cell = []"
  by (simp_all add: demo_cell_def)

lemma demo_request_hash [simp]:
  "dq_expected_state_hash demo_request = state_hash id \<lparr>ts_database = ''shop'', ts_collection = ''orders'',
       ts_namespace_exists = True, ts_indexes = []\<rparr>"
  by (simp add: demo_request_def)

definition deployed_target :: fake_db where
  "deployed_target = \<lparr>fk_indexes = [(''orders'', [(''optimizer_1'', action_spec sample_action)])], fk_settings = []\<rparr>"

lemma demo_observe:
  "observe_state fake_adapter ''shop'' ''orders'' (fake_init [''orders'']) =
     (Inr \<lparr>ts_database = ''shop'', ts_collection = ''orders'', ts_namespace_exists = True, ts_indexes = []\<rparr>, fake_init [''orders''])"
  "observe_state fake_adapter ''shop'' ''orders'' deployed_target =
     (Inr \<lparr>ts_database = ''shop'', ts_collection = ''orders'', ts_namespace_exists = True,
           ts_indexes = [action_spec sample_action]\<rparr>, deployed_target)"
  by (simp_all add: observe_state_def fake_adapter_def fake_list_namespaces_def fake_list_indexes_def fake_init_def
      deployed_target_def fk_collection_def bnd_apply)

lemma demo_create:
  "ad_create_index fake_adapter ''orders'' (action_spec sample_action) (fake_init [''orders'']) = (Inr (), deployed_target)"
  by (simp add: fake_adapter_def fake_create_index_def fake_init_def deployed_target_def fk_collection_def)

lemma demo_deploy:
  "\<exists>res s1. deploy id fake_adapter demo_request demo_cell = (Inr res, s1) \<and> pc_target s1 = deployed_target"
proof -
  have run: "deploy id fake_adapter demo_request demo_cell =
     with_target_lock ''t1'' (bnd (deploy_checks id fake_adapter demo_request) (deploy_effect id fake_adapter demo_request)) demo_cell"
    by (simp add: deploy_def demo_request_def demo_admission_def)
  have noappr: "check_approval demo_request = ret ()"
    by (simp add: check_approval_def demo_request_def approval_required_def full_autonomous_action_types_def)
  let ?st = "\<lparr>ts_database = ''shop'', ts_collection = ''orders'', ts_namespace_exists = True, ts_indexes = []\<rparr>"
  let ?c = "demo_cell\<lparr>pc_locks := [''t1'']\<rparr>"
  have checks: "deploy_checks id fake_adapter demo_request ?c = (Inr ?st, ?c)"
    by (simp add: deploy_checks_def noappr bnd_apply on_target_apply current_state_def demo_observe verify_preconditions_def)
  let ?prep = "fresh_entry id (deploy_entry id demo_request ''PREPARED'' ?st ?st) ?c"
  let ?c1 = "?c\<lparr>pc_ledger := pc_ledger ?c @ [?prep], pc_used := Suc (pc_used ?c)\<rparr>"
  have eff: "\<exists>res c2. deploy_effect id fake_adapter demo_request ?st ?c = (Inr res, c2) \<and> pc_target c2 = deployed_target"
    unfolding deploy_effect_def bnd_step [OF ledger_append_apply]
    by (simp add: bnd_apply on_target_apply demo_create current_state_def demo_observe verify_applied_def
        ledger_append_apply)
  then show ?thesis
    unfolding run with_target_lock_apply
    by (auto simp add: bnd_apply [of "deploy_checks id fake_adapter demo_request"] checks)
qed

theorem deploy_fails_closed_witness:
  "\<exists>r s'. deploy id fake_adapter demo_request demo_cell = (r, s') \<and> pc_target s' \<noteq> pc_target demo_cell \<and>
     pc_locks s' = pc_locks demo_cell \<and>
     created fake_cols fake_idx fake_hint ''orders'' (action_spec sample_action) (pc_target demo_cell) (pc_target s')"
proof -
  obtain res s1 where run: "deploy id fake_adapter demo_request demo_cell = (Inr res, s1)" "pc_target s1 = deployed_target"
    using demo_deploy by blast
  have "pc_target s1 \<noteq> pc_target demo_cell" by (simp add: run(2) deployed_target_def fake_init_def)
  with deploy_fails_closed [OF fakead.database_adapter_axioms demo_cell_inv run(1)] run show ?thesis by auto
qed

theorem deploy_records_what_it_did_witness:
  "\<exists>res s'. deploy id fake_adapter demo_request demo_cell = (Inr res, s') \<and>
     pc_ledger s' = [dr_prepared_entry res, dr_applied_entry res] \<and> verify id (pc_ledger s')"
proof -
  obtain res s1 where run: "deploy id fake_adapter demo_request demo_cell = (Inr res, s1)"
    using demo_deploy by blast
  have led: "pc_ledger demo_cell = []" by (simp add: demo_cell_def)
  have "verify id []" by (simp add: verify_def)
  with deploy_records_what_it_did [OF fakead.database_adapter_axioms demo_cell_inv run] run led show ?thesis by auto
qed

definition demo_rollback :: "deployment_result \<Rightarrow> rollback_request" where
  "demo_rollback res = \<lparr>rq_target_id = dq_target_id demo_request,
     rq_applied_ledger_entry_id = le_entry_id (dr_applied_entry res), rq_actor = ''dba''\<rparr>"

lemma demo_fresh:
  "fst (pc_fresh demo_cell (pc_used demo_cell)) \<noteq> fst (pc_fresh demo_cell (Suc (pc_used demo_cell)))"
  "fst (pc_fresh demo_cell (Suc (pc_used demo_cell))) \<notin> le_entry_id ` set (pc_ledger demo_cell)"
  by (simp_all add: demo_cell_def) (simp add: nat_str.simps digit_char_def)

lemma fake_total:
  "\<exists>v. ad_list_namespaces fake_adapter t = (Inr v, t)" "\<exists>v. ad_list_indexes fake_adapter c t = (Inr v, t)"
  "\<exists>t'. ad_drop_index fake_adapter c n t = (Inr (), t')"
  by (simp_all add: fake_defs)

lemma fake_observe_total: "\<exists>st. observe_state fake_adapter db c t = (Inr st, t)"
  using fake_total(1) [of t] fake_total(2) [of c t] by (auto simp: observe_state_def bnd_apply)

theorem deploy_then_rollback_restores_witness:
  "\<exists>res s1 out s2. deploy id fake_adapter demo_request demo_cell = (Inr res, s1) \<and>
     rollback_index id fake_adapter (demo_rollback res) s1 = (Inr out, s2) \<and> rr_status out = RB_ROLLED_BACK \<and>
     fake_idx (pc_target s1) \<noteq> fake_idx (pc_target demo_cell) \<and> fake_idx (pc_target s2) = fake_idx (pc_target demo_cell)"
proof -
  obtain res s1 where run: "deploy id fake_adapter demo_request demo_cell = (Inr res, s1)" and t: "pc_target s1 = deployed_target"
    using demo_deploy by blast
  obtain out s2 where rb: "rollback_index id fake_adapter (demo_rollback res) s1 = (Inr out, s2)"
    using fakead.rollback_returns [OF demo_cell_inv demo_fresh run fake_observe_total fake_total(3)]
    unfolding demo_rollback_def by blast
  have "fake_idx deployed_target ''orders'' \<noteq> fake_idx (fake_init [''orders'']) ''orders''"
    by (simp add: fake_idx_def deployed_target_def fake_init_def fk_collection_def)
  then have "fake_idx (pc_target s1) \<noteq> fake_idx (pc_target demo_cell)" using t by auto
  with deploy_then_rollback_restores [OF fakead.database_adapter_axioms demo_cell_inv demo_fresh run rb [unfolded demo_rollback_def]]
  show ?thesis using run rb by blast
qed

theorem rollback_drops_only_owned_index_witness:
  "\<exists>res s1 r s2. deploy id fake_adapter demo_request demo_cell = (Inr res, s1) \<and>
     rollback_index id fake_adapter (demo_rollback res) s1 = (r, s2) \<and>
     (\<exists>entry c n. find (\<lambda>e. le_entry_id e = le_entry_id (dr_applied_entry res)) (pc_ledger s1) = Some entry \<and>
        dropped fake_cols fake_idx fake_hint c n (pc_target s1) (pc_target s2))"
proof -
  obtain res s1 where run: "deploy id fake_adapter demo_request demo_cell = (Inr res, s1)" and t: "pc_target s1 = deployed_target"
    using demo_deploy by blast
  obtain out s2 where rb: "rollback_index id fake_adapter (demo_rollback res) s1 = (Inr out, s2)"
    using fakead.rollback_returns [OF demo_cell_inv demo_fresh run fake_observe_total fake_total(3)]
    unfolding demo_rollback_def by blast
  have inv1: "fake_inv (pc_target s1)" by (simp add: t deployed_target_def fake_inv_def)
  have "fake_idx (pc_target s2) = fake_idx (fake_init [''orders''])"
    using fakead.deploy_then_rollback [OF demo_cell_inv demo_fresh run rb [unfolded demo_rollback_def]] by simp
  moreover have "fake_idx deployed_target ''orders'' \<noteq> fake_idx (fake_init [''orders'']) ''orders''"
    by (simp add: fake_idx_def deployed_target_def fake_init_def fk_collection_def)
  ultimately have "pc_target s2 \<noteq> pc_target s1" using t by auto
  with rollback_drops_only_owned_index [OF fakead.database_adapter_axioms inv1 rb] run rb
  show ?thesis unfolding demo_rollback_def by auto
qed

end
