(* ===== verification/QuerySettings.thy ===== *)
theory QuerySettings
  imports Executor
begin

text \<open>
  \<open>backend/app/production/query_settings.py\<close>: the executor that sets and restores the allowed indexes
  of one query shape. It shares the state of \<open>Executor\<close>; the locks in it are this executor's own.
\<close>

record settings_request =
  qq_target_id :: string
  qq_action_id :: string
  qq_action :: set_hint_action
  qq_evidence_hash :: string
  qq_expected_state_hash :: string
  qq_actor :: string
  qq_deployment_mode :: deployment_mode

record settings_result =
  qr_prepared_entry :: ledger_entry
  qr_applied_entry :: ledger_entry
  qr_resulting_state_hash :: string

definition settings_state :: "set_hint_action \<Rightarrow> string list option \<Rightarrow> json" where
  "settings_state a h = JObj
     [(''database'', JStr (sa_database a)), (''collection'', JStr (sa_collection a)),
      (''query_shape_hash'', JStr (sa_query_shape_hash a)), (''allowed_indexes'', option_json names_json h)]"

definition settings_hash :: "digest \<Rightarrow> set_hint_action \<Rightarrow> string list option \<Rightarrow> string" where
  "settings_hash sha a h = json_hash sha (settings_state a h)"

definition current_hint :: "'t adapter \<Rightarrow> set_hint_action \<Rightarrow> ('t, string list option) oper" where
  "current_hint ad a = ad_get_hint ad (sa_collection a) (sa_query_shape_hash a)"

definition verify_indexes_exist :: "'t adapter \<Rightarrow> set_hint_action \<Rightarrow> ('t, unit) oper" where
  "verify_indexes_exist ad a =
     bnd (ad_list_indexes ad (sa_collection a)) (\<lambda>indexes.
     ensure (set (sa_allowed_indexes a) \<subseteq> set (map ix_name indexes))
       (ProductionExecutionError ''allowedIndexes must name existing indexes''))"

definition settings_entry :: "settings_request \<Rightarrow> string \<Rightarrow> string list option \<Rightarrow> string list option \<Rightarrow> ledger_args" where
  "settings_entry rq phase before after = \<lparr>la_before_state = settings_state (qq_action rq) before,
     la_intended_state = settings_state (qq_action rq) (Some (sa_allowed_indexes (qq_action rq))),
     la_after_state = settings_state (qq_action rq) after,
     la_forward_action = JObj ([(''phase'', JStr phase), (''target_id'', JStr (qq_target_id rq))] @ set_hint_dump (qq_action rq)),
     la_inverse_action = JObj (restore_hint_dump (set_hint_inverse (qq_action rq))),
     la_evidence_hash = qq_evidence_hash rq, la_actor = qq_actor rq\<rparr>"

definition check_settings_approval :: "settings_request \<Rightarrow> string list option \<Rightarrow> ('t cell, unit) oper" where
  "check_settings_approval rq before =
     (if approval_required (qq_deployment_mode rq) ''SET_QUERY_SETTINGS_INDEX_HINT'' (before \<noteq> None)
      then bnd (on_flow (require_current_approval (qq_action_id rq) (qq_evidence_hash rq) (qq_target_id rq))) (\<lambda>_. ret ())
      else ret ())"

text \<open>The checks; an existing setting is always behind the human gate.\<close>

definition settings_checks :: "digest \<Rightarrow> 't adapter \<Rightarrow> settings_request \<Rightarrow> ('t cell, string list option) oper" where
  "settings_checks sha ad rq =
     bnd (on_target (current_hint ad (qq_action rq))) (\<lambda>before.
     bnd (ensure (settings_hash sha (qq_action rq) before = qq_expected_state_hash rq)
       (ProductionExecutionError ''current query-settings state differs from verified evidence'')) (\<lambda>_.
     bnd (ensure (before = sa_previous_allowed_indexes (qq_action rq))
       (ProductionExecutionError ''prior query-settings state differs from typed inverse evidence'')) (\<lambda>_.
     bnd (check_settings_approval rq before) (\<lambda>_.
     bnd (on_target (verify_indexes_exist ad (qq_action rq))) (\<lambda>_. ret before)))))"

definition settings_effect :: "digest \<Rightarrow> 't adapter \<Rightarrow> settings_request \<Rightarrow> string list option \<Rightarrow> ('t cell, settings_result) oper" where
  "settings_effect sha ad rq before =
     (let a = qq_action rq; after = Some (sa_allowed_indexes a) in
      bnd (ledger_append sha (settings_entry rq ''PREPARED'' before before)) (\<lambda>prepared.
      bnd (on_target (ad_set_hint ad (sa_collection a) (sa_query_shape_hash a) after)) (\<lambda>_.
      bnd (on_target (current_hint ad a)) (\<lambda>actual.
      bnd (ensure (actual = after)
        (ProductionExecutionError ''resulting query-settings state does not match typed action'')) (\<lambda>_.
      bnd (ledger_append sha (settings_entry rq ''APPLIED'' before actual)) (\<lambda>applied.
      ret \<lparr>qr_prepared_entry = prepared, qr_applied_entry = applied,
           qr_resulting_state_hash = settings_hash sha a actual\<rparr>))))))"

definition deploy_settings :: "digest \<Rightarrow> 't adapter \<Rightarrow> settings_request \<Rightarrow> ('t cell, settings_result) oper" where
  "deploy_settings sha ad rq =
     with_target_lock (qq_target_id rq) (bnd (settings_checks sha ad rq) (settings_effect sha ad rq))"

subsection \<open>Exact rollback\<close>

definition settings_rollback_entry :: "ledger_entry \<Rightarrow> set_hint_action \<Rightarrow> string \<Rightarrow> string list option \<Rightarrow> ledger_args" where
  "settings_rollback_entry entry a actor current = \<lparr>la_before_state = settings_state a current,
     la_intended_state = settings_state a (sa_previous_allowed_indexes a),
     la_after_state = settings_state a (sa_previous_allowed_indexes a),
     la_forward_action = JObj ((''phase'', JStr ''ROLLED_BACK'') # restore_hint_dump (set_hint_inverse a)),
     la_inverse_action = JObj (set_hint_dump a), la_evidence_hash = le_evidence_hash entry, la_actor = actor\<rparr>"

definition restore_settings :: "digest \<Rightarrow> 't adapter \<Rightarrow> ledger_entry \<Rightarrow> set_hint_action \<Rightarrow> string \<Rightarrow> ('t cell, ledger_entry) oper" where
  "restore_settings sha ad entry a actor =
     bnd (on_target (current_hint ad a)) (\<lambda>current.
     bnd (ensure (current = Some (sa_allowed_indexes a))
       (ProductionExecutionError ''query-settings drift blocks exact rollback'')) (\<lambda>_.
     bnd (on_target (ad_set_hint ad (sa_collection a) (sa_query_shape_hash a) (sa_previous_allowed_indexes a))) (\<lambda>_.
     bnd (on_target (current_hint ad a)) (\<lambda>now.
     bnd (ensure (now = sa_previous_allowed_indexes a)
       (ProductionExecutionError ''query-settings rollback did not restore prior state'')) (\<lambda>_.
     ledger_append sha (settings_rollback_entry entry a actor current))))))"

definition rollback_settings :: "digest \<Rightarrow> 't adapter \<Rightarrow> rollback_request \<Rightarrow> ('t cell, ledger_entry) oper" where
  "rollback_settings sha ad rq =
     bnd (asks (\<lambda>s. find (\<lambda>e. le_entry_id e = rq_applied_ledger_entry_id rq) (pc_ledger s))) (\<lambda>found.
     case found of
       None \<Rightarrow> raise (ProductionExecutionError ''ledger-owned applied query-settings action required'')
     | Some entry \<Rightarrow>
       if py_get (le_forward_action entry) ''phase'' \<noteq> JStr ''APPLIED''
       then raise (ProductionExecutionError ''ledger-owned applied query-settings action required'')
       else bnd (lift (set_hint_validate
            (filter (\<lambda>(k, v). k \<noteq> ''phase'' \<and> k \<noteq> ''target_id'') (obj_items (le_forward_action entry))))) (\<lambda>a.
         if py_get (le_forward_action entry) ''target_id'' \<noteq> JStr (rq_target_id rq)
         then raise (ProductionExecutionError ''query-settings rollback target mismatch'')
         else with_target_lock (rq_target_id rq) (restore_settings sha ad entry a (rq_actor rq))))"

definition settings_approval_given :: "settings_request \<Rightarrow> string list option \<Rightarrow> approval_flow \<Rightarrow> bool" where
  "settings_approval_given rq before f \<longleftrightarrow>
     (approval_required (qq_deployment_mode rq) ''SET_QUERY_SETTINGS_INDEX_HINT'' (before \<noteq> None) \<longrightarrow>
      (\<exists>a. fst (require_current_approval (qq_action_id rq) (qq_evidence_hash rq) (qq_target_id rq) f) = Inr a))"

subsection \<open>Reading back the ledgered action\<close>

lemma set_hint_validate_cong:
  assumes "set kvs = set kvs'" and "distinct (map fst kvs)" and "distinct (map fst kvs')"
  shows "set_hint_validate kvs = set_hint_validate kvs'"
proof -
  have m: "map_of kvs = map_of kvs'" using assms by (simp add: map_of_inject_set)
  have o: "only_keys ks kvs = only_keys ks kvs'" for ks
    using assms(1) by (simp add: only_keys_def list_all_iff)
  show ?thesis
    by (simp only: set_hint_validate_def has_type_def with_default_def required_def m o)
qed

definition settings_forward :: "string \<Rightarrow> string \<Rightarrow> set_hint_action \<Rightarrow> (string \<times> json) list" where
  "settings_forward phase tid a = [(''phase'', JStr phase), (''target_id'', JStr tid)] @ set_hint_dump a"

lemma canon_names [simp]: "canon (option_json names_json h) = option_json names_json h" "canon (names_json xs) = names_json xs"
proof -
  show n: "canon (names_json xs) = names_json xs" for xs by (simp add: names_json_def)
  show "canon (option_json names_json h) = option_json names_json h" by (cases h) (simp_all add: option_json_def n)
qed

lemma settings_forward_canon:
  "canon (JObj (settings_forward ph tid a)) = JObj (sort_key fst (settings_forward ph tid a))"
proof -
  have "map (\<lambda>(k, v). (k, canon v)) (settings_forward ph tid a) = settings_forward ph tid a"
    by (simp add: settings_forward_def set_hint_dump_def)
  then show ?thesis by simp
qed

lemma settings_forward_distinct: "distinct (map fst (settings_forward ph tid a))"
  by (simp add: settings_forward_def set_hint_dump_def)

lemma settings_forward_get:
  "py_get (canon (JObj (settings_forward ph tid a))) ''phase'' = JStr ph"
  "py_get (canon (JObj (settings_forward ph tid a))) ''target_id'' = JStr tid"
  by (simp_all only: py_get_canon [OF settings_forward_distinct])
    (simp_all add: settings_forward_def py_get_def)

lemma settings_forward_validate:
  assumes "set_hint_action_ok a"
  shows "set_hint_validate (filter (\<lambda>(k, v). k \<noteq> ''phase'' \<and> k \<noteq> ''target_id'')
     (obj_items (canon (JObj (settings_forward ph tid a))))) = Inr a"
proof -
  let ?kvs = "filter (\<lambda>(k, v). k \<noteq> ''phase'' \<and> k \<noteq> ''target_id'') (sort_key fst (settings_forward ph tid a))"
  have f: "filter (\<lambda>(k, v). k \<noteq> ''phase'' \<and> k \<noteq> ''target_id'') (settings_forward ph tid a) = set_hint_dump a"
    by (simp add: settings_forward_def set_hint_dump_def)
  then have "set ?kvs = set (set_hint_dump a)" by (simp flip: f)
  moreover have "distinct (map fst (sort_key fst (settings_forward ph tid a)))"
    using settings_forward_distinct [of ph tid a] by (simp add: distinct_map)
  then have "distinct (map fst ?kvs)" by (rule distinct_map_filter)
  moreover have "distinct (map fst (set_hint_dump a))" by (simp add: set_hint_dump_def)
  ultimately have "set_hint_validate ?kvs = set_hint_validate (set_hint_dump a)" by (rule set_hint_validate_cong)
  moreover have "set_hint_validate (set_hint_dump a) = Inr a"
    using assms by (cases a) (simp add: set_hint_validate_def set_hint_dump_def only_keys_def set_hint_keys_def has_type_def
        with_default_def required_def names_roundtrip nullable_names_roundtrip)
  ultimately show ?thesis by (simp only: settings_forward_canon obj_items.simps)
qed

context database_adapter
begin

lemma hint_on_target:
  assumes "inv (pc_target s)" and "on_target (current_hint ad a) s = (r, s')"
  shows "s' = s \<and> (\<forall>h. r = Inr h \<longrightarrow> h = hint (pc_target s) (sa_collection a) (sa_query_shape_hash a))"
  using get_hint [OF assms(1), of "sa_collection a" "sa_query_shape_hash a" "fst (current_hint ad a (pc_target s))"
      "snd (current_hint ad a (pc_target s))"] assms(2)
  by (auto simp: on_target_apply current_hint_def)

lemma verify_indexes_on_target:
  assumes "inv (pc_target s)" and "on_target (verify_indexes_exist ad a) s = (r, s')"
  shows "s' = s \<and> (r = Inr () \<longrightarrow> set (sa_allowed_indexes a) \<subseteq> ix_name ` set (idx (pc_target s) (sa_collection a)))"
proof -
  obtain r1 t1 where 1: "ad_list_indexes ad (sa_collection a) (pc_target s) = (r1, t1)" by fastforce
  note l = list_indexes [OF assms(1) 1]
  then show ?thesis
    using assms(2) 1 by (cases r1) (auto simp: on_target_apply verify_indexes_exist_def bnd_apply split: if_splits)
qed

definition settings_gates :: "digest \<Rightarrow> settings_request \<Rightarrow> 't cell \<Rightarrow> string list option \<Rightarrow> bool" where
  "settings_gates sha rq s before \<longleftrightarrow>
     before = hint (pc_target s) (sa_collection (qq_action rq)) (sa_query_shape_hash (qq_action rq)) \<and>
     settings_hash sha (qq_action rq) before = qq_expected_state_hash rq \<and>
     before = sa_previous_allowed_indexes (qq_action rq) \<and> settings_approval_given rq before (pc_flow s) \<and>
     set (sa_allowed_indexes (qq_action rq)) \<subseteq> ix_name ` set (idx (pc_target s) (sa_collection (qq_action rq)))"

lemma settings_checks_spec:
  assumes inv: "inv (pc_target s)" and run: "settings_checks sha ad rq s = (r, s')"
  shows "(\<exists>f. s' = s\<lparr>pc_flow := f\<rparr>) \<and> (\<forall>before. r = Inr before \<longrightarrow> settings_gates sha rq s before)"
proof -
  let ?a = "qq_action rq"
  have refl_f: "\<exists>f. s = s\<lparr>pc_flow := f\<rparr>" by (rule exI [of _ "pc_flow s"]) simp
  obtain r1 s1 where 1: "on_target (current_hint ad ?a) s = (r1, s1)" by fastforce
  note h = hint_on_target [OF inv 1]
  show ?thesis
  proof (cases r1)
    case (Inl e)
    then have "r = Inl e" "s' = s" using run 1 h by (simp_all add: settings_checks_def bnd_apply)
    then show ?thesis using refl_f by simp
  next
    case (Inr before)
    obtain r2 s2 where 2: "check_settings_approval rq before s = (r2, s2)" by fastforce
    then have f: "\<exists>f. s2 = s\<lparr>pc_flow := f\<rparr>" and ap: "r2 = Inr () \<Longrightarrow> settings_approval_given rq before (pc_flow s)"
      using refl_f by (auto simp: check_settings_approval_def bnd_apply on_flow_apply settings_approval_given_def
          split: if_splits sum.splits)
    have t2: "pc_target s2 = pc_target s" using f by auto
    obtain r3 s3 where 3: "on_target (verify_indexes_exist ad ?a) s2 = (r3, s3)" by fastforce
    note v = verify_indexes_on_target [OF _ 3, unfolded t2, OF inv]
    define A where "A \<longleftrightarrow> settings_hash sha ?a before = qq_expected_state_hash rq"
    define B where "B \<longleftrightarrow> before = sa_previous_allowed_indexes ?a"
    have h1: "s1 = s" and b: "before = hint (pc_target s) (sa_collection ?a) (sa_query_shape_hash ?a)" using h Inr by simp_all
    have v1: "s3 = s2" using v by simp
    have eq: "(r, s') = bnd (ensure A (ProductionExecutionError ''current query-settings state differs from verified evidence'')) (\<lambda>_.
        bnd (ensure B (ProductionExecutionError ''prior query-settings state differs from typed inverse evidence'')) (\<lambda>_.
        bnd (check_settings_approval rq before) (\<lambda>_.
        bnd (on_target (verify_indexes_exist ad ?a)) (\<lambda>_. ret before)))) s"
      using run unfolding settings_checks_def A_def B_def
      by (simp add: bnd_step [of "on_target (current_hint ad ?a)" s before s, OF 1 [unfolded Inr h1]])
    have out: "(r, s') = (if A \<and> B then (case r2 of Inl e \<Rightarrow> (Inl e, s2) | Inr _ \<Rightarrow>
        (case r3 of Inl e \<Rightarrow> (Inl e, s2) | Inr _ \<Rightarrow> (Inr before, s2))) else (r, s)) \<and> (\<not> (A \<and> B) \<longrightarrow> (\<exists>e. r = Inl e))"
      unfolding eq using eq by (cases r2; cases r3; cases A; cases B) (simp_all add: bnd_apply 2 3 v1)
    show ?thesis
    proof (cases "A \<and> B \<and> (\<exists>u. r2 = Inr u) \<and> (\<exists>u. r3 = Inr u)")
      case True
      then have "r = Inr before" "s' = s2" using out by auto
      moreover have "settings_gates sha rq s before"
        unfolding settings_gates_def using True ap v b by (auto simp: A_def B_def)
      ultimately show ?thesis using f by simp
    next
      case False
      then have "\<exists>e. r = Inl e" "s' = s \<or> s' = s2"
        using out by (cases r2; cases r3; auto split: if_splits)+
      then show ?thesis using f refl_f by auto
    qed
  qed
qed

lemma settings_effect_spec:
  assumes inv: "inv (pc_target s)" and run: "settings_effect sha ad rq before s = (r, s')"
    and prep: "prep = fresh_entry sha (settings_entry rq ''PREPARED'' before before) s"
  shows "inv (pc_target s') \<and> pc_locks s' = pc_locks s \<and>
     (pc_target s' = pc_target s \<or> hinted cols idx hint (sa_collection (qq_action rq)) (sa_query_shape_hash (qq_action rq))
        (Some (sa_allowed_indexes (qq_action rq))) (pc_target s) (pc_target s')) \<and>
     (case r of
        Inl e \<Rightarrow> pc_ledger s' = pc_ledger s @ [prep]
      | Inr res \<Rightarrow> qr_prepared_entry res = prep \<and>
          qr_applied_entry res = fresh_entry sha (settings_entry rq ''APPLIED'' before (Some (sa_allowed_indexes (qq_action rq))))
            (s\<lparr>pc_ledger := pc_ledger s @ [prep], pc_used := Suc (pc_used s)\<rparr>) \<and>
          pc_ledger s' = pc_ledger s @ [prep, qr_applied_entry res] \<and>
          hinted cols idx hint (sa_collection (qq_action rq)) (sa_query_shape_hash (qq_action rq))
            (Some (sa_allowed_indexes (qq_action rq))) (pc_target s) (pc_target s'))"
proof -
  let ?a = "qq_action rq"
  let ?h = "Some (sa_allowed_indexes ?a)"
  let ?s1 = "s\<lparr>pc_ledger := pc_ledger s @ [prep], pc_used := Suc (pc_used s)\<rparr>"
  let ?set = "ad_set_hint ad (sa_collection ?a) (sa_query_shape_hash ?a) ?h"
  obtain r2 t2 where 2: "?set (pc_target s) = (r2, t2)" by fastforce
  note c = set_hint [OF inv 2]
  let ?s2 = "?s1\<lparr>pc_target := t2\<rparr>"
  obtain r3 s3 where 3: "on_target (current_hint ad ?a) ?s2 = (r3, s3)" by fastforce
  have o: "s3 = ?s2" using hint_on_target [OF _ 3] c by simp
  let ?app = "fresh_entry sha (settings_entry rq ''APPLIED'' before ?h) ?s1"
  have app: "ledger_append sha (settings_entry rq ''PREPARED'' before before) s = (Inr prep, ?s1)"
    by (simp add: ledger_append_apply prep)
  have st: "on_target ?set ?s1 = (r2, ?s2)" using 2 by (simp add: on_target_apply)
  have run': "(r, s') = (case r2 of Inl e \<Rightarrow> (Inl e, ?s2) | Inr _ \<Rightarrow> (case r3 of Inl e \<Rightarrow> (Inl e, ?s2) | Inr actual \<Rightarrow>
      if actual = ?h then (Inr \<lparr>qr_prepared_entry = prep, qr_applied_entry = ?app,
           qr_resulting_state_hash = settings_hash sha ?a ?h\<rparr>, ?s2\<lparr>pc_ledger := pc_ledger ?s1 @ [?app], pc_used := Suc (pc_used ?s1)\<rparr>)
      else (Inl (ProductionExecutionError ''resulting query-settings state does not match typed action''), ?s2)))"
  proof -
    note run1 = run [unfolded settings_effect_def Let_def bnd_step [of "ledger_append _ _" s prep ?s1, OF app]]
    show ?thesis
    proof (cases r2)
      case (Inl e)
      then show ?thesis using run1 st by (simp add: bnd_apply)
    next
      case (Inr u)
      note run2 = run1 [unfolded bnd_step [of "on_target ?set" ?s1 u ?s2, OF st [unfolded Inr]]]
      note o3 = 3 [unfolded o]
      show ?thesis
      proof (cases r3)
        case (Inl e)
        then show ?thesis using run2 o3 \<open>r2 = Inr u\<close> by (simp add: bnd_apply)
      next
        case (Inr v)
        then show ?thesis using run2 o3 \<open>r2 = Inr u\<close>
          by (cases "v = ?h") (simp_all add: bnd_apply ledger_append_apply)
      qed
    qed
  qed
  consider e where "r = Inl e" "s' = ?s2"
    | "r = Inr \<lparr>qr_prepared_entry = prep, qr_applied_entry = ?app, qr_resulting_state_hash = settings_hash sha ?a ?h\<rparr>"
      "s' = ?s2\<lparr>pc_ledger := pc_ledger ?s1 @ [?app], pc_used := Suc (pc_used ?s1)\<rparr>" "\<exists>u. r2 = Inr u"
    using run' by (cases r2; cases r3) (auto split: if_splits)
  then show ?thesis
  proof cases
    case 1
    then show ?thesis using c by auto
  next
    case 2
    then show ?thesis using c by auto
  qed
qed

lemma deploy_settings_spec:
  assumes inv: "inv (pc_target s)" and run: "deploy_settings sha ad rq s = (r, s')"
  shows "inv (pc_target s') \<and> pc_locks s' = pc_locks s \<and>
     ((\<exists>e. r = Inl e) \<and> pc_target s' = pc_target s \<and> pc_ledger s' = pc_ledger s \<or>
      (\<exists>before prep. settings_gates sha rq s before \<and>
        (pc_target s' = pc_target s \<or> hinted cols idx hint (sa_collection (qq_action rq)) (sa_query_shape_hash (qq_action rq))
           (Some (sa_allowed_indexes (qq_action rq))) (pc_target s) (pc_target s')) \<and>
        prep = fresh_entry sha (settings_entry rq ''PREPARED'' before before) s \<and>
        (case r of
           Inl e \<Rightarrow> pc_ledger s' = pc_ledger s @ [prep]
         | Inr res \<Rightarrow> qr_prepared_entry res = prep \<and>
             qr_applied_entry res = fresh_entry sha (settings_entry rq ''APPLIED'' before (Some (sa_allowed_indexes (qq_action rq))))
               (s\<lparr>pc_ledger := pc_ledger s @ [prep], pc_used := Suc (pc_used s)\<rparr>) \<and>
             pc_ledger s' = pc_ledger s @ [prep, qr_applied_entry res] \<and>
             hinted cols idx hint (sa_collection (qq_action rq)) (sa_query_shape_hash (qq_action rq))
               (Some (sa_allowed_indexes (qq_action rq))) (pc_target s) (pc_target s'))))"
proof (cases "qq_target_id rq \<in> set (pc_locks s)")
  case True
  then have "s' = s" "\<exists>e. r = Inl e" using run by (auto simp: deploy_settings_def with_target_lock_apply)
  then show ?thesis using inv by blast
next
  case False
  let ?tid = "qq_target_id rq"
  let ?s0 = "s\<lparr>pc_locks := ?tid # pc_locks s\<rparr>"
  have locks: "removeAll ?tid (pc_locks s) = pc_locks s" using False by simp
  obtain r1 s1 where 1: "settings_checks sha ad rq ?s0 = (r1, s1)" by fastforce
  obtain f where s1: "s1 = ?s0\<lparr>pc_flow := f\<rparr>" and g: "\<And>before. r1 = Inr before \<Longrightarrow> settings_gates sha rq ?s0 before"
    using settings_checks_spec [OF _ 1] inv by auto
  have body: "(r, s') = (case bnd (settings_checks sha ad rq) (settings_effect sha ad rq) ?s0 of
      (r, s') \<Rightarrow> (r, s'\<lparr>pc_locks := removeAll ?tid (pc_locks s')\<rparr>))"
    using run False by (simp add: deploy_settings_def with_target_lock_apply)
  show ?thesis
  proof (cases r1)
    case (Inl e)
    then have "r = Inl e" "s' = s1\<lparr>pc_locks := removeAll ?tid (pc_locks s1)\<rparr>"
      using body 1 by (simp_all add: bnd_apply)
    then show ?thesis using s1 locks inv by simp
  next
    case (Inr before)
    have gates: "settings_gates sha rq s before"
    proof -
      have "settings_gates sha rq ?s0 before = settings_gates sha rq s before" by (simp add: settings_gates_def)
      then show ?thesis using g [OF Inr] by simp
    qed
    obtain r2 s2 where 2: "settings_effect sha ad rq before s1 = (r2, s2)" by fastforce
    have out: "r = r2" "s' = s2\<lparr>pc_locks := removeAll ?tid (pc_locks s2)\<rparr>"
      using body 1 2 Inr by (simp_all add: bnd_apply)
    have prep: "fresh_entry sha x s1 = fresh_entry sha x s" for x by (simp add: s1)
    have t1: "pc_target s1 = pc_target s" "pc_ledger s1 = pc_ledger s" "pc_used s1 = pc_used s"
      "pc_locks s1 = ?tid # pc_locks s" by (simp_all add: s1)
    have fe: "fresh_entry sha a (s1\<lparr>pc_ledger := l, pc_used := n\<rparr>) = fresh_entry sha a (s\<lparr>pc_ledger := l, pc_used := n\<rparr>)" for a l n
      by (simp add: fresh_entry_def s1)
    note eff = settings_effect_spec [OF _ 2 refl, unfolded t1 fe prep, OF inv]
    have same: "pc_target s' = pc_target s2" "pc_ledger s' = pc_ledger s2" "pc_locks s' = pc_locks s"
      using out eff locks by simp_all
    show ?thesis
      unfolding same out(1)
      by (rule conjI [OF _ conjI [OF _ disjI2 [OF exI [of _ before, OF exI
          [of _ "fresh_entry sha (settings_entry rq ''PREPARED'' before before) s"]]]]])
        (use eff gates in blast)+
  qed
qed

lemma restore_settings_spec:
  assumes inv: "inv (pc_target s)" and run: "restore_settings sha ad entry a actor s = (r, s')"
  shows "inv (pc_target s') \<and> pc_locks s' = pc_locks s \<and>
     (pc_target s' = pc_target s \<or>
        hint (pc_target s) (sa_collection a) (sa_query_shape_hash a) = Some (sa_allowed_indexes a) \<and>
        hinted cols idx hint (sa_collection a) (sa_query_shape_hash a) (sa_previous_allowed_indexes a) (pc_target s) (pc_target s')) \<and>
     (\<forall>e. r = Inr e \<longrightarrow> pc_ledger s' = pc_ledger s @ [e] \<and>
        hint (pc_target s) (sa_collection a) (sa_query_shape_hash a) = Some (sa_allowed_indexes a) \<and>
        hinted cols idx hint (sa_collection a) (sa_query_shape_hash a) (sa_previous_allowed_indexes a) (pc_target s) (pc_target s')) \<and>
     (\<forall>e. r = Inl e \<longrightarrow> pc_ledger s' = pc_ledger s)"
proof -
  obtain r1 s1 where 1: "on_target (current_hint ad a) s = (r1, s1)" by fastforce
  have o1: "s1 = s" "\<And>h. r1 = Inr h \<Longrightarrow> h = hint (pc_target s) (sa_collection a) (sa_query_shape_hash a)"
    using hint_on_target [OF inv 1] by auto
  obtain r2 t2 where 2: "ad_set_hint ad (sa_collection a) (sa_query_shape_hash a) (sa_previous_allowed_indexes a) (pc_target s) = (r2, t2)" by fastforce
  note c = set_hint [OF inv 2]
  let ?set = "ad_set_hint ad (sa_collection a) (sa_query_shape_hash a) (sa_previous_allowed_indexes a)"
  let ?s2 = "s\<lparr>pc_target := t2\<rparr>"
  have st: "on_target ?set s = (r2, ?s2)" using 2 by (simp add: on_target_apply)
  obtain r3 s3 where 3: "on_target (current_hint ad a) ?s2 = (r3, s3)" by fastforce
  have o3: "s3 = ?s2" using hint_on_target [OF _ 3] c by simp
  show ?thesis
  proof (cases "r1 = Inr (Some (sa_allowed_indexes a))")
    case False
    then have "s' = s" "\<exists>e. r = Inl e"
      using run 1 o1(1) by (cases r1; auto simp: restore_settings_def bnd_apply split: if_splits)+
    then show ?thesis using inv by auto
  next
    case True
    then have drift: "hint (pc_target s) (sa_collection a) (sa_query_shape_hash a) = Some (sa_allowed_indexes a)"
      using o1(2) [OF True] by simp
    have run1: "bnd (on_target ?set) (\<lambda>_.
       bnd (on_target (current_hint ad a)) (\<lambda>now.
       bnd (ensure (now = sa_previous_allowed_indexes a)
         (ProductionExecutionError ''query-settings rollback did not restore prior state'')) (\<lambda>_.
       ledger_append sha (settings_rollback_entry entry a actor (Some (sa_allowed_indexes a)))))) s = (r, s')"
      using run unfolding restore_settings_def
      by (simp add: bnd_step [of "on_target (current_hint ad a)" s "Some (sa_allowed_indexes a)" s, OF 1 [unfolded True o1(1)]]
          bnd_apply [of "ensure _ _"])
    have "(\<exists>e. r = Inl e) \<and> s' = ?s2 \<or> (\<exists>e u. r = Inr e \<and> r2 = Inr u \<and> pc_target s' = t2 \<and> pc_locks s' = pc_locks s \<and> pc_ledger s' = pc_ledger s @ [e])"
      using run1 st 3 o3
      by (cases r2; cases r3) (auto simp: bnd_apply ledger_append_apply split: if_splits)
    then show ?thesis using c drift by auto
  qed
qed

lemma rollback_settings_spec:
  assumes inv: "inv (pc_target s)" and run: "rollback_settings sha ad rq s = (r, s')"
  shows "inv (pc_target s') \<and> pc_locks s' = pc_locks s \<and>
     (pc_target s' = pc_target s \<and> (\<exists>e. r = Inl e) \<or>
      (\<exists>entry a. find (\<lambda>e. le_entry_id e = rq_applied_ledger_entry_id rq) (pc_ledger s) = Some entry \<and>
         py_get (le_forward_action entry) ''phase'' = JStr ''APPLIED'' \<and>
         py_get (le_forward_action entry) ''target_id'' = JStr (rq_target_id rq) \<and>
         set_hint_validate (filter (\<lambda>(k, v). k \<noteq> ''phase'' \<and> k \<noteq> ''target_id'') (obj_items (le_forward_action entry))) = Inr a \<and>
         hint (pc_target s) (sa_collection a) (sa_query_shape_hash a) = Some (sa_allowed_indexes a) \<and>
         hinted cols idx hint (sa_collection a) (sa_query_shape_hash a) (sa_previous_allowed_indexes a) (pc_target s) (pc_target s')))"
proof (cases "find (\<lambda>e. le_entry_id e = rq_applied_ledger_entry_id rq) (pc_ledger s)")
  case None
  then show ?thesis using run inv by (auto simp: rollback_settings_def bnd_apply)
next
  case (Some entry)
  let ?act = "le_forward_action entry"
  let ?v = "set_hint_validate (filter (\<lambda>(k, v). k \<noteq> ''phase'' \<and> k \<noteq> ''target_id'') (obj_items ?act))"
  show ?thesis
  proof (cases "py_get ?act ''phase'' = JStr ''APPLIED'' \<and> (\<exists>a. ?v = Inr a) \<and> py_get ?act ''target_id'' = JStr (rq_target_id rq) \<and>
      rq_target_id rq \<notin> set (pc_locks s)")
    case False
    then have "s' = s" "\<exists>e. r = Inl e"
      using run Some by (cases ?v; auto simp: rollback_settings_def bnd_apply with_target_lock_apply split: if_splits)+
    then show ?thesis using inv by blast
  next
    case True
    then obtain a where a: "?v = Inr a" by blast
    let ?s0 = "s\<lparr>pc_locks := rq_target_id rq # pc_locks s\<rparr>"
    obtain r1 s1 where 1: "restore_settings sha ad entry a (rq_actor rq) ?s0 = (r1, s1)" by fastforce
    note sp = restore_settings_spec [OF _ 1]
    have out: "r = r1" "s' = s1\<lparr>pc_locks := removeAll (rq_target_id rq) (pc_locks s1)\<rparr>"
      using run Some True a 1 by (simp_all add: rollback_settings_def bnd_apply with_target_lock_apply)
    then show ?thesis using sp inv Some True a by (cases r1) auto
  qed
qed

lemma settings_deployed_entry:
  assumes inv: "inv (pc_target s)"
    and ids: "fst (pc_fresh s (pc_used s)) \<noteq> fst (pc_fresh s (Suc (pc_used s)))"
      "fst (pc_fresh s (Suc (pc_used s))) \<notin> le_entry_id ` set (pc_ledger s)"
    and dep: "deploy_settings sha ad rq s = (Inr res, s1)" and e: "e = qr_applied_entry res"
  shows "inv (pc_target s1) \<and> pc_locks s1 = pc_locks s \<and>
     find (\<lambda>x. le_entry_id x = le_entry_id e) (pc_ledger s1) = Some e \<and>
     le_forward_action e = canon (JObj (settings_forward ''APPLIED'' (qq_target_id rq) (qq_action rq))) \<and>
     hinted cols idx hint (sa_collection (qq_action rq)) (sa_query_shape_hash (qq_action rq))
       (Some (sa_allowed_indexes (qq_action rq))) (pc_target s) (pc_target s1) \<and>
     hint (pc_target s) (sa_collection (qq_action rq)) (sa_query_shape_hash (qq_action rq)) = sa_previous_allowed_indexes (qq_action rq)"
proof -
  let ?a = "qq_action rq"
  obtain before where g: "settings_gates sha rq s before" and inv1: "inv (pc_target s1)" "pc_locks s1 = pc_locks s"
    and pr: "qr_prepared_entry res = fresh_entry sha (settings_entry rq ''PREPARED'' before before) s"
    and ap: "e = fresh_entry sha (settings_entry rq ''APPLIED'' before (Some (sa_allowed_indexes ?a)))
       (s\<lparr>pc_ledger := pc_ledger s @ [qr_prepared_entry res], pc_used := Suc (pc_used s)\<rparr>)"
    and led: "pc_ledger s1 = pc_ledger s @ [qr_prepared_entry res, e]"
    and hi: "hinted cols idx hint (sa_collection ?a) (sa_query_shape_hash ?a) (Some (sa_allowed_indexes ?a)) (pc_target s) (pc_target s1)"
    using deploy_settings_spec [OF inv dep] by (auto simp: e)
  have eid: "le_entry_id e = fst (pc_fresh s (Suc (pc_used s)))" "le_entry_id (qr_prepared_entry res) = fst (pc_fresh s (pc_used s))"
    by (subst ap, simp add: fresh_entry_def new_entry_def Let_def) (subst pr, simp add: fresh_entry_def new_entry_def Let_def)
  have "find (\<lambda>x. le_entry_id x = le_entry_id e) (pc_ledger s) = None"
    using ids(2) eid(1) by (simp add: find_None_iff_ball) (metis image_eqI)
  then have found: "find (\<lambda>x. le_entry_id x = le_entry_id e) (pc_ledger s1) = Some e"
    using ids(1) eid by (simp add: led find_append)
  have fwd: "le_forward_action e = canon (JObj (settings_forward ''APPLIED'' (qq_target_id rq) ?a))"
    by (subst ap) (simp add: fresh_entry_def new_entry_def Let_def settings_entry_def freeze_mapping_def settings_forward_def)
  have "hint (pc_target s) (sa_collection ?a) (sa_query_shape_hash ?a) = sa_previous_allowed_indexes ?a"
    using g unfolding settings_gates_def by metis
  then show ?thesis using inv1 found fwd hi by blast
qed

lemma settings_roundtrip:
  assumes inv: "inv (pc_target s)" and ok: "set_hint_action_ok (qq_action rq)"
    and ids: "fst (pc_fresh s (pc_used s)) \<noteq> fst (pc_fresh s (Suc (pc_used s)))"
      "fst (pc_fresh s (Suc (pc_used s))) \<notin> le_entry_id ` set (pc_ledger s)"
    and dep: "deploy_settings sha ad rq s = (Inr res, s1)"
    and rb: "rollback_settings sha ad \<lparr>rq_target_id = qq_target_id rq,
        rq_applied_ledger_entry_id = le_entry_id (qr_applied_entry res), rq_actor = who\<rparr> s1 = (Inr out, s2)"
  shows "cols (pc_target s2) = cols (pc_target s) \<and> idx (pc_target s2) = idx (pc_target s) \<and> hint (pc_target s2) = hint (pc_target s)"
proof -
  let ?a = "qq_action rq"
  note d = settings_deployed_entry [OF inv ids dep refl]
  have inv1: "inv (pc_target s1)" using d by simp
  have "hinted cols idx hint (sa_collection ?a) (sa_query_shape_hash ?a) (sa_previous_allowed_indexes ?a) (pc_target s1) (pc_target s2)"
    using rollback_settings_spec [OF inv1 rb] d settings_forward_validate [OF ok] by auto
  with d show ?thesis by (simp add: hinted_def fun_eq_iff)
qed

end

subsection \<open>Properties\<close>

text \<open>
  C29. A query setting is changed only under its gates: when \<open>deploy\<close> changes the target at all, the
  setting it found is the one the typed action names as its previous state and the one that was
  verified, every hinted index exists, a current approval was given where one is required, and a
  setting that was already there always requires one, in full-autonomous mode too; the one change is
  that setting. The lock is released however the call ends.
\<close>

theorem settings_deploy_fails_closed:
  assumes "database_adapter ad cols idx hint ok" and "ok (pc_target s)" and "deploy_settings sha ad rq s = (r, s')"
  shows "ok (pc_target s') \<and> pc_locks s' = pc_locks s \<and>
     (pc_target s' = pc_target s \<or>
       (\<exists>before. before = hint (pc_target s) (sa_collection (qq_action rq)) (sa_query_shape_hash (qq_action rq)) \<and>
         settings_hash sha (qq_action rq) before = qq_expected_state_hash rq \<and>
         before = sa_previous_allowed_indexes (qq_action rq) \<and>
         set (sa_allowed_indexes (qq_action rq)) \<subseteq> ix_name ` set (idx (pc_target s) (sa_collection (qq_action rq))) \<and>
         (before \<noteq> None \<or> qq_deployment_mode rq \<noteq> FULL_AUTONOMOUS \<longrightarrow>
            (\<exists>a. fst (require_current_approval (qq_action_id rq) (qq_evidence_hash rq) (qq_target_id rq) (pc_flow s)) = Inr a)) \<and>
         hinted cols idx hint (sa_collection (qq_action rq)) (sa_query_shape_hash (qq_action rq))
           (Some (sa_allowed_indexes (qq_action rq))) (pc_target s) (pc_target s')))"
proof -
  note spec = database_adapter.deploy_settings_spec [OF assms]
  show ?thesis
  proof (cases "pc_target s' = pc_target s")
    case True
    then show ?thesis using spec by simp
  next
    case False
    then obtain before where 1: "database_adapter.settings_gates idx hint sha rq s before"
      and 2: "hinted cols idx hint (sa_collection (qq_action rq)) (sa_query_shape_hash (qq_action rq))
           (Some (sa_allowed_indexes (qq_action rq))) (pc_target s) (pc_target s')" using spec by blast
    have "approval_required (qq_deployment_mode rq) ''SET_QUERY_SETTINGS_INDEX_HINT'' (before \<noteq> None)"
      if "before \<noteq> None \<or> qq_deployment_mode rq \<noteq> FULL_AUTONOMOUS"
      using that by (auto simp: approval_required_def)
    then show ?thesis
      using spec 1 2 unfolding database_adapter.settings_gates_def [OF assms(1)] settings_approval_given_def by blast
  qed
qed

text \<open>
  C30. Setting a hint and rolling it back is the identity on the database: after a deployment that
  returned, a rollback of its applied entry that returns has restored the exact earlier setting, an
  absent one included, and changed no index and no other setting.
\<close>

theorem settings_rollback_restores:
  assumes "database_adapter ad cols idx hint ok" and "ok (pc_target s)" and "set_hint_action_ok (qq_action rq)"
    and "fst (pc_fresh s (pc_used s)) \<noteq> fst (pc_fresh s (Suc (pc_used s)))"
    and "fst (pc_fresh s (Suc (pc_used s))) \<notin> le_entry_id ` set (pc_ledger s)"
    and "deploy_settings sha ad rq s = (Inr res, s1)"
    and "rollback_settings sha ad \<lparr>rq_target_id = qq_target_id rq,
        rq_applied_ledger_entry_id = le_entry_id (qr_applied_entry res), rq_actor = who\<rparr> s1 = (Inr out, s2)"
  shows "cols (pc_target s2) = cols (pc_target s) \<and> idx (pc_target s2) = idx (pc_target s) \<and> hint (pc_target s2) = hint (pc_target s)"
  using database_adapter.settings_roundtrip [OF assms] .

subsection \<open>A hint on the in-memory adapter\<close>

definition hint_action :: set_hint_action where
  "hint_action = \<lparr>sa_database = ''shop'', sa_collection = ''orders'', sa_query_shape_hash = ''q'',
     sa_allowed_indexes = [''optimizer_1''], sa_previous_allowed_indexes = None\<rparr>"

definition hint_cell :: "fake_db cell" where
  "hint_cell = demo_cell\<lparr>pc_target := deployed_target\<rparr>"

definition hint_request :: settings_request where
  "hint_request = \<lparr>qq_target_id = ''t1'', qq_action_id = ''a1'', qq_action = hint_action, qq_evidence_hash = ''h'',
     qq_expected_state_hash = settings_hash id hint_action None, qq_actor = ''worker'',
     qq_deployment_mode = FULL_AUTONOMOUS\<rparr>"

definition hinted_target :: fake_db where
  "hinted_target = deployed_target\<lparr>fk_settings := [((''orders'', ''q''), [''optimizer_1''])]\<rparr>"

lemma hint_sel [simp]: "qq_action hint_request = hint_action" "qq_target_id hint_request = ''t1''"
  "qq_expected_state_hash hint_request = settings_hash id hint_action None"
  "sa_collection hint_action = ''orders''" "sa_query_shape_hash hint_action = ''q''"
  "sa_allowed_indexes hint_action = [''optimizer_1'']" "sa_previous_allowed_indexes hint_action = None"
  "pc_target hint_cell = deployed_target" "pc_locks hint_cell = []"
  by (simp_all add: hint_request_def hint_action_def hint_cell_def)

lemma hint_inv: "fake_inv (pc_target hint_cell)"
  by (simp add: deployed_target_def fake_inv_def)

lemma hint_fresh:
  "fst (pc_fresh hint_cell (pc_used hint_cell)) \<noteq> fst (pc_fresh hint_cell (Suc (pc_used hint_cell)))"
  "fst (pc_fresh hint_cell (Suc (pc_used hint_cell))) \<notin> le_entry_id ` set (pc_ledger hint_cell)"
  using demo_fresh by (simp_all add: hint_cell_def)

lemma hint_reads:
  "current_hint fake_adapter hint_action deployed_target = (Inr None, deployed_target)"
  "current_hint fake_adapter hint_action hinted_target = (Inr (Some [''optimizer_1'']), hinted_target)"
  "ad_set_hint fake_adapter ''orders'' ''q'' (Some [''optimizer_1'']) deployed_target = (Inr (), hinted_target)"
  "ad_set_hint fake_adapter ''orders'' ''q'' None hinted_target = (Inr (), deployed_target)"
  "verify_indexes_exist fake_adapter hint_action deployed_target = (Inr (), deployed_target)"
  by (simp_all add: current_hint_def fake_defs hinted_target_def deployed_target_def verify_indexes_exist_def bnd_apply
      fk_collection_def)

lemma hint_checks:
  "settings_checks id fake_adapter hint_request (hint_cell\<lparr>pc_locks := [''t1'']\<rparr>) = (Inr None, hint_cell\<lparr>pc_locks := [''t1'']\<rparr>)"
proof -
  have "(check_settings_approval hint_request None :: (fake_db cell, unit) oper) = ret ()"
    by (simp add: check_settings_approval_def hint_request_def approval_required_def full_autonomous_action_types_def)
  moreover have "hint_cell\<lparr>pc_locks := [''t1''], pc_target := deployed_target\<rparr> = hint_cell\<lparr>pc_locks := [''t1'']\<rparr>"
    by (simp add: hint_cell_def)
  ultimately show ?thesis by (simp add: settings_checks_def bnd_apply on_target_apply hint_reads)
qed

lemma hint_deploy:
  "\<exists>res s1. deploy_settings id fake_adapter hint_request hint_cell = (Inr res, s1) \<and> pc_target s1 = hinted_target \<and> pc_locks s1 = []"
proof -
  let ?c = "hint_cell\<lparr>pc_locks := [''t1'']\<rparr>"
  have "\<exists>res c2. settings_effect id fake_adapter hint_request None ?c = (Inr res, c2) \<and> pc_target c2 = hinted_target \<and> pc_locks c2 = [''t1'']"
    unfolding settings_effect_def Let_def bnd_step [OF ledger_append_apply]
    by (simp add: bnd_apply on_target_apply hint_reads ledger_append_apply)
  then show ?thesis
    by (auto simp add: deploy_settings_def with_target_lock_apply bnd_apply [of "settings_checks id fake_adapter hint_request"] hint_checks)
qed

theorem settings_deploy_fails_closed_witness:
  "\<exists>r s'. deploy_settings id fake_adapter hint_request hint_cell = (r, s') \<and> pc_target s' \<noteq> pc_target hint_cell \<and>
     hinted fake_cols fake_idx fake_hint ''orders'' ''q'' (Some [''optimizer_1'']) (pc_target hint_cell) (pc_target s')"
proof -
  obtain res s1 where run: "deploy_settings id fake_adapter hint_request hint_cell = (Inr res, s1)" "pc_target s1 = hinted_target"
    using hint_deploy by blast
  have "pc_target s1 \<noteq> pc_target hint_cell" by (simp add: run(2) hinted_target_def deployed_target_def)
  with settings_deploy_fails_closed [OF fakead.database_adapter_axioms hint_inv run(1)] run show ?thesis by auto
qed

definition hint_rollback :: "settings_result \<Rightarrow> rollback_request" where
  "hint_rollback res = \<lparr>rq_target_id = qq_target_id hint_request,
     rq_applied_ledger_entry_id = le_entry_id (qr_applied_entry res), rq_actor = ''dba''\<rparr>"

lemma hint_restore:
  assumes "pc_target s = hinted_target"
  shows "\<exists>e s'. restore_settings id fake_adapter entry hint_action who s = (Inr e, s')"
  using assms by (simp add: restore_settings_def bnd_apply on_target_apply hint_reads ledger_append_apply)

lemma hint_rollback_returns:
  assumes "deploy_settings id fake_adapter hint_request hint_cell = (Inr res, s1)" and "pc_target s1 = hinted_target" and "pc_locks s1 = []"
  shows "\<exists>out s2. rollback_settings id fake_adapter (hint_rollback res) s1 = (Inr out, s2)"
proof -
  have ok: "set_hint_action_ok hint_action" by (simp add: set_hint_action_ok_def within_def hint_action_def)
  note d = fakead.settings_deployed_entry [OF hint_inv hint_fresh assms(1) refl]
  obtain e s' where r: "restore_settings id fake_adapter (qr_applied_entry res) hint_action ''dba'' (s1\<lparr>pc_locks := [''t1'']\<rparr>) = (Inr e, s')"
    using hint_restore [of "s1\<lparr>pc_locks := [''t1'']\<rparr>" "qr_applied_entry res" "''dba''"] assms(2) by auto
  then show ?thesis
    using d assms(3) settings_forward_validate [OF ok, of "''APPLIED''" "''t1''"]
    by (simp add: rollback_settings_def hint_rollback_def bnd_apply settings_forward_get with_target_lock_apply del: canon.simps)
qed

theorem settings_rollback_restores_witness:
  "\<exists>res s1 out s2. deploy_settings id fake_adapter hint_request hint_cell = (Inr res, s1) \<and>
     fake_hint (pc_target s1) ''orders'' ''q'' = Some [''optimizer_1''] \<and>
     rollback_settings id fake_adapter (hint_rollback res) s1 = (Inr out, s2) \<and>
     fake_hint (pc_target s2) ''orders'' ''q'' = None"
proof -
  obtain res s1 where run: "deploy_settings id fake_adapter hint_request hint_cell = (Inr res, s1)"
    and t: "pc_target s1 = hinted_target" and l: "pc_locks s1 = []" using hint_deploy by blast
  obtain out s2 where rb: "rollback_settings id fake_adapter (hint_rollback res) s1 = (Inr out, s2)"
    using hint_rollback_returns [OF run t l] by blast
  have ok: "set_hint_action_ok (qq_action hint_request)" by (simp add: set_hint_action_ok_def within_def hint_action_def)
  have "fake_hint (pc_target s2) = fake_hint deployed_target"
    using settings_rollback_restores [OF fakead.database_adapter_axioms hint_inv ok hint_fresh run rb [unfolded hint_rollback_def]] by simp
  moreover have "fake_hint deployed_target ''orders'' ''q'' = None" "fake_hint hinted_target ''orders'' ''q'' = Some [''optimizer_1'']"
    by (simp_all add: fake_hint_def hinted_target_def deployed_target_def)
  ultimately show ?thesis using run rb t by auto
qed

end
