(* ===== verification/Candidates.thy ===== *)
theory Candidates
  imports Actions "HOL-Library.AList" "HOL-Library.Multiset"
begin

text \<open>
  \<open>backend/app/candidates/index_generator.py\<close> and the pure part of \<open>backend/app/candidates/durable.py\<close>:
  from the literal-free facts of a find shape to at most one typed index action per shape, skipping
  indexes that exist and candidates already seen.
\<close>

subsection \<open>The generator\<close>

record find_query_shape =
  fs_query_shape_hash :: string
  fs_database :: string
  fs_collection :: string
  fs_equality_fields :: "string list"
  fs_sort_fields :: "(string \<times> int) list"
  fs_range_fields :: "string list"

record index_candidate =
  ic_candidate_fingerprint :: string
  ic_pattern :: string
  ic_action :: create_index_action

definition key_groups :: "find_query_shape \<Rightarrow> (string \<times> int) list" where
  "key_groups shape =
     map (\<lambda>f. (f, 1)) (sorted_set (fs_equality_fields shape)) @
     sort (fs_sort_fields shape) @
     map (\<lambda>f. (f, 1)) (sorted_set (fs_range_fields shape))"

text \<open>The loop over the groups: a field that was seen keeps its first position and direction.\<close>

fun first_seen :: "string list \<Rightarrow> (string \<times> int) list \<Rightarrow> (string \<times> int) list" where
  "first_seen seen [] = []"
| "first_seen seen ((f, d) # ks) = (if f \<in> set seen then first_seen seen ks else (f, d) # first_seen (f # seen) ks)"

definition index_keys :: "find_query_shape \<Rightarrow> (string \<times> int) list" where
  "index_keys shape = first_seen [] (key_groups shape)"

definition candidate_fingerprint :: "digest \<Rightarrow> find_query_shape \<Rightarrow> string \<Rightarrow> (string \<times> int) list \<Rightarrow> string" where
  "candidate_fingerprint sha shape pattern keys = json_hash sha (JObj
     [(''collection'', JStr (fs_collection shape)), (''database'', JStr (fs_database shape)),
      (''keys'', keys_json keys), (''pattern'', JStr pattern), (''query_shape_hash'', JStr (fs_query_shape_hash shape))])"

definition generated_action :: "string \<Rightarrow> find_query_shape \<Rightarrow> (string \<times> int) list \<Rightarrow> create_index_action" where
  "generated_action fingerprint shape keys =
     \<lparr>ca_database = fs_database shape, ca_collection = fs_collection shape,
      ca_index_name = ''optimizer_'' @ take 16 fingerprint,
      ca_fields = map (\<lambda>(f, d). \<lparr>if_field = f, if_direction = d\<rparr>) keys, ca_unique = False,
      ca_expire_after_seconds = None, ca_sparse = False, ca_partial_filter_expression = None, ca_text = False,
      ca_wildcard = False, ca_geo = False, ca_hashed = False\<rparr>"

definition generate :: "digest \<Rightarrow> find_query_shape \<Rightarrow> exn + index_candidate list" where
  "generate sha shape =
     (let keys = index_keys shape in
      if keys = [] \<or> 5 < length keys then Inr []
      else let fingerprint = candidate_fingerprint sha shape ''EQUALITY_SORT_RANGE'' keys in
        sbind (create_index_action_checked (generated_action fingerprint shape keys)) (\<lambda>action.
        Inr [\<lparr>ic_candidate_fingerprint = fingerprint, ic_pattern = ''EQUALITY_SORT_RANGE'', ic_action = action\<rparr>]))"

subsection \<open>Field extraction\<close>

definition py_get_default :: "(string \<times> json) list \<Rightarrow> string \<Rightarrow> json \<Rightarrow> json" where
  "py_get_default kvs k d = (case map_of kvs k of Some v \<Rightarrow> v | None \<Rightarrow> d)"

definition range_operators :: "string list" where
  "range_operators = [''$gt'', ''$gte'', ''$lt'', ''$lte'']"

fun is_range_value :: "json \<Rightarrow> bool" where
  "is_range_value (JObj ops) = list_ex (\<lambda>(op, _). op \<in> set range_operators) ops"
| "is_range_value _ = False"

definition plain_field :: "string \<Rightarrow> bool" where
  "plain_field f \<longleftrightarrow> take 1 f \<noteq> ''$''"

fun direction_of :: "json \<Rightarrow> int option" where
  "direction_of (JNum d) = (if d = -1 \<or> d = 1 then Some d else None)"
| "direction_of (JBool b) = (if b then Some 1 else None)"
| "direction_of _ = None"

fun sort_pairs :: "json \<Rightarrow> (string \<times> int) list" where
  "sort_pairs (JObj kvs) = List.map_filter (\<lambda>(f, d). map_option (Pair f) (direction_of d)) kvs"
| "sort_pairs _ = []"

definition find_fields :: "json \<Rightarrow> (string list \<times> (string \<times> int) list \<times> string list) option" where
  "find_fields shape = (case shape of
     JObj kvs \<Rightarrow> (case py_get_default kvs ''query'' shape of
       JObj query \<Rightarrow>
         (let filter_doc = (case py_get_default query ''filter'' (py_get_default query ''query'' (JObj [])) of
                JObj fd \<Rightarrow> fd | _ \<Rightarrow> []);
              plain = filter (\<lambda>(f, _). plain_field f) filter_doc;
              ranges = map fst (filter (\<lambda>(_, v). is_range_value v) plain);
              equality = map fst (filter (\<lambda>(_, v). \<not> is_range_value v) plain)
          in Some (sorted_set equality, sort_pairs (py_get_default query ''sort'' (JObj [])), sorted_set ranges))
     | _ \<Rightarrow> None)
   | _ \<Rightarrow> None)"

subsection \<open>Definitions for a run\<close>

text \<open>One row of the snapshot's shapes joined with the shape and its namespace.\<close>

record snapshot_shape =
  ss_id :: string
  ss_query_shape_id :: string
  ss_query_shape_hash :: string
  ss_operation :: string
  ss_protected_execution_time_share :: bool
  ss_normalized_shape :: json
  ss_real_namespace :: string
  ss_allowlisted :: bool

record diagnosis_finding =
  df_query_shape_ids :: "string list"
  df_evidence_refs :: "string list"

record candidate_definition =
  cd_query_shape_id :: string
  cd_fingerprint :: string
  cd_action :: create_index_action
  cd_evidence_refs :: "string list"

text \<open>\<open>str.partition(".")\<close>; \<open>None\<close> when there is no separator.\<close>

fun partition_dot :: "string \<Rightarrow> (string \<times> string) option" where
  "partition_dot [] = None"
| "partition_dot (c # cs) = (if c = CHR ''.'' then Some ([], cs)
     else map_option (\<lambda>(a, b). (c # a, b)) (partition_dot cs))"

definition add_refs :: "string \<Rightarrow> string list \<Rightarrow> (string \<times> string list) list \<Rightarrow> (string \<times> string list) list" where
  "add_refs k refs d = AList.update k ((case map_of d k of Some xs \<Rightarrow> xs | None \<Rightarrow> []) @ refs) d"

definition finding_refs :: "string list \<Rightarrow> diagnosis_finding \<Rightarrow> (string \<times> string list) list \<Rightarrow> (string \<times> string list) list" where
  "finding_refs allowed f d =
     fold (\<lambda>i d. if i \<in> set allowed then add_refs i (df_evidence_refs f) d else d) (df_query_shape_ids f) d"

definition protected_refs :: "snapshot_shape \<Rightarrow> (string \<times> string list) list \<Rightarrow> (string \<times> string list) list" where
  "protected_refs s d = (if ss_operation s = ''find'' \<and> ss_protected_execution_time_share s
     then add_refs (ss_query_shape_id s) [''QS:'' @ ss_id s] d else d)"

text \<open>The evidence dictionary of \<open>_load_inputs\<close>; the shapes kept are those it has a key for.\<close>

definition load_evidence :: "diagnosis_finding list \<Rightarrow> snapshot_shape list \<Rightarrow> (string \<times> string list) list" where
  "load_evidence findings shapes =
     fold protected_refs shapes (fold (finding_refs (map ss_query_shape_id shapes)) findings [])"

definition referenced_shapes :: "diagnosis_finding list \<Rightarrow> snapshot_shape list \<Rightarrow> snapshot_shape list" where
  "referenced_shapes findings shapes =
     filter (\<lambda>s. map_of (load_evidence findings shapes) (ss_query_shape_id s) \<noteq> None) shapes"

definition index_metadata_step ::
  "'t adapter \<Rightarrow> string list \<Rightarrow> snapshot_shape \<Rightarrow> (string \<times> (string \<times> int) list list) list \<Rightarrow>
     ('t, (string \<times> (string \<times> int) list list) list) oper" where
  "index_metadata_step ad accessible s result =
     (case partition_dot (ss_real_namespace s) of
        None \<Rightarrow> ret result
      | Some (_, collection) \<Rightarrow>
          if \<not> ss_allowlisted s \<or> collection \<notin> set accessible then ret result
          else bnd (ad_list_indexes ad collection) (\<lambda>indexes.
            ret (AList.update (ss_real_namespace s) (map ix_keys indexes) result)))"

fun index_metadata_loop ::
  "'t adapter \<Rightarrow> string list \<Rightarrow> snapshot_shape list \<Rightarrow> (string \<times> (string \<times> int) list list) list \<Rightarrow>
     ('t, (string \<times> (string \<times> int) list list) list) oper" where
  "index_metadata_loop ad acc [] result = ret result"
| "index_metadata_loop ad acc (s # ss) result =
     bnd (index_metadata_step ad acc s result) (index_metadata_loop ad acc ss)"

definition index_metadata ::
  "'t adapter \<Rightarrow> snapshot_shape list \<Rightarrow> ('t, (string \<times> (string \<times> int) list list) list) oper" where
  "index_metadata ad shapes = bnd (ad_list_namespaces ad) (\<lambda>accessible. index_metadata_loop ad accessible shapes [])"

text \<open>
  The inner loop of \<open>_definitions\<close>: a candidate whose keys exist, or that was seen, is skipped.
\<close>

fun keep_candidates ::
  "snapshot_shape \<Rightarrow> string list \<Rightarrow> (string \<times> int) list list \<Rightarrow> index_candidate list \<Rightarrow> candidate_definition list \<Rightarrow> candidate_definition list" where
  "keep_candidates s refs existing [] defs = defs"
| "keep_candidates s refs existing (c # cs) defs =
     (if action_keys (ic_action c) \<in> set existing \<or> ic_candidate_fingerprint c \<in> set (map cd_fingerprint defs)
      then keep_candidates s refs existing cs defs
      else keep_candidates s refs existing cs (defs @ [\<lparr>cd_query_shape_id = ss_query_shape_id s,
        cd_fingerprint = ic_candidate_fingerprint c, cd_action = ic_action c, cd_evidence_refs = sorted_set refs\<rparr>]))"

fun definitions_loop ::
  "digest \<Rightarrow> (string \<times> string list) list \<Rightarrow> (string \<times> (string \<times> int) list list) list \<Rightarrow> snapshot_shape list \<Rightarrow>
     candidate_definition list \<Rightarrow> exn + candidate_definition list" where
  "definitions_loop sha evidence indexes [] defs = Inr defs"
| "definitions_loop sha evidence indexes (s # ss) defs =
     (case (partition_dot (ss_real_namespace s), map_of indexes (ss_real_namespace s), find_fields (ss_normalized_shape s)) of
        (Some (database, collection), Some existing, Some (eq, so, ra)) \<Rightarrow>
          sbind (generate sha \<lparr>fs_query_shape_hash = ss_query_shape_hash s, fs_database = database, fs_collection = collection,
            fs_equality_fields = eq, fs_sort_fields = so, fs_range_fields = ra\<rparr>) (\<lambda>generated.
          definitions_loop sha evidence indexes ss
            (keep_candidates s (case map_of evidence (ss_query_shape_id s) of Some r \<Rightarrow> r | None \<Rightarrow> []) existing generated defs))
      | _ \<Rightarrow> definitions_loop sha evidence indexes ss defs)"

definition candidate_definitions ::
  "digest \<Rightarrow> diagnosis_finding list \<Rightarrow> snapshot_shape list \<Rightarrow> (string \<times> (string \<times> int) list list) list \<Rightarrow>
     exn + candidate_definition list" where
  "candidate_definitions sha findings shapes indexes =
     definitions_loop sha (load_evidence findings shapes) indexes
       (sort_key ss_query_shape_id (referenced_shapes findings shapes)) []"

subsection \<open>Lemmas\<close>

lemma first_seen_cong: "set seen = set seen' \<Longrightarrow> first_seen seen ks = first_seen seen' ks"
proof (induction ks arbitrary: seen seen')
  case (Cons k ks)
  obtain f d where "k = (f, d)" by fastforce
  then show ?case using Cons.prems Cons.IH [of seen seen'] Cons.IH [of "f # seen" "f # seen'"] by simp
qed simp

lemma first_seen_append: "first_seen seen (xs @ ys) = first_seen seen xs @ first_seen (map fst xs @ seen) ys"
proof (induction xs arbitrary: seen)
  case (Cons k xs)
  obtain f d where k: "k = (f, d)" by fastforce
  have "first_seen (map fst xs @ f # seen) ys = first_seen (f # map fst xs @ seen) ys"
    by (rule first_seen_cong) auto
  moreover have "f \<in> set seen \<Longrightarrow> first_seen (map fst xs @ seen) ys = first_seen (f # map fst xs @ seen) ys"
    by (rule first_seen_cong) auto
  ultimately show ?case using Cons.IH [of seen] Cons.IH [of "f # seen"] k by simp
qed simp

lemma first_seen_units:
  "distinct fs \<Longrightarrow> first_seen seen (map (\<lambda>f. (f, 1)) fs) = map (\<lambda>f. (f, 1)) (filter (\<lambda>f. f \<notin> set seen) fs)"
proof (induction fs arbitrary: seen)
  case (Cons f fs)
  have "filter (\<lambda>g. g \<notin> set (f # seen)) fs = filter (\<lambda>g. g \<notin> set seen) fs"
    using Cons.prems by (intro filter_cong) auto
  then show ?case using Cons by simp
qed simp

lemma first_seen_keys: "set (first_seen seen ks) \<subseteq> set ks" "fst ` set (first_seen seen ks) = fst ` set ks - set seen"
proof (induction ks arbitrary: seen)
  case (Cons k ks)
  obtain f d where k: "k = (f, d)" by fastforce
  { case 1 then show ?case using Cons(1) [of seen] Cons(1) [of "f # seen"] k by auto }
  { case 2 then show ?case using Cons(2) [of seen] Cons(2) [of "f # seen"] k by auto }
qed simp_all

lemma first_seen_distinct: "distinct (map fst (first_seen seen ks))"
proof (induction ks arbitrary: seen)
  case (Cons k ks)
  obtain f d where k: "k = (f, d)" by fastforce
  have "f \<notin> fst ` set (first_seen (f # seen) ks)" using first_seen_keys(2) [of "f # seen" ks] by simp
  then show ?case using Cons k by simp
qed simp

definition sort_part :: "find_query_shape \<Rightarrow> (string \<times> int) list" where
  "sort_part shape = first_seen (fs_equality_fields shape) (sort (fs_sort_fields shape))"

definition range_part :: "find_query_shape \<Rightarrow> (string \<times> int) list" where
  "range_part shape = map (\<lambda>f. (f, 1)) (filter (\<lambda>f. f \<notin> set (fs_equality_fields shape) \<union> fst ` set (fs_sort_fields shape))
     (sorted_set (fs_range_fields shape)))"

lemma index_keys_parts:
  "index_keys shape = map (\<lambda>f. (f, 1)) (sorted_set (fs_equality_fields shape)) @ sort_part shape @ range_part shape"
proof -
  let ?e = "map (\<lambda>f. (f, 1::int)) (sorted_set (fs_equality_fields shape))"
  have e: "first_seen [] ?e = ?e" by (simp add: first_seen_units)
  have s: "first_seen (map fst ?e @ []) (sort (fs_sort_fields shape)) = sort_part shape"
    unfolding sort_part_def by (rule first_seen_cong) simp
  have r: "first_seen (map fst (?e @ sort (fs_sort_fields shape)) @ []) (map (\<lambda>f. (f, 1)) (sorted_set (fs_range_fields shape))) = range_part shape"
    by (simp add: first_seen_units range_part_def)
  show ?thesis
    unfolding index_keys_def key_groups_def
    by (simp only: append_assoc [symmetric] first_seen_append [of _ "_ @ _"] first_seen_append [of "[]" ?e] e s r)
qed

lemma generated_keys: "action_keys (generated_action fp shape keys) = keys"
  by (simp add: action_keys_def generated_action_def comp_def case_prod_beta)

lemma generate_Inr:
  assumes "generate sha shape = Inr cs" and "c \<in> set cs"
  shows "cs = [c] \<and> create_index_fields_ok (ic_action c) \<and> unrestricted (ic_action c) \<and>
     action_keys (ic_action c) = index_keys shape \<and> index_keys shape \<noteq> [] \<and> length (index_keys shape) \<le> 5 \<and>
     ca_database (ic_action c) = fs_database shape \<and> ca_collection (ic_action c) = fs_collection shape"
  using assms
  by (auto simp: generate_def Let_def sbind_Inr_iff checked_Inr_iff generated_keys split: if_splits)
    (simp_all add: generated_action_def)

subsection \<open>Properties\<close>

text \<open>
  C34. Every generated candidate is a plain index of one to five distinct fields on the shape's own
  collection: first all equality fields in ascending order, then the sort fields that are not among
  them, with a direction the query asks for, then the remaining range fields ascending; no field of
  the shape is missing and none is added.
\<close>

theorem generated_index_is_equality_sort_range:
  assumes "generate sha shape = Inr cs" and "c \<in> set cs"
  shows "create_index_fields_ok (ic_action c) \<and> unrestricted (ic_action c) \<and> length cs = 1 \<and>
     ca_collection (ic_action c) = fs_collection shape \<and>
     distinct (map fst (action_keys (ic_action c))) \<and> length (action_keys (ic_action c)) \<in> {1..5} \<and>
     (\<exists>mid suf. action_keys (ic_action c) = map (\<lambda>f. (f, 1)) (sorted_set (fs_equality_fields shape)) @ mid @ suf \<and>
        set mid \<subseteq> set (fs_sort_fields shape) \<and> fst ` set mid = fst ` set (fs_sort_fields shape) - set (fs_equality_fields shape) \<and>
        fst ` set suf = set (fs_range_fields shape) - set (fs_equality_fields shape) - fst ` set (fs_sort_fields shape) \<and>
        (\<forall>(f, d)\<in>set suf. d = 1))"
proof -
  note g = generate_Inr [OF assms]
  have mid: "set (sort_part shape) \<subseteq> set (fs_sort_fields shape)"
    "fst ` set (sort_part shape) = fst ` set (fs_sort_fields shape) - set (fs_equality_fields shape)"
    using first_seen_keys [of "fs_equality_fields shape" "sort (fs_sort_fields shape)"] by (simp_all add: sort_part_def)
  have suf: "fst ` set (range_part shape) = set (fs_range_fields shape) - set (fs_equality_fields shape) - fst ` set (fs_sort_fields shape)"
    "\<forall>(f, d)\<in>set (range_part shape). d = 1"
    by (auto simp: range_part_def image_iff)
  have "distinct (map fst (index_keys shape))" unfolding index_keys_def by (rule first_seen_distinct)
  moreover have "length (index_keys shape) \<in> {1..5}" using g by (cases "index_keys shape") auto
  ultimately show ?thesis
    using g mid suf index_keys_parts [of shape]
    by (intro conjI exI [of _ "sort_part shape"] exI [of _ "range_part shape"]) simp_all
qed

text \<open>
  The order of the sort specification does not reach the candidate: because the generator sorts
  the sort keys by name, a query that sorts by the reverse sequence of keys gets the very same
  index, with the same fingerprint, although an index serves a sort only in its key order.
\<close>

theorem sort_order_is_ignored:
  "generate sha (shape\<lparr>fs_sort_fields := rev (fs_sort_fields shape)\<rparr>) = generate sha shape"
proof -
  have "sort (rev (fs_sort_fields shape)) = sort (fs_sort_fields shape)"
    by (rule properties_for_sort) (simp_all add: mset_rev)
  then have "index_keys (shape\<lparr>fs_sort_fields := rev (fs_sort_fields shape)\<rparr>) = index_keys shape"
    by (simp add: index_keys_def key_groups_def)
  then show ?thesis by (simp add: generate_def candidate_fingerprint_def generated_action_def Let_def)
qed

definition demo_shape :: find_query_shape where
  "demo_shape = \<lparr>fs_query_shape_hash = ''q'', fs_database = ''shop'', fs_collection = ''orders'',
     fs_equality_fields = [''status'', ''area''], fs_sort_fields = [(''ts'', -1)], fs_range_fields = [''price'', ''ts'']\<rparr>"

lemma demo_keys: "index_keys demo_shape = [(''area'', 1), (''status'', 1), (''ts'', -1), (''price'', 1)]"
  by (simp add: index_keys_def key_groups_def demo_shape_def sorted_set_def)

theorem generated_index_is_equality_sort_range_witness:
  "\<exists>c. generate id demo_shape = Inr [c] \<and> unrestricted (ic_action c) \<and>
     action_keys (ic_action c) = [(''area'', 1), (''status'', 1), (''ts'', -1), (''price'', 1)]"
proof -
  let ?fp = "candidate_fingerprint id demo_shape ''EQUALITY_SORT_RANGE'' (index_keys demo_shape)"
  let ?a = "generated_action ?fp demo_shape (index_keys demo_shape)"
  have "create_index_fields_ok ?a" "unrestricted ?a"
    unfolding demo_keys
    by (simp_all add: create_index_fields_ok_def unrestricted_iff generated_action_def within_def index_field_ok_def demo_shape_def)
  then have g: "generate id demo_shape = Inr [\<lparr>ic_candidate_fingerprint = ?fp, ic_pattern = ''EQUALITY_SORT_RANGE'', ic_action = ?a\<rparr>]"
    using checked_Inr_iff [of ?a ?a] by (simp add: generate_def Let_def demo_keys)
  from generated_index_is_equality_sort_range [OF g list.set_intros(1)] g show ?thesis
    by (simp add: generated_keys demo_keys)
qed

subsection \<open>Definitions of a run\<close>

definition definition_ok ::
  "snapshot_shape list \<Rightarrow> (string \<times> (string \<times> int) list list) list \<Rightarrow> candidate_definition \<Rightarrow> bool" where
  "definition_ok shapes indexes d \<longleftrightarrow>
     create_index_fields_ok (cd_action d) \<and> unrestricted (cd_action d) \<and> sorted (cd_evidence_refs d) \<and>
     (\<exists>s\<in>set shapes. \<exists>db existing. cd_query_shape_id d = ss_query_shape_id s \<and>
        partition_dot (ss_real_namespace s) = Some (db, ca_collection (cd_action d)) \<and>
        map_of indexes (ss_real_namespace s) = Some existing \<and> action_keys (cd_action d) \<notin> set existing)"

lemma keep_candidates_ok:
  assumes "\<forall>d\<in>set defs. definition_ok shapes indexes d" and "distinct (map cd_fingerprint defs)"
    and "s \<in> set shapes" and "partition_dot (ss_real_namespace s) = Some (db, co)"
    and "map_of indexes (ss_real_namespace s) = Some existing"
    and "\<And>c. c \<in> set cs \<Longrightarrow> create_index_fields_ok (ic_action c) \<and> unrestricted (ic_action c) \<and> ca_collection (ic_action c) = co"
  shows "(\<forall>d\<in>set (keep_candidates s refs existing cs defs). definition_ok shapes indexes d) \<and>
     distinct (map cd_fingerprint (keep_candidates s refs existing cs defs))"
  using assms
proof (induction cs arbitrary: defs)
  case (Cons c cs)
  show ?case
  proof (cases "action_keys (ic_action c) \<in> set existing \<or> ic_candidate_fingerprint c \<in> set (map cd_fingerprint defs)")
    case True
    then show ?thesis using Cons.IH [OF Cons.prems(1-5)] Cons.prems(6) by simp
  next
    case False
    let ?d = "\<lparr>cd_query_shape_id = ss_query_shape_id s, cd_fingerprint = ic_candidate_fingerprint c,
        cd_action = ic_action c, cd_evidence_refs = sorted_set refs\<rparr>"
    have "create_index_fields_ok (ic_action c)" "unrestricted (ic_action c)" "ca_collection (ic_action c) = co"
      using Cons.prems(6) [of c] by simp_all
    then have "definition_ok shapes indexes ?d"
      unfolding definition_ok_def using Cons.prems(3-5) False by auto
    then have "(\<forall>d\<in>set (defs @ [?d]). definition_ok shapes indexes d)" "distinct (map cd_fingerprint (defs @ [?d]))"
      using Cons.prems(1,2) False by auto
    note Cons.IH [OF this Cons.prems(3-5)]
    then show ?thesis using False Cons.prems(6) by simp
  qed
qed simp

lemma definitions_loop_ok:
  assumes "definitions_loop sha evidence indexes ss defs = Inr out" and "set ss \<subseteq> set shapes"
    and "\<forall>d\<in>set defs. definition_ok shapes indexes d" and "distinct (map cd_fingerprint defs)"
  shows "(\<forall>d\<in>set out. definition_ok shapes indexes d) \<and> distinct (map cd_fingerprint out)"
  using assms
proof (induction ss arbitrary: defs)
  case (Cons s ss)
  let ?sel = "(partition_dot (ss_real_namespace s), map_of indexes (ss_real_namespace s), find_fields (ss_normalized_shape s))"
  show ?case
  proof (cases "\<exists>db co existing eq so ra. ?sel = (Some (db, co), Some existing, Some (eq, so, ra))")
    case False
    then have "definitions_loop sha evidence indexes ss defs = Inr out"
      using Cons.prems(1) by (auto split: option.splits prod.splits)
    then show ?thesis using Cons by simp
  next
    case True
    then obtain db co existing eq so ra where sel: "partition_dot (ss_real_namespace s) = Some (db, co)"
      "map_of indexes (ss_real_namespace s) = Some existing" "find_fields (ss_normalized_shape s) = Some (eq, so, ra)"
      by auto
    let ?shape = "\<lparr>fs_query_shape_hash = ss_query_shape_hash s, fs_database = db, fs_collection = co,
            fs_equality_fields = eq, fs_sort_fields = so, fs_range_fields = ra\<rparr>"
    let ?refs = "case map_of evidence (ss_query_shape_id s) of Some r \<Rightarrow> r | None \<Rightarrow> []"
    obtain cs where cs: "generate sha ?shape = Inr cs"
      and rest: "definitions_loop sha evidence indexes ss (keep_candidates s ?refs existing cs defs) = Inr out"
      using Cons.prems(1) sel by (auto simp: sbind_Inr_iff)
    have gen: "create_index_fields_ok (ic_action c) \<and> unrestricted (ic_action c) \<and> ca_collection (ic_action c) = co"
      if "c \<in> set cs" for c
      using generate_Inr [OF cs that] by simp
    have "s \<in> set shapes" using Cons.prems(2) by simp
    note k = keep_candidates_ok [OF Cons.prems(3,4) this sel(1,2) gen]
    show ?thesis using Cons.IH [OF rest _ conjunct1 [OF k] conjunct2 [OF k]] Cons.prems(2) by simp
  qed
qed simp

text \<open>
  C35. The candidates of a run are safe and new: every one is an unrestricted plain index for a
  snapshot shape whose namespace is in the index metadata, its key list is not that of an index the
  collection already has, its evidence references are in canonical order, and no two candidates
  share a fingerprint.
\<close>

theorem run_candidates_are_new_and_plain:
  assumes "candidate_definitions sha findings shapes indexes = Inr defs"
  shows "distinct (map cd_fingerprint defs) \<and> (\<forall>d\<in>set defs. definition_ok shapes indexes d)"
  using definitions_loop_ok [OF assms [unfolded candidate_definitions_def], of shapes]
  by (auto simp: referenced_shapes_def)

definition demo_snapshot_shape :: snapshot_shape where
  "demo_snapshot_shape = \<lparr>ss_id = ''w1'', ss_query_shape_id = ''s1'', ss_query_shape_hash = ''q'', ss_operation = ''find'',
     ss_protected_execution_time_share = True,
     ss_normalized_shape = JObj [(''filter'', JObj [(''status'', JStr ''<literal>''), (''price'', JObj [(''$gt'', JStr ''<literal>'')])])],
     ss_real_namespace = ''shop.orders'', ss_allowlisted = True\<rparr>"

lemma demo_find_fields: "find_fields (ss_normalized_shape demo_snapshot_shape) = Some ([''status''], [], [''price''])"
  by (simp add: find_fields_def demo_snapshot_shape_def py_get_default_def plain_field_def range_operators_def
      sorted_set_def Let_def)

lemma demo_definitions:
  assumes "[(''status'', 1), (''price'', 1)] \<notin> set existing"
  shows "\<exists>d. candidate_definitions id [] [demo_snapshot_shape] [(''shop.orders'', existing)] = Inr [d] \<and>
    action_keys (cd_action d) = [(''status'', 1), (''price'', 1)]"
proof -
  let ?shape = "\<lparr>fs_query_shape_hash = ''q'', fs_database = ''shop'', fs_collection = ''orders'',
            fs_equality_fields = [''status''], fs_sort_fields = [], fs_range_fields = [''price'']\<rparr>"
  have keys: "index_keys ?shape = [(''status'', 1), (''price'', 1)]"
    by (simp add: index_keys_def key_groups_def sorted_set_def)
  let ?fp = "candidate_fingerprint id ?shape ''EQUALITY_SORT_RANGE'' (index_keys ?shape)"
  let ?a = "generated_action ?fp ?shape (index_keys ?shape)"
  have "create_index_fields_ok ?a" "unrestricted ?a"
    unfolding keys
    by (simp_all add: create_index_fields_ok_def unrestricted_iff generated_action_def within_def index_field_ok_def)
  then have g: "generate id ?shape = Inr [\<lparr>ic_candidate_fingerprint = ?fp, ic_pattern = ''EQUALITY_SORT_RANGE'', ic_action = ?a\<rparr>]"
    using checked_Inr_iff [of ?a ?a] by (simp add: generate_def Let_def keys)
  have sel: "ss_real_namespace demo_snapshot_shape = ''shop.orders''" "ss_query_shape_id demo_snapshot_shape = ''s1''"
    "ss_query_shape_hash demo_snapshot_shape = ''q''" "ss_operation demo_snapshot_shape = ''find''"
    "ss_protected_execution_time_share demo_snapshot_shape" "ss_id demo_snapshot_shape = ''w1''"
    by (simp_all add: demo_snapshot_shape_def)
  have ev: "load_evidence [] [demo_snapshot_shape] = [(''s1'', [''QS:w1''])]"
    by (simp add: load_evidence_def protected_refs_def add_refs_def sel)
  then have "referenced_shapes [] [demo_snapshot_shape] = [demo_snapshot_shape]"
    by (simp add: referenced_shapes_def sel)
  then show ?thesis
    using g ev assms by (simp add: candidate_definitions_def sel demo_find_fields generated_keys keys)
qed

theorem run_candidates_are_new_and_plain_witness:
  "\<exists>d. candidate_definitions id [] [demo_snapshot_shape] [(''shop.orders'', [[(''ts'', 1)]])] = Inr [d] \<and>
     action_keys (cd_action d) = [(''status'', 1), (''price'', 1)] \<and>
     definition_ok [demo_snapshot_shape] [(''shop.orders'', [[(''ts'', 1)]])] d"
proof -
  obtain d where d: "candidate_definitions id [] [demo_snapshot_shape] [(''shop.orders'', [[(''ts'', 1)]])] = Inr [d]"
      "action_keys (cd_action d) = [(''status'', 1), (''price'', 1)]"
    using demo_definitions [of "[[(''ts'', 1)]]"] by auto
  with run_candidates_are_new_and_plain [OF d(1)] show ?thesis by simp
qed

end
