(* ===== verification/Workload.thy ===== *)
theory Workload
  imports Prelude Complex_Main
begin

text \<open>
  \<open>backend/app/metrics/collector.py\<close>, \<open>backend/app/workloads/snapshots.py\<close> and
  \<open>backend/app/monitoring/workload_shift.py\<close>: metric windows, literal-free workload snapshots with the
  protected shapes, the total variation distance of two workload distributions, and the detector
  that asks for a new analysis once per sustained shift. Floating point numbers are reals; the
  percentile of NumPy is an argument.
\<close>

subsection \<open>Metric windows\<close>

record operation_measurement =
  om_duration_ms :: real
  om_operation_type :: string
  om_documents_examined :: int
  om_documents_returned :: int
  om_keys_examined :: int
  om_lock_wait_ms :: real
  om_error :: bool
  om_timed_out :: bool

record metric_snapshot =
  ms_p50_latency_ms :: "real option"
  ms_p95_latency_ms :: "real option"
  ms_p99_latency_ms :: "real option"
  ms_throughput_per_second :: real
  ms_read_throughput_per_second :: real
  ms_write_throughput_per_second :: real
  ms_cpu_time_us :: "real option"
  ms_memory_bytes :: "real option"
  ms_disk_bytes :: "real option"
  ms_disk_io_bytes :: "real option"
  ms_network_io_bytes :: "real option"
  ms_replication_lag_seconds :: "real option"
  ms_documents_examined :: int
  ms_documents_returned :: int
  ms_keys_examined :: int
  ms_lock_wait_ms :: real
  ms_error_count :: int
  ms_timeout_count :: int

definition latency_milliseconds :: "metric_snapshot \<Rightarrow> real option \<times> real option \<times> real option" where
  "latency_milliseconds m = (ms_p50_latency_ms m, ms_p95_latency_ms m, ms_p99_latency_ms m)"

definition replication_lag_milliseconds :: "metric_snapshot \<Rightarrow> real option" where
  "replication_lag_milliseconds m = map_option (\<lambda>x. x * 1000) (ms_replication_lag_seconds m)"

record server_counter_sample =
  sc_cpu_busy :: real
  sc_cpu_total :: real
  sc_memory_used_bytes :: real
  sc_memory_total_bytes :: real
  sc_disk_used_bytes :: real
  sc_disk_total_bytes :: real
  sc_disk_io_bytes :: real
  sc_network_bytes :: real

record counter_deltas =
  cd_cpu_utilization :: real
  cd_memory_utilization :: real
  cd_disk_utilization :: real
  cd_disk_io_bytes_per_op :: real
  cd_network_bytes_per_op :: real

definition utilization_ratio :: "real \<Rightarrow> real \<Rightarrow> real" where
  "utilization_ratio num den = (if 0 < den then min 1 (max 0 (num / den)) else 0)"

definition derive_counter_deltas :: "server_counter_sample \<Rightarrow> server_counter_sample \<Rightarrow> int \<Rightarrow> counter_deltas" where
  "derive_counter_deltas start stop successful_operations =
     (let operations = real_of_int (max successful_operations 1);
          cpu_total = max (sc_cpu_total stop - sc_cpu_total start) 0;
          cpu_busy = max (sc_cpu_busy stop - sc_cpu_busy start) 0
      in \<lparr>cd_cpu_utilization = (if cpu_total \<noteq> 0 then cpu_busy / cpu_total else 0),
          cd_memory_utilization = utilization_ratio (sc_memory_used_bytes stop) (sc_memory_total_bytes stop),
          cd_disk_utilization = utilization_ratio (sc_disk_used_bytes stop) (sc_disk_total_bytes stop),
          cd_disk_io_bytes_per_op = max (sc_disk_io_bytes stop - sc_disk_io_bytes start) 0 / operations,
          cd_network_bytes_per_op = max (sc_network_bytes stop - sc_network_bytes start) 0 / operations\<rparr>)"

text \<open>
  A snapshot of the collector: \<open>elapsed\<close> is the difference of the two clock readings, \<open>status\<close> reads a
  nested key of the server status and gives a number or nothing.
\<close>

definition collector_number :: "real option \<Rightarrow> real" where
  "collector_number v = (case v of Some x \<Rightarrow> x | None \<Rightarrow> 0)"

definition collector_percentile :: "(real list \<Rightarrow> real \<Rightarrow> real) \<Rightarrow> real list \<Rightarrow> real \<Rightarrow> real option" where
  "collector_percentile percentile values q = (if values = [] then None else Some (percentile values q))"

definition collector_snapshot ::
  "(real list \<Rightarrow> real \<Rightarrow> real) \<Rightarrow> real \<Rightarrow> operation_measurement list \<Rightarrow> (string list \<Rightarrow> real option) \<Rightarrow> real option \<Rightarrow> metric_snapshot" where
  "collector_snapshot percentile elapsed measurements status replication_lag =
     (let elapsed_seconds = max elapsed (1 / 1000);
          successful = filter (\<lambda>m. \<not> om_error m \<and> \<not> om_timed_out m) measurements;
          durations = map om_duration_ms successful;
          reads = length (filter (\<lambda>m. om_operation_type m = ''read'') successful);
          writes = length (filter (\<lambda>m. om_operation_type m = ''write'') successful)
      in \<lparr>ms_p50_latency_ms = collector_percentile percentile durations 50,
          ms_p95_latency_ms = collector_percentile percentile durations 95,
          ms_p99_latency_ms = collector_percentile percentile durations 99,
          ms_throughput_per_second = real (length successful) / elapsed_seconds,
          ms_read_throughput_per_second = real reads / elapsed_seconds,
          ms_write_throughput_per_second = real writes / elapsed_seconds,
          ms_cpu_time_us = Some (collector_number (status [''extra_info'', ''user_time_us'']) +
             collector_number (status [''extra_info'', ''system_time_us''])),
          ms_memory_bytes = Some (collector_number (status [''mem'', ''resident'']) * 1024 * 1024),
          ms_disk_bytes = Some (collector_number (status [''wiredTiger'', ''cache'', ''bytes currently in the cache''])),
          ms_disk_io_bytes = Some (collector_number (status [''wiredTiger'', ''log'', ''log bytes written''])),
          ms_network_io_bytes = Some (collector_number (status [''network'', ''bytesIn'']) +
             collector_number (status [''network'', ''bytesOut''])),
          ms_replication_lag_seconds = replication_lag,
          ms_documents_examined = sum_list (map om_documents_examined measurements),
          ms_documents_returned = sum_list (map om_documents_returned measurements),
          ms_keys_examined = sum_list (map om_keys_examined measurements),
          ms_lock_wait_ms = sum_list (map om_lock_wait_ms measurements),
          ms_error_count = int (length (filter om_error measurements)),
          ms_timeout_count = int (length (filter om_timed_out measurements))\<rparr>)"

subsection \<open>Snapshots\<close>

record share =
  sh_name :: string
  sh_fraction :: real

record query_shape_workload =
  qw_shape_hash :: string
  qw_operation_count :: int
  qw_execution_time_ms :: real
  qw_explicitly_affected :: bool
  qw_manually_critical :: bool

record workload_snapshot =
  ws_operation_mix :: "share list"
  ws_query_shape_shares :: "share list"
  ws_execution_time_shares :: "share list"
  ws_global_metrics :: metric_snapshot
  ws_critical_query_shapes :: "string list"
  ws_environment_fingerprint :: "(string \<times> string) list"

text \<open>\<open>EnvironmentFingerprint.from_mapping\<close> on values already turned to text.\<close>

definition environment_fingerprint :: "(string \<times> string) list \<Rightarrow> (string \<times> string) list" where
  "environment_fingerprint facts = sort facts"

definition share_fraction :: "real \<Rightarrow> real \<Rightarrow> real" where
  "share_fraction v whole = (if whole \<noteq> 0 then v / whole else 0)"

definition operation_types :: "operation_measurement list \<Rightarrow> string list" where
  "operation_types measurements = sorted_set (map om_operation_type measurements)"

text \<open>The counts of the operation types, in the order of their names.\<close>

definition operation_shares :: "operation_measurement list \<Rightarrow> share list" where
  "operation_shares measurements =
     (let counts = map (\<lambda>t. (t, length (filter (\<lambda>m. om_operation_type m = t) measurements))) (operation_types measurements);
          whole = sum_list (map snd counts)
      in map (\<lambda>(n, c). \<lparr>sh_name = n, sh_fraction = share_fraction (real c) (real whole)\<rparr>) counts)"

definition is_critical :: "query_shape_workload \<Rightarrow> int \<Rightarrow> real \<Rightarrow> bool" where
  "is_critical shape total_operations total_time \<longleftrightarrow>
     qw_explicitly_affected shape \<or> qw_manually_critical shape \<or>
     1 / 100 \<le> share_fraction (real_of_int (qw_operation_count shape)) (real_of_int total_operations) \<or>
     1 / 100 \<le> share_fraction (qw_execution_time_ms shape) total_time"

definition build_snapshot ::
  "operation_measurement list \<Rightarrow> query_shape_workload list \<Rightarrow> metric_snapshot \<Rightarrow> (string \<times> string) list \<Rightarrow> workload_snapshot" where
  "build_snapshot measurements shapes global_metrics environment =
     (let total_operations = sum_list (map qw_operation_count shapes);
          total_time = sum_list (map qw_execution_time_ms shapes)
      in \<lparr>ws_operation_mix = operation_shares measurements,
          ws_query_shape_shares = map (\<lambda>s. \<lparr>sh_name = qw_shape_hash s,
             sh_fraction = share_fraction (real_of_int (qw_operation_count s)) (real_of_int total_operations)\<rparr>) shapes,
          ws_execution_time_shares = map (\<lambda>s. \<lparr>sh_name = qw_shape_hash s,
             sh_fraction = share_fraction (qw_execution_time_ms s) total_time\<rparr>) shapes,
          ws_global_metrics = global_metrics,
          ws_critical_query_shapes = map qw_shape_hash (filter (\<lambda>s. is_critical s total_operations total_time) shapes),
          ws_environment_fingerprint = environment\<rparr>)"

subsection \<open>Distance and detector\<close>

definition TOTAL_VARIATION_THRESHOLD :: real where "TOTAL_VARIATION_THRESHOLD = 20 / 100"
definition CONSECUTIVE_WINDOWS_REQUIRED :: nat where "CONSECUTIVE_WINDOWS_REQUIRED = 3"

fun validated_shares :: "share list \<Rightarrow> (string \<times> real) list \<Rightarrow> exn + (string \<times> real) list" where
  "validated_shares [] values = Inr values"
| "validated_shares (s # ss) values =
     (if sh_name s = [] \<or> sh_name s \<in> set (map fst values) \<or> \<not> (0 \<le> sh_fraction s \<and> sh_fraction s \<le> 1)
      then Inl (ValueError ''workload distribution must contain unique probability shares'')
      else validated_shares ss (values @ [(sh_name s, sh_fraction s)]))"

definition validated_distribution :: "share list \<Rightarrow> exn + (string \<times> real) list" where
  "validated_distribution distribution =
     sbind (validated_shares distribution []) (\<lambda>values.
     if values \<noteq> [] \<and> 1 / 10 ^ 9 < \<bar>sum_list (map snd values) - 1\<bar>
     then Inl (ValueError ''workload distribution fractions must sum to one'') else Inr values)"

definition get0 :: "(string \<times> real) list \<Rightarrow> string \<Rightarrow> real" where
  "get0 values n = (case map_of values n of Some x \<Rightarrow> x | None \<Rightarrow> 0)"

definition distance_of :: "(string \<times> real) list \<Rightarrow> (string \<times> real) list \<Rightarrow> real" where
  "distance_of b v = 1 / 2 * (\<Sum>n\<in>set (map fst b @ map fst v). \<bar>get0 b n - get0 v n\<bar>)"

definition total_variation_distance :: "share list \<Rightarrow> share list \<Rightarrow> exn + real" where
  "total_variation_distance baseline observed =
     sbind (validated_distribution baseline) (\<lambda>b. sbind (validated_distribution observed) (\<lambda>v. Inr (distance_of b v)))"

record workload_shift_decision =
  wd_total_variation_distance :: real
  wd_consecutive_shift_windows :: nat
  wd_shift_detected :: bool
  wd_reanalysis_requested :: bool

text \<open>\<open>sd_world\<close> is what lies behind the scheduler, whose one operation is an argument.\<close>

record 'w shift_detector =
  sd_consecutive :: nat
  sd_open :: bool
  sd_world :: 'w

definition new_detector :: "'w \<Rightarrow> 'w shift_detector" where
  "new_detector w = \<lparr>sd_consecutive = 0, sd_open = False, sd_world = w\<rparr>"

definition shift_counted :: "real \<Rightarrow> 'w shift_detector \<Rightarrow> 'w shift_detector" where
  "shift_counted distance d =
     (if TOTAL_VARIATION_THRESHOLD \<le> distance + 1 / 10 ^ 12 then d\<lparr>sd_consecutive := Suc (sd_consecutive d)\<rparr>
      else d\<lparr>sd_consecutive := 0, sd_open := False\<rparr>)"

definition observe_shift ::
  "('w, unit) oper \<Rightarrow> share list \<Rightarrow> share list \<Rightarrow> ('w shift_detector, workload_shift_decision) oper" where
  "observe_shift request baseline observed =
     bnd (lift (total_variation_distance baseline observed)) (\<lambda>distance.
     bnd (update (shift_counted distance)) (\<lambda>_.
     bnd (asks (\<lambda>d. (sd_consecutive d, sd_open d))) (\<lambda>(consecutive, open_episode).
     let detected = CONSECUTIVE_WINDOWS_REQUIRED \<le> consecutive; requested = detected \<and> \<not> open_episode in
     bnd (if requested
          then bnd (focus sd_world (\<lambda>w d. d\<lparr>sd_world := w\<rparr>) request) (\<lambda>_. update (\<lambda>d. d\<lparr>sd_open := True\<rparr>))
          else ret ()) (\<lambda>_.
     ret \<lparr>wd_total_variation_distance = distance, wd_consecutive_shift_windows = consecutive,
          wd_shift_detected = detected, wd_reanalysis_requested = requested\<rparr>))))"

subsection \<open>Lemmas\<close>

definition shares_ok :: "(string \<times> real) list \<Rightarrow> bool" where
  "shares_ok vs \<longleftrightarrow> distinct (map fst vs) \<and> (\<forall>v\<in>set vs. 0 \<le> snd v \<and> snd v \<le> 1)"

lemma shares_ok_Nil: "shares_ok []" by (simp add: shares_ok_def)

lemma shares_ok_snoc:
  "shares_ok (vs @ [(n, x)]) \<longleftrightarrow> shares_ok vs \<and> n \<notin> set (map fst vs) \<and> 0 \<le> x \<and> x \<le> 1"
  by (simp add: shares_ok_def) blast

lemma validated_shares_spec:
  "validated_shares ss vals = Inr out \<Longrightarrow> shares_ok vals \<Longrightarrow>
     shares_ok out \<and> out = vals @ map (\<lambda>s. (sh_name s, sh_fraction s)) ss"
proof (induction ss arbitrary: vals)
  case (Cons s ss)
  have ok: "sh_name s \<notin> set (map fst vals)" "0 \<le> sh_fraction s" "sh_fraction s \<le> 1"
    and rest: "validated_shares ss (vals @ [(sh_name s, sh_fraction s)]) = Inr out"
    using Cons.prems(1) by (simp_all split: if_splits)
  have "shares_ok (vals @ [(sh_name s, sh_fraction s)])"
    unfolding shares_ok_snoc using ok Cons.prems(2) by blast
  note ih = Cons.IH [OF rest this]
  have "vals @ map (\<lambda>s. (sh_name s, sh_fraction s)) (s # ss) =
      (vals @ [(sh_name s, sh_fraction s)]) @ map (\<lambda>s. (sh_name s, sh_fraction s)) ss" by simp
  with ih show ?case by metis
qed simp

lemma if_split_eq_Inr: "(if P then Inl e else Inr a) = Inr b \<longleftrightarrow> \<not> P \<and> a = b"
  by simp

lemma validated_distribution_spec:
  assumes "validated_distribution ss = Inr out"
  shows "shares_ok out \<and> out = map (\<lambda>s. (sh_name s, sh_fraction s)) ss \<and>
     (out \<noteq> [] \<longrightarrow> \<bar>sum_list (map snd out) - 1\<bar> \<le> 1 / 10 ^ 9)"
proof -
  obtain vals where v: "validated_shares ss [] = Inr vals"
    and c: "(if vals \<noteq> [] \<and> 1 / 10 ^ 9 < \<bar>sum_list (map snd vals) - 1\<bar>
        then Inl (ValueError ''workload distribution fractions must sum to one'') else Inr vals) = Inr out"
    using assms by (auto simp only: validated_distribution_def sbind_Inr_iff)
  have "shares_ok vals \<and> vals = map (\<lambda>s. (sh_name s, sh_fraction s)) ss"
    using validated_shares_spec [OF v shares_ok_Nil] unfolding append_Nil .
  moreover have "\<not> (vals \<noteq> [] \<and> 1 / 10 ^ 9 < \<bar>sum_list (map snd vals) - 1\<bar>) \<and> vals = out"
    using c unfolding if_split_eq_Inr by blast
  ultimately show ?thesis unfolding not_less de_Morgan_conj by blast
qed

lemma get0_nonneg:
  assumes "shares_ok vs"
  shows "0 \<le> get0 vs n"
proof (cases "map_of vs n")
  case (Some x)
  then show ?thesis using assms map_of_SomeD [OF Some] unfolding get0_def shares_ok_def by fastforce
qed (simp add: get0_def)

lemma get0_outside: "n \<notin> set (map fst vs) \<Longrightarrow> get0 vs n = 0"
  by (simp add: get0_def map_of_eq_None_iff [symmetric])

lemma get0_sum:
  assumes "distinct (map fst vs)" and "finite A" and "set (map fst vs) \<subseteq> A"
  shows "(\<Sum>n\<in>A. get0 vs n) = sum_list (map snd vs)"
proof -
  have "(\<Sum>n\<in>A. get0 vs n) = (\<Sum>n\<in>set (map fst vs). get0 vs n)"
    using assms(2,3) by (intro sum.mono_neutral_right) (auto simp: get0_outside)
  also have "\<dots> = sum_list (map (get0 vs) (map fst vs))"
    using assms(1) by (rule sum_list_distinct_conv_sum_set [symmetric])
  also have "map (get0 vs) (map fst vs) = map snd vs"
    using assms(1) by (auto simp: get0_def)
  finally show ?thesis .
qed

text \<open>The sum may range over any larger set of names.\<close>

lemma distance_over:
  assumes "finite A" and "set (map fst b) \<subseteq> A" and "set (map fst v) \<subseteq> A"
  shows "distance_of b v = 1 / 2 * (\<Sum>n\<in>A. \<bar>get0 b n - get0 v n\<bar>)"
proof -
  have "(\<Sum>n\<in>A. \<bar>get0 b n - get0 v n\<bar>) = (\<Sum>n\<in>set (map fst b @ map fst v). \<bar>get0 b n - get0 v n\<bar>)"
    using assms by (intro sum.mono_neutral_right) (auto simp: get0_outside)
  then show ?thesis by (simp add: distance_of_def)
qed

lemma distance_commute: "distance_of b v = distance_of v b"
  unfolding distance_of_def by (simp add: abs_minus_commute Un_commute)

lemma distance_triangle: "distance_of a c \<le> distance_of a b + distance_of b c"
proof -
  let ?A = "set (map fst a) \<union> set (map fst b) \<union> set (map fst c)"
  have d: "distance_of a c = 1 / 2 * (\<Sum>n\<in>?A. \<bar>get0 a n - get0 c n\<bar>)"
    "distance_of a b = 1 / 2 * (\<Sum>n\<in>?A. \<bar>get0 a n - get0 b n\<bar>)"
    "distance_of b c = 1 / 2 * (\<Sum>n\<in>?A. \<bar>get0 b n - get0 c n\<bar>)"
    by (rule distance_over; auto)+
  have "(\<Sum>n\<in>?A. \<bar>get0 a n - get0 c n\<bar>) \<le> (\<Sum>n\<in>?A. \<bar>get0 a n - get0 b n\<bar> + \<bar>get0 b n - get0 c n\<bar>)"
    by (rule sum_mono) linarith
  then show ?thesis unfolding d by (simp add: sum.distrib)
qed

lemma distance_zero_iff: "distance_of b v = 0 \<longleftrightarrow> get0 b = get0 v"
proof
  assume "distance_of b v = 0"
  then have "(\<Sum>n\<in>set (map fst b @ map fst v). \<bar>get0 b n - get0 v n\<bar>) = 0" by (simp add: distance_of_def)
  then have "\<forall>n\<in>set (map fst b @ map fst v). get0 b n = get0 v n"
    by (subst (asm) sum_nonneg_eq_0_iff) auto
  then have "get0 b n = get0 v n" for n
    by (cases "n \<in> set (map fst b @ map fst v)") (auto simp: get0_outside)
  then show "get0 b = get0 v" by (rule ext)
qed (simp add: distance_of_def)

lemma distance_le:
  assumes "validated_distribution bs = Inr b" and "validated_distribution vs = Inr v"
  shows "0 \<le> distance_of b v \<and> distance_of b v \<le> 1 + 1 / 10 ^ 9"
proof -
  note B = validated_distribution_spec [OF assms(1)] and V = validated_distribution_spec [OF assms(2)]
  let ?A = "set (map fst b @ map fst v)"
  have s: "sum_list (map snd x) \<le> 1 + 1 / 10 ^ 9"
    if "x \<noteq> [] \<longrightarrow> \<bar>sum_list (map snd x) - 1\<bar> \<le> 1 / 10 ^ 9" for x :: "(string \<times> real) list"
  proof (cases "x = []")
    case False
    then have "\<bar>sum_list (map snd x) - 1\<bar> \<le> 1 / 10 ^ 9" using that by simp
    then show ?thesis by linarith
  qed simp
  have le: "\<bar>get0 b n - get0 v n\<bar> \<le> get0 b n + get0 v n" for n
  proof -
    have "0 \<le> get0 b n" "0 \<le> get0 v n" using B V get0_nonneg by blast+
    then show ?thesis by linarith
  qed
  have "(\<Sum>n\<in>?A. \<bar>get0 b n - get0 v n\<bar>) \<le> (\<Sum>n\<in>?A. get0 b n + get0 v n)"
    by (rule sum_mono) (rule le)
  also have "\<dots> = sum_list (map snd b) + sum_list (map snd v)"
    proof -
    have "distinct (map fst b)" "distinct (map fst v)" using B V unfolding shares_ok_def by blast+
    then have "(\<Sum>n\<in>?A. get0 b n) = sum_list (map snd b)" "(\<Sum>n\<in>?A. get0 v n) = sum_list (map snd v)"
      by (intro get0_sum; simp)+
    then show ?thesis by (simp only: sum.distrib)
  qed
  finally have "distance_of b v \<le> 1 / 2 * (sum_list (map snd b) + sum_list (map snd v))" by (simp add: distance_of_def)
  moreover have "sum_list (map snd b) \<le> 1 + 1 / 10 ^ 9" "sum_list (map snd v) \<le> 1 + 1 / 10 ^ 9"
    using s B V by blast+
  ultimately have "distance_of b v \<le> 1 + 1 / 10 ^ 9" by (simp add: field_simps)
  moreover have "0 \<le> distance_of b v" by (simp add: distance_of_def sum_nonneg)
  ultimately show ?thesis by blast
qed

lemma tvd_Inr:
  "total_variation_distance bs vs = Inr d \<longleftrightarrow>
     (\<exists>b v. validated_distribution bs = Inr b \<and> validated_distribution vs = Inr v \<and> d = distance_of b v)"
  by (auto simp: total_variation_distance_def sbind_Inr_iff)

text \<open>
  The workload distance is a metric on the distributions it accepts: it lies between zero and one
  up to the tolerance of the sum check, it is symmetric and satisfies the triangle inequality, and
  it is zero exactly when every workload shape has the same share on both sides.
\<close>

theorem workload_distance_is_metric:
  assumes "total_variation_distance as bs = Inr d" and "total_variation_distance bs cs = Inr e"
  shows "0 \<le> d \<and> d \<le> 1 + 1 / 10 ^ 9 \<and> total_variation_distance bs as = Inr d \<and>
     (\<exists>f. total_variation_distance as cs = Inr f \<and> f \<le> d + e) \<and>
     (d = 0 \<longleftrightarrow> (\<forall>n. get0 (map (\<lambda>s. (sh_name s, sh_fraction s)) as) n = get0 (map (\<lambda>s. (sh_name s, sh_fraction s)) bs) n))"
proof -
  obtain a b where ab: "validated_distribution as = Inr a" "validated_distribution bs = Inr b" "d = distance_of a b"
    using assms(1) by (auto simp: tvd_Inr)
  obtain c where c: "validated_distribution cs = Inr c" "e = distance_of b c"
    using assms(2) ab by (auto simp: tvd_Inr)
  have eq: "out = map (\<lambda>s. (sh_name s, sh_fraction s)) xs" if "validated_distribution xs = Inr out" for xs out
    using validated_distribution_spec [OF that] by blast
  have "total_variation_distance bs as = Inr d" using ab distance_commute by (auto simp: tvd_Inr)
  moreover have "total_variation_distance as cs = Inr (distance_of a c)" using ab c by (auto simp: tvd_Inr)
  moreover have "d = 0 \<longleftrightarrow> (\<forall>n. get0 a n = get0 b n)" using distance_zero_iff [of a b] ab(3) by (auto simp: fun_eq_iff)
  ultimately show ?thesis
    using distance_le [OF ab(1,2)] distance_triangle [of a c b] ab(3) c(2) eq [OF ab(1)] eq [OF ab(2)] by auto
qed

definition demo_mix :: "share list" where
  "demo_mix = [\<lparr>sh_name = ''a'', sh_fraction = 1 / 2\<rparr>, \<lparr>sh_name = ''b'', sh_fraction = 1 / 2\<rparr>]"

definition demo_mix2 :: "share list" where
  "demo_mix2 = [\<lparr>sh_name = ''a'', sh_fraction = 1\<rparr>]"

lemma demo_distances:
  "total_variation_distance demo_mix demo_mix2 = Inr (1 / 2)" "total_variation_distance demo_mix2 demo_mix2 = Inr 0"
  by (simp_all add: total_variation_distance_def validated_distribution_def demo_mix_def demo_mix2_def distance_of_def get0_def)

theorem workload_distance_is_metric_witness:
  "total_variation_distance demo_mix2 demo_mix = Inr (1 / 2) \<and> (1 / 2 :: real) \<le> 1 + 1 / 10 ^ 9"
  using workload_distance_is_metric [OF demo_distances] by simp

subsection \<open>Critical shapes\<close>

text \<open>
  A query shape that the snapshot leaves out of the critical list was neither reported as affected
  nor marked by hand, and accounts for less than one percent of the operations and of the time;
  so a shape with one percent of either is always protected, whatever its other figures.
\<close>

theorem uncritical_shape_is_negligible:
  assumes "s \<in> set shapes" and "qw_shape_hash s \<notin> set (ws_critical_query_shapes (build_snapshot ms shapes g env))"
    and "0 < sum_list (map qw_operation_count shapes)" and "0 < sum_list (map qw_execution_time_ms shapes)"
  shows "\<not> qw_explicitly_affected s \<and> \<not> qw_manually_critical s \<and>
     100 * qw_operation_count s < sum_list (map qw_operation_count shapes) \<and>
     100 * qw_execution_time_ms s < sum_list (map qw_execution_time_ms shapes)"
proof -
  let ?n = "sum_list (map qw_operation_count shapes)" and ?t = "sum_list (map qw_execution_time_ms shapes)"
  have "\<not> is_critical s ?n ?t" using assms(1,2) by (auto simp: build_snapshot_def Let_def)
  then have n: "\<not> qw_explicitly_affected s" "\<not> qw_manually_critical s"
      "real_of_int (qw_operation_count s) / real_of_int ?n < 1 / 100" "qw_execution_time_ms s / ?t < 1 / 100"
    using assms(3,4) by (simp_all add: is_critical_def share_fraction_def)
  have "real_of_int (100 * qw_operation_count s) < real_of_int ?n"
    using n(3) assms(3) by (simp add: field_simps)
  then have "100 * qw_operation_count s < ?n" by (simp only: of_int_less_iff)
  then show ?thesis using n assms(4) by (simp add: field_simps)
qed

definition demo_workload_shape :: "string \<Rightarrow> int \<Rightarrow> real \<Rightarrow> query_shape_workload" where
  "demo_workload_shape h n t = \<lparr>qw_shape_hash = h, qw_operation_count = n, qw_execution_time_ms = t,
     qw_explicitly_affected = False, qw_manually_critical = False\<rparr>"

lemma demo_snapshot_critical:
  "ws_critical_query_shapes (build_snapshot [] [demo_workload_shape ''hot'' 999 999, demo_workload_shape ''cold'' 1 1] g env) = [''hot'']"
  by (simp add: build_snapshot_def Let_def is_critical_def share_fraction_def demo_workload_shape_def)

theorem uncritical_shape_is_negligible_witness:
  "100 * qw_operation_count (demo_workload_shape ''cold'' 1 1) <
     sum_list (map qw_operation_count [demo_workload_shape ''hot'' 999 999, demo_workload_shape ''cold'' 1 1])"
proof -
  have in_set: "demo_workload_shape ''cold'' 1 1 \<in> set [demo_workload_shape ''hot'' 999 999, demo_workload_shape ''cold'' 1 1]" by simp
  have out: "qw_shape_hash (demo_workload_shape ''cold'' 1 1) \<notin>
      set (ws_critical_query_shapes (build_snapshot [] [demo_workload_shape ''hot'' 999 999, demo_workload_shape ''cold'' 1 1] undefined []))"
    unfolding demo_snapshot_critical by (simp add: demo_workload_shape_def)
  show ?thesis using uncritical_shape_is_negligible [OF in_set out] by (simp add: demo_workload_shape_def)
qed

subsection \<open>The detector over a sequence of windows\<close>

fun observe_windows ::
  "('w, unit) oper \<Rightarrow> share list \<Rightarrow> share list list \<Rightarrow> ('w shift_detector, workload_shift_decision list) oper" where
  "observe_windows request baseline [] = ret []"
| "observe_windows request baseline (obs # rest) =
     bnd (observe_shift request baseline obs) (\<lambda>x. bnd (observe_windows request baseline rest) (\<lambda>xs. ret (x # xs)))"

text \<open>Whether a window breaches the threshold, and how many breaching windows end a sequence.\<close>

definition breaching :: "workload_shift_decision \<Rightarrow> bool" where
  "breaching x \<longleftrightarrow> TOTAL_VARIATION_THRESHOLD \<le> wd_total_variation_distance x + 1 / 10 ^ 12"

fun streak :: "nat \<Rightarrow> bool list \<Rightarrow> nat" where
  "streak c [] = c"
| "streak c (b # bs) = streak (if b then Suc c else 0) bs"

definition episode_ok :: "'w shift_detector \<Rightarrow> bool" where
  "episode_ok d \<longleftrightarrow> (sd_open d \<longleftrightarrow> CONSECUTIVE_WINDOWS_REQUIRED \<le> sd_consecutive d)"

lemma observe_shift_step:
  assumes "observe_shift (\<lambda>w. (Inr (), g w)) b obs d = (Inr x, d')" and "episode_ok d"
  shows "episode_ok d' \<and> sd_consecutive d' = streak (sd_consecutive d) [breaching x] \<and>
     wd_consecutive_shift_windows x = sd_consecutive d' \<and>
     (wd_shift_detected x \<longleftrightarrow> CONSECUTIVE_WINDOWS_REQUIRED \<le> sd_consecutive d') \<and>
     (wd_reanalysis_requested x \<longleftrightarrow> sd_consecutive d' = CONSECUTIVE_WINDOWS_REQUIRED) \<and>
     sd_world d' = (if wd_reanalysis_requested x then g (sd_world d) else sd_world d)"
  using assms
  by (cases "total_variation_distance b obs")
     (auto simp: observe_shift_def oper_simps shift_counted_def episode_ok_def breaching_def Let_def focus_def
        CONSECUTIVE_WINDOWS_REQUIRED_def split: if_splits)

lemma observe_windows_run:
  assumes "observe_windows (\<lambda>w. (Inr (), g w)) b os d = (Inr xs, d')" and "episode_ok d"
  shows "length xs = length os \<and>
     (\<forall>i<length xs. (wd_reanalysis_requested (xs ! i) \<longleftrightarrow>
        streak (sd_consecutive d) (map breaching (take (Suc i) xs)) = CONSECUTIVE_WINDOWS_REQUIRED)) \<and>
     sd_world d' = (g ^^ length (filter wd_reanalysis_requested xs)) (sd_world d)"
  using assms
proof (induction os arbitrary: d xs)
  case (Cons obs rest)
  obtain x d1 ys where x: "observe_shift (\<lambda>w. (Inr (), g w)) b obs d = (Inr x, d1)"
    and ys: "observe_windows (\<lambda>w. (Inr (), g w)) b rest d1 = (Inr ys, d')" and xs: "xs = x # ys"
    using Cons.prems(1) unfolding observe_windows.simps bnd_Inr_iff by auto
  note st = observe_shift_step [OF x Cons.prems(2)]
  note ih = Cons.IH [OF ys conjunct1 [OF st]]
  have "wd_reanalysis_requested (xs ! i) \<longleftrightarrow>
      streak (sd_consecutive d) (map breaching (take (Suc i) xs)) = CONSECUTIVE_WINDOWS_REQUIRED" if "i < length xs" for i
    using that st ih by (cases i) (auto simp: xs)
  then show ?case using st ih by (simp add: xs funpow_swap1)
qed (auto simp: oper_simps)

text \<open>
  C36. Over any sequence of observed windows the detector asks for a new analysis at exactly the windows
  where the run of windows past the threshold reaches three: never before the third one in a row,
  once per episode however long it lasts, and again only after a window below the threshold. The
  scheduler is called that many times and no more.
\<close>

theorem reanalysis_once_per_episode:
  assumes "observe_windows (\<lambda>w. (Inr (), g w)) baseline os (new_detector w) = (Inr xs, d')"
  shows "length xs = length os \<and>
     (\<forall>i<length xs. (wd_reanalysis_requested (xs ! i) \<longleftrightarrow> streak 0 (map breaching (take (Suc i) xs)) = 3)) \<and>
     sd_world d' = (g ^^ length (filter wd_reanalysis_requested xs)) w"
proof -
  have "episode_ok (new_detector w)" by (simp add: episode_ok_def new_detector_def CONSECUTIVE_WINDOWS_REQUIRED_def)
  then show ?thesis
    using observe_windows_run [OF assms] by (simp add: new_detector_def CONSECUTIVE_WINDOWS_REQUIRED_def)
qed

definition demo_windows :: "share list list" where
  "demo_windows = [demo_mix, demo_mix, demo_mix, demo_mix, demo_mix2]"

lemma demo_windows_run:
  "fst (observe_windows (\<lambda>w. (Inr (), Suc w)) demo_mix2 demo_windows (new_detector 0)) =
     Inr [\<lparr>wd_total_variation_distance = 1 / 2, wd_consecutive_shift_windows = 1, wd_shift_detected = False, wd_reanalysis_requested = False\<rparr>,
          \<lparr>wd_total_variation_distance = 1 / 2, wd_consecutive_shift_windows = 2, wd_shift_detected = False, wd_reanalysis_requested = False\<rparr>,
          \<lparr>wd_total_variation_distance = 1 / 2, wd_consecutive_shift_windows = 3, wd_shift_detected = True, wd_reanalysis_requested = True\<rparr>,
          \<lparr>wd_total_variation_distance = 1 / 2, wd_consecutive_shift_windows = 4, wd_shift_detected = True, wd_reanalysis_requested = False\<rparr>,
          \<lparr>wd_total_variation_distance = 0, wd_consecutive_shift_windows = 0, wd_shift_detected = False, wd_reanalysis_requested = False\<rparr>]"
proof -
  have d: "total_variation_distance demo_mix2 demo_mix = Inr (1 / 2)"
    using demo_distances(1) by (auto simp: tvd_Inr distance_commute)
  show ?thesis
    by (simp add: demo_windows_def observe_shift_def oper_simps d demo_distances(2) shift_counted_def new_detector_def
        TOTAL_VARIATION_THRESHOLD_def CONSECUTIVE_WINDOWS_REQUIRED_def focus_def Let_def)
qed

theorem reanalysis_once_per_episode_witness:
  "sd_world (snd (observe_windows (\<lambda>w. (Inr (), Suc w)) demo_mix2 demo_windows (new_detector (0::nat)))) = 1"
proof -
  obtain xs d' where r: "observe_windows (\<lambda>w. (Inr (), Suc w)) demo_mix2 demo_windows (new_detector (0::nat)) = (Inr xs, d')"
    using demo_windows_run by (metis prod.collapse)
  then have "length (filter wd_reanalysis_requested xs) = 1" using demo_windows_run by auto
  then show ?thesis using reanalysis_once_per_episode [OF r] r by simp
qed

end
