(* ===== verification/Monitoring.thy ===== *)
theory Monitoring
  imports Executor Workload
begin

text \<open>
  \<open>backend/app/monitoring/post_deployment.py\<close>: the monitor that decides from measured windows whether a
  deployed index stays, and that can do nothing but ask the rollback coordinator to remove it. The
  coordinator is an interface with the two laws the monitor needs, discharged at the end for the
  rollbacker of \<open>rollback/owned_index.py\<close>. Latencies are reals; the ratio to a zero
  baseline is infinite, as in the code.
\<close>

subsection \<open>Policy, windows and results\<close>

record monitoring_policy =
  mp_baseline_seconds :: int
  mp_monitoring_seconds :: int
  mp_window_seconds :: int
  mp_sustained_regression_windows :: int
  mp_protected_p99_regression_ratio :: real
  mp_catastrophic_p99_ratio :: real
  mp_workload_tvd_threshold :: real

definition DEFAULT_MONITORING_POLICY :: monitoring_policy where
  "DEFAULT_MONITORING_POLICY = \<lparr>mp_baseline_seconds = 10 * 60, mp_monitoring_seconds = 15 * 60, mp_window_seconds = 60,
     mp_sustained_regression_windows = 3, mp_protected_p99_regression_ratio = 120 / 100,
     mp_catastrophic_p99_ratio = 3, mp_workload_tvd_threshold = 20 / 100\<rparr>"

record monitoring_window =
  mw_metrics :: metric_snapshot
  mw_workload_distribution :: "share list"
  mw_replica_healthy :: bool

datatype monitoring_status = STABLE | WORKLOAD_SHIFT_DETECTED | MON_ROLLED_BACK | MON_ROLLBACK_BLOCKED

record monitoring_decision =
  md_catastrophic_p99 :: bool
  md_new_errors :: bool
  md_new_timeouts :: bool
  md_replica_unhealthy :: bool
  md_sustained_protected_regression :: bool
  md_workload_comparable :: bool
  md_workload_shift_detected :: bool

definition rollback_required :: "monitoring_decision \<Rightarrow> bool" where
  "rollback_required d \<longleftrightarrow> md_catastrophic_p99 d \<or> md_new_errors d \<or> md_new_timeouts d \<or> md_replica_unhealthy d \<or>
     (md_sustained_protected_regression d \<and> md_workload_comparable d)"

record monitoring_result =
  mr_status :: monitoring_status
  mr_baseline :: "monitoring_window list"
  mr_observed :: "monitoring_window list"
  mr_decision :: monitoring_decision
  mr_rollback_result :: "rollback_result option"

text \<open>The constructor's two checks; the monitor is its policy together with the operations it was given.\<close>

definition check_policy :: "monitoring_policy \<Rightarrow> exn + monitoring_policy" where
  "check_policy p =
     (if mp_baseline_seconds p < mp_window_seconds p \<or> mp_monitoring_seconds p < mp_window_seconds p
      then Inl (ValueError ''monitoring baseline and duration must contain at least one full window'')
      else if mp_sustained_regression_windows p < 1
      then Inl (ValueError ''sustained regression requires at least one window'')
      else Inr p)"

subsection \<open>The decision\<close>

definition average :: "real option list \<Rightarrow> real" where
  "average values = (let numbers = map the (filter (\<lambda>v. v \<noteq> None) values) in
     if numbers = [] then 0 else sum_list numbers / real (length numbers))"

datatype ratio_value = Infinite | Finite real

definition at_least :: "ratio_value \<Rightarrow> real \<Rightarrow> bool" where
  "at_least r bound = (case r of Infinite \<Rightarrow> True | Finite x \<Rightarrow> bound \<le> x)"

definition ratio :: "real option \<Rightarrow> real \<Rightarrow> ratio_value" where
  "ratio value baseline = (case value of None \<Rightarrow> Finite 0
     | Some v \<Rightarrow> if baseline \<le> 0 \<and> 0 < v then Infinite else if 0 < baseline then Finite (v / baseline) else Finite 0)"

definition max_of :: "int list \<Rightarrow> exn + int" where
  "max_of xs = (if xs = [] then Inl (ValueError ''max() iterable argument is empty'') else Inr (Max (set xs)))"

text \<open>\<open>xs[-n:]\<close>\<close>

definition last_n :: "int \<Rightarrow> 'a list \<Rightarrow> 'a list" where
  "last_n n xs = drop (length xs - nat n) xs"

definition validate_window_counts ::
  "monitoring_policy \<Rightarrow> monitoring_window list \<Rightarrow> monitoring_window list \<Rightarrow> exn + unit" where
  "validate_window_counts p baseline observed =
     (if mp_window_seconds p = 0 then Inl ZeroDivisionError
      else if int (length baseline) < mp_baseline_seconds p div mp_window_seconds p
      then Inl (ValueError ''insufficient predeployment baseline windows'')
      else if observed = [] \<or> mp_monitoring_seconds p div mp_window_seconds p < int (length observed)
      then Inl (ValueError ''observed monitoring windows are outside the configured monitoring period'')
      else Inr ())"

definition p99_of :: "monitoring_window \<Rightarrow> real option" where
  "p99_of w = ms_p99_latency_ms (mw_metrics w)"

definition decide ::
  "monitoring_policy \<Rightarrow> monitoring_window list \<Rightarrow> monitoring_window list \<Rightarrow> exn + monitoring_decision" where
  "decide p baseline observed =
     (let baseline_p99 = average (map p99_of baseline) in
      sbind (max_of (map (\<lambda>w. ms_error_count (mw_metrics w)) baseline)) (\<lambda>baseline_errors.
      sbind (max_of (map (\<lambda>w. ms_timeout_count (mw_metrics w)) baseline)) (\<lambda>baseline_timeouts.
      sbind (total_variation_distance (mw_workload_distribution (last baseline)) (mw_workload_distribution (last observed)))
        (\<lambda>distance.
      let comparable = distance < mp_workload_tvd_threshold p;
          regression_windows = length (filter (\<lambda>w. at_least (ratio (p99_of w) baseline_p99) (mp_protected_p99_regression_ratio p))
             (last_n (mp_sustained_regression_windows p) observed))
      in Inr \<lparr>md_catastrophic_p99 =
             list_ex (\<lambda>w. at_least (ratio (p99_of w) baseline_p99) (mp_catastrophic_p99_ratio p)) observed,
           md_new_errors = list_ex (\<lambda>w. baseline_errors < ms_error_count (mw_metrics w)) observed,
           md_new_timeouts = list_ex (\<lambda>w. baseline_timeouts < ms_timeout_count (mw_metrics w)) observed,
           md_replica_unhealthy = list_ex (\<lambda>w. \<not> mw_replica_healthy w) observed,
           md_sustained_protected_regression = (mp_sustained_regression_windows p \<le> int regression_windows),
           md_workload_comparable = comparable, md_workload_shift_detected = (\<not> comparable)\<rparr>))))"

subsection \<open>The monitor\<close>

text \<open>
  \<open>rollback\<close> is the coordinator, \<open>store\<close> the evidence store when there is one.
\<close>

definition persist ::
  "(monitoring_result \<Rightarrow> ('s, unit) oper) option \<Rightarrow> monitoring_result \<Rightarrow> ('s, monitoring_result) oper" where
  "persist store result = (case store of None \<Rightarrow> ret result | Some f \<Rightarrow> bnd (f result) (\<lambda>_. ret result))"

definition quiet_status :: "monitoring_decision \<Rightarrow> monitoring_status" where
  "quiet_status d = (if md_workload_shift_detected d then WORKLOAD_SHIFT_DETECTED else STABLE)"

definition rolled_status :: "rollback_result \<Rightarrow> monitoring_status" where
  "rolled_status r = (if rr_status r = RB_ROLLED_BACK then MON_ROLLED_BACK else MON_ROLLBACK_BLOCKED)"

definition monitor ::
  "(rollback_request \<Rightarrow> ('s, rollback_result) oper) \<Rightarrow> (monitoring_result \<Rightarrow> ('s, unit) oper) option \<Rightarrow> monitoring_policy \<Rightarrow>
     monitoring_window list \<Rightarrow> monitoring_window list \<Rightarrow> rollback_request option \<Rightarrow> ('s, monitoring_result) oper" where
  "monitor rollback store p baseline observed request =
     bnd (lift (validate_window_counts p baseline observed)) (\<lambda>_.
     bnd (lift (decide p baseline observed)) (\<lambda>d.
     if \<not> rollback_required d then persist store \<lparr>mr_status = quiet_status d, mr_baseline = baseline,
          mr_observed = observed, mr_decision = d, mr_rollback_result = None\<rparr>
     else case request of
       None \<Rightarrow> persist store \<lparr>mr_status = MON_ROLLBACK_BLOCKED, mr_baseline = baseline,
          mr_observed = observed, mr_decision = d, mr_rollback_result = None\<rparr>
     | Some rq \<Rightarrow> bnd (rollback rq) (\<lambda>r. persist store \<lparr>mr_status = rolled_status r, mr_baseline = baseline,
          mr_observed = observed, mr_decision = d, mr_rollback_result = Some r\<rparr>)))"

subsection \<open>What the monitor needs of the coordinator\<close>

locale rollback_boundary =
  fixes rb :: "rollback_request \<Rightarrow> ('s, rollback_result) oper"
    and tgt :: "'s \<Rightarrow> 't"
    and ok :: "'s \<Rightarrow> bool"
    and undone :: "rollback_request \<Rightarrow> 's \<Rightarrow> 's \<Rightarrow> bool"
  assumes keeps_ok: "ok s \<Longrightarrow> rb rq s = (r, s') \<Longrightarrow> ok s'"
    and only_undoes: "ok s \<Longrightarrow> rb rq s = (r, s') \<Longrightarrow> tgt s' \<noteq> tgt s \<Longrightarrow> undone rq s s'"
    and blocked_untouched: "ok s \<Longrightarrow> rb rq s = (Inr res, s') \<Longrightarrow> rr_status res = RB_ROLLBACK_BLOCKED \<Longrightarrow> tgt s' = tgt s"
    and rolled_undone: "ok s \<Longrightarrow> rb rq s = (Inr res, s') \<Longrightarrow> rr_status res = RB_ROLLED_BACK \<Longrightarrow> undone rq s s'"
begin

definition store_frame :: "(monitoring_result \<Rightarrow> ('s, unit) oper) option \<Rightarrow> bool" where
  "store_frame store \<longleftrightarrow> (\<forall>f m s. store = Some f \<longrightarrow> snd (f m s) = s)"

lemma persist_pure: "store_frame store \<Longrightarrow> snd (persist store m s) = s"
  by (cases store) (auto simp: store_frame_def persist_def bnd_apply split: prod.splits sum.splits, (metis snd_conv)+)

lemma persist_result: "fst (persist store m s) = Inr res \<Longrightarrow> res = m"
  by (cases store) (auto simp: persist_def bnd_apply split: prod.splits sum.splits)

lemma persist_run: "store_frame store \<Longrightarrow> persist store m s = (r, s') \<Longrightarrow> s' = s \<and> (\<forall>res. r = Inr res \<longrightarrow> res = m)"
  using persist_pure [of store m s] persist_result [of store m s] by simp

text \<open>
  The one run that can touch the target: the decision requires a rollback and a request was given;
  every other run leaves the state as it was.
\<close>

lemma monitor_cases:
  assumes "monitor rb store p baseline observed request s = (r, s')" and "store_frame store"
  shows "s' = s \<and> (\<forall>res. r = Inr res \<longrightarrow> mr_status res \<noteq> MON_ROLLED_BACK \<and>
        decide p baseline observed = Inr (mr_decision res) \<and>
        (rollback_required (mr_decision res) \<longleftrightarrow> mr_status res = MON_ROLLBACK_BLOCKED)) \<or>
    (\<exists>d rq r1. decide p baseline observed = Inr d \<and> rollback_required d \<and> request = Some rq \<and> rb rq s = (r1, s') \<and>
        (\<forall>res. r = Inr res \<longrightarrow> (\<exists>out. r1 = Inr out \<and> mr_status res = rolled_status out \<and> mr_decision res = d)))"
proof (cases "validate_window_counts p baseline observed")
  case (Inl e)
  then show ?thesis using assms(1) by (auto simp: monitor_def bnd_apply)
next
  case (Inr u)
  note valid = this
  show ?thesis
  proof (cases "decide p baseline observed")
    case (Inl e)
    then show ?thesis using assms(1) valid by (auto simp: monitor_def bnd_apply)
  next
    case (Inr d)
    let ?m = "\<lambda>st rr. \<lparr>mr_status = st, mr_baseline = baseline, mr_observed = observed, mr_decision = d, mr_rollback_result = rr\<rparr>"
    have run: "(r, s') = (if \<not> rollback_required d then persist store (?m (quiet_status d) None)
        else case request of None \<Rightarrow> persist store (?m MON_ROLLBACK_BLOCKED None)
          | Some rq \<Rightarrow> bnd (rb rq) (\<lambda>out. persist store (?m (rolled_status out) (Some out)))) s"
      using assms(1) valid Inr by (auto simp: monitor_def bnd_apply)
    have quiet: "quiet_status d \<noteq> MON_ROLLED_BACK" "quiet_status d \<noteq> MON_ROLLBACK_BLOCKED"
      by (simp_all add: quiet_status_def)
    show ?thesis
    proof (cases "rollback_required d")
      case False
      then have "persist store (?m (quiet_status d) None) s = (r, s')" using run by simp
      from persist_run [OF assms(2) this] show ?thesis using Inr False quiet by auto
    next
      case True
      show ?thesis
      proof (cases request)
        case None
        then have "persist store (?m MON_ROLLBACK_BLOCKED None) s = (r, s')" using run True by simp
        from persist_run [OF assms(2) this] show ?thesis using Inr True by auto
      next
        case (Some rq)
        obtain r1 s1 where 1: "rb rq s = (r1, s1)" by fastforce
        then have "(r, s') = (case r1 of Inl e \<Rightarrow> (Inl e, s1) | Inr out \<Rightarrow> persist store (?m (rolled_status out) (Some out)) s1)"
          using run True Some by (simp add: bnd_apply)
        then have "s' = s1 \<and> (\<forall>res. r = Inr res \<longrightarrow> (\<exists>out. r1 = Inr out \<and> res = ?m (rolled_status out) (Some out)))"
          using persist_run [OF assms(2), of _ s1 r s'] by (cases r1) auto
        then show ?thesis using Inr True Some 1 by auto
      qed
    qed
  qed
qed

lemma touches_only_when_required:
  assumes "monitor rb store p baseline observed request s = (r, s')" and "store_frame store" and "ok s" and "tgt s' \<noteq> tgt s"
  shows "\<exists>d rq. decide p baseline observed = Inr d \<and> rollback_required d \<and> request = Some rq \<and> undone rq s s'"
proof -
  from assms(4) have "s' \<noteq> s" by blast
  then obtain d rq r1 where h: "decide p baseline observed = Inr d" "rollback_required d" "request = Some rq" "rb rq s = (r1, s')"
    using monitor_cases [OF assms(1,2)] by (elim disjE exE conjE) simp_all
  show ?thesis
    by (intro exI [of _ d] exI [of _ rq] conjI h(1-3) only_undoes [OF assms(3) h(4) assms(4)])
qed

lemma verdict_is_true:
  assumes "monitor rb store p baseline observed request s = (Inr res, s')" and "store_frame store" and "ok s"
  shows "(mr_status res = MON_ROLLED_BACK \<longrightarrow> (\<exists>rq. request = Some rq \<and> undone rq s s')) \<and>
    (mr_status res \<noteq> MON_ROLLED_BACK \<longrightarrow> tgt s' = tgt s) \<and>
    (rollback_required (mr_decision res) \<longleftrightarrow> mr_status res \<in> {MON_ROLLED_BACK, MON_ROLLBACK_BLOCKED})"
proof -
  from monitor_cases [OF assms(1,2)]
  show ?thesis
  proof
    assume "s' = s \<and> (\<forall>x. Inr res = Inr x \<longrightarrow> mr_status x \<noteq> MON_ROLLED_BACK \<and>
        decide p baseline observed = Inr (mr_decision x) \<and>
        (rollback_required (mr_decision x) \<longleftrightarrow> mr_status x = MON_ROLLBACK_BLOCKED))"
    then show ?thesis by auto
  next
    assume "\<exists>d rq r1. decide p baseline observed = Inr d \<and> rollback_required d \<and> request = Some rq \<and> rb rq s = (r1, s') \<and>
        (\<forall>x. Inr res = Inr x \<longrightarrow> (\<exists>out. r1 = Inr out \<and> mr_status x = rolled_status out \<and> mr_decision x = d))"
    then obtain d rq r1 where d: "rollback_required d" and rq: "request = Some rq" and run: "rb rq s = (r1, s')"
      and res: "\<forall>x. Inr res = Inr x \<longrightarrow> (\<exists>out. r1 = Inr out \<and> mr_status x = rolled_status out \<and> mr_decision x = d)"
      by (elim exE conjE) simp_all
    from res obtain out where "r1 = Inr out" "mr_status res = rolled_status out" "mr_decision res = d" by auto
    then have h: "request = Some rq" "rb rq s = (Inr out, s')" "mr_status res = rolled_status out"
      "rollback_required (mr_decision res)" using d rq run by simp_all
    show ?thesis
    proof (cases "rr_status out")
      case RB_ROLLED_BACK
      then show ?thesis using h(1,3,4) rolled_undone [OF assms(3) h(2)] by (simp add: rolled_status_def)
    next
      case RB_ROLLBACK_BLOCKED
      then show ?thesis using h(1,3,4) blocked_untouched [OF assms(3) h(2)] by (simp add: rolled_status_def)
    qed
  qed
qed

end

text \<open>The rollbacker of \<open>rollback/owned_index.py\<close> on any adapter that keeps its contract.\<close>

definition dropped_owned ::
  "digest \<Rightarrow> ('t \<Rightarrow> string list) \<Rightarrow> ('t \<Rightarrow> string \<Rightarrow> index_spec list) \<Rightarrow> ('t \<Rightarrow> string \<Rightarrow> string \<Rightarrow> string list option) \<Rightarrow>
     rollback_request \<Rightarrow> 't cell \<Rightarrow> 't cell \<Rightarrow> bool" where
  "dropped_owned sha cols idx hint rq s s' \<longleftrightarrow>
     (\<exists>entry c n ix. find (\<lambda>e. le_entry_id e = rq_applied_ledger_entry_id rq) (pc_ledger s) = Some entry \<and>
        py_get (le_forward_action entry) ''phase'' = JStr ''APPLIED'' \<and>
        py_get (le_forward_action entry) ''target_id'' = JStr (rq_target_id rq) \<and>
        py_get (le_forward_action entry) ''index_name'' = JStr n \<and>
        filter (\<lambda>i. ix_name i = n) (idx (pc_target s) c) = [ix] \<and>
        dropped cols idx hint c n (pc_target s) (pc_target s'))"

context database_adapter begin

lemma owned_dropped:
  assumes f: "find (\<lambda>e. le_entry_id e = rq_applied_ledger_entry_id rq) (pc_ledger s) = Some entry"
    and o: "owned sha rq entry (pc_target s) db c n ix" and d: "dropped cols idx hint c n (pc_target s) (pc_target s')"
  shows "dropped_owned sha cols idx hint rq s s'"
proof -
  have "py_get (le_forward_action entry) ''phase'' = JStr ''APPLIED''" "py_get (le_forward_action entry) ''target_id'' = JStr (rq_target_id rq)"
    "py_get (le_forward_action entry) ''index_name'' = JStr n" "filter (\<lambda>i. ix_name i = n) (idx (pc_target s) c) = [ix]"
    using o unfolding owned_def Let_def by - (elim conjE, assumption)+
  then show ?thesis unfolding dropped_owned_def
    by (intro exI [of _ entry] exI [of _ c] exI [of _ n] exI [of _ ix] conjI f d)
qed

lemma rollback_cases:
  assumes "inv (pc_target s)" and "rollback_index sha ad rq s = (r, s')"
  shows "inv (pc_target s') \<and>
    (pc_target s' = pc_target s \<and> (\<forall>res. r = Inr res \<longrightarrow> rr_status res = RB_ROLLBACK_BLOCKED) \<or>
     dropped_owned sha cols idx hint rq s s' \<and> (\<forall>res. r = Inr res \<longrightarrow> rr_status res = RB_ROLLED_BACK))"
  using rollback_spec [OF assms]
  apply (elim conjE disjE exE)
  subgoal by simp
  subgoal for entry db c n ix by (cases r) (simp_all add: owned_dropped)
  done

lemma owned_index_rollbacker:
  "rollback_boundary (rollback_index sha ad) pc_target (\<lambda>s. inv (pc_target s)) (dropped_owned sha cols idx hint)"
proof
  fix s s' :: "'t cell" and rq r res
  assume inv: "inv (pc_target s)"
  show "inv (pc_target s')" if run: "rollback_index sha ad rq s = (r, s')"
    using rollback_cases [OF inv run] by (rule conjunct1)
  show "dropped_owned sha cols idx hint rq s s'" if run: "rollback_index sha ad rq s = (r, s')" and t: "pc_target s' \<noteq> pc_target s"
    using rollback_cases [OF inv run] t by simp
  show "pc_target s' = pc_target s"
    if run: "rollback_index sha ad rq s = (Inr res, s')" and b: "rr_status res = RB_ROLLBACK_BLOCKED"
    using rollback_cases [OF inv run] b by simp
  show "dropped_owned sha cols idx hint rq s s'"
    if run: "rollback_index sha ad rq s = (Inr res, s')" and b: "rr_status res = RB_ROLLED_BACK"
    using rollback_cases [OF inv run] b by simp
qed

end

sublocale database_adapter \<subseteq> own: rollback_boundary "rollback_index sha ad" pc_target "\<lambda>s. inv (pc_target s)"
    "dropped_owned sha cols idx hint" for sha
  by (rule owned_index_rollbacker)

interpretation fake_own: rollback_boundary "rollback_index id fake_adapter" pc_target "\<lambda>s. fake_inv (pc_target s)"
    "dropped_owned id fake_cols fake_idx fake_hint"
  by (rule fakead.owned_index_rollbacker)

subsection \<open>The decision, as criteria on the windows\<close>

lemma count_all:
  "n \<le> length (filter P (last_n (int n) xs)) \<longleftrightarrow> n \<le> length xs \<and> (\<forall>x\<in>set (last_n (int n) xs). P x)"
proof -
  have le: "length (filter P (last_n (int n) xs)) \<le> length (last_n (int n) xs)" by (rule length_filter_le)
  have len: "length (last_n (int n) xs) = (if n \<le> length xs then n else length xs)" by (simp add: last_n_def)
  show ?thesis
  proof (cases "n \<le> length xs")
    case True
    then have "n \<le> length (filter P (last_n (int n) xs)) \<longleftrightarrow>
        length (filter P (last_n (int n) xs)) = length (last_n (int n) xs)" using le len by auto
    also have "\<dots> \<longleftrightarrow> (\<forall>x\<in>set (last_n (int n) xs). P x)"
      by (metis filter_True length_filter_less less_irrefl)
    finally show ?thesis using True by simp
  next
    case False
    then show ?thesis using le len by auto
  qed
qed

lemma max_of_less: "max_of xs = Inr m \<Longrightarrow> m < k \<longleftrightarrow> (\<forall>x\<in>set xs. x < k)"
  by (auto simp: max_of_def split: if_splits)

definition baseline_p99 :: "monitoring_window list \<Rightarrow> real" where
  "baseline_p99 baseline = average (map p99_of baseline)"

text \<open>
  C33. The decision to roll back is exactly this: some observed window reaches the catastrophic latency
  ratio, or has more errors or more timeouts than every baseline window, or an unhealthy replica;
  or there are at least as many windows as a sustained regression takes, every one of the last of
  them reaches the protected ratio, and the workload is still comparable to the baseline. So a
  regression under a shifted workload never triggers a rollback by itself, and a single good window
  among the last ones clears it.
\<close>

theorem rollback_decision_criteria:
  assumes "decide p baseline observed = Inr d" and "1 \<le> mp_sustained_regression_windows p"
  shows "rollback_required d \<longleftrightarrow>
    (\<exists>w\<in>set observed. at_least (ratio (p99_of w) (baseline_p99 baseline)) (mp_catastrophic_p99_ratio p) \<or>
       (\<forall>b\<in>set baseline. ms_error_count (mw_metrics b) < ms_error_count (mw_metrics w)) \<or>
       (\<forall>b\<in>set baseline. ms_timeout_count (mw_metrics b) < ms_timeout_count (mw_metrics w)) \<or> \<not> mw_replica_healthy w) \<or>
    (mp_sustained_regression_windows p \<le> int (length observed) \<and>
       (\<forall>w\<in>set (last_n (mp_sustained_regression_windows p) observed).
          at_least (ratio (p99_of w) (baseline_p99 baseline)) (mp_protected_p99_regression_ratio p)) \<and>
       (\<exists>x. total_variation_distance (mw_workload_distribution (last baseline)) (mw_workload_distribution (last observed)) = Inr x \<and>
          x < mp_workload_tvd_threshold p))"
proof -
  obtain e t x where e: "max_of (map (\<lambda>w. ms_error_count (mw_metrics w)) baseline) = Inr e"
    and t: "max_of (map (\<lambda>w. ms_timeout_count (mw_metrics w)) baseline) = Inr t"
    and x: "total_variation_distance (mw_workload_distribution (last baseline)) (mw_workload_distribution (last observed)) = Inr x"
    and d: "d = \<lparr>md_catastrophic_p99 =
             list_ex (\<lambda>w. at_least (ratio (p99_of w) (baseline_p99 baseline)) (mp_catastrophic_p99_ratio p)) observed,
           md_new_errors = list_ex (\<lambda>w. e < ms_error_count (mw_metrics w)) observed,
           md_new_timeouts = list_ex (\<lambda>w. t < ms_timeout_count (mw_metrics w)) observed,
           md_replica_unhealthy = list_ex (\<lambda>w. \<not> mw_replica_healthy w) observed,
           md_sustained_protected_regression = (mp_sustained_regression_windows p \<le> int (length (filter
             (\<lambda>w. at_least (ratio (p99_of w) (baseline_p99 baseline)) (mp_protected_p99_regression_ratio p))
             (last_n (mp_sustained_regression_windows p) observed)))),
           md_workload_comparable = (x < mp_workload_tvd_threshold p),
           md_workload_shift_detected = (\<not> x < mp_workload_tvd_threshold p)\<rparr>"
    using assms(1) by (auto simp: decide_def Let_def sbind_Inr_iff baseline_p99_def)
  obtain n where n: "mp_sustained_regression_windows p = int n"
    using assms(2) by (metis zero_le_imp_eq_int order_trans zero_le_one)
  have errs: "e < k \<longleftrightarrow> (\<forall>b\<in>set baseline. ms_error_count (mw_metrics b) < k)" for k
    using max_of_less [OF e] by simp
  have tims: "t < k \<longleftrightarrow> (\<forall>b\<in>set baseline. ms_timeout_count (mw_metrics b) < k)" for k
    using max_of_less [OF t] by simp
  show ?thesis
    unfolding d rollback_required_def n x
    by (simp add: count_all list_ex_iff errs tims bex_disj_distrib disj_assoc conj_assoc)
qed

text \<open>
  C20. The monitor cannot harm: whatever it returns or raises, the target changes only when the decision
  on the measured windows requires a rollback and a request was given, and the change is to drop
  the one index the ledger proves to be the optimizer's. What it reports is what happened: rolled
  back means that index is gone, any other status that the target is untouched, and a stable status
  is only given when nothing required a rollback.
\<close>

theorem monitor_only_removes_owned_index:
  assumes "database_adapter ad cols idx hint ok" and "ok (pc_target s)"
    and "monitor (rollback_index sha ad) None p baseline observed request s = (r, s')"
  shows "(pc_target s' \<noteq> pc_target s \<longrightarrow> (\<exists>d rq. decide p baseline observed = Inr d \<and> rollback_required d \<and>
        request = Some rq \<and> dropped_owned sha cols idx hint rq s s')) \<and>
    (\<forall>res. r = Inr res \<longrightarrow>
       (mr_status res = MON_ROLLED_BACK \<longrightarrow> (\<exists>rq. request = Some rq \<and> dropped_owned sha cols idx hint rq s s')) \<and>
       (mr_status res \<noteq> MON_ROLLED_BACK \<longrightarrow> pc_target s' = pc_target s) \<and>
       (rollback_required (mr_decision res) \<longleftrightarrow> mr_status res \<in> {MON_ROLLED_BACK, MON_ROLLBACK_BLOCKED}))"
proof -
  note B = database_adapter.owned_index_rollbacker [OF assms(1)]
  have fr: "rollback_boundary.store_frame (None :: (monitoring_result \<Rightarrow> ('a cell, unit) oper) option)"
    by (simp add: rollback_boundary.store_frame_def [OF B])
  show ?thesis
    using rollback_boundary.touches_only_when_required [OF B assms(3) fr] assms(2)
      rollback_boundary.verdict_is_true [OF B _ fr, of sha p baseline observed request s _ s'] assms(3) by blast
qed

subsection \<open>A monitored deployment\<close>

definition demo_metrics :: "real \<Rightarrow> metric_snapshot" where
  "demo_metrics p99 = \<lparr>ms_p50_latency_ms = None, ms_p95_latency_ms = None, ms_p99_latency_ms = Some p99,
     ms_throughput_per_second = 0, ms_read_throughput_per_second = 0, ms_write_throughput_per_second = 0,
     ms_cpu_time_us = None, ms_memory_bytes = None, ms_disk_bytes = None, ms_disk_io_bytes = None,
     ms_network_io_bytes = None, ms_replication_lag_seconds = None, ms_documents_examined = 0,
     ms_documents_returned = 0, ms_keys_examined = 0, ms_lock_wait_ms = 0, ms_error_count = 0, ms_timeout_count = 0\<rparr>"

definition demo_window :: "real \<Rightarrow> monitoring_window" where
  "demo_window p99 = \<lparr>mw_metrics = demo_metrics p99, mw_workload_distribution = demo_mix2, mw_replica_healthy = True\<rparr>"

definition demo_policy :: monitoring_policy where
  "demo_policy = DEFAULT_MONITORING_POLICY\<lparr>mp_baseline_seconds := 60, mp_monitoring_seconds := 180\<rparr>"

definition demo_decision :: monitoring_decision where
  "demo_decision = \<lparr>md_catastrophic_p99 = False, md_new_errors = False, md_new_timeouts = False, md_replica_unhealthy = False,
     md_sustained_protected_regression = True, md_workload_comparable = True, md_workload_shift_detected = False\<rparr>"

lemma demo_decide: "decide demo_policy [demo_window 10] [demo_window 13, demo_window 13, demo_window 12] = Inr demo_decision"
  by (simp add: decide_def demo_policy_def DEFAULT_MONITORING_POLICY_def demo_window_def demo_metrics_def max_of_def
      average_def p99_of_def ratio_def at_least_def last_n_def demo_distances(2) demo_decision_def)

theorem rollback_decision_criteria_witness:
  "decide demo_policy [demo_window 10] [demo_window 13, demo_window 13, demo_window 12] = Inr demo_decision \<and>
   list_all (\<lambda>w. at_least (ratio (p99_of w) (baseline_p99 [demo_window 10])) (mp_protected_p99_regression_ratio demo_policy))
     (last_n (mp_sustained_regression_windows demo_policy) [demo_window 13, demo_window 13, demo_window 12])"
proof -
  have n: "1 \<le> mp_sustained_regression_windows demo_policy" by (simp add: demo_policy_def DEFAULT_MONITORING_POLICY_def)
  have req: "rollback_required demo_decision" by (simp add: rollback_required_def demo_decision_def)
  have base: "baseline_p99 [demo_window 10] = 10"
    by (simp add: baseline_p99_def average_def p99_of_def demo_window_def demo_metrics_def)
  have quiet: "\<not> (\<exists>w\<in>set [demo_window 13, demo_window 13, demo_window 12].
      at_least (ratio (p99_of w) (baseline_p99 [demo_window 10])) (mp_catastrophic_p99_ratio demo_policy) \<or>
      (\<forall>b\<in>set [demo_window 10]. ms_error_count (mw_metrics b) < ms_error_count (mw_metrics w)) \<or>
      (\<forall>b\<in>set [demo_window 10]. ms_timeout_count (mw_metrics b) < ms_timeout_count (mw_metrics w)) \<or> \<not> mw_replica_healthy w)"
    unfolding base
    by (simp add: demo_window_def demo_metrics_def p99_of_def ratio_def at_least_def demo_policy_def DEFAULT_MONITORING_POLICY_def)
  show ?thesis unfolding list_all_iff using rollback_decision_criteria [OF demo_decide n] req quiet demo_decide by blast
qed

theorem monitor_only_removes_owned_index_witness:
  "\<exists>res s1 out s2. deploy id fake_adapter demo_request demo_cell = (Inr res, s1) \<and>
     monitor (rollback_index id fake_adapter) None demo_policy [demo_window 10]
       [demo_window 13, demo_window 13, demo_window 12] (Some (demo_rollback res)) s1 = (Inr out, s2) \<and>
     mr_status out = MON_ROLLED_BACK \<and> dropped_owned id fake_cols fake_idx fake_hint (demo_rollback res) s1 s2"
proof -
  let ?os = "[demo_window 13, demo_window 13, demo_window 12]"
  obtain res s1 where run: "deploy id fake_adapter demo_request demo_cell = (Inr res, s1)" and t: "pc_target s1 = deployed_target"
    using demo_deploy by blast
  obtain out s2 where rb: "rollback_index id fake_adapter (demo_rollback res) s1 = (Inr out, s2)"
    using fakead.rollback_returns [OF demo_cell_inv demo_fresh run fake_observe_total fake_total(3)]
    unfolding demo_rollback_def by blast
  have st: "rr_status out = RB_ROLLED_BACK"
    using fakead.deploy_then_rollback [OF demo_cell_inv demo_fresh run rb [unfolded demo_rollback_def]] by simp
  have inv1: "fake_inv (pc_target s1)" by (simp add: t deployed_target_def fake_inv_def)
  have valid: "validate_window_counts demo_policy [demo_window 10] ?os = Inr ()"
    by (simp add: validate_window_counts_def demo_policy_def DEFAULT_MONITORING_POLICY_def)
  have req: "rollback_required demo_decision" by (simp add: rollback_required_def demo_decision_def)
  obtain m where m: "monitor (rollback_index id fake_adapter) None demo_policy [demo_window 10] ?os (Some (demo_rollback res)) s1 = (Inr m, s2)"
      "mr_status m = MON_ROLLED_BACK"
    using rb by (simp add: monitor_def valid demo_decide req persist_def rolled_status_def st bnd_apply)
  show ?thesis
    using monitor_only_removes_owned_index [OF fakead.database_adapter_axioms inv1 m(1)] m run by blast
qed

end
