(* ===== verification/Schema.thy ===== *)
theory Schema
  imports Lifecycle Autonomy Admission Adapter
begin

text \<open>
  The control-plane tables of \<open>backend/app/db/models.py\<close>, and the two tables that exist only in the
  migrations (\<open>production_ledger_entries\<close>, \<open>production_action_recovery\<close>), as lists of row records in
  insertion order, with the unique constraints that the code relies on. Identifiers are strings,
  timestamps are integers, \<open>Numeric\<close> columns are reals. A JSON column that the code only ever fills
  with one shape has that shape as its type. Foreign keys and the immutability triggers of the
  migrations are not modelled: no operation below depends on them for its result.
\<close>

subsection \<open>Enumerations\<close>

datatype run_completion_reason =
    NO_CANDIDATES | NO_ADMITTED_CANDIDATE | DEPLOYMENT_SUCCEEDED | APPROVAL_REJECTED | LEGACY_COMPLETED

datatype candidate_status = CAND_PROPOSED | CAND_EVALUATING | CAND_ADMITTED | CAND_REJECTED

text \<open>\<open>{"metrics": ..., "arm_order": ...}\<close> of a trial pair, and the payloads a rollback record is given.\<close>

record trial_measurement =
  me_metrics :: "(string \<times> real) list"
  me_arm_order :: string

datatype rollback_payload =
    PayloadIntent target_state target_state
  | PayloadDone target_state target_state
  | PayloadBlocked string target_state

subsection \<open>Rows\<close>

text \<open>\<open>TimestampedUUID\<close>, the common base of every row.\<close>

record timestamped =
  row_id :: string
  row_created_at :: int
  row_updated_at :: "int option"

record user_row = timestamped +
  us_email :: string
  us_password_hash :: string
  us_role :: string
  us_status :: string
  us_failed_login_count :: int
  us_locked_until :: "int option"

record refresh_token_row = timestamped +
  rt_user_id :: string
  rt_token_id :: string
  rt_token_hash :: string
  rt_expires_at :: int
  rt_revoked_at :: "int option"

record target_rec = timestamped +
  ta_owner_user_id :: string
  ta_name :: string
  ta_deployment_mode :: string
  ta_state :: string
  ta_connection_label :: string
  ta_is_active :: bool

record credential_rec = timestamped +
  tc_target_id :: string
  tc_encrypted_payload :: string
  tc_key_version :: int
  tc_credential_type :: string

record evaluation_mapping_row = timestamped +
  em_target_id :: string
  em_evaluation_target_id :: string
  em_mapping_status :: string

record capability_rec = timestamped +
  cp_target_id :: string
  cp_capabilities :: json
  cp_fingerprint :: string

record namespace_row = timestamped +
  ns_target_id :: string
  ns_name :: string
  ns_allowlisted :: bool

record query_shape_row = timestamped +
  qs_namespace_id :: string
  qs_shape_hash :: string
  qs_normalized_shape :: json
  qs_operation :: string

record workload_snapshot_row = timestamped +
  wn_target_id :: string
  wn_telemetry_window_id :: string
  wn_snapshot :: json
  wn_fingerprint :: string
  wn_source_run_id :: "string option"
  wn_observed_from :: "int option"
  wn_observed_until :: "int option"
  wn_anchor_at :: "int option"
  wn_completeness :: "json option"

record snapshot_shape_row = timestamped +
  sq_workload_snapshot_id :: string
  sq_query_shape_id :: string
  sq_query_shape_hash :: string
  sq_operation :: string
  sq_namespace :: string
  sq_observed_operation_count :: int
  sq_successful_operation_count :: "int option"
  sq_failure_count :: "int option"
  sq_timeout_count :: "int option"
  sq_aggregate_execution_time_ms :: "real option"
  sq_workload_operation_share :: real
  sq_execution_time_share :: "real option"
  sq_manually_critical :: bool
  sq_protected_manual_critical :: bool
  sq_protected_operation_share :: bool
  sq_protected_execution_time_share :: bool
  sq_base_protected :: bool
  sq_provider :: string

record ai_invocation_row = timestamped +
  ai_optimization_run_id :: string
  ai_stage :: string
  ai_provider :: string
  ai_model :: string
  ai_prompt_version :: string
  ai_schema_version :: string
  ai_workload_snapshot_id :: string
  ai_input_hash :: string
  ai_sanitized_input :: json
  ai_output_hash :: "string option"
  ai_validated_output :: "json option"
  ai_latency_ms :: "real option"
  ai_status :: string
  ai_safe_error_code :: "string option"
  ai_completed_at :: "int option"
  ai_attempt_number :: int

record diagnosis_artifact_row = timestamped +
  di_optimization_run_id :: string
  di_workload_snapshot_id :: string
  di_target_id :: string
  di_ai_invocation_id :: string
  di_schema_version :: string
  di_source_snapshot_fingerprint :: string
  di_deterministic_evidence_hash :: string
  di_artifact_fingerprint :: string

record diagnosis_finding_row = timestamped +
  dn_diagnosis_artifact_id :: string
  dn_finding_id :: string
  dn_finding_type :: string
  dn_summary :: string
  dn_rationale :: string
  dn_query_shape_ids :: "string list"
  dn_evidence_refs :: "string list"

record run_row = timestamped +
  rn_target_id :: string
  rn_workload_snapshot_id :: "string option"
  rn_status :: optimization_state
  rn_requested_by_user_id :: string
  rn_deployment_mode :: string
  rn_primary_metric_key :: "string option"
  rn_completion_reason :: "run_completion_reason option"

record candidate_row = timestamped +
  cn_optimization_run_id :: string
  cn_query_shape_id :: string
  cn_status :: candidate_status
  cn_candidate_hash :: string
  cn_source_snapshot_id :: "string option"
  cn_source_diagnosis_id :: "string option"
  cn_deterministic_fingerprint :: "string option"
  cn_generation_rule_id :: "string option"
  cn_generation_rule_version :: "string option"
  cn_affected_query_shape_ids :: "string list option"
  cn_evidence_refs :: "string list option"
  cn_policy_classification :: "string option"

record candidate_action_row = timestamped +
  ac_candidate_id :: string
  ac_action_type :: string
  ac_action_payload :: json
  ac_reversible :: bool

record evaluation_run_row = timestamped +
  er_candidate_id :: string
  er_status :: string
  er_environment_fingerprint :: string

record trial_pair_row = timestamped +
  tp_evaluation_run_id :: string
  tp_pair_number :: int
  tp_baseline_measurement :: trial_measurement
  tp_candidate_measurement :: trial_measurement

record trial_metric_row = timestamped +
  tm_trial_pair_id :: string
  tm_metric_name :: string
  tm_baseline_value :: real
  tm_candidate_value :: real

record admission_decision_row = timestamped +
  ae_candidate_id :: string
  ae_verdict :: string
  ae_evidence_hash :: string

record generation_artifact_row = timestamped +
  ga_optimization_run_id :: string
  ga_workload_snapshot_id :: string
  ga_diagnosis_artifact_id :: string
  ga_generator_version :: string
  ga_candidate_count :: int
  ga_ordered_candidate_fingerprints :: "string list"
  ga_artifact_fingerprint :: string
  ga_completed_at :: int

record ranking_artifact_row = timestamped +
  ra_optimization_run_id :: string
  ra_generation_artifact_id :: string
  ra_ai_invocation_id :: string
  ra_ordered_candidate_ids :: "string list"
  ra_artifact_fingerprint :: string

record evaluation_plan_row = timestamped +
  ep_optimization_run_id :: string
  ep_ranking_artifact_id :: string
  ep_profile :: benchmark_profile
  ep_selected_candidate_ids :: "string list"
  ep_calibration :: json
  ep_artifact_fingerprint :: string

record admission_artifact_row = timestamped +
  aa_optimization_run_id :: string
  aa_evaluation_plan_id :: string
  aa_selected_candidate_id :: "string option"
  aa_admitted_candidate_ids :: "string list"
  aa_production_eligible :: bool
  aa_artifact_fingerprint :: string

record authority_row = timestamped +
  au_optimization_run_id :: string
  au_candidate_id :: string
  au_candidate_fingerprint :: string
  au_deployment_mode :: string
  au_authority_type :: string
  au_authority_reason :: string
  au_production_autonomy_eligible :: bool
  au_integrity_fingerprint :: string

record deployment_row = timestamped +
  dp_optimization_run_id :: string
  dp_candidate_id :: string
  dp_candidate_fingerprint :: string
  dp_action_fingerprint :: string
  dp_idempotency_key :: string
  dp_status :: string
  dp_before_state :: target_state
  dp_inverse_action :: json
  dp_after_state :: "target_state option"

record settings_deployment_row = timestamped +
  sy_target_id :: string
  sy_optimization_run_id :: "string option"
  sy_query_shape_hash :: string
  sy_namespace :: string
  sy_action_fingerprint :: string
  sy_idempotency_key :: string
  sy_status :: string
  sy_before_state :: json
  sy_intended_state :: json
  sy_after_state :: "json option"
  sy_inverse_action :: json
  sy_ownership_token :: string

record approval_request_row = timestamped +
  av_admission_decision_id :: "string option"
  av_requested_by_user_id :: string
  av_action_id :: string
  av_target_id :: string
  av_candidate_id :: string
  av_optimization_run_id :: "string option"
  av_candidate_fingerprint :: "string option"
  av_evidence_hash :: string
  av_expires_at :: int
  av_status :: string

record approval_decision_row = timestamped +
  ay_approval_request_id :: string
  ay_decided_by_user_id :: string
  ay_decision :: string
  ay_reason :: "string option"

record rollback_record_row = timestamped +
  ro_candidate_id :: string
  ro_status :: string
  ro_rollback_payload :: rollback_payload

record experience_row = timestamped +
  ex_candidate_id :: "string option"
  ex_outcome :: "string option"
  ex_embedding :: "real list option"
  ex_evidence :: json
  ex_adapter_type :: string
  ex_action_type :: string
  ex_query_structure_summary :: json
  ex_workload_features :: json
  ex_bottleneck :: "string option"
  ex_candidate_summary :: json
  ex_prediction :: json
  ex_admission_outcome :: "string option"
  ex_actual_postdeploy_outcome :: "string option"
  ex_rollback_outcome :: "string option"
  ex_embedding_model :: string
  ex_embedding_model_version :: string

record job_row = timestamped +
  jb_optimization_run_id :: "string option"
  jb_payload :: json
  jb_status :: string
  jb_lease_owner :: "string option"
  jb_lease_expires_at :: "int option"
  jb_heartbeat_at :: "int option"
  jb_attempts :: int
  jb_completed_at :: "int option"
  jb_kind :: string
  jb_available_at :: int
  jb_last_error_code :: "string option"
  jb_failed_at :: "int option"

record audit_row = timestamped +
  ev_actor_user_id :: "string option"
  ev_optimization_run_id :: "string option"
  ev_event_type :: string
  ev_event_payload :: json

text \<open>The two tables of the migrations that have no mapped class.\<close>

record production_ledger_row =
  pl_entry_id :: string
  pl_sequence :: int
  pl_target_id :: string
  pl_run_id :: "string option"
  pl_candidate_id :: "string option"
  pl_action_id :: string
  pl_event_type :: string
  pl_before_state :: json
  pl_intended_state :: json
  pl_after_state :: json
  pl_forward_action :: json
  pl_inverse_action :: json
  pl_evidence_hash :: string
  pl_actor :: string
  pl_previous_hash :: string
  pl_entry_hash :: string
  pl_created_at :: int

record recovery_row = timestamped +
  rc_idempotency_key :: string
  rc_action_id :: string
  rc_target_id :: string
  rc_expected_fingerprint :: string
  rc_state :: string

subsection \<open>The database\<close>

record db =
  db_users :: "user_row list"
  db_refresh_tokens :: "refresh_token_row list"
  db_targets :: "target_rec list"
  db_target_credentials :: "credential_rec list"
  db_evaluation_mappings :: "evaluation_mapping_row list"
  db_capability_snapshots :: "capability_rec list"
  db_namespaces :: "namespace_row list"
  db_query_shapes :: "query_shape_row list"
  db_workload_snapshots :: "workload_snapshot_row list"
  db_snapshot_shapes :: "snapshot_shape_row list"
  db_ai_invocations :: "ai_invocation_row list"
  db_diagnosis_artifacts :: "diagnosis_artifact_row list"
  db_diagnosis_findings :: "diagnosis_finding_row list"
  db_runs :: "run_row list"
  db_candidates :: "candidate_row list"
  db_candidate_actions :: "candidate_action_row list"
  db_evaluation_runs :: "evaluation_run_row list"
  db_trial_pairs :: "trial_pair_row list"
  db_trial_metrics :: "trial_metric_row list"
  db_admission_decisions :: "admission_decision_row list"
  db_generation_artifacts :: "generation_artifact_row list"
  db_ranking_artifacts :: "ranking_artifact_row list"
  db_evaluation_plans :: "evaluation_plan_row list"
  db_admission_artifacts :: "admission_artifact_row list"
  db_authority_decisions :: "authority_row list"
  db_deployments :: "deployment_row list"
  db_settings_deployments :: "settings_deployment_row list"
  db_approval_requests :: "approval_request_row list"
  db_approval_decisions :: "approval_decision_row list"
  db_rollback_records :: "rollback_record_row list"
  db_experience_records :: "experience_row list"
  db_jobs :: "job_row list"
  db_audit_events :: "audit_row list"
  db_production_ledger :: "production_ledger_row list"
  db_recovery :: "recovery_row list"

text \<open>The empty database, after the migrations.\<close>

definition empty_db :: db where
  "empty_db = \<lparr>db_users = [],
     db_refresh_tokens = [],
     db_targets = [],
     db_target_credentials = [],
     db_evaluation_mappings = [],
     db_capability_snapshots = [],
     db_namespaces = [],
     db_query_shapes = [],
     db_workload_snapshots = [],
     db_snapshot_shapes = [],
     db_ai_invocations = [],
     db_diagnosis_artifacts = [],
     db_diagnosis_findings = [],
     db_runs = [],
     db_candidates = [],
     db_candidate_actions = [],
     db_evaluation_runs = [],
     db_trial_pairs = [],
     db_trial_metrics = [],
     db_admission_decisions = [],
     db_generation_artifacts = [],
     db_ranking_artifacts = [],
     db_evaluation_plans = [],
     db_admission_artifacts = [],
     db_authority_decisions = [],
     db_deployments = [],
     db_settings_deployments = [],
     db_approval_requests = [],
     db_approval_decisions = [],
     db_rollback_records = [],
     db_experience_records = [],
     db_jobs = [],
     db_audit_events = [],
     db_production_ledger = [],
     db_recovery = []\<rparr>"

end
