(* ===== verification/World.thy ===== *)
theory World
  imports Schema
begin

text \<open>
  The world of the durable services: the database, the clock, the identifiers drawn by \<open>uuid4\<close>, the
  faults of the connection, the lease of the running job, the advisory locks and the monitored target.
  What the environment decides is a sequence that is read once per use: clock readings, identifiers,
  whether a connection fails, whether the lease is lost. \<open>engine_begin\<close> and \<open>engine_connect\<close> are
  SQLAlchemy's \<open>engine.begin()\<close> and \<open>engine.connect()\<close>: each may find the database unavailable, and a
  block that raises leaves the tables as they were. A row lock (\<open>FOR UPDATE\<close>) makes the
  block atomic, as it is here. The repositories of \<open>backend/app/db/repositories.py\<close> follow.
\<close>

subsection \<open>State\<close>

record 't world =
  w_db :: db
  w_clock :: "nat \<Rightarrow> int"
  w_uuids :: "nat \<Rightarrow> string"
  w_faults :: "nat \<Rightarrow> bool"
  w_lease_lost :: "nat \<Rightarrow> bool"
  w_reads :: nat
  w_advisory :: "int list"
  w_target :: 't

definition tick :: "'t world \<Rightarrow> 't world" where
  "tick w = w\<lparr>w_reads := Suc (w_reads w)\<rparr>"

definition now :: "('t world, int) oper" where
  "now = (\<lambda>w. (Inr (w_clock w (w_reads w)), tick w))"

definition uuid4 :: "('t world, string) oper" where
  "uuid4 = (\<lambda>w. (Inr (w_uuids w (w_reads w)), tick w))"

definition ensure_lease_owned :: "('t world, unit) oper" where
  "ensure_lease_owned = (\<lambda>w. (if w_lease_lost w (w_reads w) then Inl LeaseLostError else Inr (), tick w))"

definition db_available :: "('t world, unit) oper" where
  "db_available = (\<lambda>w. (if w_faults w (w_reads w) then Inl DatabaseUnavailable else Inr (), tick w))"

definition tables_transaction :: "('t world, 'a) oper \<Rightarrow> ('t world, 'a) oper" where
  "tables_transaction m = (\<lambda>w. case m w of (Inl e, w') \<Rightarrow> (Inl e, w'\<lparr>w_db := w_db w\<rparr>) | (Inr a, w') \<Rightarrow> (Inr a, w'))"

definition engine_begin :: "('t world, 'a) oper \<Rightarrow> ('t world, 'a) oper" where
  "engine_begin m = bnd db_available (\<lambda>_. tables_transaction m)"

definition engine_connect :: "('t world, 'a) oper \<Rightarrow> ('t world, 'a) oper" where
  "engine_connect m = bnd db_available (\<lambda>_. m)"

definition on_world_target :: "('t, 'a) oper \<Rightarrow> ('t world, 'a) oper" where
  "on_world_target m = focus w_target (\<lambda>t w. w\<lparr>w_target := t\<rparr>) m"

subsection \<open>Tables\<close>

text \<open>A table: its rows, how they are replaced, and which pairs of rows a unique constraint forbids.\<close>

record 'r table =
  tb_rows :: "db \<Rightarrow> 'r list"
  tb_put :: "'r list \<Rightarrow> db \<Rightarrow> db"
  tb_clash :: "'r \<Rightarrow> 'r \<Rightarrow> bool"

definition select_rows :: "'r table \<Rightarrow> ('r \<Rightarrow> bool) \<Rightarrow> ('t world, 'r list) oper" where
  "select_rows tb p = asks (\<lambda>w. filter p (tb_rows tb (w_db w)))"

definition select_one :: "'r table \<Rightarrow> ('r \<Rightarrow> bool) \<Rightarrow> ('t world, 'r option) oper" where
  "select_one tb p = bnd (select_rows tb p) (\<lambda>rows. lift (one_or_none rows))"

definition insert_row :: "'r table \<Rightarrow> 'r \<Rightarrow> ('t world, 'r) oper" where
  "insert_row tb r = (\<lambda>w. if \<exists>x\<in>set (tb_rows tb (w_db w)). tb_clash tb x r
     then (Inl (IntegrityError ''unique constraint''), w)
     else (Inr r, w\<lparr>w_db := tb_put tb (tb_rows tb (w_db w) @ [r]) (w_db w)\<rparr>))"

text \<open>\<open>UPDATE ... WHERE p RETURNING *\<close>\<close>

definition update_rows :: "'r table \<Rightarrow> ('r \<Rightarrow> bool) \<Rightarrow> ('r \<Rightarrow> 'r) \<Rightarrow> ('t world, 'r list) oper" where
  "update_rows tb p f = (\<lambda>w. (Inr (map f (filter p (tb_rows tb (w_db w)))),
     w\<lparr>w_db := tb_put tb (map (\<lambda>r. if p r then f r else r) (tb_rows tb (w_db w))) (w_db w)\<rparr>))"

definition the_one :: "'r list \<Rightarrow> exn + 'r" where
  "the_one rows = (case rows of [r] \<Rightarrow> Inr r | [] \<Rightarrow> Inl NoResultFound | _ \<Rightarrow> Inl MultipleResultsFound)"

subsection \<open>The tables of the control plane\<close>

definition same_id :: "'a timestamped_scheme \<Rightarrow> 'b timestamped_scheme \<Rightarrow> bool" where
  "same_id a b \<longleftrightarrow> row_id a = row_id b"

text \<open>\<open>payload ->> key\<close> of a JSON object: the text of the value, nothing for a missing key or null.\<close>

definition payload_text :: "json \<Rightarrow> string \<Rightarrow> string option" where
  "payload_text j k = (case j of JObj kvs \<Rightarrow> (case map_of kvs k of
       None \<Rightarrow> None | Some JNull \<Rightarrow> None | Some (JStr t) \<Rightarrow> Some t | Some v \<Rightarrow> Some (render v))
     | _ \<Rightarrow> None)"

text \<open>
  The two partial unique indexes of migration 0023: one initial and one continuation job for a run.
\<close>

definition is_continuation :: "job_row \<Rightarrow> bool" where
  "is_continuation j \<longleftrightarrow> payload_text (jb_payload j) ''continuation'' = Some ''true''"

definition jobs_clash :: "job_row \<Rightarrow> job_row \<Rightarrow> bool" where
  "jobs_clash a b \<longleftrightarrow> jb_optimization_run_id a \<noteq> None \<and> jb_optimization_run_id a = jb_optimization_run_id b \<and>
     jb_kind a = ''OPTIMIZATION'' \<and> jb_kind b = ''OPTIMIZATION'' \<and> (is_continuation a \<longleftrightarrow> is_continuation b)"

definition users_table :: "user_row table" where
  "users_table = \<lparr>tb_rows = db_users, tb_put = (\<lambda>rs d. d\<lparr>db_users := rs\<rparr>),
     tb_clash = (\<lambda>a b. same_id a b \<or> us_email a = us_email b)\<rparr>"

definition refresh_tokens_table :: "refresh_token_row table" where
  "refresh_tokens_table = \<lparr>tb_rows = db_refresh_tokens, tb_put = (\<lambda>rs d. d\<lparr>db_refresh_tokens := rs\<rparr>),
     tb_clash = (\<lambda>a b. same_id a b \<or> rt_token_id a = rt_token_id b \<or> rt_token_hash a = rt_token_hash b)\<rparr>"

definition targets_table :: "target_rec table" where
  "targets_table = \<lparr>tb_rows = db_targets, tb_put = (\<lambda>rs d. d\<lparr>db_targets := rs\<rparr>),
     tb_clash = (\<lambda>a b. same_id a b \<or> (ta_owner_user_id a = ta_owner_user_id b \<and> ta_name a = ta_name b))\<rparr>"

definition target_credentials_table :: "credential_rec table" where
  "target_credentials_table = \<lparr>tb_rows = db_target_credentials, tb_put = (\<lambda>rs d. d\<lparr>db_target_credentials := rs\<rparr>),
     tb_clash = (\<lambda>a b. same_id a b \<or> tc_target_id a = tc_target_id b)\<rparr>"

definition evaluation_mappings_table :: "evaluation_mapping_row table" where
  "evaluation_mappings_table = \<lparr>tb_rows = db_evaluation_mappings, tb_put = (\<lambda>rs d. d\<lparr>db_evaluation_mappings := rs\<rparr>),
     tb_clash = (\<lambda>a b. same_id a b \<or> em_target_id a = em_target_id b)\<rparr>"

definition capability_snapshots_table :: "capability_rec table" where
  "capability_snapshots_table = \<lparr>tb_rows = db_capability_snapshots, tb_put = (\<lambda>rs d. d\<lparr>db_capability_snapshots := rs\<rparr>),
     tb_clash = (\<lambda>a b. same_id a b)\<rparr>"

definition namespaces_table :: "namespace_row table" where
  "namespaces_table = \<lparr>tb_rows = db_namespaces, tb_put = (\<lambda>rs d. d\<lparr>db_namespaces := rs\<rparr>),
     tb_clash = (\<lambda>a b. same_id a b \<or> (ns_target_id a = ns_target_id b \<and> ns_name a = ns_name b))\<rparr>"

definition query_shapes_table :: "query_shape_row table" where
  "query_shapes_table = \<lparr>tb_rows = db_query_shapes, tb_put = (\<lambda>rs d. d\<lparr>db_query_shapes := rs\<rparr>),
     tb_clash = (\<lambda>a b. same_id a b \<or> (qs_namespace_id a = qs_namespace_id b \<and> qs_shape_hash a = qs_shape_hash b))\<rparr>"

definition workload_snapshots_table :: "workload_snapshot_row table" where
  "workload_snapshots_table = \<lparr>tb_rows = db_workload_snapshots, tb_put = (\<lambda>rs d. d\<lparr>db_workload_snapshots := rs\<rparr>),
     tb_clash = (\<lambda>a b. same_id a b \<or> wn_fingerprint a = wn_fingerprint b \<or> (wn_source_run_id a \<noteq> None \<and> wn_source_run_id a = wn_source_run_id b))\<rparr>"

definition snapshot_shapes_table :: "snapshot_shape_row table" where
  "snapshot_shapes_table = \<lparr>tb_rows = db_snapshot_shapes, tb_put = (\<lambda>rs d. d\<lparr>db_snapshot_shapes := rs\<rparr>),
     tb_clash = (\<lambda>a b. same_id a b \<or> (sq_workload_snapshot_id a = sq_workload_snapshot_id b \<and> sq_query_shape_id a = sq_query_shape_id b))\<rparr>"

definition ai_invocations_table :: "ai_invocation_row table" where
  "ai_invocations_table = \<lparr>tb_rows = db_ai_invocations, tb_put = (\<lambda>rs d. d\<lparr>db_ai_invocations := rs\<rparr>),
     tb_clash = (\<lambda>a b. same_id a b)\<rparr>"

definition diagnosis_artifacts_table :: "diagnosis_artifact_row table" where
  "diagnosis_artifacts_table = \<lparr>tb_rows = db_diagnosis_artifacts, tb_put = (\<lambda>rs d. d\<lparr>db_diagnosis_artifacts := rs\<rparr>),
     tb_clash = (\<lambda>a b. same_id a b \<or> di_optimization_run_id a = di_optimization_run_id b \<or> di_artifact_fingerprint a = di_artifact_fingerprint b)\<rparr>"

definition diagnosis_findings_table :: "diagnosis_finding_row table" where
  "diagnosis_findings_table = \<lparr>tb_rows = db_diagnosis_findings, tb_put = (\<lambda>rs d. d\<lparr>db_diagnosis_findings := rs\<rparr>),
     tb_clash = (\<lambda>a b. same_id a b \<or> (dn_diagnosis_artifact_id a = dn_diagnosis_artifact_id b \<and> dn_finding_id a = dn_finding_id b))\<rparr>"

definition runs_table :: "run_row table" where
  "runs_table = \<lparr>tb_rows = db_runs, tb_put = (\<lambda>rs d. d\<lparr>db_runs := rs\<rparr>),
     tb_clash = (\<lambda>a b. same_id a b)\<rparr>"

definition candidates_table :: "candidate_row table" where
  "candidates_table = \<lparr>tb_rows = db_candidates, tb_put = (\<lambda>rs d. d\<lparr>db_candidates := rs\<rparr>),
     tb_clash = (\<lambda>a b. same_id a b \<or> cn_candidate_hash a = cn_candidate_hash b \<or> (cn_optimization_run_id a = cn_optimization_run_id b \<and> cn_deterministic_fingerprint a \<noteq> None \<and> cn_deterministic_fingerprint a = cn_deterministic_fingerprint b))\<rparr>"

definition candidate_actions_table :: "candidate_action_row table" where
  "candidate_actions_table = \<lparr>tb_rows = db_candidate_actions, tb_put = (\<lambda>rs d. d\<lparr>db_candidate_actions := rs\<rparr>),
     tb_clash = (\<lambda>a b. same_id a b)\<rparr>"

definition evaluation_runs_table :: "evaluation_run_row table" where
  "evaluation_runs_table = \<lparr>tb_rows = db_evaluation_runs, tb_put = (\<lambda>rs d. d\<lparr>db_evaluation_runs := rs\<rparr>),
     tb_clash = (\<lambda>a b. same_id a b)\<rparr>"

definition trial_pairs_table :: "trial_pair_row table" where
  "trial_pairs_table = \<lparr>tb_rows = db_trial_pairs, tb_put = (\<lambda>rs d. d\<lparr>db_trial_pairs := rs\<rparr>),
     tb_clash = (\<lambda>a b. same_id a b \<or> (tp_evaluation_run_id a = tp_evaluation_run_id b \<and> tp_pair_number a = tp_pair_number b))\<rparr>"

definition trial_metrics_table :: "trial_metric_row table" where
  "trial_metrics_table = \<lparr>tb_rows = db_trial_metrics, tb_put = (\<lambda>rs d. d\<lparr>db_trial_metrics := rs\<rparr>),
     tb_clash = (\<lambda>a b. same_id a b)\<rparr>"

definition admission_decisions_table :: "admission_decision_row table" where
  "admission_decisions_table = \<lparr>tb_rows = db_admission_decisions, tb_put = (\<lambda>rs d. d\<lparr>db_admission_decisions := rs\<rparr>),
     tb_clash = (\<lambda>a b. same_id a b \<or> ae_candidate_id a = ae_candidate_id b)\<rparr>"

definition generation_artifacts_table :: "generation_artifact_row table" where
  "generation_artifacts_table = \<lparr>tb_rows = db_generation_artifacts, tb_put = (\<lambda>rs d. d\<lparr>db_generation_artifacts := rs\<rparr>),
     tb_clash = (\<lambda>a b. same_id a b \<or> ga_optimization_run_id a = ga_optimization_run_id b \<or> ga_artifact_fingerprint a = ga_artifact_fingerprint b)\<rparr>"

definition ranking_artifacts_table :: "ranking_artifact_row table" where
  "ranking_artifacts_table = \<lparr>tb_rows = db_ranking_artifacts, tb_put = (\<lambda>rs d. d\<lparr>db_ranking_artifacts := rs\<rparr>),
     tb_clash = (\<lambda>a b. same_id a b \<or> ra_optimization_run_id a = ra_optimization_run_id b \<or> ra_artifact_fingerprint a = ra_artifact_fingerprint b)\<rparr>"

definition evaluation_plans_table :: "evaluation_plan_row table" where
  "evaluation_plans_table = \<lparr>tb_rows = db_evaluation_plans, tb_put = (\<lambda>rs d. d\<lparr>db_evaluation_plans := rs\<rparr>),
     tb_clash = (\<lambda>a b. same_id a b \<or> ep_optimization_run_id a = ep_optimization_run_id b \<or> ep_artifact_fingerprint a = ep_artifact_fingerprint b)\<rparr>"

definition admission_artifacts_table :: "admission_artifact_row table" where
  "admission_artifacts_table = \<lparr>tb_rows = db_admission_artifacts, tb_put = (\<lambda>rs d. d\<lparr>db_admission_artifacts := rs\<rparr>),
     tb_clash = (\<lambda>a b. same_id a b \<or> aa_optimization_run_id a = aa_optimization_run_id b \<or> aa_artifact_fingerprint a = aa_artifact_fingerprint b)\<rparr>"

definition authority_decisions_table :: "authority_row table" where
  "authority_decisions_table = \<lparr>tb_rows = db_authority_decisions, tb_put = (\<lambda>rs d. d\<lparr>db_authority_decisions := rs\<rparr>),
     tb_clash = (\<lambda>a b. same_id a b \<or> au_optimization_run_id a = au_optimization_run_id b \<or> au_integrity_fingerprint a = au_integrity_fingerprint b)\<rparr>"

definition deployments_table :: "deployment_row table" where
  "deployments_table = \<lparr>tb_rows = db_deployments, tb_put = (\<lambda>rs d. d\<lparr>db_deployments := rs\<rparr>),
     tb_clash = (\<lambda>a b. same_id a b \<or> dp_optimization_run_id a = dp_optimization_run_id b \<or> dp_idempotency_key a = dp_idempotency_key b)\<rparr>"

definition settings_deployments_table :: "settings_deployment_row table" where
  "settings_deployments_table = \<lparr>tb_rows = db_settings_deployments, tb_put = (\<lambda>rs d. d\<lparr>db_settings_deployments := rs\<rparr>),
     tb_clash = (\<lambda>a b. same_id a b \<or> sy_idempotency_key a = sy_idempotency_key b \<or> (sy_target_id a = sy_target_id b \<and> sy_query_shape_hash a = sy_query_shape_hash b \<and> sy_ownership_token a = sy_ownership_token b))\<rparr>"

definition approval_requests_table :: "approval_request_row table" where
  "approval_requests_table = \<lparr>tb_rows = db_approval_requests, tb_put = (\<lambda>rs d. d\<lparr>db_approval_requests := rs\<rparr>),
     tb_clash = (\<lambda>a b. same_id a b \<or> (av_optimization_run_id a \<noteq> None \<and> av_optimization_run_id a = av_optimization_run_id b) \<or> (av_admission_decision_id a \<noteq> None \<and> av_admission_decision_id a = av_admission_decision_id b))\<rparr>"

definition approval_decisions_table :: "approval_decision_row table" where
  "approval_decisions_table = \<lparr>tb_rows = db_approval_decisions, tb_put = (\<lambda>rs d. d\<lparr>db_approval_decisions := rs\<rparr>),
     tb_clash = (\<lambda>a b. same_id a b \<or> ay_approval_request_id a = ay_approval_request_id b)\<rparr>"

definition rollback_records_table :: "rollback_record_row table" where
  "rollback_records_table = \<lparr>tb_rows = db_rollback_records, tb_put = (\<lambda>rs d. d\<lparr>db_rollback_records := rs\<rparr>),
     tb_clash = (\<lambda>a b. same_id a b \<or> ro_candidate_id a = ro_candidate_id b)\<rparr>"

definition experience_records_table :: "experience_row table" where
  "experience_records_table = \<lparr>tb_rows = db_experience_records, tb_put = (\<lambda>rs d. d\<lparr>db_experience_records := rs\<rparr>),
     tb_clash = (\<lambda>a b. same_id a b)\<rparr>"

definition jobs_table :: "job_row table" where
  "jobs_table = \<lparr>tb_rows = db_jobs, tb_put = (\<lambda>rs d. d\<lparr>db_jobs := rs\<rparr>),
     tb_clash = (\<lambda>a b. same_id a b \<or> jobs_clash a b)\<rparr>"

definition audit_events_table :: "audit_row table" where
  "audit_events_table = \<lparr>tb_rows = db_audit_events, tb_put = (\<lambda>rs d. d\<lparr>db_audit_events := rs\<rparr>),
     tb_clash = (\<lambda>a b. same_id a b)\<rparr>"

definition production_ledger_table :: "production_ledger_row table" where
  "production_ledger_table = \<lparr>tb_rows = db_production_ledger, tb_put = (\<lambda>rs d. d\<lparr>db_production_ledger := rs\<rparr>),
     tb_clash = (\<lambda>a b. pl_entry_id a = pl_entry_id b \<or> (pl_target_id a = pl_target_id b \<and> pl_sequence a = pl_sequence b))\<rparr>"

definition recovery_table :: "recovery_row table" where
  "recovery_table = \<lparr>tb_rows = db_recovery, tb_put = (\<lambda>rs d. d\<lparr>db_recovery := rs\<rparr>),
     tb_clash = (\<lambda>a b. same_id a b \<or> rc_idempotency_key a = rc_idempotency_key b)\<rparr>"

lemmas table_defs =
  users_table_def refresh_tokens_table_def targets_table_def
  target_credentials_table_def evaluation_mappings_table_def capability_snapshots_table_def
  namespaces_table_def query_shapes_table_def workload_snapshots_table_def
  snapshot_shapes_table_def ai_invocations_table_def diagnosis_artifacts_table_def
  diagnosis_findings_table_def runs_table_def candidates_table_def
  candidate_actions_table_def evaluation_runs_table_def trial_pairs_table_def
  trial_metrics_table_def admission_decisions_table_def generation_artifacts_table_def
  ranking_artifacts_table_def evaluation_plans_table_def admission_artifacts_table_def
  authority_decisions_table_def deployments_table_def settings_deployments_table_def
  approval_requests_table_def approval_decisions_table_def rollback_records_table_def
  experience_records_table_def jobs_table_def audit_events_table_def
  production_ledger_table_def recovery_table_def

subsection \<open>The laws of a table\<close>

locale table_laws =
  fixes tb :: "'r table"
  assumes rows_put: "tb_rows tb (tb_put tb rs d) = rs"
    and put_rows: "tb_put tb (tb_rows tb d) d = d"
    and put_put: "tb_put tb rs (tb_put tb rs' d) = tb_put tb rs d"
begin

lemma insert_row_Inr:
  "insert_row tb r w = (Inr x, w') \<longleftrightarrow>
     x = r \<and> \<not> (\<exists>y\<in>set (tb_rows tb (w_db w)). tb_clash tb y r) \<and>
     w' = w\<lparr>w_db := tb_put tb (tb_rows tb (w_db w) @ [r]) (w_db w)\<rparr>"
  by (auto simp: insert_row_def)

lemma insert_row_rows:
  "insert_row tb r w = (Inr x, w') \<Longrightarrow> tb_rows tb (w_db w') = tb_rows tb (w_db w) @ [r]"
  by (auto simp: insert_row_Inr rows_put)

lemma insert_keeps_unique:
  assumes "insert_row tb r w = (Inr x, w')" and "pairwise (\<lambda>a b. \<not> tb_clash tb a b) (set (tb_rows tb (w_db w)))"
    and "\<And>a b. tb_clash tb a b \<longleftrightarrow> tb_clash tb b a"
  shows "pairwise (\<lambda>a b. \<not> tb_clash tb a b) (set (tb_rows tb (w_db w')))"
proof -
  have "\<not> tb_clash tb y r \<and> \<not> tb_clash tb r y" if "y \<in> set (tb_rows tb (w_db w))" for y
    using assms(1,3) that by (auto simp: insert_row_Inr)
  then show ?thesis using assms(2) insert_row_rows [OF assms(1)] by (auto simp: pairwise_insert)
qed

lemma update_rows_rows:
  "tb_rows tb (w_db (snd (update_rows tb p f w))) = map (\<lambda>r. if p r then f r else r) (tb_rows tb (w_db w))"
  by (simp add: update_rows_def rows_put)

end

interpretation users_laws: table_laws users_table by unfold_locales (simp_all add: users_table_def)
interpretation refresh_tokens_laws: table_laws refresh_tokens_table by unfold_locales (simp_all add: refresh_tokens_table_def)
interpretation targets_laws: table_laws targets_table by unfold_locales (simp_all add: targets_table_def)
interpretation target_credentials_laws: table_laws target_credentials_table by unfold_locales (simp_all add: target_credentials_table_def)
interpretation evaluation_mappings_laws: table_laws evaluation_mappings_table by unfold_locales (simp_all add: evaluation_mappings_table_def)
interpretation capability_snapshots_laws: table_laws capability_snapshots_table by unfold_locales (simp_all add: capability_snapshots_table_def)
interpretation namespaces_laws: table_laws namespaces_table by unfold_locales (simp_all add: namespaces_table_def)
interpretation query_shapes_laws: table_laws query_shapes_table by unfold_locales (simp_all add: query_shapes_table_def)
interpretation workload_snapshots_laws: table_laws workload_snapshots_table by unfold_locales (simp_all add: workload_snapshots_table_def)
interpretation snapshot_shapes_laws: table_laws snapshot_shapes_table by unfold_locales (simp_all add: snapshot_shapes_table_def)
interpretation ai_invocations_laws: table_laws ai_invocations_table by unfold_locales (simp_all add: ai_invocations_table_def)
interpretation diagnosis_artifacts_laws: table_laws diagnosis_artifacts_table by unfold_locales (simp_all add: diagnosis_artifacts_table_def)
interpretation diagnosis_findings_laws: table_laws diagnosis_findings_table by unfold_locales (simp_all add: diagnosis_findings_table_def)
interpretation runs_laws: table_laws runs_table by unfold_locales (simp_all add: runs_table_def)
interpretation candidates_laws: table_laws candidates_table by unfold_locales (simp_all add: candidates_table_def)
interpretation candidate_actions_laws: table_laws candidate_actions_table by unfold_locales (simp_all add: candidate_actions_table_def)
interpretation evaluation_runs_laws: table_laws evaluation_runs_table by unfold_locales (simp_all add: evaluation_runs_table_def)
interpretation trial_pairs_laws: table_laws trial_pairs_table by unfold_locales (simp_all add: trial_pairs_table_def)
interpretation trial_metrics_laws: table_laws trial_metrics_table by unfold_locales (simp_all add: trial_metrics_table_def)
interpretation admission_decisions_laws: table_laws admission_decisions_table by unfold_locales (simp_all add: admission_decisions_table_def)
interpretation generation_artifacts_laws: table_laws generation_artifacts_table by unfold_locales (simp_all add: generation_artifacts_table_def)
interpretation ranking_artifacts_laws: table_laws ranking_artifacts_table by unfold_locales (simp_all add: ranking_artifacts_table_def)
interpretation evaluation_plans_laws: table_laws evaluation_plans_table by unfold_locales (simp_all add: evaluation_plans_table_def)
interpretation admission_artifacts_laws: table_laws admission_artifacts_table by unfold_locales (simp_all add: admission_artifacts_table_def)
interpretation authority_decisions_laws: table_laws authority_decisions_table by unfold_locales (simp_all add: authority_decisions_table_def)
interpretation deployments_laws: table_laws deployments_table by unfold_locales (simp_all add: deployments_table_def)
interpretation settings_deployments_laws: table_laws settings_deployments_table by unfold_locales (simp_all add: settings_deployments_table_def)
interpretation approval_requests_laws: table_laws approval_requests_table by unfold_locales (simp_all add: approval_requests_table_def)
interpretation approval_decisions_laws: table_laws approval_decisions_table by unfold_locales (simp_all add: approval_decisions_table_def)
interpretation rollback_records_laws: table_laws rollback_records_table by unfold_locales (simp_all add: rollback_records_table_def)
interpretation experience_records_laws: table_laws experience_records_table by unfold_locales (simp_all add: experience_records_table_def)
interpretation jobs_laws: table_laws jobs_table by unfold_locales (simp_all add: jobs_table_def)
interpretation audit_events_laws: table_laws audit_events_table by unfold_locales (simp_all add: audit_events_table_def)
interpretation production_ledger_laws: table_laws production_ledger_table by unfold_locales (simp_all add: production_ledger_table_def)
interpretation recovery_laws: table_laws recovery_table by unfold_locales (simp_all add: recovery_table_def)

subsection \<open>Evaluation\<close>

lemma now_apply [oper_simps]: "now w = (Inr (w_clock w (w_reads w)), tick w)"
  by (simp add: now_def)

lemma uuid4_apply [oper_simps]: "uuid4 w = (Inr (w_uuids w (w_reads w)), tick w)"
  by (simp add: uuid4_def)

lemma ensure_lease_owned_apply [oper_simps]:
  "ensure_lease_owned w = (if w_lease_lost w (w_reads w) then Inl LeaseLostError else Inr (), tick w)"
  by (simp add: ensure_lease_owned_def)

lemma db_available_apply [oper_simps]:
  "db_available w = (if w_faults w (w_reads w) then Inl DatabaseUnavailable else Inr (), tick w)"
  by (simp add: db_available_def)

lemma select_rows_apply [oper_simps]: "select_rows tb p w = (Inr (filter p (tb_rows tb (w_db w))), w)"
  by (simp add: select_rows_def)

lemma select_one_apply [oper_simps]: "select_one tb p w = (one_or_none (filter p (tb_rows tb (w_db w))), w)"
  by (simp add: select_one_def bnd_apply select_rows_apply)

lemma update_rows_apply [oper_simps]:
  "update_rows tb p f w = (Inr (map f (filter p (tb_rows tb (w_db w)))),
     w\<lparr>w_db := tb_put tb (map (\<lambda>r. if p r then f r else r) (tb_rows tb (w_db w))) (w_db w)\<rparr>)"
  by (simp add: update_rows_def)

lemma on_world_target_apply [oper_simps]:
  "on_world_target m w = (fst (m (w_target w)), w\<lparr>w_target := snd (m (w_target w))\<rparr>)"
  by (simp add: on_world_target_def focus_apply)

lemmas world_apply = ret_apply raise_apply asks_apply update_apply lift_apply ensure_apply now_apply uuid4_apply
  ensure_lease_owned_apply db_available_apply select_rows_apply select_one_apply update_rows_apply on_world_target_apply

lemma tick_sel [simp]:
  "w_db (tick w) = w_db w" "w_clock (tick w) = w_clock w" "w_uuids (tick w) = w_uuids w" "w_faults (tick w) = w_faults w"
  "w_lease_lost (tick w) = w_lease_lost w" "w_reads (tick w) = Suc (w_reads w)" "w_advisory (tick w) = w_advisory w"
  "w_target (tick w) = w_target w"
  by (simp_all add: tick_def)

lemma tables_transaction_Inr_iff: "tables_transaction m w = (Inr a, w') \<longleftrightarrow> m w = (Inr a, w')"
  by (auto simp: tables_transaction_def split: prod.splits sum.splits)

lemma tables_transaction_Inl_iff:
  "tables_transaction m w = (Inl e, w') \<longleftrightarrow> (\<exists>v. m w = (Inl e, v) \<and> w' = v\<lparr>w_db := w_db w\<rparr>)"
  by (auto simp: tables_transaction_def split: prod.splits sum.splits)

text \<open>A block that returns ran on the tables it found; one that raises left them as they were.\<close>

lemma engine_begin_Inr:
  "engine_begin m w = (Inr a, w') \<longleftrightarrow> \<not> w_faults w (w_reads w) \<and> m (tick w) = (Inr a, w')"
  by (auto simp: engine_begin_def bnd_apply db_available_apply tables_transaction_Inr_iff)

lemma engine_begin_Inl: "engine_begin m w = (Inl e, w') \<Longrightarrow> w_db w' = w_db w"
  by (auto simp: engine_begin_def bnd_apply db_available_apply tables_transaction_Inl_iff split: if_splits)

lemma engine_connect_Inr:
  "engine_connect m w = (Inr a, w') \<longleftrightarrow> \<not> w_faults w (w_reads w) \<and> m (tick w) = (Inr a, w')"
  by (auto simp: engine_connect_def bnd_apply db_available_apply)

lemma the_one_Inr [simp]: "the_one rows = Inr r \<longleftrightarrow> rows = [r]"
  by (auto simp: the_one_def split: list.splits)

subsection \<open>Repositories\<close>

text \<open>
  \<open>create_in_transaction\<close>: the base columns are drawn first, the clock before the identifier; \<open>build\<close>
  is the row of the caller's columns.
\<close>

definition create_in_transaction :: "'r table \<Rightarrow> (string \<Rightarrow> int \<Rightarrow> 'r) \<Rightarrow> ('t world, 'r) oper" where
  "create_in_transaction tb build = bnd now (\<lambda>t. bnd uuid4 (\<lambda>i. insert_row tb (build i t)))"

definition create_row :: "'r table \<Rightarrow> (string \<Rightarrow> int \<Rightarrow> 'r) \<Rightarrow> ('t world, 'r) oper" where
  "create_row tb build = engine_begin (create_in_transaction tb build)"

definition get_row :: "('a timestamped_scheme) table \<Rightarrow> string \<Rightarrow> ('t world, 'a timestamped_scheme option) oper" where
  "get_row tb i = engine_connect (select_one tb (\<lambda>r. row_id r = i))"

definition list_rows :: "('a timestamped_scheme) table \<Rightarrow> ('t world, 'a timestamped_scheme list) oper" where
  "list_rows tb = engine_connect (bnd (select_rows tb (\<lambda>_. True)) (\<lambda>rows.
     ret (sort_key (\<lambda>r. (row_created_at r, row_id r)) rows)))"

definition delete_row :: "('a timestamped_scheme) table \<Rightarrow> string \<Rightarrow> ('t world, unit) oper" where
  "delete_row tb i = engine_begin (\<lambda>w.
     (Inr (), w\<lparr>w_db := tb_put tb (filter (\<lambda>r. row_id r \<noteq> i) (tb_rows tb (w_db w))) (w_db w)\<rparr>))"

text \<open>\<open>RecoveryRepository.checkpoint\<close>: the recovery journal is a sequence of audit events.\<close>

definition audit_event :: "string option \<Rightarrow> string option \<Rightarrow> string \<Rightarrow> json \<Rightarrow> string \<Rightarrow> int \<Rightarrow> audit_row" where
  "audit_event actor run_id ty payload = (\<lambda>i t. \<lparr>row_id = i, row_created_at = t, row_updated_at = Some t,
     ev_actor_user_id = actor, ev_optimization_run_id = run_id, ev_event_type = ty, ev_event_payload = payload\<rparr>)"

definition checkpoint :: "string \<Rightarrow> json \<Rightarrow> ('t world, audit_row) oper" where
  "checkpoint ty payload = create_row audit_events_table (audit_event None None ty payload)"

definition decide_request :: "string \<Rightarrow> string \<Rightarrow> string \<Rightarrow> string option \<Rightarrow> ('t world, approval_decision_row) oper" where
  "decide_request request_id decided_by decision reason = create_row approval_decisions_table
     (\<lambda>i t. \<lparr>row_id = i, row_created_at = t, row_updated_at = Some t, ay_approval_request_id = request_id,
        ay_decided_by_user_id = decided_by, ay_decision = decision, ay_reason = reason\<rparr>)"

end
