(* ===== verification/Runs.thy ===== *)
theory Runs
  imports World
begin

text \<open>
  \<open>RunRepository\<close> of \<open>backend/app/db/repositories.py\<close>: the one place where the orchestrator moves a
  persisted run, with the artifact each stage demands, shown to refine the in-memory machine of
  \<open>state_machine/optimization.py\<close>; and the invariant that every durable component keeps, that
  runs move only along the frozen graph.
\<close>

subsection \<open>Transitions\<close>

definition guard :: "run_row \<Rightarrow> optimization_state \<Rightarrow> optimization_state \<Rightarrow> optimization_state \<Rightarrow>
    ('t world, unit) oper \<Rightarrow> ('t world, unit) oper" where
  "guard row desired src dst check = (if rn_status row = src \<and> desired = dst then check else ret ())"

definition require_row :: "'r table \<Rightarrow> ('r \<Rightarrow> bool) \<Rightarrow> string \<Rightarrow> ('t world, unit) oper" where
  "require_row tb p msg = bnd (select_one tb p) (\<lambda>found. ensure (found \<noteq> None) (ValueError msg))"

definition generation_of_run :: "run_row \<Rightarrow> ('t world, generation_artifact_row option) oper" where
  "generation_of_run row = select_one generation_artifacts_table (\<lambda>a. ga_optimization_run_id a = row_id row)"

definition check_generation :: "run_row \<Rightarrow> ('t world, unit) oper" where
  "check_generation row = bnd (generation_of_run row) (\<lambda>found.
     ensure (\<exists>a. found = Some a \<and> 0 < ga_candidate_count a)
       (ValueError ''non-empty completed generation artifact is required before ranking''))"

definition check_evaluations :: "run_row \<Rightarrow> ('t world, unit) oper" where
  "check_evaluations row =
     bnd (select_one evaluation_plans_table (\<lambda>p. ep_optimization_run_id p = row_id row)) (\<lambda>found.
     case found of
       None \<Rightarrow> raise (ValueError ''durable evaluation plan is required before admission'')
     | Some plan \<Rightarrow>
         bnd (select_rows evaluation_runs_table
           (\<lambda>e. er_candidate_id e \<in> set (ep_selected_candidate_ids plan) \<and> er_status e = ''COMPLETED'')) (\<lambda>completed.
         ensure (set (map er_candidate_id completed) = set (ep_selected_candidate_ids plan))
           (ValueError ''all frozen evaluation candidates require completed durable evaluation evidence'')))"

definition check_selection :: "run_row \<Rightarrow> ('t world, unit) oper" where
  "check_selection row =
     bnd (select_one admission_artifacts_table (\<lambda>a. aa_optimization_run_id a = row_id row)) (\<lambda>found.
     ensure (\<exists>a. found = Some a \<and> aa_selected_candidate_id a \<noteq> None)
       (ValueError ''selected admitted candidate is required before admitted state''))"

text \<open>The stage checks, in the order of the source.\<close>

definition stage_checks :: "run_row \<Rightarrow> optimization_state \<Rightarrow> ('t world, unit) oper" where
  "stage_checks row desired =
     bnd (guard row desired SNAPSHOTTING DIAGNOSING
       (ensure (rn_workload_snapshot_id row \<noteq> None) (ValueError ''workload snapshot is required before diagnosis''))) (\<lambda>_.
     bnd (guard row desired DIAGNOSING GENERATING_CANDIDATES
       (require_row diagnosis_artifacts_table (\<lambda>a. di_optimization_run_id a = row_id row)
         ''durable diagnosis is required before candidate generation'')) (\<lambda>_.
     bnd (guard row desired RANKING CALIBRATING
       (ensure (rn_primary_metric_key row \<noteq> None) (ValueError ''primary metric is required before calibration''))) (\<lambda>_.
     bnd (guard row desired GENERATING_CANDIDATES RANKING (check_generation row)) (\<lambda>_.
     bnd (guard row desired RANKING CALIBRATING
       (require_row ranking_artifacts_table (\<lambda>a. ra_optimization_run_id a = row_id row)
         ''durable candidate ranking is required before calibration'')) (\<lambda>_.
     bnd (guard row desired CALIBRATING EVALUATING
       (require_row evaluation_plans_table (\<lambda>a. ep_optimization_run_id a = row_id row)
         ''durable evaluation plan is required before evaluation'')) (\<lambda>_.
     bnd (guard row desired EVALUATING ADMISSION (check_evaluations row)) (\<lambda>_.
     guard row desired ADMISSION Lifecycle.ADMITTED (check_selection row))))))))"

definition check_empty_generation :: "run_row \<Rightarrow> run_completion_reason \<Rightarrow> ('t world, unit) oper" where
  "check_empty_generation row reason = bnd (generation_of_run row) (\<lambda>found.
     ensure ((\<exists>a. found = Some a \<and> ga_candidate_count a = 0) \<and> reason = NO_CANDIDATES)
       (ValueError ''zero-candidate completion requires a completed empty generation artifact''))"

definition check_no_admission :: "run_row \<Rightarrow> run_completion_reason \<Rightarrow> ('t world, unit) oper" where
  "check_no_admission row reason =
     bnd (select_one admission_artifacts_table (\<lambda>a. aa_optimization_run_id a = row_id row)) (\<lambda>found.
     ensure ((\<exists>a. found = Some a \<and> aa_admitted_candidate_ids a = []) \<and> reason = NO_ADMITTED_CANDIDATE)
       (ValueError ''no-admission completion requires an empty durable admission artifact''))"

definition completion_checks ::
  "run_row \<Rightarrow> optimization_state \<Rightarrow> run_completion_reason option \<Rightarrow> ('t world, unit) oper" where
  "completion_checks row desired reason =
     (if desired = COMPLETED then
        (case reason of
           None \<Rightarrow> raise (ValueError ''completed runs require a completion reason'')
         | Some why \<Rightarrow>
             bnd (guard row COMPLETED GENERATING_CANDIDATES COMPLETED (check_empty_generation row why)) (\<lambda>_.
             guard row COMPLETED ADMISSION COMPLETED (check_no_admission row why)))
      else ensure (reason = None) (ValueError ''completion reason is valid only for completed runs''))"

definition set_status :: "optimization_state \<Rightarrow> run_completion_reason option \<Rightarrow> int \<Rightarrow> run_row \<Rightarrow> run_row" where
  "set_status st reason t r = r\<lparr>rn_status := st, rn_completion_reason := reason, row_updated_at := Some t\<rparr>"

definition move_run :: "run_row \<Rightarrow> optimization_state \<Rightarrow> run_completion_reason option \<Rightarrow> ('t world, run_row) oper" where
  "move_run row desired reason =
     bnd now (\<lambda>t.
     bnd (update_rows runs_table (\<lambda>r. row_id r = row_id row) (set_status desired reason t)) (\<lambda>rows.
     lift (the_one rows)))"

definition run_transition ::
  "string \<Rightarrow> optimization_state \<Rightarrow> run_completion_reason option \<Rightarrow> ('t world, run_row) oper" where
  "run_transition run_id desired reason = engine_begin (
     bnd (select_one runs_table (\<lambda>r. row_id r = run_id)) (\<lambda>found.
     case found of
       None \<Rightarrow> raise (ValueError ''optimization run does not exist'')
     | Some row \<Rightarrow>
         bnd (lift (validate_transition (rn_status row) desired)) (\<lambda>_.
         bnd (stage_checks row desired) (\<lambda>_.
         bnd (completion_checks row desired reason) (\<lambda>_.
         move_run row desired reason)))))"

definition attach_workload_snapshot :: "string \<Rightarrow> string \<Rightarrow> ('t world, run_row) oper" where
  "attach_workload_snapshot run_id snapshot_id = engine_begin (
     bnd (select_one runs_table (\<lambda>r. row_id r = run_id)) (\<lambda>run.
     bnd (select_one workload_snapshots_table (\<lambda>s. row_id s = snapshot_id)) (\<lambda>snapshot.
     case (run, snapshot) of
       (Some r, Some s) \<Rightarrow>
         if rn_status r \<noteq> SNAPSHOTTING \<or> rn_workload_snapshot_id r \<noteq> None
         then raise (ValueError ''workload snapshot cannot be attached in the current lifecycle state'')
         else if wn_target_id s \<noteq> rn_target_id r
         then raise (ValueError ''workload snapshot target does not match optimization run target'')
         else bnd now (\<lambda>t.
           bnd (update_rows runs_table (\<lambda>x. row_id x = row_id r)
             (\<lambda>x. x\<lparr>rn_workload_snapshot_id := Some (row_id s), row_updated_at := Some t\<rparr>)) (\<lambda>rows.
           lift (the_one rows)))
     | _ \<Rightarrow> raise (ValueError ''run or workload snapshot does not exist''))))"

subsection \<open>What the checks leave alone\<close>

lemma guard_pure: "snd (check w) = w \<Longrightarrow> snd (guard row d a b check w) = w"
  by (simp add: guard_def)

lemma require_row_pure: "snd (require_row tb p msg w) = w"
  by (simp add: require_row_def bnd_apply select_one_apply split: sum.split)

lemma checks_pure:
  "snd (check_generation row w) = w" "snd (check_evaluations row w) = w" "snd (check_selection row w) = w"
  "snd (check_empty_generation row why w) = w" "snd (check_no_admission row why w) = w"
  by (simp_all add: check_generation_def check_evaluations_def check_selection_def check_empty_generation_def
      check_no_admission_def generation_of_run_def bnd_apply select_one_apply select_rows_apply split: sum.split option.split)

lemma bnd_pure: "snd (m w) = w \<Longrightarrow> (\<And>a. snd (f a w) = w) \<Longrightarrow> snd (bnd m f w) = w"
  by (cases "m w") (auto simp: bnd_apply split: sum.split)

lemma stage_checks_pure: "snd (stage_checks row desired w) = w"
  unfolding stage_checks_def
  by (intro bnd_pure guard_pure checks_pure require_row_pure) simp_all

lemma completion_checks_pure: "snd (completion_checks row desired reason w) = w"
  unfolding completion_checks_def
  by (auto intro!: bnd_pure guard_pure checks_pure split: option.split)

subsection \<open>Frame rules\<close>

text \<open>What every operation on the database leaves alone: the target, the locks and the environment.\<close>

definition same_outside :: "'t world \<Rightarrow> 't world \<Rightarrow> bool" where
  "same_outside w w' \<longleftrightarrow> w_target w' = w_target w \<and> w_advisory w' = w_advisory w \<and> w_clock w' = w_clock w \<and>
     w_uuids w' = w_uuids w \<and> w_faults w' = w_faults w \<and> w_lease_lost w' = w_lease_lost w \<and> w_reads w \<le> w_reads w'"

lemma same_outside_refl [simp]: "same_outside w w"
  by (simp add: same_outside_def)

lemma same_outside_trans: "same_outside a b \<Longrightarrow> same_outside b c \<Longrightarrow> same_outside a c"
  by (simp add: same_outside_def)

lemma same_outside_tick [simp]: "same_outside w (tick w)"
  by (simp add: same_outside_def)

lemma same_outside_db [simp]: "same_outside w (w\<lparr>w_db := d\<rparr>)"
  by (simp add: same_outside_def)

named_theorems frames \<open>operations keep what the relation relates\<close>

lemma frame_bnd [frames]:
  assumes "keeps same_outside m" and "\<And>a. keeps same_outside (f a)"
  shows "keeps same_outside (bnd m f)"
  using assms by (intro keeps_bnd transpI) (auto intro: same_outside_trans)

lemma frame_basic [frames]:
  "keeps same_outside (ret a)" "keeps same_outside (raise e)" "keeps same_outside (ensure b e)" "keeps same_outside (lift res)"
  "keeps same_outside (asks h)" "keeps same_outside now" "keeps same_outside uuid4" "keeps same_outside ensure_lease_owned"
  "keeps same_outside db_available" "keeps same_outside (select_rows tb p)" "keeps same_outside (select_one tb p)"
  "keeps same_outside (insert_row tb r)" "keeps same_outside (update_rows tb p g)"
  by (simp_all add: keeps_def oper_simps insert_row_def)

lemma frame_tables [frames]: "keeps same_outside m \<Longrightarrow> keeps same_outside (tables_transaction m)"
  by (simp add: keeps_def tables_transaction_def same_outside_def split: prod.split sum.split) (metis snd_conv)

lemma frame_engine [frames]:
  "keeps same_outside m \<Longrightarrow> keeps same_outside (engine_begin m)"
  "keeps same_outside m \<Longrightarrow> keeps same_outside (engine_connect m)"
  by (simp_all add: engine_begin_def engine_connect_def frames)

lemma frame_create [frames]: "keeps same_outside (create_in_transaction tb b)" "keeps same_outside (create_row tb b)"
  "keeps same_outside (get_row tb' i)"
  by (simp_all add: create_in_transaction_def create_row_def get_row_def frames)

lemma frame_guard [frames]: "keeps same_outside c \<Longrightarrow> keeps same_outside (guard row d a b c)"
  by (simp add: guard_def frames)

lemma frame_if [frames]: "keeps same_outside a \<Longrightarrow> keeps same_outside b \<Longrightarrow> keeps same_outside (if P then a else b)"
  by simp

lemma frame_option [frames]:
  "keeps same_outside a \<Longrightarrow> (\<And>x. keeps same_outside (b x)) \<Longrightarrow> keeps same_outside (case v of None \<Rightarrow> a | Some x \<Rightarrow> b x)"
  by (cases v) simp_all

lemma pure_frame: "(\<And>w. snd (m w) = w) \<Longrightarrow> keeps same_outside m"
  by (simp add: keeps_def)

lemma frame_move_run [frames]: "keeps same_outside (move_run row d reason)"
  by (simp add: move_run_def frames)

lemma frame_run_transition [frames]: "keeps same_outside (run_transition i d reason)"
  unfolding run_transition_def
  by (intro frames) (simp_all add: pure_frame stage_checks_pure completion_checks_pure)

subsection \<open>The transition, and what it demands\<close>

definition stage_evidence :: "db \<Rightarrow> run_row \<Rightarrow> optimization_state \<Rightarrow> bool" where
  "stage_evidence d row n \<longleftrightarrow>
     (n = DIAGNOSING \<longrightarrow> rn_workload_snapshot_id row \<noteq> None) \<and>
     (n = GENERATING_CANDIDATES \<longrightarrow> (\<exists>a\<in>set (db_diagnosis_artifacts d). di_optimization_run_id a = row_id row)) \<and>
     (n = RANKING \<longrightarrow> (\<exists>a\<in>set (db_generation_artifacts d). ga_optimization_run_id a = row_id row \<and> 0 < ga_candidate_count a)) \<and>
     (n = CALIBRATING \<longrightarrow> rn_primary_metric_key row \<noteq> None \<and>
        (\<exists>a\<in>set (db_ranking_artifacts d). ra_optimization_run_id a = row_id row)) \<and>
     (n = EVALUATING \<longrightarrow> (\<exists>p\<in>set (db_evaluation_plans d). ep_optimization_run_id p = row_id row)) \<and>
     (n = ADMISSION \<longrightarrow> (\<exists>p\<in>set (db_evaluation_plans d). ep_optimization_run_id p = row_id row \<and>
        (\<forall>c\<in>set (ep_selected_candidate_ids p). \<exists>e\<in>set (db_evaluation_runs d). er_candidate_id e = c \<and> er_status e = ''COMPLETED''))) \<and>
     (n = Lifecycle.ADMITTED \<longrightarrow> (\<exists>a\<in>set (db_admission_artifacts d). aa_optimization_run_id a = row_id row \<and>
        aa_selected_candidate_id a \<noteq> None))"

lemma filter_one: "filter p xs = [x] \<Longrightarrow> x \<in> set xs \<and> p x"
  by (metis (mono_tags, lifting) filter_set list.set_intros(1) mem_Collect_eq set_filter)

lemma require_row_Inr: "require_row tb p msg w = (Inr u, w') \<Longrightarrow> \<exists>a\<in>set (tb_rows tb (w_db w)). p a"
  by (auto simp: require_row_def bnd_apply select_one_apply split: sum.splits if_splits dest!: filter_one)

lemma check_generation_Inr:
  "check_generation row w = (Inr u, w') \<Longrightarrow>
     \<exists>a\<in>set (db_generation_artifacts (w_db w)). ga_optimization_run_id a = row_id row \<and> 0 < ga_candidate_count a"
  by (auto simp: check_generation_def generation_of_run_def bnd_apply select_one_apply generation_artifacts_table_def
      split: sum.splits if_splits dest!: filter_one)

lemma check_evaluations_Inr:
  "check_evaluations row w = (Inr u, w') \<Longrightarrow>
     \<exists>p\<in>set (db_evaluation_plans (w_db w)). ep_optimization_run_id p = row_id row \<and>
       (\<forall>c\<in>set (ep_selected_candidate_ids p). \<exists>e\<in>set (db_evaluation_runs (w_db w)). er_candidate_id e = c \<and> er_status e = ''COMPLETED'')"
proof -
  assume run: "check_evaluations row w = (Inr u, w')"
  obtain plan where plan: "filter (\<lambda>p. ep_optimization_run_id p = row_id row) (db_evaluation_plans (w_db w)) = [plan]"
    and eq: "set (map er_candidate_id (filter (\<lambda>e. er_candidate_id e \<in> set (ep_selected_candidate_ids plan) \<and>
        er_status e = ''COMPLETED'') (db_evaluation_runs (w_db w)))) = set (ep_selected_candidate_ids plan)"
    using run by (auto simp: check_evaluations_def bnd_apply select_one_apply select_rows_apply evaluation_plans_table_def
        evaluation_runs_table_def split: sum.splits if_splits option.splits)
  have "\<exists>e\<in>set (db_evaluation_runs (w_db w)). er_candidate_id e = c \<and> er_status e = ''COMPLETED''"
    if "c \<in> set (ep_selected_candidate_ids plan)" for c
  proof -
    from that have "c \<in> set (map er_candidate_id (filter (\<lambda>e. er_candidate_id e \<in> set (ep_selected_candidate_ids plan) \<and>
        er_status e = ''COMPLETED'') (db_evaluation_runs (w_db w))))" by (simp only: eq)
    then show ?thesis by auto
  qed
  then show ?thesis using filter_one [OF plan] by blast
qed

lemma check_selection_Inr:
  "check_selection row w = (Inr u, w') \<Longrightarrow>
     \<exists>a\<in>set (db_admission_artifacts (w_db w)). aa_optimization_run_id a = row_id row \<and> aa_selected_candidate_id a \<noteq> None"
  by (auto simp: check_selection_def bnd_apply select_one_apply admission_artifacts_table_def
      split: sum.splits if_splits dest!: filter_one)

lemma pure_step: "snd (m w) = w \<Longrightarrow> bnd m f w = (Inr a, w') \<longleftrightarrow> (\<exists>u. m w = (Inr u, w) \<and> f u w = (Inr a, w'))"
  by (cases "m w") (auto simp: bnd_Inr_iff)

lemma guard_Inr: "guard row n a b c w = (Inr u, w') \<Longrightarrow> rn_status row = a \<Longrightarrow> n = b \<Longrightarrow> c w = (Inr u, w')"
  by (simp add: guard_def)

lemma ensure_InrD: "ensure b e w = (Inr u, w') \<Longrightarrow> b"
  by (simp split: if_splits)

lemma predecessor:
  assumes "n \<in> set (next_states s)"
  shows "n = DIAGNOSING \<Longrightarrow> s = SNAPSHOTTING" "n = GENERATING_CANDIDATES \<Longrightarrow> s = DIAGNOSING"
    "n = RANKING \<Longrightarrow> s = GENERATING_CANDIDATES" "n = CALIBRATING \<Longrightarrow> s = RANKING" "n = EVALUATING \<Longrightarrow> s = CALIBRATING"
    "n = ADMISSION \<Longrightarrow> s = EVALUATING" "n = Lifecycle.ADMITTED \<Longrightarrow> s = ADMISSION"
  using assms by (cases s; simp)+

lemma stage_checks_Inr:
  assumes run: "stage_checks row n w = (Inr u, w')" and edge: "n \<in> set (next_states (rn_status row))"
  shows "stage_evidence (w_db w) row n"
proof -
  note pures = guard_pure checks_pure require_row_pure
  from run obtain u1 u2 u3 u4 u5 u6 u7 where
    g: "guard row n SNAPSHOTTING DIAGNOSING
         (ensure (rn_workload_snapshot_id row \<noteq> None) (ValueError ''workload snapshot is required before diagnosis'')) w = (Inr u1, w)"
      "guard row n DIAGNOSING GENERATING_CANDIDATES (require_row diagnosis_artifacts_table
         (\<lambda>a. di_optimization_run_id a = row_id row) ''durable diagnosis is required before candidate generation'') w = (Inr u2, w)"
      "guard row n RANKING CALIBRATING
         (ensure (rn_primary_metric_key row \<noteq> None) (ValueError ''primary metric is required before calibration'')) w = (Inr u3, w)"
      "guard row n GENERATING_CANDIDATES RANKING (check_generation row) w = (Inr u4, w)"
      "guard row n RANKING CALIBRATING (require_row ranking_artifacts_table (\<lambda>a. ra_optimization_run_id a = row_id row)
         ''durable candidate ranking is required before calibration'') w = (Inr u5, w)"
      "guard row n CALIBRATING EVALUATING (require_row evaluation_plans_table (\<lambda>a. ep_optimization_run_id a = row_id row)
         ''durable evaluation plan is required before evaluation'') w = (Inr u6, w)"
      "guard row n EVALUATING ADMISSION (check_evaluations row) w = (Inr u7, w)"
      "guard row n ADMISSION Lifecycle.ADMITTED (check_selection row) w = (Inr u, w')"
    unfolding stage_checks_def by (simp add: pure_step pures)
  note p = predecessor [OF edge]
  show ?thesis
    unfolding stage_evidence_def
    using guard_Inr [OF g(1), THEN ensure_InrD] guard_Inr [OF g(2), THEN require_row_Inr] guard_Inr [OF g(3), THEN ensure_InrD]
      guard_Inr [OF g(4), THEN check_generation_Inr] guard_Inr [OF g(5), THEN require_row_Inr]
      guard_Inr [OF g(6), THEN require_row_Inr] guard_Inr [OF g(7), THEN check_evaluations_Inr]
      guard_Inr [OF g(8), THEN check_selection_Inr] p
    by (simp add: diagnosis_artifacts_table_def ranking_artifacts_table_def evaluation_plans_table_def)
qed

lemma completion_checks_Inr:
  assumes "completion_checks row n reason w = (Inr u, w')"
  shows "(n = COMPLETED \<longleftrightarrow> reason \<noteq> None)"
  using assms by (auto simp: completion_checks_def split: if_splits option.splits)

text \<open>The effect of a transition that succeeds.\<close>

definition moved :: "string \<Rightarrow> optimization_state \<Rightarrow> run_completion_reason option \<Rightarrow> int \<Rightarrow> db \<Rightarrow> db" where
  "moved i n reason t d =
     d\<lparr>db_runs := map (\<lambda>r. if row_id r = i then set_status n reason t r else r) (db_runs d)\<rparr>"

lemma move_run_Inr:
  assumes "filter (\<lambda>r. row_id r = row_id row) (db_runs (w_db w)) = [row]"
  shows "move_run row n reason w = (Inr x, w') \<longleftrightarrow>
    x = set_status n reason (w_clock w (w_reads w)) row \<and>
    w' = (tick w)\<lparr>w_db := moved (row_id row) n reason (w_clock w (w_reads w)) (w_db w)\<rparr>"
  using assms by (auto simp: move_run_def bnd_apply oper_simps runs_table_def moved_def)

lemma run_transition_spec:
  assumes "run_transition i n reason w = (Inr x, w')"
  shows "\<exists>row t. filter (\<lambda>r. row_id r = i) (db_runs (w_db w)) = [row] \<and> n \<in> set (next_states (rn_status row)) \<and>
     stage_evidence (w_db w) row n \<and> (n = COMPLETED \<longleftrightarrow> reason \<noteq> None) \<and> x = set_status n reason t row \<and>
     w_db w' = moved i n reason t (w_db w)"
proof -
  let ?w = "tick w"
  from assms obtain row u1 w1 where row: "filter (\<lambda>r. row_id r = i) (db_runs (w_db w)) = [row]"
    and edge: "n \<in> set (next_states (rn_status row))"
    and s: "stage_checks row n ?w = (Inr u1, w1)"
    and rest: "bnd (completion_checks row n reason) (\<lambda>_. move_run row n reason) w1 = (Inr x, w')"
    by (auto simp: run_transition_def engine_begin_Inr bnd_apply [of "select_one runs_table (\<lambda>r. row_id r = i)"]
        select_one_apply runs_table_def bnd_Inr_iff validate_transition_def split: sum.splits option.splits if_splits)
  have w1: "w1 = ?w" using stage_checks_pure [of row n ?w] s by simp
  from rest obtain u2 where c: "completion_checks row n reason ?w = (Inr u2, ?w)" and m: "move_run row n reason ?w = (Inr x, w')"
    unfolding w1 pure_step [OF completion_checks_pure] by blast
  have id: "row_id row = i" using filter_one [OF row] by simp
  have mv: "x = set_status n reason (w_clock w (Suc (w_reads w))) row \<and>
      w_db w' = moved i n reason (w_clock w (Suc (w_reads w))) (w_db w)"
    using m row by (subst (asm) move_run_Inr) (auto simp: id)
  show ?thesis
    using row edge stage_checks_Inr [OF s edge] completion_checks_Inr [OF c] mv by auto
qed

lemma run_transition_fails: "run_transition i n reason w = (Inl e, w') \<Longrightarrow> w_db w' = w_db w"
  by (simp add: run_transition_def engine_begin_Inl)

subsection \<open>How the database may evolve\<close>

text \<open>
  What every durable component keeps: no run disappears or changes its target, a run's status moves
  along the frozen graph, and the tables of evidence only grow at their end.
\<close>

definition lifecycle_reach :: "optimization_state \<Rightarrow> optimization_state \<Rightarrow> bool" where
  "lifecycle_reach = (\<lambda>s t. t \<in> set (next_states s))\<^sup>*\<^sup>*"

definition run_moves :: "db \<Rightarrow> db \<Rightarrow> bool" where
  "run_moves d d' \<longleftrightarrow> (\<forall>r\<in>set (db_runs d). \<exists>r'\<in>set (db_runs d').
     row_id r' = row_id r \<and> rn_target_id r' = rn_target_id r \<and> lifecycle_reach (rn_status r) (rn_status r'))"

definition evidence_grows :: "db \<Rightarrow> db \<Rightarrow> bool" where
  "evidence_grows d d' \<longleftrightarrow>
     prefix (db_production_ledger d) (db_production_ledger d') \<and> prefix (db_audit_events d) (db_audit_events d') \<and>
     prefix (db_authority_decisions d) (db_authority_decisions d') \<and>
     prefix (db_approval_decisions d) (db_approval_decisions d') \<and>
     prefix (db_generation_artifacts d) (db_generation_artifacts d') \<and>
     prefix (db_ranking_artifacts d) (db_ranking_artifacts d') \<and>
     prefix (db_evaluation_plans d) (db_evaluation_plans d') \<and>
     prefix (db_admission_artifacts d) (db_admission_artifacts d') \<and>
     prefix (db_diagnosis_artifacts d) (db_diagnosis_artifacts d') \<and>
     prefix (db_ai_invocations d) (db_ai_invocations d')"

definition db_evolves :: "db \<Rightarrow> db \<Rightarrow> bool" where
  "db_evolves d d' \<longleftrightarrow> run_moves d d' \<and> evidence_grows d d'"

definition evolves :: "'t world \<Rightarrow> 't world \<Rightarrow> bool" where
  "evolves w w' \<longleftrightarrow> db_evolves (w_db w) (w_db w')"

lemma lifecycle_reach_refl [simp]: "lifecycle_reach s s"
  by (simp add: lifecycle_reach_def)

lemma lifecycle_reach_edge: "t \<in> set (next_states s) \<Longrightarrow> lifecycle_reach s t"
  by (auto simp: lifecycle_reach_def)

lemma lifecycle_reach_trans: "lifecycle_reach a b \<Longrightarrow> lifecycle_reach b c \<Longrightarrow> lifecycle_reach a c"
  by (simp add: lifecycle_reach_def)

lemma run_moves_refl [simp]: "run_moves d d"
  by (auto simp: run_moves_def)

lemma run_moves_same: "db_runs d' = db_runs d \<Longrightarrow> run_moves d d'"
  by (auto simp: run_moves_def)

lemma run_moves_trans:
  assumes "run_moves a b" and "run_moves b c"
  shows "run_moves a c"
  unfolding run_moves_def
proof
  fix r assume "r \<in> set (db_runs a)"
  then obtain r' where r': "r' \<in> set (db_runs b)" "row_id r' = row_id r" "rn_target_id r' = rn_target_id r"
      "lifecycle_reach (rn_status r) (rn_status r')" using assms(1) unfolding run_moves_def by metis
  then obtain r'' where "r'' \<in> set (db_runs c)" "row_id r'' = row_id r'" "rn_target_id r'' = rn_target_id r'"
      "lifecycle_reach (rn_status r') (rn_status r'')" using assms(2) unfolding run_moves_def by metis
  then show "\<exists>r'\<in>set (db_runs c). row_id r' = row_id r \<and> rn_target_id r' = rn_target_id r \<and>
      lifecycle_reach (rn_status r) (rn_status r')"
    using r' by (metis lifecycle_reach_trans)
qed

lemma run_moves_append: "run_moves d (d\<lparr>db_runs := db_runs d @ rs\<rparr>)"
  by (auto simp: run_moves_def)

lemma run_moves_moved:
  assumes "filter (\<lambda>r. row_id r = i) (db_runs d) = [row]" and "n \<in> set (next_states (rn_status row))"
  shows "run_moves d (moved i n reason t d)"
  unfolding run_moves_def
proof
  fix r assume r: "r \<in> set (db_runs d)"
  let ?r = "if row_id r = i then set_status n reason t r else r"
  have "?r \<in> set (db_runs (moved i n reason t d))" using r by (auto simp: moved_def)
  moreover have "row_id ?r = row_id r \<and> rn_target_id ?r = rn_target_id r" by (simp add: set_status_def)
  moreover have "lifecycle_reach (rn_status r) (rn_status ?r)"
  proof (cases "row_id r = i")
    case True
    then have "r \<in> set (filter (\<lambda>r. row_id r = i) (db_runs d))" using r by simp
    then have "r = row" using assms(1) by simp
    then show ?thesis using True assms(2) by (simp add: set_status_def lifecycle_reach_edge)
  qed simp
  ultimately show "\<exists>r'\<in>set (db_runs (moved i n reason t d)). row_id r' = row_id r \<and> rn_target_id r' = rn_target_id r \<and>
      lifecycle_reach (rn_status r) (rn_status r')" by blast
qed

lemma evidence_grows_refl [simp]: "evidence_grows d d"
  by (simp add: evidence_grows_def)

lemma evidence_grows_trans: "evidence_grows a b \<Longrightarrow> evidence_grows b c \<Longrightarrow> evidence_grows a c"
  unfolding evidence_grows_def by (meson prefix_order.trans)

lemma db_evolves_refl [simp]: "db_evolves d d"
  by (simp add: db_evolves_def)

lemma db_evolves_trans: "db_evolves a b \<Longrightarrow> db_evolves b c \<Longrightarrow> db_evolves a c"
  unfolding db_evolves_def using run_moves_trans evidence_grows_trans by blast

lemma world_evolves_refl [simp]: "evolves w w"
  by (simp add: evolves_def)

lemma world_evolves_trans: "evolves a b \<Longrightarrow> evolves b c \<Longrightarrow> evolves a c"
  unfolding evolves_def by (rule db_evolves_trans)

named_theorems evolution \<open>operations under which the database evolves\<close>

lemma evolution_bnd [evolution]:
  assumes "keeps evolves m" and "\<And>a. keeps evolves (f a)"
  shows "keeps evolves (bnd m f)"
  using assms by (intro keeps_bnd transpI) (auto intro: world_evolves_trans)

lemma evolution_pure: "(\<And>w. w_db (snd (m w)) = w_db w) \<Longrightarrow> keeps evolves m"
  by (simp add: keeps_def evolves_def)

lemma evolution_basic [evolution]:
  "keeps evolves (ret a)" "keeps evolves (raise e)" "keeps evolves (ensure b e)" "keeps evolves (lift res)"
  "keeps evolves (asks h)" "keeps evolves now" "keeps evolves uuid4" "keeps evolves ensure_lease_owned"
  "keeps evolves db_available" "keeps evolves (select_rows tb p)" "keeps evolves (select_one tb p)"
  "keeps evolves (on_world_target m)"
  by (rule evolution_pure; simp add: oper_simps split: prod.split)+

lemma evolution_if [evolution]: "keeps evolves a \<Longrightarrow> keeps evolves b \<Longrightarrow> keeps evolves (if P then a else b)"
  by simp

lemma evolution_option [evolution]:
  "keeps evolves a \<Longrightarrow> (\<And>x. keeps evolves (b x)) \<Longrightarrow> keeps evolves (case v of None \<Rightarrow> a | Some x \<Rightarrow> b x)"
  by (cases v) simp_all

lemma evolution_case_prod [evolution]: "(\<And>x y. keeps evolves (f x y)) \<Longrightarrow> keeps evolves (case p of (x, y) \<Rightarrow> f x y)"
  by (cases p) simp

lemma evolution_tables [evolution]:
  assumes "keeps evolves m"
  shows "keeps evolves (tables_transaction m)"
proof -
  have "db_evolves (w_db w) (w_db (snd (m w)))" for w using assms by (simp add: keeps_def evolves_def)
  then show ?thesis
    by (simp add: keeps_def evolves_def tables_transaction_def split: prod.split sum.split) (metis snd_conv)
qed

lemma evolution_engine [evolution]:
  "keeps evolves m \<Longrightarrow> keeps evolves (engine_begin m)" "keeps evolves m \<Longrightarrow> keeps evolves (engine_connect m)"
  by (simp_all add: engine_begin_def engine_connect_def evolution)

lemma evolution_catching [evolution]:
  assumes "keeps evolves m" and "\<And>e. keeps evolves (h e)"
  shows "keeps evolves (catching m h)"
  unfolding keeps_def
proof
  fix w
  show "evolves w (snd (catching m h w))"
  proof (cases "m w")
    case (Pair r w')
    then have "evolves w w'" using assms(1) by (metis keeps_def snd_conv)
    moreover have "evolves w' (snd (h e w'))" for e using assms(2) by (simp add: keeps_def)
    ultimately show ?thesis using Pair by (cases r) (auto simp: catching_apply intro: world_evolves_trans)
  qed
qed

text \<open>Inserting into any table is evolution; so is updating a table that is neither evidence nor the runs.\<close>

definition grows_by_insert :: "'r table \<Rightarrow> bool" where
  "grows_by_insert tb \<longleftrightarrow> (\<forall>d r. db_evolves d (tb_put tb (tb_rows tb d @ [r]) d))"

definition freely_updated :: "'r table \<Rightarrow> bool" where
  "freely_updated tb \<longleftrightarrow> (\<forall>d rs. db_evolves d (tb_put tb rs d))"

lemma evolution_insert: "grows_by_insert tb \<Longrightarrow> keeps evolves (insert_row tb r)"
  by (simp add: keeps_def insert_row_def grows_by_insert_def evolves_def)

lemma evolution_update: "freely_updated tb \<Longrightarrow> keeps evolves (update_rows tb p f)"
  by (simp add: keeps_def update_rows_def freely_updated_def evolves_def)

lemma freely_grows: "freely_updated tb \<Longrightarrow> grows_by_insert tb"
  by (simp add: freely_updated_def grows_by_insert_def)

lemma free_tables:
  "freely_updated jobs_table" "freely_updated candidates_table" "freely_updated candidate_actions_table"
  "freely_updated deployments_table" "freely_updated approval_requests_table" "freely_updated rollback_records_table"
  "freely_updated evaluation_runs_table" "freely_updated recovery_table" "freely_updated settings_deployments_table"
  "freely_updated trial_pairs_table" "freely_updated trial_metrics_table" "freely_updated admission_decisions_table"
  "freely_updated experience_records_table"
  by (simp_all add: freely_updated_def table_defs db_evolves_def evidence_grows_def run_moves_same)

lemma evidence_tables:
  "grows_by_insert production_ledger_table" "grows_by_insert audit_events_table" "grows_by_insert authority_decisions_table"
  "grows_by_insert approval_decisions_table" "grows_by_insert generation_artifacts_table" "grows_by_insert ranking_artifacts_table"
  "grows_by_insert evaluation_plans_table" "grows_by_insert admission_artifacts_table" "grows_by_insert diagnosis_artifacts_table"
  "grows_by_insert ai_invocations_table" "grows_by_insert runs_table"
  by (simp_all add: grows_by_insert_def table_defs db_evolves_def evidence_grows_def run_moves_same run_moves_append)

lemmas evolution_writes [evolution] =
  free_tables [THEN evolution_update] free_tables [THEN freely_grows, THEN evolution_insert]
  evidence_tables [THEN evolution_insert]

lemma evolution_create: "grows_by_insert tb \<Longrightarrow> keeps evolves (create_in_transaction tb b) \<and> keeps evolves (create_row tb b)"
  by (simp add: create_in_transaction_def create_row_def evolution evolution_insert)

lemma evolution_get [evolution]: "keeps evolves (get_row tb i)"
  by (simp add: get_row_def evolution)

lemma evolution_transition [evolution]: "keeps evolves (run_transition i n reason)"
  unfolding keeps_def
proof
  fix w
  show "evolves w (snd (run_transition i n reason w))"
  proof (cases "run_transition i n reason w")
    case (Pair r w')
    show ?thesis
    proof (cases r)
      case (Inl e)
      then show ?thesis using Pair run_transition_fails [of i n reason w e w'] by (simp add: evolves_def)
    next
      case (Inr x)
      then obtain row t where "filter (\<lambda>r. row_id r = i) (db_runs (w_db w)) = [row]" "n \<in> set (next_states (rn_status row))"
          "w_db w' = moved i n reason t (w_db w)"
        using Pair run_transition_spec [of i n reason w x w'] by blast
      then show ?thesis
        using Pair run_moves_moved [of i "w_db w" row n reason t]
        by (simp add: evolves_def db_evolves_def) (simp add: moved_def evidence_grows_def)
    qed
  qed
qed

lemma evolution_update_runs:
  assumes "\<And>r. row_id (f r) = row_id r \<and> rn_target_id (f r) = rn_target_id r \<and> rn_status (f r) = rn_status r"
  shows "keeps evolves (update_rows runs_table p f)"
proof -
  have "run_moves d (d\<lparr>db_runs := map (\<lambda>r. if p r then f r else r) (db_runs d)\<rparr>)" for d
    unfolding run_moves_def
  proof
    fix r assume "r \<in> set (db_runs d)"
    then have "(if p r then f r else r) \<in> set (db_runs (d\<lparr>db_runs := map (\<lambda>r. if p r then f r else r) (db_runs d)\<rparr>))"
      by simp
    then show "\<exists>r'\<in>set (db_runs (d\<lparr>db_runs := map (\<lambda>r. if p r then f r else r) (db_runs d)\<rparr>)).
        row_id r' = row_id r \<and> rn_target_id r' = rn_target_id r \<and> lifecycle_reach (rn_status r) (rn_status r')"
      by (rule bexI [rotated]) (simp add: assms)
  qed
  then show ?thesis
    by (simp add: keeps_def update_rows_def evolves_def db_evolves_def evidence_grows_def runs_table_def)
qed

lemma evolution_attach [evolution]: "keeps evolves (attach_workload_snapshot i j)"
  unfolding attach_workload_snapshot_def
  by (intro evolution) (auto intro!: evolution evolution_update_runs split: option.split)

subsection \<open>Properties\<close>

text \<open>
  C7. A persisted transition that succeeds is a step of the in-memory machine: any machine in the run's
  status accepts the same request and ends in the row's new status. Exactly that run changes, the
  durable evidence its new stage demands is in the database, a completion reason is given for
  completed runs and only for those. A transition that raises changes no table.
\<close>

theorem persisted_transition_refines_machine:
  assumes "run_transition i n reason w = (r, w')"
  shows "case r of
      Inl e \<Rightarrow> w_db w' = w_db w
    | Inr x \<Rightarrow> \<exists>row t. filter (\<lambda>r. row_id r = i) (db_runs (w_db w)) = [row] \<and> x = set_status n reason t row \<and>
        w_db w' = moved i n reason t (w_db w) \<and> stage_evidence (w_db w) row n \<and> (n = COMPLETED \<longleftrightarrow> reason \<noteq> None) \<and>
        (\<forall>m. sm_state m = rn_status row \<longrightarrow> fst (transition n m) = Inr n \<and> sm_state (snd (transition n m)) = rn_status x)"
proof (cases r)
  case (Inl e)
  then show ?thesis using assms run_transition_fails by auto
next
  case (Inr x)
  then obtain row t where h: "filter (\<lambda>r. row_id r = i) (db_runs (w_db w)) = [row]" "n \<in> set (next_states (rn_status row))"
      "stage_evidence (w_db w) row n" "(n = COMPLETED) = (reason \<noteq> None)" "x = set_status n reason t row"
      "w_db w' = moved i n reason t (w_db w)"
    using run_transition_spec [OF assms [unfolded Inr]] by (elim exE conjE) simp
  have "fst (transition n m) = Inr n \<and> sm_state (snd (transition n m)) = rn_status x" if "sm_state m = rn_status row" for m
    using that h(2,5) by (simp add: transition_apply set_status_def)
  then show ?thesis using Inr h by auto
qed

definition demo_run :: run_row where
  "demo_run = \<lparr>row_id = ''run1'', row_created_at = 0, row_updated_at = None, rn_target_id = ''t1'',
     rn_workload_snapshot_id = None, rn_status = CREATED, rn_requested_by_user_id = ''alice'',
     rn_deployment_mode = ''APPROVAL_CONTROLLED'', rn_primary_metric_key = Some ''latency'', rn_completion_reason = None\<rparr>"

definition world_of :: "db \<Rightarrow> 't \<Rightarrow> 't world" where
  "world_of d t = \<lparr>w_db = d, w_clock = int, w_uuids = nat_str, w_faults = (\<lambda>_. False), w_lease_lost = (\<lambda>_. False),
     w_reads = 0, w_advisory = [], w_target = t\<rparr>"

definition demo_db :: db where
  "demo_db = empty_db\<lparr>db_runs := [demo_run]\<rparr>"

theorem persisted_transition_refines_machine_witness:
  "\<exists>x w'. run_transition ''run1'' SNAPSHOTTING None (world_of demo_db ()) = (Inr x, w') \<and> rn_status x = SNAPSHOTTING \<and>
     fst (transition SNAPSHOTTING new_machine) = Inr SNAPSHOTTING"
proof -
  obtain x w' where run: "run_transition ''run1'' SNAPSHOTTING None (world_of demo_db ()) = (Inr x, w')"
    by (simp add: run_transition_def engine_begin_def world_of_def demo_db_def demo_run_def empty_db_def oper_simps runs_table_def
        tables_transaction_def stage_checks_def guard_def completion_checks_def move_run_def bnd_apply one_or_none_def
        validate_transition_def the_one_def)
  have m: "sm_state new_machine = rn_status demo_run" by (simp add: new_machine_def demo_run_def)
  have f: "filter (\<lambda>r. row_id r = ''run1'') (db_runs (w_db (world_of demo_db ()))) = [demo_run]"
    by (simp add: world_of_def demo_db_def demo_run_def)
  from persisted_transition_refines_machine [OF run]
  obtain row t where "row = demo_run" "x = set_status SNAPSHOTTING None t row"
      "fst (transition SNAPSHOTTING new_machine) = Inr SNAPSHOTTING"
    unfolding sum.case f using m by blast
  then show ?thesis using run by (simp add: set_status_def)
qed

end
