(* ===== verification/Jobs.thy ===== *)
theory Jobs
  imports Runs
begin

text \<open>
  \<open>backend/app/worker/durable.py\<close> and \<open>backend/app/runs/service.py\<close>: the job table as a queue with
  leases, its failure policy, the worker's single step, and the atomic creation of a run with its job.
  Rows that a concurrent transaction has locked (\<open>SKIP LOCKED\<close>) are an argument of \<open>claim\<close>. The
  heartbeat task that runs beside a handler is part of the handler, an arbitrary operation.
\<close>

subsection \<open>The queue\<close>

record job =
  jo_id :: string
  jo_optimization_run_id :: "string option"
  jo_kind :: string
  jo_payload :: json
  jo_attempts :: int

record job_repository =
  jr_lease_duration :: int
  jr_max_attempts :: int

definition default_job_repository :: job_repository where
  "default_job_repository = \<lparr>jr_lease_duration = 30, jr_max_attempts = 5\<rparr>"

definition OPTIMIZATION :: string where "OPTIMIZATION = ''OPTIMIZATION''"

definition pending_job :: "string \<Rightarrow> int \<Rightarrow> int \<Rightarrow> (string \<times> json) list \<Rightarrow> string option \<Rightarrow> string \<Rightarrow> job_row" where
  "pending_job i t available payload run_id kind = \<lparr>row_id = i, row_created_at = t, row_updated_at = Some t,
     jb_optimization_run_id = run_id, jb_payload = canon (JObj payload), jb_status = ''PENDING'', jb_lease_owner = None,
     jb_lease_expires_at = None, jb_heartbeat_at = None, jb_attempts = 0, jb_completed_at = None, jb_kind = kind,
     jb_available_at = available, jb_last_error_code = None, jb_failed_at = None\<rparr>"

text \<open>\<open>enqueue\<close> in the caller's transaction; \<open>available_at\<close> is the column's default, the server's clock.\<close>

definition enqueue_in :: "(string \<times> json) list \<Rightarrow> string option \<Rightarrow> string \<Rightarrow> ('t world, string) oper" where
  "enqueue_in payload run_id kind =
     bnd uuid4 (\<lambda>i. bnd now (\<lambda>t. bnd now (\<lambda>available.
     bnd (insert_row jobs_table (pending_job i t available payload run_id kind)) (\<lambda>_. ret i))))"

definition enqueue :: "(string \<times> json) list \<Rightarrow> string option \<Rightarrow> string \<Rightarrow> ('t world, string) oper" where
  "enqueue payload run_id kind =
     bnd uuid4 (\<lambda>i. bnd now (\<lambda>t.
     bnd (engine_begin (bnd now (\<lambda>available.
       insert_row jobs_table (pending_job i t available payload run_id kind)))) (\<lambda>_. ret i)))"

definition expired :: "int \<Rightarrow> job_row \<Rightarrow> bool" where
  "expired t j \<longleftrightarrow> (\<exists>e. jb_lease_expires_at j = Some e \<and> e \<le> t)"

definition claimable :: "int \<Rightarrow> string option \<Rightarrow> string list \<Rightarrow> job_row \<Rightarrow> bool" where
  "claimable t tag locked j \<longleftrightarrow>
     (jb_status j = ''PENDING'' \<and> jb_available_at j \<le> t \<or> jb_status j = ''RUNNING'' \<and> expired t j) \<and>
     (tag = None \<or> payload_text (jb_payload j) ''_queue_tag'' = tag) \<and> row_id j \<notin> set locked"

definition leased_to :: "job_repository \<Rightarrow> string \<Rightarrow> int \<Rightarrow> job_row \<Rightarrow> job_row" where
  "leased_to jr worker t j = j\<lparr>jb_status := ''RUNNING'', jb_lease_owner := Some worker,
     jb_lease_expires_at := Some (t + jr_lease_duration jr), jb_heartbeat_at := Some t, row_updated_at := Some t,
     jb_attempts := jb_attempts j + 1\<rparr>"

definition job_of :: "job_row \<Rightarrow> job" where
  "job_of j = \<lparr>jo_id = row_id j, jo_optimization_run_id = jb_optimization_run_id j, jo_kind = jb_kind j,
     jo_payload = jb_payload j, jo_attempts = jb_attempts j\<rparr>"

text \<open>\<open>ORDER BY created_at, id LIMIT 1\<close>\<close>

definition first_claimable :: "int \<Rightarrow> string option \<Rightarrow> string list \<Rightarrow> job_row list \<Rightarrow> job_row option" where
  "first_claimable t tag locked jobs =
     (case sort_key (\<lambda>j. (row_created_at j, row_id j)) (filter (claimable t tag locked) jobs) of
        [] \<Rightarrow> None | j # _ \<Rightarrow> Some j)"

definition claim :: "job_repository \<Rightarrow> string \<Rightarrow> string option \<Rightarrow> string list \<Rightarrow> ('t world, job option) oper" where
  "claim jr worker tag locked =
     bnd now (\<lambda>t. engine_begin (
     bnd (asks (\<lambda>w. first_claimable t tag locked (db_jobs (w_db w)))) (\<lambda>found.
     case found of
       None \<Rightarrow> ret None
     | Some c \<Rightarrow> bnd (update_rows jobs_table (\<lambda>j. row_id j = row_id c) (leased_to jr worker t)) (\<lambda>rows.
         bnd (lift (one_or_none rows)) (\<lambda>row. ret (map_option job_of row))))))"

definition is_ready :: "('t world, bool) oper" where
  "is_ready = engine_connect (ret True)"

definition owns :: "string \<Rightarrow> string \<Rightarrow> job_row \<Rightarrow> bool" where
  "owns i worker j \<longleftrightarrow> row_id j = i \<and> jb_status j = ''RUNNING'' \<and> jb_lease_owner j = Some worker"

definition heartbeat :: "job_repository \<Rightarrow> string \<Rightarrow> string \<Rightarrow> ('t world, bool) oper" where
  "heartbeat jr i worker =
     bnd now (\<lambda>t. engine_begin (
     bnd (update_rows jobs_table
       (\<lambda>j. owns i worker j \<and> (\<exists>e. jb_lease_expires_at j = Some e \<and> t < e))
       (\<lambda>j. j\<lparr>jb_heartbeat_at := Some t, jb_lease_expires_at := Some (t + jr_lease_duration jr), row_updated_at := Some t\<rparr>))
     (\<lambda>rows. ret (length rows = 1))))"

definition complete :: "string \<Rightarrow> string \<Rightarrow> ('t world, bool) oper" where
  "complete i worker =
     bnd now (\<lambda>t. engine_begin (
     bnd (update_rows jobs_table (owns i worker)
       (\<lambda>j. j\<lparr>jb_status := ''COMPLETED'', jb_completed_at := Some t, row_updated_at := Some t,
          jb_lease_owner := None, jb_lease_expires_at := None\<rparr>))
     (\<lambda>rows. ret (length rows = 1))))"

definition backoff_seconds :: "int \<Rightarrow> int" where
  "backoff_seconds attempt = min 16 (2 ^ nat (max 0 (attempt - 1)))"

definition failed_row :: "job_repository \<Rightarrow> job \<Rightarrow> string \<Rightarrow> bool \<Rightarrow> int \<Rightarrow> job_row \<Rightarrow> job_row" where
  "failed_row jr jo code permanent t j =
     (let final = permanent \<or> jr_max_attempts jr \<le> jo_attempts jo in
      j\<lparr>jb_status := (if final then ''FAILED'' else ''PENDING''), jb_last_error_code := Some (take 128 code),
        jb_failed_at := (if final then Some t else None),
        jb_available_at := (if final then jb_available_at j else t + backoff_seconds (jo_attempts jo)),
        jb_lease_owner := None, jb_lease_expires_at := None, row_updated_at := Some t\<rparr>)"

definition fail_job :: "job_repository \<Rightarrow> job \<Rightarrow> string \<Rightarrow> string \<Rightarrow> bool \<Rightarrow> ('t world, unit) oper" where
  "fail_job jr jo worker code permanent =
     bnd now (\<lambda>t.
     bnd (engine_begin (update_rows jobs_table (owns (jo_id jo) worker) (failed_row jr jo code permanent t))) (\<lambda>rows.
     ensure (length rows = 1) LeaseLostError))"

subsection \<open>One step of a worker\<close>

text \<open>\<open>type(error).__name__\<close>; a driver's exception carries its class name.\<close>

fun exn_name :: "exn \<Rightarrow> string" where
  "exn_name (ValueError _) = ''ValueError''"
| "exn_name (InvalidStateTransition _) = ''InvalidStateTransition''"
| "exn_name (KeyError _) = ''KeyError''"
| "exn_name (TypeError _) = ''TypeError''"
| "exn_name ZeroDivisionError = ''ZeroDivisionError''"
| "exn_name (ValidationError _) = ''ValidationError''"
| "exn_name MultipleResultsFound = ''MultipleResultsFound''"
| "exn_name NoResultFound = ''NoResultFound''"
| "exn_name (ApprovalRequired _) = ''ApprovalRequired''"
| "exn_name (DurableApprovalRequired _) = ''DurableApprovalRequired''"
| "exn_name (ProductionExecutionError _) = ''ProductionExecutionError''"
| "exn_name (DurableDeploymentError _) = ''DurableDeploymentError''"
| "exn_name (DurableQuerySettingsError _) = ''DurableQuerySettingsError''"
| "exn_name (AuthorityInvariantError _) = ''AuthorityInvariantError''"
| "exn_name (EvaluationPlanError _) = ''EvaluationPlanError''"
| "exn_name (CandidateRankingError _) = ''CandidateRankingError''"
| "exn_name (CandidateGenerationError _) = ''CandidateGenerationError''"
| "exn_name (WorkloadSnapshotError _) = ''WorkloadSnapshotError''"
| "exn_name (DiagnosisServiceError _) = ''DiagnosisServiceError''"
| "exn_name (OrchestrationInvariantError _) = ''OrchestrationInvariantError''"
| "exn_name (PermanentJobError _) = ''PermanentJobError''"
| "exn_name LeaseLostError = ''LeaseLostError''"
| "exn_name (InjectedCrash _) = ''InjectedCrash''"
| "exn_name (TransientBlock _) = ''RuntimeError''"
| "exn_name (IntegrityError _) = ''IntegrityError''"
| "exn_name (MonitoringEvidenceUnavailable _) = ''MonitoringEvidenceUnavailable''"
| "exn_name DatabaseUnavailable = ''OperationalError''"
| "exn_name (AdapterError n) = n"
| "exn_name (WouldBlock _) = ''WouldBlock''"
| "exn_name Crashed = ''Crashed''"

definition finish_job :: "job \<Rightarrow> string \<Rightarrow> ('t world, unit) oper" where
  "finish_job jo worker =
     bnd ensure_lease_owned (\<lambda>_. bnd (complete (jo_id jo) worker) (\<lambda>done. ensure done LeaseLostError))"

definition on_job_error :: "job_repository \<Rightarrow> job \<Rightarrow> string \<Rightarrow> exn \<Rightarrow> ('t world, unit) oper" where
  "on_job_error jr jo worker e =
     (case e of
        PermanentJobError m \<Rightarrow> fail_job jr jo worker m True
      | LeaseLostError \<Rightarrow> raise LeaseLostError
      | Crashed \<Rightarrow> raise Crashed
      | _ \<Rightarrow> fail_job jr jo worker (exn_name e) False)"

definition run_once :: "job_repository \<Rightarrow> string \<Rightarrow> string option \<Rightarrow> string list \<Rightarrow> (job \<Rightarrow> ('t world, unit) oper) \<Rightarrow> ('t world, bool) oper" where
  "run_once jr worker tag locked handler =
     bnd (claim jr worker tag locked) (\<lambda>found.
     case found of
       None \<Rightarrow> ret False
     | Some jo \<Rightarrow> bnd (catching (bnd (handler jo) (\<lambda>_. finish_job jo worker)) (on_job_error jr jo worker)) (\<lambda>_. ret True))"

text \<open>\<open>run_until_idle\<close> may poll for ever; \<open>fuel\<close> bounds the number of polls, \<open>None\<close> is running out of it.\<close>

fun run_until_idle ::
  "nat \<Rightarrow> job_repository \<Rightarrow> string \<Rightarrow> string option \<Rightarrow> string list \<Rightarrow> (job \<Rightarrow> ('t world, unit) oper) \<Rightarrow> ('t world, nat option) oper" where
  "run_until_idle 0 jr worker tag locked handler = ret None"
| "run_until_idle (Suc fuel) jr worker tag locked handler =
     bnd (run_once jr worker tag locked handler) (\<lambda>worked.
     if worked then bnd (run_until_idle fuel jr worker tag locked handler) (\<lambda>n. ret (map_option Suc n)) else ret (Some 0))"

subsection \<open>Creating a run\<close>

record created_run =
  cu_run :: run_row
  cu_job_id :: string

definition new_run_row :: "string \<Rightarrow> string \<Rightarrow> deployment_mode \<Rightarrow> string option \<Rightarrow> string \<Rightarrow> int \<Rightarrow> run_row" where
  "new_run_row target_id requester mode primary_metric_key i t = \<lparr>row_id = i, row_created_at = t, row_updated_at = Some t,
     rn_target_id = target_id, rn_workload_snapshot_id = None, rn_status = CREATED, rn_requested_by_user_id = requester,
     rn_deployment_mode = mode_value mode, rn_primary_metric_key = primary_metric_key, rn_completion_reason = None\<rparr>"

definition create_run_with_initial_job ::
  "string \<Rightarrow> string \<Rightarrow> deployment_mode \<Rightarrow> string option \<Rightarrow> ('t world, created_run) oper" where
  "create_run_with_initial_job target_id requester mode primary_metric_key = engine_begin (
     bnd (create_in_transaction runs_table (new_run_row target_id requester mode primary_metric_key)) (\<lambda>run.
     bnd (enqueue_in [(''run_id'', JStr (row_id run)), (''target_id'', JStr target_id)] (Some (row_id run)) OPTIMIZATION) (\<lambda>job_id.
     ret \<lparr>cu_run = run, cu_job_id = job_id\<rparr>)))"

subsection \<open>Evaluation of the queue's operations\<close>

abbreviation jobs_of :: "'t world \<Rightarrow> job_row list" where
  "jobs_of w \<equiv> db_jobs (w_db w)"

definition job_ids :: "db \<Rightarrow> string list" where
  "job_ids d = map row_id (db_jobs d)"

definition terminal_job :: "job_row \<Rightarrow> bool" where
  "terminal_job j \<longleftrightarrow> jb_status j = ''COMPLETED'' \<or> jb_status j = ''FAILED''"

lemma jobs_put [simp]: "db_jobs (tb_put jobs_table js d) = js" "tb_rows jobs_table d = db_jobs d"
  by (simp_all add: jobs_table_def)

lemma first_claimable_mem:
  assumes "first_claimable t tag locked js = Some c"
  shows "c \<in> set js" and "claimable t tag locked c"
proof -
  let ?s = "sort_key (\<lambda>j. (row_created_at j, row_id j)) (filter (claimable t tag locked) js)"
  obtain rest where e: "?s = c # rest" using assms by (auto simp: first_claimable_def split: list.splits)
  have "set ?s = set (filter (claimable t tag locked) js)" by simp
  then have "c \<in> set (filter (claimable t tag locked) js)" unfolding e by (metis list.set_intros(1))
  then show "c \<in> set js" and "claimable t tag locked c" by simp_all
qed

lemma row_updates_keep_id [simp]:
  "row_id (leased_to jr worker t j) = row_id j" "row_id (failed_row jr jo code permanent t j) = row_id j"
  by (simp_all add: leased_to_def failed_row_def Let_def)

lemma backoff_bounds: "1 \<le> backoff_seconds n" "backoff_seconds n \<le> 16"
  by (simp_all add: backoff_seconds_def)

lemma backoff_doubles: "1 \<le> n \<Longrightarrow> n < 5 \<Longrightarrow> backoff_seconds (n + 1) = 2 * backoff_seconds n"
proof -
  assume "1 \<le> n" "n < 5"
  then have "n = 1 \<or> n = 2 \<or> n = 3 \<or> n = 4" by auto
  then show ?thesis by (auto simp: backoff_seconds_def)
qed

text \<open>What an update with a row predicate and a row function makes of the job table.\<close>

definition jobs_updated :: "(job_row \<Rightarrow> bool) \<Rightarrow> (job_row \<Rightarrow> job_row) \<Rightarrow> 't world \<Rightarrow> 't world \<Rightarrow> bool" where
  "jobs_updated p f w w' \<longleftrightarrow> jobs_of w' = map (\<lambda>j. if p j then f j else j) (jobs_of w)"

lemma claim_cases:
  assumes "claim jr worker tag locked w = (r, w')"
  defines "t \<equiv> w_clock w (w_reads w)"
  shows "jobs_of w' = jobs_of w \<and> (\<forall>jo. r \<noteq> Inr (Some jo)) \<or>
    (\<exists>c. first_claimable t tag locked (jobs_of w) = Some c \<and>
       jobs_updated (\<lambda>j. row_id j = row_id c) (leased_to jr worker t) w w' \<and>
       (\<forall>jo. r = Inr (Some jo) \<longrightarrow> (\<exists>j\<in>set (jobs_of w). row_id j = row_id c \<and> jo = job_of (leased_to jr worker t j))))"
proof (cases "w_faults w (Suc (w_reads w))")
  case True
  then show ?thesis using assms by (auto simp: claim_def engine_begin_def bnd_apply oper_simps)
next
  case False
  show ?thesis
  proof (cases "first_claimable t tag locked (jobs_of w)")
    case None
    then show ?thesis using assms False
      by (auto simp: claim_def engine_begin_def bnd_apply oper_simps tables_transaction_def)
  next
    case (Some c)
    show ?thesis
    proof (cases "one_or_none (map (leased_to jr worker t) (filter (\<lambda>j. row_id j = row_id c) (jobs_of w)))")
      case (Inl e)
      then show ?thesis using assms False Some
        by (auto simp: claim_def engine_begin_def bnd_apply oper_simps tables_transaction_def
            simp del: one_or_none_Inl one_or_none_Some one_or_none_None)
    next
      case (Inr row)
      have r: "r = Inr (map_option job_of row)" "jobs_updated (\<lambda>j. row_id j = row_id c) (leased_to jr worker t) w w'"
        using assms False Some Inr
        by (auto simp: claim_def engine_begin_def bnd_apply oper_simps tables_transaction_def jobs_updated_def
            simp del: one_or_none_Inl one_or_none_Some one_or_none_None)
      have "\<exists>j\<in>set (jobs_of w). row_id j = row_id c \<and> jo = job_of (leased_to jr worker t j)" if "r = Inr (Some jo)" for jo
      proof -
        from that r obtain x where x: "row = Some x" "jo = job_of x" by auto
        then have "x \<in> set (map (leased_to jr worker t) (filter (\<lambda>j. row_id j = row_id c) (jobs_of w)))"
          using Inr one_or_none_mem by metis
        then show ?thesis using x by auto
      qed
      then show ?thesis using r Some by blast
    qed
  qed
qed

lemma heartbeat_cases:
  assumes "heartbeat jr i worker w = (r, w')"
  defines "t \<equiv> w_clock w (w_reads w)"
  shows "jobs_of w' = jobs_of w \<or>
    jobs_updated (\<lambda>j. owns i worker j \<and> (\<exists>e. jb_lease_expires_at j = Some e \<and> t < e))
      (\<lambda>j. j\<lparr>jb_heartbeat_at := Some t, jb_lease_expires_at := Some (t + jr_lease_duration jr), row_updated_at := Some t\<rparr>) w w'"
  using assms by (auto simp: heartbeat_def engine_begin_def bnd_apply oper_simps tables_transaction_def jobs_updated_def split: if_splits)

lemma complete_cases:
  assumes "complete i worker w = (r, w')"
  defines "t \<equiv> w_clock w (w_reads w)"
  shows "jobs_of w' = jobs_of w \<and> r \<noteq> Inr True \<or>
    r = Inr (length (filter (owns i worker) (jobs_of w)) = 1) \<and>
    jobs_updated (owns i worker) (\<lambda>j. j\<lparr>jb_status := ''COMPLETED'', jb_completed_at := Some t, row_updated_at := Some t,
       jb_lease_owner := None, jb_lease_expires_at := None\<rparr>) w w'"
  using assms by (auto simp: complete_def engine_begin_def bnd_apply oper_simps tables_transaction_def jobs_updated_def split: if_splits)

lemma fail_job_cases:
  assumes "fail_job jr jo worker code permanent w = (r, w')"
  defines "t \<equiv> w_clock w (w_reads w)"
  shows "jobs_of w' = jobs_of w \<or> jobs_updated (owns (jo_id jo) worker) (failed_row jr jo code permanent t) w w'"
  using assms by (auto simp: fail_job_def engine_begin_def bnd_apply oper_simps tables_transaction_def jobs_updated_def split: if_splits)

lemma enqueue_cases:
  assumes "enqueue payload run_id kind w = (r, w')"
  shows "jobs_of w' = jobs_of w \<or> (\<exists>j. jobs_of w' = jobs_of w @ [j] \<and> row_id j \<notin> set (map row_id (jobs_of w)))"
  using assms by (auto simp: enqueue_def engine_begin_def bnd_apply oper_simps tables_transaction_def insert_row_def
      same_id_def jobs_table_def pending_job_def split: if_splits) blast

subsection \<open>What the queue keeps\<close>

text \<open>
  Every operation maps the rows of the queue, keeping identifiers and leaving finished rows alone, and
  adds rows with fresh identifiers at the end.
\<close>

definition queue_step :: "db \<Rightarrow> db \<Rightarrow> bool" where
  "queue_step d d' \<longleftrightarrow> (distinct (job_ids d) \<longrightarrow> (\<exists>f new. db_jobs d' = map f (db_jobs d) @ new \<and>
     (\<forall>j\<in>set (db_jobs d). row_id (f j) = row_id j \<and> (terminal_job j \<longrightarrow> f j = j)) \<and>
     distinct (map row_id new) \<and> set (map row_id new) \<inter> set (job_ids d) = {}))"

definition queue_steps :: "'t world \<Rightarrow> 't world \<Rightarrow> bool" where
  "queue_steps w w' \<longleftrightarrow> queue_step (w_db w) (w_db w')"

lemma queue_stepI:
  assumes "db_jobs d' = map f (db_jobs d) @ new"
    and "\<And>j. distinct (job_ids d) \<Longrightarrow> j \<in> set (db_jobs d) \<Longrightarrow> row_id (f j) = row_id j \<and> (terminal_job j \<longrightarrow> f j = j)"
    and "distinct (map row_id new)" and "set (map row_id new) \<inter> set (job_ids d) = {}"
  shows "queue_step d d'"
  unfolding queue_step_def using assms by (intro impI exI [of _ f] exI [of _ new]) simp

lemma queue_step_same: "db_jobs d' = db_jobs d \<Longrightarrow> queue_step d d'"
  by (rule queue_stepI [where f = id and new = "[]"]) simp_all

lemma queue_step_distinct: "queue_step d d' \<Longrightarrow> distinct (job_ids d) \<Longrightarrow> distinct (job_ids d')"
  unfolding queue_step_def job_ids_def
  by (elim impE exE conjE) (auto simp: comp_def cong: map_cong)

lemma queue_step_terminal:
  "queue_step d d' \<Longrightarrow> distinct (job_ids d) \<Longrightarrow> j \<in> set (db_jobs d) \<Longrightarrow> terminal_job j \<Longrightarrow> j \<in> set (db_jobs d')"
  unfolding queue_step_def by (elim impE exE conjE) (auto simp: image_iff intro!: bexI [of _ j])

lemma update_is_queue_step:
  assumes "jobs_updated p f w w'" and "\<And>j. row_id (f j) = row_id j"
    and "\<And>j. distinct (job_ids (w_db w)) \<Longrightarrow> j \<in> set (jobs_of w) \<Longrightarrow> p j \<Longrightarrow> \<not> terminal_job j"
  shows "queue_step (w_db w) (w_db w')"
  by (rule queue_stepI [where f = "\<lambda>j. if p j then f j else j" and new = "[]"])
    (use assms in \<open>auto simp: jobs_updated_def\<close>)

lemma owns_not_terminal: "owns i worker j \<Longrightarrow> \<not> terminal_job j"
  by (simp add: owns_def terminal_job_def)

lemma claimable_not_terminal: "claimable t tag locked j \<Longrightarrow> \<not> terminal_job j"
  by (auto simp: claimable_def terminal_job_def)

lemma distinct_ids_eq: "distinct (job_ids d) \<Longrightarrow> a \<in> set (db_jobs d) \<Longrightarrow> b \<in> set (db_jobs d) \<Longrightarrow> row_id a = row_id b \<Longrightarrow> a = b"
  by (auto simp: job_ids_def distinct_map dest: inj_onD)

lemma keepsI: "(\<And>w r w'. m w = (r, w') \<Longrightarrow> R w w') \<Longrightarrow> keeps R m"
  by (metis keeps_def prod.collapse)

lemma queue_keeps_claim: "keeps (queue_steps :: 't world \<Rightarrow> 't world \<Rightarrow> bool) (claim jr worker tag locked)"
proof (rule keepsI)
  fix w :: "'t world" and r w' assume "claim jr worker tag locked w = (r, w')"
  from claim_cases [OF this] show "queue_steps w w'"
  proof (elim disjE conjE exE)
    assume "jobs_of w' = jobs_of w" then show ?thesis by (simp add: queue_steps_def queue_step_same)
  next
    fix c assume c: "first_claimable (w_clock w (w_reads w)) tag locked (jobs_of w) = Some c"
      and u: "jobs_updated (\<lambda>j. row_id j = row_id c) (leased_to jr worker (w_clock w (w_reads w))) w w'"
    show ?thesis unfolding queue_steps_def
      using first_claimable_mem [OF c] claimable_not_terminal
      by (intro update_is_queue_step [OF u]) (auto dest: distinct_ids_eq)
  qed
qed

lemma queue_keeps_enqueue: "keeps (queue_steps :: 't world \<Rightarrow> 't world \<Rightarrow> bool) (enqueue payload run_id kind)"
proof (rule keepsI)
  fix w :: "'t world" and r w' assume "enqueue payload run_id kind w = (r, w')"
  from enqueue_cases [OF this] show "queue_steps w w'"
  proof (elim disjE exE conjE)
    assume "jobs_of w' = jobs_of w" then show ?thesis by (simp add: queue_steps_def queue_step_same)
  next
    fix j assume "jobs_of w' = jobs_of w @ [j]" "row_id j \<notin> set (map row_id (jobs_of w))"
    then show ?thesis unfolding queue_steps_def
      by (intro queue_stepI [where f = id and new = "[j]"]) (simp_all add: job_ids_def)
  qed
qed

lemma queue_keeps_owner:
  "keeps queue_steps (heartbeat jr i worker)" "keeps queue_steps (complete i worker)"
  "keeps queue_steps (fail_job jr jo worker code permanent)"
  by (rule keepsI; drule heartbeat_cases complete_cases fail_job_cases;
      auto simp: queue_steps_def intro: queue_step_same update_is_queue_step dest: owns_not_terminal)+

subsection \<open>Histories of the queue\<close>

text \<open>
  What workers and requests do to the queue, in the order in which their transactions commit; each
  entry of the outcome tells whether the event was a completion that succeeded.
\<close>

datatype queue_event =
    EvEnqueue "(string \<times> json) list" "string option" string
  | EvClaim string "string option" "string list"
  | EvHeartbeat string string
  | EvComplete string string
  | EvFail job string string bool

fun queue_op :: "job_repository \<Rightarrow> queue_event \<Rightarrow> ('t world, bool) oper" where
  "queue_op jr (EvEnqueue payload run_id kind) = bnd (enqueue payload run_id kind) (\<lambda>_. ret False)"
| "queue_op jr (EvClaim worker tag locked) = bnd (claim jr worker tag locked) (\<lambda>_. ret False)"
| "queue_op jr (EvHeartbeat i worker) = bnd (heartbeat jr i worker) (\<lambda>_. ret False)"
| "queue_op jr (EvComplete i worker) = complete i worker"
| "queue_op jr (EvFail jo worker code permanent) = bnd (fail_job jr jo worker code permanent) (\<lambda>_. ret False)"

fun queue_run :: "job_repository \<Rightarrow> queue_event list \<Rightarrow> 't world \<Rightarrow> 't world \<times> bool list" where
  "queue_run jr [] w = (w, [])"
| "queue_run jr (e # es) w =
     (let (r, w1) = queue_op jr e w; (w2, rs) = queue_run jr es w1 in (w2, (r = Inr True) # rs))"

fun completes_job :: "string \<Rightarrow> queue_event \<times> bool \<Rightarrow> bool" where
  "completes_job i (EvComplete i' worker, True) = (i' = i)"
| "completes_job i _ = False"

definition completions :: "string \<Rightarrow> queue_event list \<Rightarrow> bool list \<Rightarrow> nat" where
  "completions i es rs = length (filter (completes_job i) (zip es rs))"

definition job_done :: "string \<Rightarrow> db \<Rightarrow> bool" where
  "job_done i d \<longleftrightarrow> distinct (job_ids d) \<and> (\<exists>j\<in>set (db_jobs d). row_id j = i \<and> jb_status j = ''COMPLETED'')"

lemma keeps_snd: "keeps R m \<Longrightarrow> R s (snd (m s))"
  by (simp add: keeps_def)

lemma snd_bnd_ret: "snd (bnd m (\<lambda>_. ret b) w) = snd (m w)"
  by (simp add: bnd_apply split: prod.split sum.split)

lemma queue_op_steps: "queue_steps w (snd (queue_op jr e w))"
  by (cases e) (simp_all add: snd_bnd_ret queue_keeps_claim [THEN keeps_snd] queue_keeps_enqueue [THEN keeps_snd]
    queue_keeps_owner [THEN keeps_snd])

lemma complete_True:
  assumes "complete i worker w = (Inr True, w')" and "distinct (job_ids (w_db w))"
  shows "job_done i (w_db w')" and "\<not> job_done i (w_db w)"
proof -
  have f: "length (filter (owns i worker) (jobs_of w)) = 1"
    and u: "jobs_updated (owns i worker) (\<lambda>j. j\<lparr>jb_status := ''COMPLETED'', jb_completed_at := Some (w_clock w (w_reads w)),
      row_updated_at := Some (w_clock w (w_reads w)), jb_lease_owner := None, jb_lease_expires_at := None\<rparr>) w w'"
    using complete_cases [OF assms(1)] by auto
  then obtain j where "filter (owns i worker) (jobs_of w) = [j]" by (metis One_nat_def length_0_conv length_Suc_conv)
  then have j: "j \<in> set (jobs_of w)" "owns i worker j" using filter_one by fast+
  have "queue_step (w_db w) (w_db w')" using queue_keeps_owner(2) [of i worker] assms(1) by (auto simp: queue_steps_def dest: keepsD)
  then have "distinct (job_ids (w_db w'))" using assms(2) queue_step_distinct by blast
  moreover have "\<exists>x\<in>set (jobs_of w'). row_id x = i \<and> jb_status x = ''COMPLETED''"
  proof -
    let ?f = "\<lambda>j. if owns i worker j then j\<lparr>jb_status := ''COMPLETED'', jb_completed_at := Some (w_clock w (w_reads w)),
      row_updated_at := Some (w_clock w (w_reads w)), jb_lease_owner := None, jb_lease_expires_at := None\<rparr> else j"
    have "?f j \<in> set (jobs_of w')" using j(1) u unfolding jobs_updated_def by simp
    moreover have "row_id (?f j) = i \<and> jb_status (?f j) = ''COMPLETED''" using j(2) by (simp add: owns_def)
    ultimately show ?thesis by blast
  qed
  ultimately show "job_done i (w_db w')" by (simp add: job_done_def)
  show "\<not> job_done i (w_db w)"
    using j distinct_ids_eq [OF assms(2)] by (auto simp: job_done_def owns_def dest: distinct_ids_eq)
qed

lemma job_done_stays: "job_done i d \<Longrightarrow> queue_step d d' \<Longrightarrow> job_done i d'"
  unfolding job_done_def using queue_step_distinct queue_step_terminal terminal_job_def by blast

lemma completions_Cons:
  "completions i (e # es) (r # rs) = (if completes_job i (e, r) then 1 else 0) + completions i es rs"
  by (simp add: completions_def)

lemma completes_job_event:
  "completes_job i (e, fst (queue_op jr e w) = Inr True) \<Longrightarrow>
     \<exists>worker w'. complete i worker (w::'t world) = (Inr True, w') \<and> snd (queue_op jr e w) = w'"
  by (cases e) (auto simp: prod_eq_iff elim: completes_job.elims)

lemma no_completion_when_done:
  "job_done i (w_db w) \<Longrightarrow> completions i es (snd (queue_run jr es w)) = 0"
proof (induction es arbitrary: w)
  case Nil
  then show ?case by (simp add: completions_def)
next
  case (Cons e es)
  let ?w = "snd (queue_op jr e w)"
  have "job_done i (w_db ?w)" using job_done_stays [OF Cons.prems] queue_op_steps [of w jr e] by (simp add: queue_steps_def)
  moreover have "\<not> completes_job i (e, fst (queue_op jr e w) = Inr True)"
    using completes_job_event [of i e jr w] complete_True(2) Cons.prems unfolding job_done_def by metis
  ultimately show ?case using Cons.IH [of ?w] by (simp add: Let_def case_prod_beta completions_Cons)
qed

text \<open>
  C6. A job is completed at most once: in every history of enqueuing, claiming, heartbeats, completions
  and failures by any number of workers, in any order and at any clock readings, at most one
  completion of a job succeeds.
\<close>

theorem job_completed_at_most_once:
  assumes "distinct (job_ids (w_db w))"
  shows "completions i es (snd (queue_run jr es w)) \<le> 1"
  using assms
proof (induction es arbitrary: w)
  case Nil
  then show ?case by (simp add: completions_def)
next
  case (Cons e es)
  let ?w = "snd (queue_op jr e w)"
  have d: "distinct (job_ids (w_db ?w))"
    using queue_step_distinct Cons.prems queue_op_steps [of w jr e] by (auto simp: queue_steps_def)
  show ?case
  proof (cases "completes_job i (e, fst (queue_op jr e w) = Inr True)")
    case True
    then have "job_done i (w_db ?w)" using completes_job_event [OF True] complete_True(1) Cons.prems by metis
    then show ?thesis using no_completion_when_done [of i ?w es jr] True by (simp add: Let_def case_prod_beta completions_Cons)
  next
    case False
    then show ?thesis using Cons.IH [OF d] by (simp add: Let_def case_prod_beta completions_Cons)
  qed
qed

definition demo_job :: job_row where
  "demo_job = \<lparr>row_id = ''j1'', row_created_at = 0, row_updated_at = None, jb_optimization_run_id = Some ''run1'',
     jb_payload = JObj [], jb_status = ''PENDING'', jb_lease_owner = None, jb_lease_expires_at = None, jb_heartbeat_at = None,
     jb_attempts = 0, jb_completed_at = None, jb_kind = ''OPTIMIZATION'', jb_available_at = 0, jb_last_error_code = None,
     jb_failed_at = None\<rparr>"

lemmas queue_eval =
  engine_begin_def bnd_apply oper_simps tables_transaction_def claim_def complete_def heartbeat_def first_claimable_def
  claimable_def expired_def leased_to_def job_of_def owns_def one_or_none_def Let_def

theorem job_completed_at_most_once_witness:
  "let es = [EvClaim ''a'' None [], EvComplete ''j1'' ''b'', EvComplete ''j1'' ''a'', EvComplete ''j1'' ''a''];
       w = world_of (empty_db\<lparr>db_jobs := [demo_job]\<rparr>) ()
   in snd (queue_run default_job_repository es w) = [False, False, True, False] \<and>
      completions ''j1'' es (snd (queue_run default_job_repository es w)) \<le> 1"
proof -
  let ?w = "world_of (empty_db\<lparr>db_jobs := [demo_job]\<rparr>) ()"
  have "distinct (job_ids (w_db ?w))" by (simp add: job_ids_def world_of_def)
  moreover have "snd (queue_run default_job_repository
      [EvClaim ''a'' None [], EvComplete ''j1'' ''b'', EvComplete ''j1'' ''a'', EvComplete ''j1'' ''a''] ?w) = [False, False, True, False]"
    by (simp add: queue_eval world_of_def demo_job_def default_job_repository_def)
  ultimately show ?thesis unfolding Let_def by (intro conjI job_completed_at_most_once)
qed

subsection \<open>Leases\<close>

definition event_worker :: "queue_event \<Rightarrow> string option" where
  "event_worker e = (case e of EvEnqueue _ _ _ \<Rightarrow> None | EvClaim wk _ _ \<Rightarrow> Some wk | EvHeartbeat _ wk \<Rightarrow> Some wk
     | EvComplete _ wk \<Rightarrow> Some wk | EvFail _ wk _ _ \<Rightarrow> Some wk)"

definition holds_lease :: "string \<Rightarrow> int \<Rightarrow> job_row \<Rightarrow> bool" where
  "holds_lease worker e j \<longleftrightarrow> jb_status j = ''RUNNING'' \<and> jb_lease_owner j = Some worker \<and> jb_lease_expires_at j = Some e"

lemma untouched_update:
  assumes "jobs_updated p f w w'" and "j \<in> set (jobs_of w)" and "\<not> p j"
  shows "j \<in> set (jobs_of w')"
  using assms unfolding jobs_updated_def by (simp add: image_iff)

lemma claim_leaves_lease:
  assumes "claim jr worker tag locked w = (r, w')" and "distinct (job_ids (w_db w))" and "j \<in> set (jobs_of w)"
    and "holds_lease owner e j" and "w_clock w (w_reads w) < e"
  shows "j \<in> set (jobs_of w')"
  using claim_cases [OF assms(1)]
proof (elim disjE conjE exE)
  assume "jobs_of w' = jobs_of w" then show ?thesis using assms(3) by simp
next
  fix c assume c: "first_claimable (w_clock w (w_reads w)) tag locked (jobs_of w) = Some c"
    and u: "jobs_updated (\<lambda>j. row_id j = row_id c) (leased_to jr worker (w_clock w (w_reads w))) w w'"
  have "\<not> claimable (w_clock w (w_reads w)) tag locked j"
    using assms(4,5) by (auto simp: holds_lease_def claimable_def expired_def)
  then have "row_id j \<noteq> row_id c"
    using first_claimable_mem [OF c] distinct_ids_eq [OF assms(2,3)] by blast
  then show ?thesis using untouched_update [OF u assms(3)] by simp
qed

lemma others_leave_lease:
  assumes "queue_op jr ev w = (r, w')" and "event_worker ev \<noteq> Some owner" and "distinct (job_ids (w_db w))"
    and "j \<in> set (jobs_of w)" and "holds_lease owner e j" and "w_clock w (w_reads w) < e"
  shows "j \<in> set (jobs_of w')"
proof (cases ev)
  case (EvEnqueue payload run_id kind)
  then obtain r0 where "enqueue payload run_id kind w = (r0, w')" using assms(1) by (auto simp: bnd_apply split: prod.splits sum.splits)
  then show ?thesis using enqueue_cases assms(4) by fastforce
next
  case (EvClaim worker tag locked)
  then obtain r0 where "claim jr worker tag locked w = (r0, w')" using assms(1) by (auto simp: bnd_apply split: prod.splits sum.splits)
  then show ?thesis using claim_leaves_lease assms(3-6) by blast
next
  case (EvHeartbeat i worker)
  then obtain r0 where "heartbeat jr i worker w = (r0, w')" using assms(1) by (auto simp: bnd_apply split: prod.splits sum.splits)
  from heartbeat_cases [OF this] show ?thesis
    using assms(2,4,5) EvHeartbeat by (auto simp: event_worker_def holds_lease_def owns_def elim!: untouched_update)
next
  case (EvComplete i worker)
  then have "complete i worker w = (r, w')" using assms(1) by simp
  from complete_cases [OF this] show ?thesis
    using assms(2,4,5) EvComplete by (auto simp: event_worker_def holds_lease_def owns_def elim!: untouched_update)
next
  case (EvFail jo worker code permanent)
  then obtain r0 where "fail_job jr jo worker code permanent w = (r0, w')"
    using assms(1) by (auto simp: bnd_apply split: prod.splits sum.splits)
  from fail_job_cases [OF this] show ?thesis
    using assms(2,4,5) EvFail by (auto simp: event_worker_def holds_lease_def owns_def elim!: untouched_update)
qed

lemma queue_op_clock: "w_clock (snd (queue_op jr e w)) = w_clock w"
proof -
  have "keeps same_outside (queue_op jr e)"
    by (cases e) (auto intro!: frames simp: claim_def heartbeat_def complete_def fail_job_def enqueue_def)
  then show ?thesis by (metis keeps_snd same_outside_def)
qed

text \<open>
  C15. A lease is exclusive: while a worker's lease on a job has not expired, nothing the other
  workers do, in any order, changes the job: it is not claimed, completed, failed or renewed by them.
\<close>

theorem lease_is_exclusive:
  assumes "distinct (job_ids (w_db w))" and "j \<in> set (jobs_of w)" and "holds_lease owner e j"
    and "\<forall>ev\<in>set es. event_worker ev \<noteq> Some owner" and "\<forall>n. w_clock w n < e"
  shows "j \<in> set (jobs_of (fst (queue_run jr es w)))"
  using assms
proof (induction es arbitrary: w)
  case Nil
  then show ?case by simp
next
  case (Cons ev es)
  obtain r w' where run: "queue_op jr ev w = (r, w')" by (cases "queue_op jr ev w")
  have "w_clock w (w_reads w) < e" using Cons.prems(5) by blast
  then have "j \<in> set (jobs_of w')" using Cons.prems(1-4) by (intro others_leave_lease [OF run]) simp_all
  moreover have "distinct (job_ids (w_db w'))"
    using queue_step_distinct Cons.prems(1) queue_op_steps [of w jr ev] run by (auto simp: queue_steps_def)
  moreover have "w_clock w' = w_clock w" using queue_op_clock [of jr ev w] run by simp
  ultimately show ?case using Cons.IH [of w'] Cons.prems run by (simp add: case_prod_beta)
qed

theorem lease_is_exclusive_witness:
  "let j = leased_to default_job_repository ''a'' 0 demo_job; w = world_of (empty_db\<lparr>db_jobs := [j]\<rparr>) ()\<lparr>w_clock := (\<lambda>n. int (min n 29))\<rparr>
   in j \<in> set (jobs_of (fst (queue_run default_job_repository
        [EvClaim ''b'' None [], EvComplete ''j1'' ''b'', EvHeartbeat ''j1'' ''c''] w)))"
proof -
  let ?j = "leased_to default_job_repository ''a'' 0 demo_job"
  let ?w = "world_of (empty_db\<lparr>db_jobs := [?j]\<rparr>) ()\<lparr>w_clock := (\<lambda>n. int (min n 29))\<rparr>"
  have "?j \<in> set (jobs_of (fst (queue_run default_job_repository
        [EvClaim ''b'' None [], EvComplete ''j1'' ''b'', EvHeartbeat ''j1'' ''c''] ?w)))"
    by (rule lease_is_exclusive [where owner = "''a''" and e = 30])
      (auto simp: world_of_def job_ids_def holds_lease_def leased_to_def default_job_repository_def event_worker_def)
  then show ?thesis by (simp only: Let_def)
qed

subsection \<open>A run and its first job\<close>

definition initial_job :: "string \<Rightarrow> int \<Rightarrow> int \<Rightarrow> string \<Rightarrow> string \<Rightarrow> job_row" where
  "initial_job i t available run_id target_id =
     pending_job i t available [(''run_id'', JStr run_id), (''target_id'', JStr target_id)] (Some run_id) OPTIMIZATION"

lemma initial_job_not_continuation: "\<not> is_continuation (initial_job i t available run_id target_id)"
  by (simp add: is_continuation_def initial_job_def pending_job_def payload_text_def)

lemma built_row_ids [simp]:
  "row_id (new_run_row target_id requester mode key i t) = i" "row_id (pending_job i t a payload run_id kind) = i"
  by (simp_all add: new_run_row_def pending_job_def)

lemma create_run_Inr:
  assumes "create_run_with_initial_job target_id requester mode key w = (Inr c, w')"
  shows "\<exists>i t1 t2 t3. cu_run c = new_run_row target_id requester mode key i t1 \<and>
     row_id (cu_run c) \<notin> row_id ` set (db_runs (w_db w)) \<and> cu_job_id c \<notin> set (job_ids (w_db w)) \<and>
     w_db w' = (w_db w)\<lparr>db_runs := db_runs (w_db w) @ [cu_run c],
       db_jobs := db_jobs (w_db w) @ [initial_job (cu_job_id c) t2 t3 (row_id (cu_run c)) target_id]\<rparr>"
  using assms
  by (intro exI [of _ "row_id (cu_run c)"] exI [of _ "w_clock w (Suc (w_reads w))"] exI [of _ "w_clock w (Suc (Suc (Suc (Suc (w_reads w)))))"]
      exI [of _ "w_clock w (Suc (Suc (Suc (Suc (Suc (w_reads w))))))"])
    (auto simp: create_run_with_initial_job_def engine_begin_Inr create_in_transaction_def enqueue_in_def oper_simps
      insert_row_def runs_table_def jobs_table_def initial_job_def same_id_def job_ids_def
      split: if_splits)

lemma second_initial_job_rejected:
  assumes "initial_job i t a run_id target_id \<in> set (jobs_of w)" and "map_of payload ''continuation'' = None"
  shows "fst (enqueue_in payload (Some run_id) OPTIMIZATION w) = Inl (IntegrityError ''unique constraint'')"
proof -
  have k: "payload_text (canon (JObj payload)) ''continuation'' = None"
  proof -
    have "''continuation'' \<notin> fst ` set payload" using assms(2) by (simp add: map_of_eq_None_iff)
    then have "map_of (sort_key fst (map (\<lambda>(k, v). (k, canon v)) payload)) ''continuation'' = None"
      by (force simp: map_of_eq_None_iff)
    then show ?thesis by (simp add: payload_text_def)
  qed
  have "jobs_clash (initial_job i t a run_id target_id) (pending_job i' t' a' payload (Some run_id) OPTIMIZATION)" for i' t' a'
    using k initial_job_not_continuation [of i t a run_id target_id]
    by (simp add: jobs_clash_def is_continuation_def initial_job_def pending_job_def OPTIMIZATION_def)
  then show ?thesis using assms(1)
    by (auto simp: enqueue_in_def oper_simps insert_row_def jobs_table_def)
qed

text \<open>
  C23. A run is created together with its one initial job, or not at all. When the creation returns, the
  database has exactly two rows more, the \<open>CREATED\<close> run and a pending optimisation job of that run,
  and the job table refuses a further initial job for it; when it raises, no table has changed.
\<close>

theorem run_created_with_its_job:
  assumes "create_run_with_initial_job target_id requester mode key w = (r, w')"
  shows "case r of
      Inl e \<Rightarrow> w_db w' = w_db w
    | Inr c \<Rightarrow> rn_status (cu_run c) = CREATED \<and> rn_deployment_mode (cu_run c) = mode_value mode \<and>
        row_id (cu_run c) \<notin> row_id ` set (db_runs (w_db w)) \<and>
        (\<exists>t a. let j = initial_job (cu_job_id c) t a (row_id (cu_run c)) target_id in
           w_db w' = (w_db w)\<lparr>db_runs := db_runs (w_db w) @ [cu_run c], db_jobs := jobs_of w @ [j]\<rparr>) \<and>
        fst (enqueue_in [(''run_id'', JStr (row_id (cu_run c))), (''target_id'', JStr target_id)]
           (Some (row_id (cu_run c))) OPTIMIZATION w') = Inl (IntegrityError ''unique constraint'')"
proof (cases r)
  case (Inl e)
  then show ?thesis using assms engine_begin_Inl by (fastforce simp: create_run_with_initial_job_def)
next
  case (Inr c)
  obtain i t1 t2 t3 where c: "cu_run c = new_run_row target_id requester mode key i t1"
      "row_id (cu_run c) \<notin> row_id ` set (db_runs (w_db w))"
      "w_db w' = (w_db w)\<lparr>db_runs := db_runs (w_db w) @ [cu_run c],
         db_jobs := jobs_of w @ [initial_job (cu_job_id c) t2 t3 (row_id (cu_run c)) target_id]\<rparr>"
    using create_run_Inr [OF assms [unfolded Inr]] by (elim exE conjE) simp
  have "rn_status (cu_run c) = CREATED \<and> rn_deployment_mode (cu_run c) = mode_value mode"
    by (simp add: c(1) new_run_row_def)
  moreover have "initial_job (cu_job_id c) t2 t3 (row_id (cu_run c)) target_id \<in> set (jobs_of w')"
    using c(3) by simp
  note second_initial_job_rejected [OF this, of "[(''run_id'', JStr (row_id (cu_run c))), (''target_id'', JStr target_id)]"]
  ultimately show ?thesis
    unfolding Inr sum.case Let_def using c(2,3) by (intro conjI exI) simp_all
qed

theorem run_created_with_its_job_witness:
  "\<exists>c w'. create_run_with_initial_job ''t1'' ''alice'' APPROVAL_CONTROLLED None (world_of empty_db ()) = (Inr c, w') \<and>
     rn_status (cu_run c) = CREATED \<and> length (db_runs (w_db w')) = 1 \<and> length (jobs_of w') = 1"
proof -
  obtain c w' where run: "create_run_with_initial_job ''t1'' ''alice'' APPROVAL_CONTROLLED None (world_of empty_db ()) = (Inr c, w')"
    by (simp add: create_run_with_initial_job_def engine_begin_def tables_transaction_def create_in_transaction_def
        enqueue_in_def oper_simps insert_row_def runs_table_def jobs_table_def world_of_def empty_db_def)
  from run_created_with_its_job [OF run] obtain j where "rn_status (cu_run c) = CREATED"
      "w_db w' = empty_db\<lparr>db_runs := [cu_run c], db_jobs := [j]\<rparr>"
    unfolding sum.case Let_def by (elim conjE exE) (simp add: world_of_def empty_db_def)
  then show ?thesis by - (intro exI conjI, rule run, simp_all)
qed

subsection \<open>The queue and the lifecycle\<close>

lemma queue_evolution [evolution]:
  "keeps evolves (claim jr worker tag locked)" "keeps evolves (heartbeat jr i worker)" "keeps evolves (complete i worker)"
  "keeps evolves (fail_job jr jo worker code permanent)" "keeps evolves (enqueue payload run_id kind)"
  "keeps evolves (enqueue_in payload run_id kind)" "keeps evolves (finish_job jo worker)"
  unfolding claim_def heartbeat_def complete_def fail_job_def enqueue_def enqueue_in_def finish_job_def
  by (intro evolution)+

lemma on_job_error_evolution [evolution]: "keeps evolves (on_job_error jr jo worker e)"
  by (cases e) (simp_all add: on_job_error_def evolution)

text \<open>Whatever a handler keeps, the worker that runs it keeps.\<close>

lemma run_once_evolution: "(\<And>jo. keeps evolves (handler jo)) \<Longrightarrow> keeps evolves (run_once jr worker tag locked handler)"
  unfolding run_once_def by (intro evolution)

lemma run_until_idle_evolution:
  "(\<And>jo. keeps evolves (handler jo)) \<Longrightarrow> keeps evolves (run_until_idle n jr worker tag locked handler)"
  by (induction n) (simp_all add: evolution run_once_evolution)

end
