(* ===== verification/DurableApprovals.thy ===== *)
theory DurableApprovals
  imports Jobs
begin

text \<open>
  \<open>backend/app/approvals/durable.py\<close>: the approval authority that all processes share. Requests bound
  to a run, four-eyes decisions, the continuation job that an approval creates in the same
  transaction, rejection, and the check that a current approval exists.
\<close>

subsection \<open>Operations\<close>

definition DEFAULT_TTL :: int where "DEFAULT_TTL = 900"

record approval_args =
  pq_action_id :: string
  pq_target_id :: string
  pq_candidate_id :: string
  pq_evidence_hash :: string
  pq_requester_id :: string
  pq_optimization_run_id :: "string option"
  pq_candidate_fingerprint :: "string option"

definition new_request :: "int \<Rightarrow> approval_args \<Rightarrow> string \<Rightarrow> int \<Rightarrow> approval_request_row" where
  "new_request ttl q i t = \<lparr>row_id = i, row_created_at = t, row_updated_at = Some t, av_admission_decision_id = None,
     av_requested_by_user_id = pq_requester_id q, av_action_id = pq_action_id q, av_target_id = pq_target_id q,
     av_candidate_id = pq_candidate_id q, av_optimization_run_id = pq_optimization_run_id q,
     av_candidate_fingerprint = pq_candidate_fingerprint q, av_evidence_hash = pq_evidence_hash q,
     av_expires_at = t + ttl, av_status = ''PENDING''\<rparr>"

definition reuse_request :: "approval_args \<Rightarrow> approval_request_row \<Rightarrow> ('t world, approval_request_row) oper" where
  "reuse_request q a =
     bnd (ensure (av_candidate_id a = pq_candidate_id q \<and> av_candidate_fingerprint a = pq_candidate_fingerprint q)
       (DurableApprovalRequired ''approval request cannot authorize candidate drift'')) (\<lambda>_. ret a)"

definition request_durable :: "int \<Rightarrow> approval_args \<Rightarrow> ('t world, approval_request_row) oper" where
  "request_durable ttl q =
     bnd now (\<lambda>t. bnd uuid4 (\<lambda>i. engine_begin (
     bnd (case pq_optimization_run_id q of
            None \<Rightarrow> ret None
          | Some run_id \<Rightarrow> select_one approval_requests_table (\<lambda>a. av_optimization_run_id a = Some run_id)) (\<lambda>existing.
     case existing of
       Some a \<Rightarrow> reuse_request q a
     | None \<Rightarrow> insert_row approval_requests_table (new_request ttl q i t)))))"

definition set_approval :: "string \<Rightarrow> int \<Rightarrow> approval_request_row \<Rightarrow> approval_request_row" where
  "set_approval st t a = a\<lparr>av_status := st, row_updated_at := Some t\<rparr>"

definition decision_row :: "string \<Rightarrow> string \<Rightarrow> string \<Rightarrow> string option \<Rightarrow> string \<Rightarrow> int \<Rightarrow> approval_decision_row" where
  "decision_row approval_id approver decision reason = (\<lambda>i t. \<lparr>row_id = i, row_created_at = t, row_updated_at = Some t,
     ay_approval_request_id = approval_id, ay_decided_by_user_id = approver, ay_decision = decision, ay_reason = reason\<rparr>)"

text \<open>Marking the request and recording the decision, which every decision does first.\<close>

definition record_decision :: "string \<Rightarrow> string \<Rightarrow> string \<Rightarrow> string option \<Rightarrow> int \<Rightarrow> ('t world, unit) oper" where
  "record_decision approval_id approver decision reason t =
     bnd (update_rows approval_requests_table (\<lambda>a. row_id a = approval_id) (set_approval decision t)) (\<lambda>_.
     bnd uuid4 (\<lambda>i.
     bnd (insert_row approval_decisions_table (decision_row approval_id approver decision reason i t)) (\<lambda>_. ret ())))"

definition the_request :: "string \<Rightarrow> ('t world, approval_request_row) oper" where
  "the_request approval_id =
     bnd (select_rows approval_requests_table (\<lambda>a. row_id a = approval_id)) (\<lambda>rows. lift (the_one rows))"

definition approve_durable :: "string \<Rightarrow> string \<Rightarrow> ('t world, approval_request_row) oper" where
  "approve_durable approval_id approver =
     bnd now (\<lambda>t. engine_begin (
     bnd (select_one approval_requests_table (\<lambda>a. row_id a = approval_id)) (\<lambda>found.
     case found of
       None \<Rightarrow> raise (DurableApprovalRequired ''approval is not pending and unexpired'')
     | Some a \<Rightarrow>
         bnd (ensure (av_status a = ''PENDING'' \<and> t < av_expires_at a)
           (DurableApprovalRequired ''approval is not pending and unexpired'')) (\<lambda>_.
         bnd (ensure (av_requested_by_user_id a \<noteq> approver)
           (DurableApprovalRequired ''four-eyes separation forbids self-approval'')) (\<lambda>_.
         bnd (record_decision approval_id approver ''APPROVED'' None t) (\<lambda>_.
         the_request approval_id))))))"

text \<open>The checks that both decisions on a run-bound request begin with: the request and its run.\<close>

definition eligible_request :: "string \<Rightarrow> string \<Rightarrow> string \<Rightarrow> int \<Rightarrow> ('t world, approval_request_row \<times> string) oper" where
  "eligible_request msg approval_id approver t =
     bnd (select_one approval_requests_table (\<lambda>a. row_id a = approval_id)) (\<lambda>found.
     case found of
       None \<Rightarrow> raise (DurableApprovalRequired ''durable run-bound approval required'')
     | Some a \<Rightarrow>
         (case av_optimization_run_id a of
            None \<Rightarrow> raise (DurableApprovalRequired ''durable run-bound approval required'')
          | Some run_id \<Rightarrow>
              bnd (ensure (av_status a = ''PENDING'' \<and> t < av_expires_at a \<and> av_requested_by_user_id a \<noteq> approver)
                (DurableApprovalRequired msg)) (\<lambda>_.
              bnd (select_one runs_table (\<lambda>r. row_id r = run_id)) (\<lambda>run.
              bnd (ensure (\<exists>r. run = Some r \<and> rn_status r = APPROVAL_PENDING)
                (DurableApprovalRequired ''run is not awaiting this approval'')) (\<lambda>_.
              ret (a, run_id))))))"

text \<open>\<open>INSERT ... ON CONFLICT DO NOTHING\<close>\<close>

definition insert_or_ignore :: "'r table \<Rightarrow> 'r \<Rightarrow> ('t world, unit) oper" where
  "insert_or_ignore tb r = (\<lambda>w. if \<exists>x\<in>set (tb_rows tb (w_db w)). tb_clash tb x r then (Inr (), w)
     else (Inr (), w\<lparr>w_db := tb_put tb (tb_rows tb (w_db w) @ [r]) (w_db w)\<rparr>))"

definition continuation_job :: "string \<Rightarrow> int \<Rightarrow> int \<Rightarrow> string \<Rightarrow> job_row" where
  "continuation_job i t available run_id =
     pending_job i t available [(''continuation'', JStr ''true'')] (Some run_id) OPTIMIZATION"

definition set_run :: "optimization_state \<Rightarrow> int \<Rightarrow> run_row \<Rightarrow> run_row" where
  "set_run st t r = r\<lparr>rn_status := st, row_updated_at := Some t\<rparr>"

text \<open>The run is approved and its one continuation job created or kept.\<close>

definition continue_run :: "string \<Rightarrow> int \<Rightarrow> ('t world, unit) oper" where
  "continue_run run_id t =
     bnd (update_rows runs_table (\<lambda>r. row_id r = run_id) (set_run APPROVED t)) (\<lambda>_.
     bnd uuid4 (\<lambda>i. bnd now (\<lambda>available.
     insert_or_ignore jobs_table (continuation_job i t available run_id))))"

definition approve_and_enqueue_continuation :: "string \<Rightarrow> string \<Rightarrow> ('t world, approval_request_row) oper" where
  "approve_and_enqueue_continuation approval_id approver =
     bnd now (\<lambda>t. engine_begin (
     bnd (eligible_request ''approval is not eligible'' approval_id approver t) (\<lambda>(a, run_id).
     bnd (record_decision approval_id approver ''APPROVED'' None t) (\<lambda>_.
     bnd (continue_run run_id t) (\<lambda>_.
     the_request approval_id)))))"

definition reject_and_complete_run :: "string \<Rightarrow> string \<Rightarrow> string option \<Rightarrow> ('t world, approval_request_row) oper" where
  "reject_and_complete_run approval_id approver reason =
     bnd now (\<lambda>t. engine_begin (
     bnd (eligible_request ''approval rejection is not eligible'' approval_id approver t) (\<lambda>(a, run_id).
     bnd (record_decision approval_id approver ''REJECTED'' reason t) (\<lambda>_.
     bnd (update_rows runs_table (\<lambda>r. row_id r = run_id) (set_status COMPLETED (Some APPROVAL_REJECTED) t)) (\<lambda>_.
     the_request approval_id)))))"

definition authorizes :: "string \<Rightarrow> string \<Rightarrow> string \<Rightarrow> string \<Rightarrow> int \<Rightarrow> approval_request_row \<Rightarrow> bool" where
  "authorizes action_id target_id candidate_id evidence_hash t a \<longleftrightarrow>
     av_action_id a = action_id \<and> av_target_id a = target_id \<and> av_candidate_id a = candidate_id \<and>
     av_evidence_hash a = evidence_hash \<and> av_status a = ''APPROVED'' \<and> t < av_expires_at a"

definition require_current :: "string \<Rightarrow> string \<Rightarrow> string \<Rightarrow> string \<Rightarrow> ('t world, approval_request_row) oper" where
  "require_current action_id target_id candidate_id evidence_hash =
     bnd now (\<lambda>t. engine_begin (
     bnd (select_one approval_requests_table (authorizes action_id target_id candidate_id evidence_hash t)) (\<lambda>found.
     case found of
       None \<Rightarrow> raise (DurableApprovalRequired ''current approval required'')
     | Some a \<Rightarrow> ret a)))"

subsection \<open>What the operations do to the tables\<close>

definition decided :: "string \<Rightarrow> string \<Rightarrow> string \<Rightarrow> string option \<Rightarrow> int \<Rightarrow> string \<Rightarrow> db \<Rightarrow> db" where
  "decided approval_id approver decision reason t i d =
     d\<lparr>db_approval_requests := map (\<lambda>a. if row_id a = approval_id then set_approval decision t a else a) (db_approval_requests d),
       db_approval_decisions := db_approval_decisions d @ [decision_row approval_id approver decision reason i t]\<rparr>"

lemma record_decision_Inr:
  "record_decision approval_id approver decision reason t w = (Inr u, w') \<Longrightarrow>
     \<exists>i. w_db w' = decided approval_id approver decision reason t i (w_db w)"
  by (auto simp: record_decision_def bnd_Inr_iff world_apply insert_row_def approval_requests_table_def
      approval_decisions_table_def decided_def split: if_splits)

lemma the_request_Inr:
  "the_request approval_id w = (Inr a, w') \<longleftrightarrow> w' = w \<and> filter (\<lambda>a. row_id a = approval_id) (db_approval_requests (w_db w)) = [a]"
  by (auto simp: the_request_def bnd_apply oper_simps approval_requests_table_def split: sum.split)

lemma one_or_none_filterE:
  assumes "one_or_none (filter p xs) = Inr (Some x)"
  obtains "filter p xs = [x]" and "x \<in> set xs" and "p x"
  using assms filter_one by fastforce

definition may_decide :: "db \<Rightarrow> string \<Rightarrow> string \<Rightarrow> int \<Rightarrow> approval_request_row \<Rightarrow> run_row \<Rightarrow> bool" where
  "may_decide d approval_id approver t a r \<longleftrightarrow>
     filter (\<lambda>a. row_id a = approval_id) (db_approval_requests d) = [a] \<and> av_status a = ''PENDING'' \<and> t < av_expires_at a \<and>
     av_requested_by_user_id a \<noteq> approver \<and> av_optimization_run_id a = Some (row_id r) \<and>
     filter (\<lambda>x. row_id x = row_id r) (db_runs d) = [r] \<and> rn_status r = APPROVAL_PENDING"

lemma eligible_request_Inr:
  assumes "eligible_request msg approval_id approver t w = (Inr (a, run_id), w')"
  shows "w' = w" and "\<exists>r. row_id r = run_id \<and> may_decide (w_db w) approval_id approver t a r"
proof -
  have "w' = w \<and> (\<exists>r. filter (\<lambda>x. row_id x = run_id) (db_runs (w_db w)) = [r] \<and>
      filter (\<lambda>a. row_id a = approval_id) (db_approval_requests (w_db w)) = [a] \<and> av_status a = ''PENDING'' \<and> t < av_expires_at a \<and>
      av_requested_by_user_id a \<noteq> approver \<and> av_optimization_run_id a = Some run_id \<and> rn_status r = APPROVAL_PENDING)"
    using assms
    by (auto simp: eligible_request_def world_apply approval_requests_table_def runs_table_def elim!: bnd_InrE
        split: option.splits if_splits)
  then show "w' = w" and "\<exists>r. row_id r = run_id \<and> may_decide (w_db w) approval_id approver t a r"
    using filter_one unfolding may_decide_def by fastforce+
qed

lemma approve_durable_Inr:
  assumes "approve_durable approval_id approver w = (Inr x, w')"
  shows "\<exists>a t i. filter (\<lambda>a. row_id a = approval_id) (db_approval_requests (w_db w)) = [a] \<and> av_status a = ''PENDING'' \<and>
     t = w_clock w (w_reads w) \<and> t < av_expires_at a \<and> av_requested_by_user_id a \<noteq> approver \<and>
     w_db w' = decided approval_id approver ''APPROVED'' None t i (w_db w)"
proof -
  from assms obtain a w1 where a: "filter (\<lambda>a. row_id a = approval_id) (db_approval_requests (w_db w)) = [a]"
      "av_status a = ''PENDING''" "w_clock w (w_reads w) < av_expires_at a" "av_requested_by_user_id a \<noteq> approver"
    and rec: "record_decision approval_id approver ''APPROVED'' None (w_clock w (w_reads w)) (tick (tick w)) = (Inr (), w1)"
    and rest: "the_request approval_id w1 = (Inr x, w')"
    by (auto simp: approve_durable_def engine_begin_Inr bnd_Inr_iff world_apply approval_requests_table_def split: option.splits if_splits)
  then show ?thesis using record_decision_Inr [OF rec] rest by (auto simp: the_request_Inr)
qed

definition run_continued :: "string \<Rightarrow> int \<Rightarrow> string \<Rightarrow> int \<Rightarrow> db \<Rightarrow> db" where
  "run_continued run_id t i available d =
     (let j = continuation_job i t available run_id; clash = (\<exists>x\<in>set (db_jobs d). same_id x j \<or> jobs_clash x j) in
      d\<lparr>db_runs := map (\<lambda>r. if row_id r = run_id then set_run APPROVED t r else r) (db_runs d),
        db_jobs := (if clash then db_jobs d else db_jobs d @ [j])\<rparr>)"

lemma continue_run_db: "continue_run run_id t w = (r, w') \<Longrightarrow> \<exists>i available. i \<in> range (w_uuids w) \<and>
    w_db w' = run_continued run_id t i available (w_db w)"
  by (intro exI [of _ "w_uuids w (w_reads w)"] exI [of _ "w_clock w (Suc (w_reads w))"])
    (auto simp: continue_run_def bnd_apply world_apply insert_or_ignore_def run_continued_def runs_table_def jobs_table_def Let_def
      split: if_splits)

lemma record_decision_frame: "record_decision approval_id approver decision reason t w = (r, w') \<Longrightarrow> w_uuids w' = w_uuids w"
proof -
  have "keeps same_outside (record_decision approval_id approver decision reason t)"
    unfolding record_decision_def by (intro frames)
  then show "record_decision approval_id approver decision reason t w = (r, w') \<Longrightarrow> w_uuids w' = w_uuids w"
    by (auto simp: same_outside_def dest: keepsD)
qed

lemma approve_and_enqueue_Inr:
  assumes "approve_and_enqueue_continuation approval_id approver w = (Inr x, w')"
  shows "\<exists>a r t i k v. k \<in> range (w_uuids w) \<and> t = w_clock w (w_reads w) \<and> may_decide (w_db w) approval_id approver t a r \<and>
     w_db w' = run_continued (row_id r) t k v (decided approval_id approver ''APPROVED'' None t i (w_db w))"
proof -
  let ?t = "w_clock w (w_reads w)"
  from assms obtain a run_id w1 w2 where
      e: "eligible_request ''approval is not eligible'' approval_id approver ?t (tick (tick w)) = (Inr (a, run_id), w1)"
    and rec: "record_decision approval_id approver ''APPROVED'' None ?t w1 = (Inr (), w2)"
    and cont: "continue_run run_id ?t w2 = (Inr (), w')"
    by (auto simp: approve_and_enqueue_continuation_def engine_begin_Inr world_apply the_request_Inr elim!: bnd_InrE)
  obtain r i where "row_id r = run_id" "may_decide (w_db w1) approval_id approver ?t a r"
      "w_db w2 = decided approval_id approver ''APPROVED'' None ?t i (w_db w1)" "w_db w1 = w_db w"
    using eligible_request_Inr [OF e] record_decision_Inr [OF rec] by auto
  moreover have "w_uuids w2 = w_uuids w" using record_decision_frame [OF rec] eligible_request_Inr(1) [OF e] by simp
  ultimately show ?thesis using continue_run_db [OF cont] by metis
qed

lemma reject_Inr:
  assumes "reject_and_complete_run approval_id approver reason w = (Inr x, w')"
  shows "\<exists>a r t i. t = w_clock w (w_reads w) \<and> may_decide (w_db w) approval_id approver t a r \<and>
     w_db w' = moved (row_id r) COMPLETED (Some APPROVAL_REJECTED) t
       (decided approval_id approver ''REJECTED'' reason t i (w_db w))"
proof -
  let ?t = "w_clock w (w_reads w)"
  from assms obtain a run_id w1 w2 where
      e: "eligible_request ''approval rejection is not eligible'' approval_id approver ?t (tick (tick w)) = (Inr (a, run_id), w1)"
    and rec: "record_decision approval_id approver ''REJECTED'' reason ?t w1 = (Inr (), w2)"
    and rest: "w_db w' = moved run_id COMPLETED (Some APPROVAL_REJECTED) ?t (w_db w2)"
    by (auto simp: reject_and_complete_run_def engine_begin_Inr world_apply the_request_Inr runs_table_def moved_def elim!: bnd_InrE)
  obtain r i where "row_id r = run_id" "may_decide (w_db w1) approval_id approver ?t a r"
      "w_db w2 = decided approval_id approver ''REJECTED'' reason ?t i (w_db w1)" "w_db w1 = w_db w"
    using eligible_request_Inr [OF e] record_decision_Inr [OF rec] by auto
  then show ?thesis using rest by metis
qed

lemma request_durable_Inr:
  assumes "request_durable ttl q w = (Inr x, w')"
  shows "w_db w' = w_db w \<or> (\<exists>i t. w_db w' = (w_db w)\<lparr>db_approval_requests := db_approval_requests (w_db w) @ [new_request ttl q i t]\<rparr> \<and>
      (\<forall>a\<in>set (db_approval_requests (w_db w)). row_id a \<noteq> i))"
proof -
  let ?r = "new_request ttl q (w_uuids w (Suc (w_reads w))) (w_clock w (w_reads w))"
  have "w_db w' = w_db w \<or> w_db w' = (w_db w)\<lparr>db_approval_requests := db_approval_requests (w_db w) @ [?r]\<rparr> \<and>
      (\<forall>a\<in>set (db_approval_requests (w_db w)). row_id a \<noteq> row_id ?r)"
    using assms
    by (auto simp: request_durable_def engine_begin_Inr world_apply reuse_request_def insert_row_def same_id_def
        approval_requests_table_def elim!: bnd_InrE split: option.splits if_splits)
  then show ?thesis by (auto simp: new_request_def)
qed

lemma require_current_db: "w_db (snd (require_current action_id target_id candidate_id evidence_hash w)) = w_db w"
  by (simp add: require_current_def engine_begin_def tables_transaction_def oper_simps bnd_apply split: sum.split option.split)

lemma decisions_fail_clean:
  "request_durable ttl q w = (Inl e, w') \<Longrightarrow> w_db w' = w_db w"
  "approve_durable approval_id approver w = (Inl e, w') \<Longrightarrow> w_db w' = w_db w"
  "approve_and_enqueue_continuation approval_id approver w = (Inl e, w') \<Longrightarrow> w_db w' = w_db w"
  "reject_and_complete_run approval_id approver reason w = (Inl e, w') \<Longrightarrow> w_db w' = w_db w"
  by (auto simp: request_durable_def approve_durable_def approve_and_enqueue_continuation_def reject_and_complete_run_def
      bnd_apply oper_simps dest!: engine_begin_Inl)

subsection \<open>Four eyes\<close>

text \<open>
  Every approved request has been approved by somebody other than its requester, on the record. The
  relation collects what may happen to the approval tables: the operations above, and anything else
  that leaves the requests alone and only adds decisions.
\<close>

definition four_eyes :: "db \<Rightarrow> bool" where
  "four_eyes d \<longleftrightarrow> (\<forall>a\<in>set (db_approval_requests d). av_status a = ''APPROVED'' \<longrightarrow>
     (\<exists>c\<in>set (db_approval_decisions d). ay_approval_request_id c = row_id a \<and> ay_decision c = ''APPROVED'' \<and>
        ay_decided_by_user_id c \<noteq> av_requested_by_user_id a))"

inductive approval_step :: "'t world \<Rightarrow> 't world \<Rightarrow> bool" where
  requested: "request_durable ttl q w = (r, w') \<Longrightarrow> approval_step w w'"
| approved: "approve_durable approval_id approver w = (r, w') \<Longrightarrow> approval_step w w'"
| continued: "approve_and_enqueue_continuation approval_id approver w = (r, w') \<Longrightarrow> approval_step w w'"
| rejected: "reject_and_complete_run approval_id approver reason w = (r, w') \<Longrightarrow> approval_step w w'"
| checked: "require_current action_id target_id candidate_id evidence_hash w = (r, w') \<Longrightarrow> approval_step w w'"
| elsewhere: "db_approval_requests (w_db w') = db_approval_requests (w_db w) \<Longrightarrow>
    prefix (db_approval_decisions (w_db w)) (db_approval_decisions (w_db w')) \<Longrightarrow> approval_step w w'"

lemma four_eyes_decided:
  assumes "four_eyes d" and "filter (\<lambda>a. row_id a = approval_id) (db_approval_requests d) = [a]"
    and "decision = ''APPROVED'' \<longrightarrow> av_requested_by_user_id a \<noteq> approver"
  shows "four_eyes (decided approval_id approver decision reason t i d)"
  unfolding four_eyes_def
proof (intro ballI impI)
  fix x assume x: "x \<in> set (db_approval_requests (decided approval_id approver decision reason t i d))" "av_status x = ''APPROVED''"
  then obtain y where y: "y \<in> set (db_approval_requests d)" "x = (if row_id y = approval_id then set_approval decision t y else y)"
    by (auto simp: decided_def)
  show "\<exists>c\<in>set (db_approval_decisions (decided approval_id approver decision reason t i d)).
      ay_approval_request_id c = row_id x \<and> ay_decision c = ''APPROVED'' \<and> ay_decided_by_user_id c \<noteq> av_requested_by_user_id x"
  proof (cases "row_id y = approval_id")
    case True
    then have "y \<in> set (filter (\<lambda>a. row_id a = approval_id) (db_approval_requests d))" using y(1) by simp
    then have "y = a" using assms(2) by simp
    then show ?thesis using True y(2) x(2) assms(3) by (simp add: decided_def set_approval_def decision_row_def)
  next
    case False
    then show ?thesis using y x(2) assms(1) by (auto simp: four_eyes_def decided_def)
  qed
qed

lemma four_eyes_grows:
  assumes "four_eyes d" and "db_approval_requests d' = db_approval_requests d"
    and "prefix (db_approval_decisions d) (db_approval_decisions d')"
  shows "four_eyes d'"
  using assms set_mono_prefix [OF assms(3)] unfolding four_eyes_def by fastforce

lemma four_eyes_step: "approval_step w w' \<Longrightarrow> four_eyes (w_db w) \<Longrightarrow> four_eyes (w_db w')"
proof (induction rule: approval_step.induct)
  case (requested ttl q w r w')
  show ?case
  proof (cases r)
    case (Inl e) then show ?thesis using requested decisions_fail_clean(1) by metis
  next
    case (Inr x)
    from request_durable_Inr [OF requested(1) [unfolded Inr]] show ?thesis
      using requested(2) by (auto simp: four_eyes_def new_request_def)
  qed
next
  case (approved approval_id approver w r w')
  show ?case
  proof (cases r)
    case (Inl e) then show ?thesis using approved decisions_fail_clean(2) by metis
  next
    case (Inr x)
    from approve_durable_Inr [OF approved(1) [unfolded Inr]] show ?thesis
      using four_eyes_decided [OF approved(2)] by auto
  qed
next
  case (continued approval_id approver w r w')
  show ?case
  proof (cases r)
    case (Inl e) then show ?thesis using continued decisions_fail_clean(3) by metis
  next
    case (Inr x)
    from approve_and_enqueue_Inr [OF continued(1) [unfolded Inr]] obtain a r0 t i k v
      where e: "may_decide (w_db w) approval_id approver t a r0"
        and d: "w_db w' = run_continued (row_id r0) t k v (decided approval_id approver ''APPROVED'' None t i (w_db w))"
      by blast
    have "four_eyes (decided approval_id approver ''APPROVED'' None t i (w_db w))"
      using e by (intro four_eyes_decided [OF continued(2)]) (auto simp: may_decide_def)
    then show ?thesis by (simp add: d run_continued_def Let_def four_eyes_def)
  qed
next
  case (rejected approval_id approver reason w r w')
  show ?case
  proof (cases r)
    case (Inl e) then show ?thesis using rejected decisions_fail_clean(4) by metis
  next
    case (Inr x)
    from reject_Inr [OF rejected(1) [unfolded Inr]] obtain a r0 t i
      where e: "may_decide (w_db w) approval_id approver t a r0"
        and d: "w_db w' = moved (row_id r0) COMPLETED (Some APPROVAL_REJECTED) t
           (decided approval_id approver ''REJECTED'' reason t i (w_db w))"
      by blast
    have "four_eyes (decided approval_id approver ''REJECTED'' reason t i (w_db w))"
      using e by (intro four_eyes_decided [OF rejected(2)]) (auto simp: may_decide_def)
    then show ?thesis by (simp add: d moved_def four_eyes_def)
  qed
next
  case (checked action_id target_id candidate_id evidence_hash w r w')
  then show ?case using require_current_db [of action_id target_id candidate_id evidence_hash w] by simp
next
  case (elsewhere w' w)
  then show ?case using four_eyes_grows by blast
qed

text \<open>
  C5. No request is ever approved by its own requester. Whatever sequence of requests, approvals,
  continuations, rejections and checks runs, interleaved with anything that leaves the requests alone
  and only adds decisions, every approved request has on record an approving decision of somebody else.
\<close>

theorem approvals_have_four_eyes:
  assumes "approval_step\<^sup>*\<^sup>* w w'" and "four_eyes (w_db w)"
  shows "four_eyes (w_db w')"
  using assms by (induction rule: rtranclp_induct) (auto dest: four_eyes_step)

definition demo_request :: approval_request_row where
  "demo_request = \<lparr>row_id = ''a1'', row_created_at = 0, row_updated_at = None, av_admission_decision_id = None,
     av_requested_by_user_id = ''alice'', av_action_id = ''act'', av_target_id = ''t1'', av_candidate_id = ''c1'',
     av_optimization_run_id = Some ''run1'', av_candidate_fingerprint = Some ''fp'', av_evidence_hash = ''h'',
     av_expires_at = 900, av_status = ''PENDING''\<rparr>"

definition approval_db :: db where
  "approval_db = empty_db\<lparr>db_runs := [demo_run\<lparr>rn_status := APPROVAL_PENDING\<rparr>], db_approval_requests := [demo_request]\<rparr>"

lemmas approval_eval =
  engine_begin_def tables_transaction_def bnd_apply world_apply db_available_apply eligible_request_def record_decision_def
  the_request_def continue_run_def insert_row_def insert_or_ignore_def the_one_def one_or_none_def
  approval_requests_table_def approval_decisions_table_def runs_table_def jobs_table_def same_id_def

lemma demo_continuation:
  "\<exists>x w'. approve_and_enqueue_continuation ''a1'' ''bob'' (world_of approval_db ()) = (Inr x, w')"
  by (simp add: approve_and_enqueue_continuation_def approval_eval world_of_def approval_db_def demo_request_def demo_run_def
      set_approval_def empty_db_def)

theorem approvals_have_four_eyes_witness:
  "\<exists>x w'. approve_and_enqueue_continuation ''a1'' ''bob'' (world_of approval_db ()) = (Inr x, w') \<and> four_eyes (w_db w')"
proof -
  obtain x w' where run: "approve_and_enqueue_continuation ''a1'' ''bob'' (world_of approval_db ()) = (Inr x, w')"
    using demo_continuation by blast
  have "four_eyes (w_db (world_of approval_db ()))" by (simp add: four_eyes_def world_of_def approval_db_def demo_request_def)
  with approvals_have_four_eyes [OF r_into_rtranclp [of approval_step, OF approval_step.continued [OF run]]]
  show ?thesis using run by blast
qed

subsection \<open>What an approval sets going\<close>

lemma continuation_is: "is_continuation (continuation_job i t available run_id)"
  "jb_optimization_run_id (continuation_job i t available run_id) = Some run_id"
  "jb_kind (continuation_job i t available run_id) = ''OPTIMIZATION''" "row_id (continuation_job i t available run_id) = i"
  by (simp_all add: is_continuation_def continuation_job_def pending_job_def payload_text_def OPTIMIZATION_def)

lemma continued_has_job:
  assumes "i \<notin> set (job_ids d)"
  shows "\<exists>j\<in>set (db_jobs (run_continued run_id t i available d)).
     jb_optimization_run_id j = Some run_id \<and> jb_kind j = ''OPTIMIZATION'' \<and> is_continuation j"
proof (cases "\<exists>x\<in>set (db_jobs d). jobs_clash x (continuation_job i t available run_id)")
  case True
  then show ?thesis using continuation_is by (auto simp: run_continued_def jobs_clash_def Let_def)
next
  case False
  have "\<not> same_id x (continuation_job i t available run_id)" if "x \<in> set (db_jobs d)" for x
    using that assms continuation_is(4) by (auto simp: same_id_def job_ids_def)
  then show ?thesis using False continuation_is by (auto simp: run_continued_def Let_def)
qed

lemma decided_other [simp]:
  "db_runs (decided approval_id approver decision reason t i d) = db_runs d"
  "db_jobs (decided approval_id approver decision reason t i d) = db_jobs d"
  by (simp_all add: decided_def)

lemma run_moves_update:
  assumes "filter (\<lambda>r. row_id r = i) (db_runs d) = [row]" and "lifecycle_reach (rn_status row) (rn_status (f row))"
    and "\<And>r. row_id (f r) = row_id r \<and> rn_target_id (f r) = rn_target_id r"
    and "db_runs d' = map (\<lambda>r. if row_id r = i then f r else r) (db_runs d)"
  shows "run_moves d d'"
  unfolding run_moves_def
proof
  fix r assume r: "r \<in> set (db_runs d)"
  let ?r = "if row_id r = i then f r else r"
  have "r = row" if "row_id r = i"
  proof -
    have "r \<in> set (filter (\<lambda>r. row_id r = i) (db_runs d))" using r that by simp
    then show ?thesis using assms(1) by simp
  qed
  then have "row_id ?r = row_id r \<and> rn_target_id ?r = rn_target_id r \<and> lifecycle_reach (rn_status r) (rn_status ?r)"
    using assms(2,3) by auto
  moreover have "?r \<in> set (db_runs d')" using r assms(4) by auto
  ultimately show "\<exists>r'\<in>set (db_runs d'). row_id r' = row_id r \<and> rn_target_id r' = rn_target_id r \<and>
      lifecycle_reach (rn_status r) (rn_status r')" by blast
qed

lemma evidence_grows_decided: "evidence_grows d (decided approval_id approver decision reason t i d)"
  by (simp add: evidence_grows_def decided_def)

lemma keeps_evolves_cases:
  assumes "\<And>w e w'. m w = (Inl e, w') \<Longrightarrow> w_db w' = w_db w" and "\<And>w x w'. m w = (Inr x, w') \<Longrightarrow> db_evolves (w_db w) (w_db w')"
  shows "keeps evolves m"
proof (rule keepsI)
  fix w r w' assume "m w = (r, w')"
  then show "evolves w w'" using assms by (cases r) (auto simp: evolves_def)
qed

lemma approval_evolution [evolution]:
  "keeps evolves (approve_and_enqueue_continuation approval_id approver)"
  "keeps evolves (reject_and_complete_run approval_id approver reason)"
proof -
  show "keeps evolves (approve_and_enqueue_continuation approval_id approver)"
  proof (rule keeps_evolves_cases)
    show "w_db w' = w_db w" if "approve_and_enqueue_continuation approval_id approver w = (Inl e, w')" for w e w'
      using that by (rule decisions_fail_clean)
    show "db_evolves (w_db w) (w_db w')" if run: "approve_and_enqueue_continuation approval_id approver w = (Inr x, w')" for w x w'
    proof -
      from approve_and_enqueue_Inr [OF run] obtain a r t i k v where e: "may_decide (w_db w) approval_id approver t a r"
        and d: "w_db w' = run_continued (row_id r) t k v (decided approval_id approver ''APPROVED'' None t i (w_db w))" by blast
      have "run_moves (w_db w) (w_db w')"
        using e by (intro run_moves_update [where i = "row_id r" and row = r and f = "set_run APPROVED t"])
          (auto simp: may_decide_def set_run_def d run_continued_def Let_def intro: lifecycle_reach_edge)
      moreover have "evidence_grows (w_db w) (w_db w')"
        using evidence_grows_decided [of "w_db w" approval_id approver "''APPROVED''" None t i]
        by (simp add: d run_continued_def Let_def evidence_grows_def)
      ultimately show ?thesis by (simp add: db_evolves_def)
    qed
  qed
  show "keeps evolves (reject_and_complete_run approval_id approver reason)"
  proof (rule keeps_evolves_cases)
    show "w_db w' = w_db w" if "reject_and_complete_run approval_id approver reason w = (Inl e, w')" for w e w'
      using that by (rule decisions_fail_clean)
    show "db_evolves (w_db w) (w_db w')" if run: "reject_and_complete_run approval_id approver reason w = (Inr x, w')" for w x w'
    proof -
      from reject_Inr [OF run] obtain a r t i where e: "may_decide (w_db w) approval_id approver t a r"
        and d: "w_db w' = moved (row_id r) COMPLETED (Some APPROVAL_REJECTED) t
          (decided approval_id approver ''REJECTED'' reason t i (w_db w))" by blast
      have "run_moves (w_db w) (w_db w')"
        using e by (intro run_moves_update [where i = "row_id r" and row = r and f = "set_status COMPLETED (Some APPROVAL_REJECTED) t"])
          (auto simp: may_decide_def set_status_def d moved_def intro: lifecycle_reach_edge)
      moreover have "evidence_grows (w_db w) (w_db w')"
        using evidence_grows_decided [of "w_db w" approval_id approver "''REJECTED''" reason t i]
        by (simp add: d moved_def evidence_grows_def)
      ultimately show ?thesis by (simp add: db_evolves_def)
    qed
  qed
qed

lemma approval_evolution_simple [evolution]:
  "keeps evolves (request_durable ttl q)" "keeps evolves (approve_durable approval_id approver)"
  "keeps evolves (require_current action_id target_id candidate_id evidence_hash)"
  unfolding request_durable_def approve_durable_def require_current_def reuse_request_def record_decision_def the_request_def
  by (intro evolution)+

text \<open>
  C24. An approval that returns was eligible - pending, unexpired, asked for by somebody else, its run
  waiting - and sets the run going: afterwards the run is approved and the job table holds a
  continuation job for it. A second decision on the request, by anybody, raises.
\<close>

theorem approval_continues_run:
  assumes "approve_and_enqueue_continuation approval_id approver w = (Inr x, w')"
    and "\<forall>n. w_uuids w n \<notin> set (job_ids (w_db w))"
  shows "\<exists>a r. may_decide (w_db w) approval_id approver (w_clock w (w_reads w)) a r \<and>
     (\<forall>r'\<in>set (db_runs (w_db w')). row_id r' = row_id r \<longrightarrow> rn_status r' = APPROVED) \<and>
     (\<exists>j\<in>set (jobs_of w'). jb_optimization_run_id j = Some (row_id r) \<and> jb_kind j = ''OPTIMIZATION'' \<and> is_continuation j) \<and>
     (\<forall>other y w''. approve_and_enqueue_continuation approval_id other w' \<noteq> (Inr y, w'')) \<and>
     (\<forall>other reason y w''. reject_and_complete_run approval_id other reason w' \<noteq> (Inr y, w''))"
proof -
  obtain a r t i k v where e: "may_decide (w_db w) approval_id approver t a r" and t: "t = w_clock w (w_reads w)"
    and k: "k \<in> range (w_uuids w)"
    and d: "w_db w' = run_continued (row_id r) t k v (decided approval_id approver ''APPROVED'' None t i (w_db w))"
    using approve_and_enqueue_Inr [OF assms(1)] by blast
  have runs: "\<forall>r'\<in>set (db_runs (w_db w')). row_id r' = row_id r \<longrightarrow> rn_status r' = APPROVED"
    by (auto simp: d run_continued_def Let_def set_run_def)
  have job: "\<exists>j\<in>set (jobs_of w'). jb_optimization_run_id j = Some (row_id r) \<and> jb_kind j = ''OPTIMIZATION'' \<and> is_continuation j"
    unfolding d using assms(2) k by (intro continued_has_job) (auto simp: job_ids_def)
  have st: "av_status b = ''APPROVED''" if "b \<in> set (db_approval_requests (w_db w'))" "row_id b = approval_id" for b
  proof -
    have "db_approval_requests (w_db w') =
        map (\<lambda>a. if row_id a = approval_id then set_approval ''APPROVED'' t a else a) (db_approval_requests (w_db w))"
      by (simp add: d run_continued_def decided_def Let_def)
    with that(1) have "b \<in> (\<lambda>a. if row_id a = approval_id then set_approval ''APPROVED'' t a else a) ` set (db_approval_requests (w_db w))"
      by (simp only: set_map)
    then obtain c where "b = (if row_id c = approval_id then set_approval ''APPROVED'' t c else c)" by blast
    then show ?thesis using that(2) by (simp add: set_approval_def split: if_splits)
  qed
  have no: "\<not> may_decide (w_db w') approval_id other t' b r'" for other t' b r'
    using st filter_one by (fastforce simp: may_decide_def)
  have "approve_and_enqueue_continuation approval_id other w' \<noteq> (Inr y, w'')" for other y w''
    using no approve_and_enqueue_Inr [of approval_id other w' y w''] by blast
  moreover have "reject_and_complete_run approval_id other reason w' \<noteq> (Inr y, w'')" for other reason y w''
    using no reject_Inr [of approval_id other reason w' y w''] by blast
  ultimately show ?thesis using e t runs job by blast
qed

theorem approval_continues_run_witness:
  "\<exists>x w' j. approve_and_enqueue_continuation ''a1'' ''bob'' (world_of approval_db ()) = (Inr x, w') \<and>
     j \<in> set (jobs_of w') \<and> jb_optimization_run_id j = Some ''run1'' \<and> is_continuation j"
proof -
  obtain x w' where run: "approve_and_enqueue_continuation ''a1'' ''bob'' (world_of approval_db ()) = (Inr x, w')"
    using demo_continuation by blast
  have "\<forall>n. w_uuids (world_of approval_db ()) n \<notin> set (job_ids (w_db (world_of approval_db ())))"
    by (simp add: world_of_def approval_db_def job_ids_def empty_db_def)
  from approval_continues_run [OF run this] obtain a r where
      e: "may_decide (w_db (world_of approval_db ())) ''a1'' ''bob'' 0 a r"
    and j: "\<exists>j\<in>set (jobs_of w'). jb_optimization_run_id j = Some (row_id r) \<and> jb_kind j = ''OPTIMIZATION'' \<and> is_continuation j"
    by (auto simp: world_of_def)
  from e have "row_id r = ''run1''" by (auto simp: may_decide_def world_of_def approval_db_def demo_request_def)
  then show ?thesis using run j by metis
qed

text \<open>
  An expired request strands its run: it can be neither approved nor rejected any more, and asking
  again for the same candidate of the run hands out the same expired request instead of a new one.
\<close>

theorem expired_request_strands_run:
  assumes "filter (\<lambda>b. av_optimization_run_id b = Some run_id) (db_approval_requests (w_db w)) = [a]"
    and "\<forall>n. av_expires_at a \<le> w_clock w n" and "filter (\<lambda>b. row_id b = row_id a) (db_approval_requests (w_db w)) = [a]"
    and "pq_optimization_run_id q = Some run_id" and "pq_candidate_id q = av_candidate_id a"
    and "pq_candidate_fingerprint q = av_candidate_fingerprint a" and "\<not> w_faults w (Suc (Suc (w_reads w)))"
  shows "fst (request_durable ttl q w) = Inr a \<and>
     (\<forall>x w'. approve_and_enqueue_continuation (row_id a) approver w \<noteq> (Inr x, w')) \<and>
     (\<forall>x w'. reject_and_complete_run (row_id a) approver reason w \<noteq> (Inr x, w'))"
proof (intro conjI allI)
  show "fst (request_durable ttl q w) = Inr a"
    using assms by (simp add: request_durable_def engine_begin_def tables_transaction_def bnd_apply world_apply reuse_request_def
        approval_requests_table_def one_or_none_def)
  have no: "\<not> may_decide (w_db w) (row_id a) approver (w_clock w n) b r" for b r n
    using assms(2,3) by (auto simp: may_decide_def not_less)
  show "approve_and_enqueue_continuation (row_id a) approver w \<noteq> (Inr x, w')" for x w'
    using no approve_and_enqueue_Inr [of "row_id a" approver w x w'] by blast
  show "reject_and_complete_run (row_id a) approver reason w \<noteq> (Inr x, w')" for x w'
    using no reject_Inr [of "row_id a" approver reason w x w'] by blast
qed

theorem expired_request_strands_run_witness:
  "fst (request_durable DEFAULT_TTL \<lparr>pq_action_id = ''act'', pq_target_id = ''t1'', pq_candidate_id = ''c1'', pq_evidence_hash = ''h2'',
       pq_requester_id = ''alice'', pq_optimization_run_id = Some ''run1'', pq_candidate_fingerprint = Some ''fp''\<rparr>
       (world_of approval_db ()\<lparr>w_clock := (\<lambda>n. 1000)\<rparr>)) = Inr demo_request"
proof -
  have f: "filter (\<lambda>b. av_optimization_run_id b = Some ''run1'') (db_approval_requests (w_db (world_of approval_db ()\<lparr>w_clock := (\<lambda>n. 1000)\<rparr>))) = [demo_request]"
      "filter (\<lambda>b. row_id b = row_id demo_request) (db_approval_requests (w_db (world_of approval_db ()\<lparr>w_clock := (\<lambda>n. 1000)\<rparr>))) = [demo_request]"
    by (simp_all add: world_of_def approval_db_def demo_request_def)
  show ?thesis
    by (rule expired_request_strands_run [OF f(1) _ f(2), THEN conjunct1]) (simp_all add: world_of_def demo_request_def)
qed

end
