(* ===== verification/Authority.thy ===== *)
theory Authority
  imports DurableApprovals
begin

text \<open>
  \<open>backend/app/authority/durable.py\<close>: the one immutable authority decision of an admitted run, and the
  environment evidence it is bound to. The digest of the fingerprints is an argument.
\<close>

subsection \<open>Evidence\<close>

text \<open>Python's truth value of a JSON value.\<close>

fun json_true :: "json \<Rightarrow> bool" where
  "json_true JNull = False"
| "json_true (JBool b) = b"
| "json_true (JNum n) = (n \<noteq> 0)"
| "json_true (JStr t) = (t \<noteq> [])"
| "json_true (JArr xs) = (xs \<noteq> [])"
| "json_true (JObj kvs) = (kvs \<noteq> [])"

text \<open>\<open>snapshot\<close> is usable when it is an object; its flag is the truth value of the entry, absent is false.\<close>

definition telemetry_eligible :: "(string \<times> json) list \<Rightarrow> bool" where
  "telemetry_eligible kvs = (case map_of kvs ''production_autonomy_eligible'' of None \<Rightarrow> False | Some v \<Rightarrow> json_true v)"

definition target_facts :: "target_rec \<Rightarrow> target_row" where
  "target_facts t = \<lparr>tg_id = row_id t, tg_connection_label = ta_connection_label t, tg_deployment_mode = ta_deployment_mode t,
     tg_state = ta_state t, tg_is_active = ta_is_active t\<rparr>"

definition capability_facts :: "capability_rec \<Rightarrow> capability_row" where
  "capability_facts c = \<lparr>cs_target_id = cp_target_id c, cs_created_at = row_created_at c, cs_fingerprint = cp_fingerprint c\<rparr>"

definition credential_facts :: "credential_rec \<Rightarrow> credential_row" where
  "credential_facts c = \<lparr>cr_id = row_id c, cr_target_id = tc_target_id c, cr_key_version = tc_key_version c,
     cr_credential_type = tc_credential_type c\<rparr>"

text \<open>\<open>ORDER BY created_at DESC LIMIT 1\<close>\<close>

definition latest_capability :: "string \<Rightarrow> ('t world, capability_rec option) oper" where
  "latest_capability target_id = asks (\<lambda>w.
     case sort_key (\<lambda>c. - row_created_at c) (filter (\<lambda>c. cp_target_id c = target_id) (db_capability_snapshots (w_db w))) of
       [] \<Rightarrow> None | c # _ \<Rightarrow> Some c)"

definition credential_of :: "string \<Rightarrow> ('t world, credential_rec option) oper" where
  "credential_of target_id = select_one target_credentials_table (\<lambda>c. tc_target_id c = target_id)"

definition bound_environment :: "digest \<Rightarrow> target_rec \<Rightarrow> capability_rec option \<Rightarrow> credential_rec option \<Rightarrow> string \<times> string \<times> string" where
  "bound_environment sha t cap cred =
     environment_binding sha (target_facts t) (map_option capability_facts cap) (map_option credential_facts cred)"

subsection \<open>The decision\<close>

record authority_result =
  ar_decision :: authority_row
  ar_automatic :: bool

definition automatic_authority :: "deployment_mode \<Rightarrow> bool \<Rightarrow> admission_artifact_row \<Rightarrow> candidate_row \<Rightarrow> string \<Rightarrow> bool" where
  "automatic_authority mode eligible admission candidate action_type \<longleftrightarrow>
     mode = FULL_AUTONOMOUS \<and> eligible \<and> aa_production_eligible admission \<and>
     cn_policy_classification candidate = Some ''AUTO_ELIGIBLE_AFTER_ADMISSION'' \<and> action_type \<in> set auto_eligible_actions"

definition authority_row_of ::
  "digest \<Rightarrow> string \<Rightarrow> deployment_mode \<Rightarrow> bool \<Rightarrow> admission_artifact_row \<Rightarrow> candidate_row \<Rightarrow> string \<Rightarrow> bool \<Rightarrow>
   string \<times> string \<times> string \<Rightarrow> string \<Rightarrow> int \<Rightarrow> int \<Rightarrow> authority_row" where
  "authority_row_of sha run_id mode eligible admission candidate fingerprint automatic env i t t' =
     (let authority_type = if automatic then ''AUTONOMOUS'' else ''HUMAN_REQUIRED'';
          reason = if automatic then ''AUTONOMY_ELIGIBLE'' else ''AUTONOMY_INELIGIBLE_REQUIRES_APPROVAL'';
          (identity, capability, security) = env
      in \<lparr>row_id = i, row_created_at = t, row_updated_at = Some t', au_optimization_run_id = run_id,
        au_candidate_id = row_id candidate, au_candidate_fingerprint = fingerprint, au_deployment_mode = mode_value mode,
        au_authority_type = authority_type, au_authority_reason = reason, au_production_autonomy_eligible = eligible,
        au_integrity_fingerprint = authority_integrity_fingerprint sha run_id (row_id candidate) fingerprint (mode_value mode)
          authority_type reason eligible (aa_production_eligible admission) identity capability security\<rparr>)"

text \<open>The steps of \<open>decide_for_run\<close> in order, each with the check that follows its query.\<close>

definition admitted_run :: "string \<Rightarrow> ('t world, run_row) oper" where
  "admitted_run run_id = bnd (select_one runs_table (\<lambda>r. row_id r = run_id)) (\<lambda>found.
     case found of
       None \<Rightarrow> raise (AuthorityInvariantError ''authority requires an admitted run'')
     | Some r \<Rightarrow> bnd (ensure (rn_status r = Lifecycle.ADMITTED)
         (AuthorityInvariantError ''authority requires an admitted run'')) (\<lambda>_. ret r))"

definition selected_admission :: "string \<Rightarrow> ('t world, admission_artifact_row \<times> string) oper" where
  "selected_admission run_id = bnd (select_one admission_artifacts_table (\<lambda>a. aa_optimization_run_id a = run_id)) (\<lambda>found.
     case found of
       None \<Rightarrow> raise (AuthorityInvariantError ''authority requires an immutable selected admitted candidate'')
     | Some a \<Rightarrow> (case aa_selected_candidate_id a of
           None \<Rightarrow> raise (AuthorityInvariantError ''authority requires an immutable selected admitted candidate'')
         | Some c \<Rightarrow> ret (a, c)))"

definition selected_candidate :: "string \<Rightarrow> ('t world, candidate_row \<times> string) oper" where
  "selected_candidate candidate_id = bnd (select_one candidates_table (\<lambda>c. row_id c = candidate_id)) (\<lambda>found.
     case found of
       None \<Rightarrow> raise (AuthorityInvariantError ''selected candidate lacks an immutable fingerprint'')
     | Some c \<Rightarrow> (case cn_deterministic_fingerprint c of
           None \<Rightarrow> raise (AuthorityInvariantError ''selected candidate lacks an immutable fingerprint'')
         | Some fp \<Rightarrow> ret (c, fp)))"

definition run_completeness :: "run_row \<Rightarrow> ('t world, json option) oper" where
  "run_completeness r = bnd (select_one workload_snapshots_table (\<lambda>s. Some (row_id s) = rn_workload_snapshot_id r)) (\<lambda>found.
     ret (Option.bind found wn_completeness))"

definition record_authority ::
  "digest \<Rightarrow> run_row \<Rightarrow> admission_artifact_row \<Rightarrow> candidate_row \<Rightarrow> string \<Rightarrow> candidate_action_row \<Rightarrow> (string \<times> json) list \<Rightarrow>
   target_rec \<Rightarrow> capability_rec option \<Rightarrow> credential_rec option \<Rightarrow> ('t world, authority_result) oper" where
  "record_authority sha r admission candidate fp action kvs target cap cred =
     bnd (lift (deployment_mode_of (rn_deployment_mode r))) (\<lambda>mode.
     let eligible = telemetry_eligible kvs;
         automatic = automatic_authority mode eligible admission candidate (ac_action_type action);
         env = bound_environment sha target cap cred in
     bnd uuid4 (\<lambda>i. bnd now (\<lambda>t. bnd now (\<lambda>t'.
     bnd (insert_row authority_decisions_table
       (authority_row_of sha (row_id r) mode eligible admission candidate fp automatic env i t t')) (\<lambda>decision.
     ret \<lparr>ar_decision = decision, ar_automatic = automatic\<rparr>)))))"

definition decide_new :: "digest \<Rightarrow> string \<Rightarrow> ('t world, authority_result) oper" where
  "decide_new sha run_id =
     bnd (admitted_run run_id) (\<lambda>r.
     bnd (selected_admission run_id) (\<lambda>(admission, candidate_id).
     bnd (selected_candidate candidate_id) (\<lambda>(candidate, fp).
     bnd (select_one candidate_actions_table (\<lambda>a. ac_candidate_id a = row_id candidate)) (\<lambda>action.
     bnd (run_completeness r) (\<lambda>snapshot.
     bnd (select_one targets_table (\<lambda>t. row_id t = rn_target_id r)) (\<lambda>target.
     bnd (latest_capability (rn_target_id r)) (\<lambda>cap.
     bnd (credential_of (rn_target_id r)) (\<lambda>cred.
     case (action, target, snapshot) of
       (Some a, Some tg, Some (JObj kvs)) \<Rightarrow> record_authority sha r admission candidate fp a kvs tg cap cred
     | _ \<Rightarrow> raise (AuthorityInvariantError ''authority evidence is incomplete'')))))))))"

definition decide_for_run :: "digest \<Rightarrow> string \<Rightarrow> ('t world, authority_result) oper" where
  "decide_for_run sha run_id = engine_begin (
     bnd (select_one authority_decisions_table (\<lambda>a. au_optimization_run_id a = run_id)) (\<lambda>existing.
     case existing of
       Some a \<Rightarrow> ret \<lparr>ar_decision = a, ar_automatic = (au_authority_type a = ''AUTONOMOUS'')\<rparr>
     | None \<Rightarrow> decide_new sha run_id))"

subsection \<open>What a decision rests on\<close>

text \<open>The evidence of a run in the database, as the decision reads it.\<close>

definition authority_evidence ::
  "db \<Rightarrow> string \<Rightarrow> run_row \<Rightarrow> admission_artifact_row \<Rightarrow> candidate_row \<Rightarrow> string \<Rightarrow> candidate_action_row \<Rightarrow> (string \<times> json) list \<Rightarrow> bool" where
  "authority_evidence d run_id r admission candidate fp action kvs \<longleftrightarrow>
     filter (\<lambda>r. row_id r = run_id) (db_runs d) = [r] \<and> rn_status r = Lifecycle.ADMITTED \<and>
     filter (\<lambda>a. aa_optimization_run_id a = run_id) (db_admission_artifacts d) = [admission] \<and>
     aa_selected_candidate_id admission = Some (row_id candidate) \<and>
     filter (\<lambda>c. row_id c = row_id candidate) (db_candidates d) = [candidate] \<and> cn_deterministic_fingerprint candidate = Some fp \<and>
     filter (\<lambda>a. ac_candidate_id a = row_id candidate) (db_candidate_actions d) = [action] \<and>
     (\<exists>s\<in>set (db_workload_snapshots d). Some (row_id s) = rn_workload_snapshot_id r \<and> wn_completeness s = Some (JObj kvs))"


lemma evidence_steps:
  "admitted_run run_id w = (Inr r, w') \<Longrightarrow> w' = w \<and> filter (\<lambda>r. row_id r = run_id) (db_runs (w_db w)) = [r] \<and>
     rn_status r = Lifecycle.ADMITTED"
  "selected_admission run_id w = (Inr (a, c), w') \<Longrightarrow> w' = w \<and>
     filter (\<lambda>a. aa_optimization_run_id a = run_id) (db_admission_artifacts (w_db w)) = [a] \<and> aa_selected_candidate_id a = Some c"
  "selected_candidate cid w = (Inr (k, fp), w') \<Longrightarrow> w' = w \<and> filter (\<lambda>c. row_id c = cid) (db_candidates (w_db w)) = [k] \<and>
     cn_deterministic_fingerprint k = Some fp"
  "run_completeness r0 w = (Inr s, w') \<Longrightarrow> w' = w \<and> (\<forall>j. s = Some j \<longrightarrow>
     (\<exists>x\<in>set (db_workload_snapshots (w_db w)). Some (row_id x) = rn_workload_snapshot_id r0 \<and> wn_completeness x = Some j))"
  "latest_capability tid w = (Inr cap, w') \<Longrightarrow> w' = w"
  "credential_of tid w = (Inr cred, w') \<Longrightarrow> w' = w"
  by (auto simp: admitted_run_def selected_admission_def selected_candidate_def run_completeness_def latest_capability_def
      credential_of_def world_apply table_defs Option.bind_eq_Some_conv elim!: bnd_InrE split: option.splits if_splits
      dest!: filter_one) (metis)

lemma select_one_Inr: "select_one tb p w = (Inr x, w') \<Longrightarrow> w' = w \<and> (\<forall>r. x = Some r \<longrightarrow> filter p (tb_rows tb (w_db w)) = [r])"
  by (auto simp: select_one_apply)

lemma authority_row_sel [simp]:
  "au_optimization_run_id (authority_row_of sha i m e ad c f a env u t t') = i"
  "au_candidate_id (authority_row_of sha i m e ad c f a env u t t') = row_id c"
  "au_candidate_fingerprint (authority_row_of sha i m e ad c f a env u t t') = f"
  "au_authority_type (authority_row_of sha i m e ad c f a env u t t') = (if a then ''AUTONOMOUS'' else ''HUMAN_REQUIRED'')"
  "au_deployment_mode (authority_row_of sha i m e ad c f a env u t t') = mode_value m"
  "au_production_autonomy_eligible (authority_row_of sha i m e ad c f a env u t t') = e"
  by (simp_all add: authority_row_of_def Let_def split: prod.split)

lemma record_authority_Inr:
  assumes "record_authority sha r admission candidate fp action kvs target cap cred w = (Inr res, w')"
  shows "\<exists>mode i t t'. rn_deployment_mode r = mode_value mode \<and>
     ar_automatic res = automatic_authority mode (telemetry_eligible kvs) admission candidate (ac_action_type action) \<and>
     ar_decision res = authority_row_of sha (row_id r) mode (telemetry_eligible kvs) admission candidate fp (ar_automatic res)
        (bound_environment sha target cap cred) i t t' \<and>
     w_db w' = (w_db w)\<lparr>db_authority_decisions := db_authority_decisions (w_db w) @ [ar_decision res]\<rparr> \<and>
     (\<forall>a\<in>set (db_authority_decisions (w_db w)). au_optimization_run_id a \<noteq> row_id r)"
proof -
  from assms obtain mode where mode: "deployment_mode_of (rn_deployment_mode r) = Inr mode"
    by (auto simp: record_authority_def world_apply elim!: bnd_InrE)
  then show ?thesis using assms
    by (intro exI [of _ mode] exI [of _ "w_uuids w (w_reads w)"] exI [of _ "w_clock w (Suc (w_reads w))"]
        exI [of _ "w_clock w (Suc (Suc (w_reads w)))"])
      (auto simp: record_authority_def world_apply deployment_mode_of_Inr Let_def insert_row_def authority_decisions_table_def
        elim!: bnd_InrE split: if_splits)
qed

lemma decide_new_Inr:
  assumes "decide_new sha run_id w = (Inr res, w')"
  shows "\<exists>r admission candidate fp action kvs target cap cred. authority_evidence (w_db w) run_id r admission candidate fp action kvs \<and>
     row_id r = run_id \<and> filter (\<lambda>t. row_id t = rn_target_id r) (db_targets (w_db w)) = [target] \<and>
     fst (latest_capability (rn_target_id r) w) = Inr cap \<and> fst (credential_of (rn_target_id r) w) = Inr cred \<and>
     record_authority sha r admission candidate fp action kvs target cap cred w = (Inr res, w')"
proof -
  from assms obtain r admission cid candidate fp action snapshot target cap cred w1 w2 w3 w4 w5 w6 w7 w8 where
    s: "admitted_run run_id w = (Inr r, w1)" "selected_admission run_id w1 = (Inr (admission, cid), w2)"
      "selected_candidate cid w2 = (Inr (candidate, fp), w3)"
      "select_one candidate_actions_table (\<lambda>a. ac_candidate_id a = row_id candidate) w3 = (Inr action, w4)"
      "run_completeness r w4 = (Inr snapshot, w5)" "select_one targets_table (\<lambda>t. row_id t = rn_target_id r) w5 = (Inr target, w6)"
      "latest_capability (rn_target_id r) w6 = (Inr cap, w7)" "credential_of (rn_target_id r) w7 = (Inr cred, w8)"
    and rest: "(case (action, target, snapshot) of
       (Some a, Some tg, Some (JObj kvs)) \<Rightarrow> record_authority sha r admission candidate fp a kvs tg cap cred
     | _ \<Rightarrow> raise (AuthorityInvariantError ''authority evidence is incomplete'')) w8 = (Inr res, w')"
    by (auto simp: decide_new_def elim!: bnd_InrE)
  have ws: "w1 = w" "w2 = w" "w3 = w" "w4 = w" "w5 = w" "w6 = w" "w7 = w" "w8 = w"
    using evidence_steps(1) [OF s(1)] evidence_steps(2) [OF s(2)] evidence_steps(3) [OF s(3)] select_one_Inr [OF s(4)]
      evidence_steps(4) [OF s(5)] select_one_Inr [OF s(6)] evidence_steps(5) [OF s(7)] evidence_steps(6) [OF s(8)]
    by simp_all
  obtain a tg kvs where h: "action = Some a" "target = Some tg" "snapshot = Some (JObj kvs)"
    and rec: "record_authority sha r admission candidate fp a kvs tg cap cred w = (Inr res, w')"
    using rest unfolding ws by (auto split: option.splits json.splits)
  have cid: "row_id candidate = cid" "row_id r = run_id" using evidence_steps(1) [OF s(1)] evidence_steps(3) [OF s(3)] filter_one by fastforce+
  have "authority_evidence (w_db w) run_id r admission candidate fp a kvs"
    using evidence_steps(1) [OF s(1)] evidence_steps(2) [OF s(2) [unfolded ws]] evidence_steps(3) [OF s(3) [unfolded ws]]
      evidence_steps(4) [OF s(5) [unfolded ws]] select_one_Inr [OF s(4) [unfolded ws]] h
    by (simp add: authority_evidence_def cid candidate_actions_table_def)
  moreover have "filter (\<lambda>t. row_id t = rn_target_id r) (db_targets (w_db w)) = [tg]"
    using select_one_Inr [OF s(6) [unfolded ws]] h by (simp add: targets_table_def)
  ultimately show ?thesis using rec cid s(7,8) unfolding ws by (metis fst_conv)
qed

text \<open>The entry of a completeness report that counts as true, written out for every kind of JSON value.\<close>

lemma telemetry_eligible_iff:
  "telemetry_eligible kvs \<longleftrightarrow> (\<exists>v. map_of kvs ''production_autonomy_eligible'' = Some v \<and>
     v \<notin> {JNull, JBool False, JNum 0, JStr [], JArr [], JObj []})"
proof -
  have "json_true v \<longleftrightarrow> v \<notin> {JNull, JBool False, JNum 0, JStr [], JArr [], JObj []}" for v by (cases v) auto
  then show ?thesis by (auto simp: telemetry_eligible_def split: option.split)
qed

lemma automatic_authority_iff:
  "automatic_authority mode (telemetry_eligible kvs) admission candidate action_type \<longleftrightarrow> mode_value mode = ''FULL_AUTONOMOUS'' \<and>
     (\<exists>v. map_of kvs ''production_autonomy_eligible'' = Some v \<and> v \<notin> {JNull, JBool False, JNum 0, JStr [], JArr [], JObj []}) \<and>
     aa_production_eligible admission \<and> cn_policy_classification candidate = Some ''AUTO_ELIGIBLE_AFTER_ADMISSION'' \<and>
     action_type \<in> {''CREATE_INDEX'', ''SET_QUERY_SETTINGS_INDEX_HINT''}"
  unfolding automatic_authority_def telemetry_eligible_iff auto_eligible_actions_eq full_autonomous_action_types_def
  by (cases mode) auto

text \<open>
  C18. An authority decision that was not there before is made for the one admitted run with that id, its
  one admission and the selected, fingerprinted candidate with its one action, and is the only decision of
  that run. It is autonomous exactly when the run's mode is fully autonomous, the completeness
  report of the run's workload snapshot has a true production-autonomy flag, the admission is production eligible,
  the candidate is classified as eligible after admission and the action creates an index or sets an index
  hint; otherwise it requires a person. A run that has a decision gets that one back and nothing is
  written.
\<close>

theorem autonomous_only_when_eligible:
  assumes "decide_for_run sha run_id w = (Inr res, w')"
  shows "if \<exists>a\<in>set (db_authority_decisions (w_db w)). au_optimization_run_id a = run_id
    then ar_decision res \<in> set (db_authority_decisions (w_db w)) \<and> au_optimization_run_id (ar_decision res) = run_id \<and>
      (ar_automatic res \<longleftrightarrow> au_authority_type (ar_decision res) = ''AUTONOMOUS'') \<and> w_db w' = w_db w
    else w_db w' = (w_db w)\<lparr>db_authority_decisions := db_authority_decisions (w_db w) @ [ar_decision res]\<rparr> \<and>
      (\<exists>r admission candidate fp action kvs. filter (\<lambda>r. row_id r = run_id) (db_runs (w_db w)) = [r] \<and>
        rn_status r = Lifecycle.ADMITTED \<and>
        filter (\<lambda>a. aa_optimization_run_id a = run_id) (db_admission_artifacts (w_db w)) = [admission] \<and>
        aa_selected_candidate_id admission = Some (row_id candidate) \<and>
        filter (\<lambda>c. row_id c = row_id candidate) (db_candidates (w_db w)) = [candidate] \<and>
        cn_deterministic_fingerprint candidate = Some fp \<and>
        filter (\<lambda>a. ac_candidate_id a = row_id candidate) (db_candidate_actions (w_db w)) = [action] \<and>
        (\<exists>s\<in>set (db_workload_snapshots (w_db w)). Some (row_id s) = rn_workload_snapshot_id r \<and> wn_completeness s = Some (JObj kvs)) \<and>
        au_optimization_run_id (ar_decision res) = run_id \<and> au_candidate_id (ar_decision res) = row_id candidate \<and>
        au_candidate_fingerprint (ar_decision res) = fp \<and> au_deployment_mode (ar_decision res) = rn_deployment_mode r \<and>
        rn_deployment_mode r \<in> {''APPROVAL_CONTROLLED'', ''FULL_AUTONOMOUS''} \<and>
        (ar_automatic res \<longleftrightarrow> rn_deployment_mode r = ''FULL_AUTONOMOUS'' \<and>
          (\<exists>v. map_of kvs ''production_autonomy_eligible'' = Some v \<and> v \<notin> {JNull, JBool False, JNum 0, JStr [], JArr [], JObj []}) \<and>
          aa_production_eligible admission \<and> cn_policy_classification candidate = Some ''AUTO_ELIGIBLE_AFTER_ADMISSION'' \<and>
          ac_action_type action \<in> {''CREATE_INDEX'', ''SET_QUERY_SETTINGS_INDEX_HINT''}) \<and>
        au_authority_type (ar_decision res) = (if ar_automatic res then ''AUTONOMOUS'' else ''HUMAN_REQUIRED''))"
proof (cases "\<exists>a\<in>set (db_authority_decisions (w_db w)). au_optimization_run_id a = run_id")
  case True
  then obtain a where a: "filter (\<lambda>a. au_optimization_run_id a = run_id) (db_authority_decisions (w_db w)) = [a] \<and>
      res = \<lparr>ar_decision = a, ar_automatic = (au_authority_type a = ''AUTONOMOUS'')\<rparr> \<and> w_db w' = w_db w"
    using assms
    by (auto simp: decide_for_run_def engine_begin_Inr world_apply authority_decisions_table_def filter_empty_conv
        elim!: bnd_InrE split: option.splits)
  have "a \<in> set (db_authority_decisions (w_db w))" "au_optimization_run_id a = run_id"
    using filter_one [of "\<lambda>a. au_optimization_run_id a = run_id"] a by blast+
  then show ?thesis unfolding if_P [OF True] using a by simp
next
  case False
  then have "decide_new sha run_id (tick w) = (Inr res, w')"
    using assms
    by (auto simp: decide_for_run_def engine_begin_Inr world_apply authority_decisions_table_def
        elim!: bnd_InrE split: option.splits dest!: filter_one)
  from decide_new_Inr [OF this] obtain r admission candidate fp action kvs target cap cred where
      e: "authority_evidence (w_db w) run_id r admission candidate fp action kvs" "row_id r = run_id"
    and rec: "record_authority sha r admission candidate fp action kvs target cap cred (tick w) = (Inr res, w')"
    by auto
  from record_authority_Inr [OF rec] obtain mode i t t' where m: "rn_deployment_mode r = mode_value mode"
      "ar_automatic res = automatic_authority mode (telemetry_eligible kvs) admission candidate (ac_action_type action)"
      "ar_decision res = authority_row_of sha (row_id r) mode (telemetry_eligible kvs) admission candidate fp (ar_automatic res)
        (bound_environment sha target cap cred) i t t'"
      "w_db w' = (w_db w)\<lparr>db_authority_decisions := db_authority_decisions (w_db w) @ [ar_decision res]\<rparr>"
    by (elim exE conjE) simp
  have a: "au_optimization_run_id (ar_decision res) = run_id" "au_candidate_id (ar_decision res) = row_id candidate"
      "au_candidate_fingerprint (ar_decision res) = fp" "au_deployment_mode (ar_decision res) = rn_deployment_mode r"
      "au_authority_type (ar_decision res) = (if ar_automatic res then ''AUTONOMOUS'' else ''HUMAN_REQUIRED'')"
    by (simp_all only: m(1,3) authority_row_sel e(2))
  have known: "rn_deployment_mode r \<in> {''APPROVAL_CONTROLLED'', ''FULL_AUTONOMOUS''}" unfolding m(1) by (cases mode) simp_all
  show ?thesis unfolding if_not_P [OF False]
    by (rule conjI [OF m(4)], intro exI [of _ r] exI [of _ admission] exI [of _ candidate] exI [of _ fp] exI [of _ action]
        exI [of _ kvs] conjI a known m(2) [unfolded automatic_authority_iff, folded m(1)] e(1) [unfolded authority_evidence_def, THEN conjunct1]
        e(1) [unfolded authority_evidence_def, THEN conjunct2, THEN conjunct1]
        e(1) [unfolded authority_evidence_def, THEN conjunct2, THEN conjunct2, THEN conjunct1])
      (use e(1) in \<open>simp_all add: authority_evidence_def\<close>)
qed


definition demo_snapshot :: workload_snapshot_row where
  "demo_snapshot = \<lparr>row_id = ''s1'', row_created_at = 0, row_updated_at = None, wn_target_id = ''t1'', wn_telemetry_window_id = ''w1'',
     wn_snapshot = JObj [], wn_fingerprint = ''sf'', wn_source_run_id = Some ''run1'', wn_observed_from = None,
     wn_observed_until = None, wn_anchor_at = None,
     wn_completeness = Some (JObj [(''production_autonomy_eligible'', JBool True)])\<rparr>"

definition demo_target :: target_rec where
  "demo_target = \<lparr>row_id = ''t1'', row_created_at = 0, row_updated_at = None, ta_owner_user_id = ''alice'', ta_name = ''prod'',
     ta_deployment_mode = ''FULL_AUTONOMOUS'', ta_state = ''ACTIVE'', ta_connection_label = ''prod'', ta_is_active = True\<rparr>"

definition demo_candidate :: candidate_row where
  "demo_candidate = \<lparr>row_id = ''c1'', row_created_at = 0, row_updated_at = None, cn_optimization_run_id = ''run1'',
     cn_query_shape_id = ''q1'', cn_status = CAND_ADMITTED, cn_candidate_hash = ''ch'', cn_source_snapshot_id = Some ''s1'',
     cn_source_diagnosis_id = None, cn_deterministic_fingerprint = Some ''fp'', cn_generation_rule_id = None,
     cn_generation_rule_version = None, cn_affected_query_shape_ids = None, cn_evidence_refs = None,
     cn_policy_classification = Some ''AUTO_ELIGIBLE_AFTER_ADMISSION''\<rparr>"

definition demo_action :: candidate_action_row where
  "demo_action = \<lparr>row_id = ''act1'', row_created_at = 0, row_updated_at = None, ac_candidate_id = ''c1'',
     ac_action_type = ''CREATE_INDEX'', ac_action_payload = JObj (create_index_dump sample_action), ac_reversible = True\<rparr>"

definition demo_artifact :: admission_artifact_row where
  "demo_artifact = \<lparr>row_id = ''aa1'', row_created_at = 0, row_updated_at = None, aa_optimization_run_id = ''run1'',
     aa_evaluation_plan_id = ''ep1'', aa_selected_candidate_id = Some ''c1'', aa_admitted_candidate_ids = [''c1''],
     aa_production_eligible = True, aa_artifact_fingerprint = ''af''\<rparr>"

definition autonomous_run :: "optimization_state \<Rightarrow> run_row" where
  "autonomous_run st = demo_run\<lparr>rn_status := st, rn_deployment_mode := ''FULL_AUTONOMOUS'', rn_workload_snapshot_id := Some ''s1''\<rparr>"

definition pipeline_db :: "optimization_state \<Rightarrow> db" where
  "pipeline_db st = empty_db\<lparr>db_runs := [autonomous_run st], db_targets := [demo_target], db_workload_snapshots := [demo_snapshot],
     db_candidates := [demo_candidate], db_candidate_actions := [demo_action], db_admission_artifacts := [demo_artifact]\<rparr>"

lemmas pipeline_defs = pipeline_db_def autonomous_run_def demo_run_def demo_snapshot_def demo_target_def demo_candidate_def
  demo_action_def demo_artifact_def world_of_def empty_db_def

lemma demo_eligible: "''CREATE_INDEX'' \<in> set auto_eligible_actions"
  by (simp add: auto_eligible_actions_eq full_autonomous_action_types_def)

lemma demo_decision:
  "\<exists>res w'. decide_for_run sha ''run1'' (world_of (pipeline_db Lifecycle.ADMITTED) t) = (Inr res, w') \<and> ar_automatic res"
  using demo_eligible
  by (simp add: decide_for_run_def engine_begin_def tables_transaction_def bnd_apply world_apply authority_decisions_table_def
      decide_new_def admitted_run_def selected_admission_def selected_candidate_def run_completeness_def latest_capability_def
      credential_of_def record_authority_def runs_table_def admission_artifacts_table_def candidates_table_def
      candidate_actions_table_def workload_snapshots_table_def targets_table_def target_credentials_table_def pipeline_defs
      one_or_none_def deployment_mode_of_def Let_def insert_row_def automatic_authority_def telemetry_eligible_def)

theorem autonomous_only_when_eligible_witness:
  "\<exists>res w'. decide_for_run id ''run1'' (world_of (pipeline_db Lifecycle.ADMITTED) ()) = (Inr res, w') \<and> ar_automatic res \<and>
     au_authority_type (ar_decision res) = ''AUTONOMOUS'' \<and> db_authority_decisions (w_db w') = [ar_decision res]"
proof -
  obtain res w' where run: "decide_for_run id ''run1'' (world_of (pipeline_db Lifecycle.ADMITTED) ()) = (Inr res, w')" "ar_automatic res"
    using demo_decision [of id "()"] by blast
  have no: "\<not> (\<exists>a\<in>set (db_authority_decisions (w_db (world_of (pipeline_db Lifecycle.ADMITTED) ()))). au_optimization_run_id a = ''run1'')"
    by (simp add: pipeline_defs)
  from autonomous_only_when_eligible [OF run(1)] have "au_authority_type (ar_decision res) = ''AUTONOMOUS''"
      "db_authority_decisions (w_db w') = [ar_decision res]"
    unfolding if_not_P [OF no] using run(2) by - (elim conjE exE, simp add: pipeline_defs)+
  then show ?thesis using run by blast
qed

lemma evolution_let [evolution]: "keeps evolves (f a) \<Longrightarrow> keeps evolves (let x = a in f x)"
  by simp

lemma authority_evolution [evolution]: "keeps evolves (decide_for_run sha run_id)"
proof -
  have "keeps evolves (decide_new sha run_id)"
    unfolding decide_new_def admitted_run_def selected_admission_def selected_candidate_def run_completeness_def
      latest_capability_def credential_of_def record_authority_def Let_def
    by (intro evolution_bnd evolution_basic evolution_option, auto intro!: evolution split: option.split json.split prod.split)
  then show ?thesis unfolding decide_for_run_def by (intro evolution) auto
qed

end
