(* ===== verification/PgLedger.thy ===== *)
theory PgLedger
  imports Authority Ledger "HOL-Library.Word"
begin

text \<open>
  \<open>backend/app/ledger/postgres.py\<close> and \<open>backend/app/production/target_lock.py\<close>: the append-only ledger of
  production effects, one hash chain for each target, and the advisory lock that lets one worker at a
  time mutate a target. \<open>sha\<close> is the hexadecimal digest and \<open>stamp\<close> the ISO text of a timestamp.
\<close>

subsection \<open>Entries\<close>

record pg_args =
  pg_target_id :: string
  pg_run_id :: "string option"
  pg_candidate_id :: "string option"
  pg_action_id :: string
  pg_event_type :: string
  pg_before_state :: json
  pg_intended_state :: json
  pg_after_state :: json
  pg_forward_action :: json
  pg_inverse_action :: json
  pg_evidence_hash :: string
  pg_actor :: string

definition pg_canonical :: "(int \<Rightarrow> string) \<Rightarrow> production_ledger_row \<Rightarrow> (string \<times> json) list" where
  "pg_canonical stamp e =
     [(''entry_id'', JStr (pl_entry_id e)), (''sequence'', JNum (pl_sequence e)), (''target_id'', JStr (pl_target_id e)),
      (''run_id'', option_json JStr (pl_run_id e)), (''candidate_id'', option_json JStr (pl_candidate_id e)),
      (''action_id'', JStr (pl_action_id e)), (''event_type'', JStr (pl_event_type e)),
      (''before_state'', pl_before_state e), (''intended_state'', pl_intended_state e), (''after_state'', pl_after_state e),
      (''forward_action'', pl_forward_action e), (''inverse_action'', pl_inverse_action e),
      (''evidence_hash'', JStr (pl_evidence_hash e)), (''actor'', JStr (pl_actor e)),
      (''previous_hash'', JStr (pl_previous_hash e)), (''created_at'', JStr (stamp (pl_created_at e)))]"

definition pg_entry_hash :: "digest \<Rightarrow> (int \<Rightarrow> string) \<Rightarrow> production_ledger_row \<Rightarrow> string" where
  "pg_entry_hash sha stamp e = json_hash sha (JObj (pg_canonical stamp e))"

text \<open>\<open>WHERE target_id = ... ORDER BY sequence\<close>\<close>

definition ledger_rows :: "string \<Rightarrow> db \<Rightarrow> production_ledger_row list" where
  "ledger_rows target_id d = sort_key pl_sequence (filter (\<lambda>e. pl_target_id e = target_id) (db_production_ledger d))"

definition pg_new_entry ::
  "digest \<Rightarrow> (int \<Rightarrow> string) \<Rightarrow> string \<Rightarrow> int \<Rightarrow> pg_args \<Rightarrow> production_ledger_row list \<Rightarrow> production_ledger_row" where
  "pg_new_entry sha stamp i t a prior =
     (let entry = \<lparr>pl_entry_id = i, pl_sequence = (if prior = [] then 1 else pl_sequence (last prior) + 1),
        pl_target_id = pg_target_id a, pl_run_id = pg_run_id a, pl_candidate_id = pg_candidate_id a,
        pl_action_id = pg_action_id a, pl_event_type = pg_event_type a, pl_before_state = pg_before_state a,
        pl_intended_state = pg_intended_state a, pl_after_state = pg_after_state a, pl_forward_action = pg_forward_action a,
        pl_inverse_action = pg_inverse_action a, pl_evidence_hash = pg_evidence_hash a, pl_actor = pg_actor a,
        pl_previous_hash = (if prior = [] then GENESIS_HASH else pl_entry_hash (last prior)), pl_entry_hash = [],
        pl_created_at = t\<rparr>
      in entry\<lparr>pl_entry_hash := pg_entry_hash sha stamp entry\<rparr>)"

definition pg_append :: "digest \<Rightarrow> (int \<Rightarrow> string) \<Rightarrow> pg_args \<Rightarrow> ('t world, production_ledger_row) oper" where
  "pg_append sha stamp a =
     bnd now (\<lambda>t. engine_begin (
     bnd (asks (\<lambda>w. ledger_rows (pg_target_id a) (w_db w))) (\<lambda>prior.
     bnd uuid4 (\<lambda>i.
     insert_row production_ledger_table (pg_new_entry sha stamp i t a prior)))))"

fun pg_verify_from :: "digest \<Rightarrow> (int \<Rightarrow> string) \<Rightarrow> int \<Rightarrow> string \<Rightarrow> production_ledger_row list \<Rightarrow> bool" where
  "pg_verify_from sha stamp n prev [] = True"
| "pg_verify_from sha stamp n prev (e # es) =
     (if pl_sequence e \<noteq> n \<or> pl_previous_hash e \<noteq> prev \<or> pl_entry_hash e \<noteq> pg_entry_hash sha stamp e then False
      else pg_verify_from sha stamp (n + 1) (pl_entry_hash e) es)"

definition verify_target :: "digest \<Rightarrow> (int \<Rightarrow> string) \<Rightarrow> string \<Rightarrow> ('t world, bool) oper" where
  "verify_target sha stamp target_id =
     bnd (engine_connect (asks (\<lambda>w. ledger_rows target_id (w_db w)))) (\<lambda>rows.
     ret (pg_verify_from sha stamp 1 GENESIS_HASH rows))"

subsection \<open>The target lock\<close>

text \<open>\<open>int.from_bytes(digest[:8], byteorder="big", signed=True)\<close>: eight bytes are sixteen hex digits.\<close>

definition hex_nat :: "string \<Rightarrow> nat" where
  "hex_nat s = foldl (\<lambda>n c. 16 * n + hex_value c) 0 s"

definition target_lock_key :: "digest \<Rightarrow> string \<Rightarrow> int" where
  "target_lock_key sha target_id = sint (word_of_nat (hex_nat (take 16 (sha target_id))) :: 64 word)"

text \<open>\<open>pg_try_advisory_lock\<close> on a session of its own; the lease is the key, released with the session.\<close>

definition try_acquire :: "digest \<Rightarrow> string \<Rightarrow> ('t world, int option) oper" where
  "try_acquire sha target_id =
     bnd db_available (\<lambda>_. \<lambda>w.
       let key = target_lock_key sha target_id in
       if key \<in> set (w_advisory w) then (Inr None, w) else (Inr (Some key), w\<lparr>w_advisory := key # w_advisory w\<rparr>))"

definition release :: "int \<Rightarrow> 't world \<Rightarrow> 't world" where
  "release key w = w\<lparr>w_advisory := remove1 key (w_advisory w)\<rparr>"

text \<open>
  The use the services make of the lock: \<open>busy\<close> when it is taken, otherwise \<open>try: m finally: release\<close>. The release does
  not fail here: the unlock statement can lose its connection, but the lock belongs to the session and the
  server frees it with the connection; the exception that would then replace the result is not modelled.
\<close>

definition with_mutation_lock :: "digest \<Rightarrow> string \<Rightarrow> ('t world, 'a) oper \<Rightarrow> ('t world, 'a) oper \<Rightarrow> ('t world, 'a) oper" where
  "with_mutation_lock sha target_id busy m =
     bnd (try_acquire sha target_id) (\<lambda>lease.
     case lease of None \<Rightarrow> busy | Some key \<Rightarrow> finally_do m (release key))"

lemma target_lock_key_range: "- (2 ^ 63) \<le> target_lock_key sha target_id \<and> target_lock_key sha target_id < 2 ^ 63"
  using sint_range_size [of "word_of_nat (hex_nat (take 16 (sha target_id))) :: 64 word"]
  by (simp add: target_lock_key_def word_size)

subsection \<open>The chain of a target\<close>

definition chain_ok :: "digest \<Rightarrow> (int \<Rightarrow> string) \<Rightarrow> string \<Rightarrow> db \<Rightarrow> bool" where
  "chain_ok sha stamp target_id d = pg_verify_from sha stamp 1 GENESIS_HASH (ledger_rows target_id d)"

lemma pg_entry_hash_update [simp]: "pg_entry_hash sha stamp (e\<lparr>pl_entry_hash := h\<rparr>) = pg_entry_hash sha stamp e"
  by (simp add: pg_entry_hash_def pg_canonical_def)

lemma pg_new_entry_sel [simp]:
  "pl_sequence (pg_new_entry sha stamp i t a prior) = (if prior = [] then 1 else pl_sequence (last prior) + 1)"
  "pl_previous_hash (pg_new_entry sha stamp i t a prior) = (if prior = [] then GENESIS_HASH else pl_entry_hash (last prior))"
  "pl_target_id (pg_new_entry sha stamp i t a prior) = pg_target_id a" "pl_entry_id (pg_new_entry sha stamp i t a prior) = i"
  "pl_event_type (pg_new_entry sha stamp i t a prior) = pg_event_type a" "pl_run_id (pg_new_entry sha stamp i t a prior) = pg_run_id a"
  "pl_candidate_id (pg_new_entry sha stamp i t a prior) = pg_candidate_id a"
  "pl_before_state (pg_new_entry sha stamp i t a prior) = pg_before_state a"
  "pl_after_state (pg_new_entry sha stamp i t a prior) = pg_after_state a"
  "pl_entry_hash (pg_new_entry sha stamp i t a prior) = pg_entry_hash sha stamp (pg_new_entry sha stamp i t a prior)"
  by (simp_all add: pg_new_entry_def Let_def pg_entry_hash_def pg_canonical_def)

lemma pg_verify_from_append:
  "pg_verify_from sha stamp n prev (xs @ ys) \<longleftrightarrow> pg_verify_from sha stamp n prev xs \<and>
     pg_verify_from sha stamp (n + int (length xs)) (if xs = [] then prev else pl_entry_hash (last xs)) ys"
  by (induction xs arbitrary: n prev) (auto simp: algebra_simps)

lemma pg_verify_sequence: "pg_verify_from sha stamp n prev xs \<Longrightarrow> xs \<noteq> [] \<Longrightarrow> pl_sequence (last xs) = n + int (length xs) - 1"
  by (induction xs arbitrary: n prev) (auto split: if_splits)

lemma insort_key_snoc: "f y \<le> f x \<Longrightarrow> insort_key f y (l @ [x]) = insort_key f y l @ [x]"
  by (induction l) auto

lemma sort_key_snoc_max: "(\<And>y. y \<in> set xs \<Longrightarrow> f y \<le> f x) \<Longrightarrow> sort_key f (xs @ [x]) = sort_key f xs @ [x]"
  by (induction xs) (simp_all add: insort_key_snoc)

lemma ledger_rows_last:
  assumes "e \<in> set (db_production_ledger d)" and "pl_target_id e = target_id"
  shows "ledger_rows target_id d \<noteq> []" and "pl_sequence e \<le> pl_sequence (last (ledger_rows target_id d))"
proof -
  have e: "e \<in> set (ledger_rows target_id d)" using assms by (simp add: ledger_rows_def)
  then show ne: "ledger_rows target_id d \<noteq> []" by auto
  let ?xs = "butlast (ledger_rows target_id d)" and ?x = "last (ledger_rows target_id d)"
  have split: "ledger_rows target_id d = ?xs @ [?x]" using ne by simp
  have "sorted (map pl_sequence (ledger_rows target_id d))" by (simp add: ledger_rows_def)
  then have "\<forall>y\<in>set ?xs. pl_sequence y \<le> pl_sequence ?x" by (subst (asm) split) (simp add: sorted_append)
  moreover have "e \<in> set ?xs \<or> e = ?x" using e by (subst (asm) split) auto
  ultimately show "pl_sequence e \<le> pl_sequence ?x" by auto
qed

lemma ledger_rows_other:
  "pl_target_id e \<noteq> target_id \<Longrightarrow>
     ledger_rows target_id (d\<lparr>db_production_ledger := db_production_ledger d @ [e]\<rparr>) = ledger_rows target_id d"
  by (simp add: ledger_rows_def)

lemma pg_append_Inr:
  assumes "pg_append sha stamp a w = (Inr e, w')"
  shows "\<exists>i t. e = pg_new_entry sha stamp i t a (ledger_rows (pg_target_id a) (w_db w)) \<and>
     w_db w' = (w_db w)\<lparr>db_production_ledger := db_production_ledger (w_db w) @ [e]\<rparr>"
  using assms
  by (intro exI [of _ "w_uuids w (Suc (Suc (w_reads w)))"] exI [of _ "w_clock w (w_reads w)"])
    (auto simp: pg_append_def engine_begin_Inr world_apply insert_row_def production_ledger_table_def elim!: bnd_InrE split: if_splits)

lemma pg_append_Inl: "pg_append sha stamp a w = (Inl x, w') \<Longrightarrow> w_db w' = w_db w"
  by (auto simp: pg_append_def bnd_apply world_apply dest!: engine_begin_Inl)

lemma ledger_rows_append:
  assumes "pg_append sha stamp a w = (Inr e, w')"
  shows "ledger_rows (pg_target_id a) (w_db w') = ledger_rows (pg_target_id a) (w_db w) @ [e]"
proof -
  obtain i t where e: "e = pg_new_entry sha stamp i t a (ledger_rows (pg_target_id a) (w_db w))"
    and d: "w_db w' = (w_db w)\<lparr>db_production_ledger := db_production_ledger (w_db w) @ [e]\<rparr>"
    using pg_append_Inr [OF assms] by blast
  have tid: "pl_target_id e = pg_target_id a" by (simp add: e)
  have "pl_sequence x \<le> pl_sequence e" if "x \<in> set (filter (\<lambda>e. pl_target_id e = pg_target_id a) (db_production_ledger (w_db w)))" for x
    using ledger_rows_last [of x "w_db w" "pg_target_id a"] that by (simp add: e)
  then have "sort_key pl_sequence (filter (\<lambda>e. pl_target_id e = pg_target_id a) (db_production_ledger (w_db w)) @ [e]) =
      sort_key pl_sequence (filter (\<lambda>e. pl_target_id e = pg_target_id a) (db_production_ledger (w_db w))) @ [e]"
    by (rule sort_key_snoc_max)
  then show ?thesis by (simp add: ledger_rows_def d tid)
qed

text \<open>
  C17. The production ledger is append only and stays verifiable. An append that returns puts its entry
  at the end of its target's chain, leaves the chain of every other target as it is, keeps a verifying
  chain verifying, and numbers the entries of a verifying chain without gaps; one that raises changes
  nothing.
\<close>

theorem production_ledger_appends:
  assumes "pg_append sha stamp a w = (r, w')"
  shows "case r of
      Inl x \<Rightarrow> w_db w' = w_db w
    | Inr e \<Rightarrow> ledger_rows (pg_target_id a) (w_db w') = ledger_rows (pg_target_id a) (w_db w) @ [e] \<and>
        (\<forall>other. other \<noteq> pg_target_id a \<longrightarrow> ledger_rows other (w_db w') = ledger_rows other (w_db w)) \<and>
        (\<forall>other. chain_ok sha stamp other (w_db w) \<longrightarrow> chain_ok sha stamp other (w_db w')) \<and>
        (chain_ok sha stamp (pg_target_id a) (w_db w) \<longrightarrow> pl_sequence e = int (length (ledger_rows (pg_target_id a) (w_db w'))))"
proof (cases r)
  case (Inl x)
  then show ?thesis using assms pg_append_Inl by auto
next
  case (Inr e)
  let ?rows = "ledger_rows (pg_target_id a) (w_db w)"
  obtain i t where e: "e = pg_new_entry sha stamp i t a ?rows"
    and d: "w_db w' = (w_db w)\<lparr>db_production_ledger := db_production_ledger (w_db w) @ [e]\<rparr>"
    using pg_append_Inr [OF assms [unfolded Inr]] by blast
  have rows: "ledger_rows (pg_target_id a) (w_db w') = ?rows @ [e]" using assms Inr ledger_rows_append by blast
  have others: "ledger_rows other (w_db w') = ledger_rows other (w_db w)" if "other \<noteq> pg_target_id a" for other
    using that ledger_rows_other [of e other] by (simp add: d e)
  have own: "chain_ok sha stamp (pg_target_id a) (w_db w')" if "chain_ok sha stamp (pg_target_id a) (w_db w)"
    using that pg_verify_sequence [of sha stamp 1 GENESIS_HASH ?rows]
    by (simp add: chain_ok_def rows pg_verify_from_append) (simp add: e)
  have "chain_ok sha stamp other (w_db w')" if "chain_ok sha stamp other (w_db w)" for other
    using that own others by (cases "other = pg_target_id a") (auto simp: chain_ok_def)
  moreover have "pl_sequence e = int (length (ledger_rows (pg_target_id a) (w_db w')))" if "chain_ok sha stamp (pg_target_id a) (w_db w)"
    using pg_verify_sequence [of sha stamp 1 GENESIS_HASH "?rows @ [e]"] own [OF that] by (simp add: chain_ok_def rows)
  ultimately show ?thesis unfolding Inr sum.case using rows others by blast
qed

definition demo_entry :: "string \<Rightarrow> pg_args" where
  "demo_entry event = \<lparr>pg_target_id = ''t1'', pg_run_id = Some ''run1'', pg_candidate_id = Some ''c1'', pg_action_id = ''act1'',
     pg_event_type = event, pg_before_state = JNull, pg_intended_state = JNull, pg_after_state = JNull, pg_forward_action = JNull,
     pg_inverse_action = JNull, pg_evidence_hash = ''h'', pg_actor = ''worker''\<rparr>"

theorem production_ledger_appends_witness:
  "\<exists>e w'. pg_append id int_str (demo_entry ''DEPLOYMENT_INTENT'') (world_of empty_db ()) = (Inr e, w') \<and>
     ledger_rows ''t1'' (w_db w') = [e] \<and> chain_ok id int_str ''t1'' (w_db w') \<and> pl_sequence e = 1"
proof -
  let ?w = "world_of empty_db ()"
  obtain e w' where run: "pg_append id int_str (demo_entry ''DEPLOYMENT_INTENT'') ?w = (Inr e, w')"
    by (simp add: pg_append_def engine_begin_def tables_transaction_def bnd_apply world_apply insert_row_def
        production_ledger_table_def world_of_def empty_db_def)
  have none: "ledger_rows ''t1'' (w_db ?w) = []" by (simp add: ledger_rows_def world_of_def empty_db_def)
  have t: "pg_target_id (demo_entry ''DEPLOYMENT_INTENT'') = ''t1''" by (simp add: demo_entry_def)
  have ok: "chain_ok id int_str ''t1'' (w_db ?w)" by (simp add: chain_ok_def none)
  show ?thesis using production_ledger_appends [OF run] run none ok unfolding sum.case t by auto
qed

lemma pg_append_evolution [evolution]: "keeps evolves (pg_append sha stamp a)"
  unfolding pg_append_def by (intro evolution)

lemma verify_target_evolution [evolution]: "keeps evolves (verify_target sha stamp target_id)"
  unfolding verify_target_def by (intro evolution)

subsection \<open>Mutual exclusion\<close>

lemma try_acquire_cases:
  assumes "try_acquire sha target_id w = (r, w')"
  shows "w_db w' = w_db w \<and> w_target w' = w_target w \<and>
    (r = Inl DatabaseUnavailable \<and> w_advisory w' = w_advisory w \<or>
     r = Inr None \<and> target_lock_key sha target_id \<in> set (w_advisory w) \<and> w_advisory w' = w_advisory w \<or>
     r = Inr (Some (target_lock_key sha target_id)) \<and> target_lock_key sha target_id \<notin> set (w_advisory w) \<and>
       w_advisory w' = target_lock_key sha target_id # w_advisory w)"
  using assms by (auto simp: try_acquire_def bnd_apply db_available_apply Let_def split: if_splits)

text \<open>
  While another session holds the lock of a target, the guarded block does not run: the database and
  the target are as they were. When the block runs and keeps the set of locks, the lock is free again.
\<close>

lemma locked_out:
  assumes "with_mutation_lock sha target_id busy m w = (r, w')" and "target_lock_key sha target_id \<in> set (w_advisory w)"
  shows "r = Inl DatabaseUnavailable \<and> w_db w' = w_db w \<and> w_target w' = w_target w \<or> (\<exists>v. w_db v = w_db w \<and>
     w_target v = w_target w \<and> w_advisory v = w_advisory w \<and> busy v = (r, w'))"
proof -
  obtain x v where t: "try_acquire sha target_id w = (x, v)" by (cases "try_acquire sha target_id w")
  from try_acquire_cases [OF t] show ?thesis
    using assms t by (auto simp: with_mutation_lock_def bnd_apply split: sum.splits)
qed

lemma mutation_lock_released:
  assumes "with_mutation_lock sha target_id busy m w = (r, w')" and "\<And>v. w_advisory (snd (m v)) = w_advisory v"
    and "\<And>v. w_advisory (snd (busy v)) = w_advisory v"
  shows "w_advisory w' = w_advisory w"
proof -
  obtain x v where t: "try_acquire sha target_id w = (x, v)" by (cases "try_acquire sha target_id w")
  have m: "w_advisory (snd (m v)) = w_advisory v" "w_advisory (snd (busy v)) = w_advisory v" using assms(2,3) by blast+
  from try_acquire_cases [OF t] show ?thesis
    using assms(1) t m by (auto simp: with_mutation_lock_def bnd_apply finally_do_apply release_def split: sum.splits)
qed

lemma evolution_finally [evolution]:
  "keeps Runs.evolves m \<Longrightarrow> keeps Runs.evolves (finally_do m (release key))"
  by (simp add: keeps_def finally_do_apply release_def Runs.evolves_def)

lemma try_acquire_evolution [evolution]: "keeps Runs.evolves (try_acquire sha target_id)"
  by (rule keepsI) (auto simp: Runs.evolves_def dest: try_acquire_cases)

lemma lock_evolution [evolution]:
  "keeps Runs.evolves busy \<Longrightarrow> keeps Runs.evolves m \<Longrightarrow> keeps Runs.evolves (with_mutation_lock sha target_id busy m)"
  unfolding with_mutation_lock_def by (intro evolution)

end
