(* ===== verification/Recovery.thy ===== *)
theory Recovery
  imports PgLedger
begin

text \<open>
  \<open>backend/app/recovery\<close>: the durable recovery of a production effect from what the target shows
  (\<open>durable.py\<close>), and the crash checkpoints around it (\<open>crash.py\<close>). What the effect is and how it is
  recognised are arguments, as they are in the code.
\<close>

subsection \<open>Durable recovery\<close>

definition intent_row :: "string \<Rightarrow> string \<Rightarrow> string \<Rightarrow> string \<Rightarrow> string \<Rightarrow> int \<Rightarrow> recovery_row" where
  "intent_row key action_id target_id fingerprint i t = \<lparr>row_id = i, row_created_at = t, row_updated_at = Some t,
     rc_idempotency_key = key, rc_action_id = action_id, rc_target_id = target_id, rc_expected_fingerprint = fingerprint,
     rc_state = ''INTENT_RECORDED''\<rparr>"

text \<open>\<open>ON CONFLICT (idempotency_key) DO NOTHING\<close>\<close>

definition record_intent :: "string \<Rightarrow> string \<Rightarrow> string \<Rightarrow> string \<Rightarrow> ('t world, unit) oper" where
  "record_intent key action_id target_id fingerprint =
     bnd now (\<lambda>t. engine_begin (
     bnd uuid4 (\<lambda>i.
     bnd (select_rows recovery_table (\<lambda>r. rc_idempotency_key r = key)) (\<lambda>existing.
     if existing \<noteq> [] then ret ()
     else bnd (insert_row recovery_table (intent_row key action_id target_id fingerprint i t)) (\<lambda>_. ret ())))))"

definition set_recovery :: "string \<Rightarrow> string \<Rightarrow> ('t world, unit) oper" where
  "set_recovery key st =
     bnd now (\<lambda>t.
     bnd (update_rows recovery_table (\<lambda>r. rc_idempotency_key r = key) (\<lambda>r. r\<lparr>rc_state := st, row_updated_at := Some t\<rparr>)) (\<lambda>_.
     ret ()))"

text \<open>The first transaction: nothing when the effect is confirmed already, else the expected fingerprint.\<close>

definition start_execution :: "string \<Rightarrow> ('t world, string option) oper" where
  "start_execution key = engine_begin (
     bnd (select_one recovery_table (\<lambda>r. rc_idempotency_key r = key)) (\<lambda>found.
     case found of
       None \<Rightarrow> raise (ValueError ''idempotency intent must be recorded before execution'')
     | Some r \<Rightarrow>
         if rc_state r = ''EXECUTION_CONFIRMED'' then ret None
         else bnd (set_recovery key ''EXECUTION_STARTED'') (\<lambda>_. ret (Some (rc_expected_fingerprint r)))))"

definition confirm_execution :: "string \<Rightarrow> ('t world, unit) oper" where
  "confirm_execution key = engine_begin (
     bnd (set_recovery key ''EFFECT_OBSERVED'') (\<lambda>_. set_recovery key ''EXECUTION_CONFIRMED''))"

definition execute_or_recover ::
  "string \<Rightarrow> (string \<Rightarrow> ('t world, bool) oper) \<Rightarrow> ('t world, unit) oper \<Rightarrow> ('t world, string) oper" where
  "execute_or_recover key has_effect apply_mutation =
     bnd (start_execution key) (\<lambda>expected.
     case expected of
       None \<Rightarrow> ret ''EXECUTION_CONFIRMED''
     | Some fp \<Rightarrow>
         bnd (has_effect fp) (\<lambda>there.
         bnd (if there then ret () else apply_mutation) (\<lambda>_.
         bnd (confirm_execution key) (\<lambda>_. ret ''EXECUTION_CONFIRMED''))))"

subsection \<open>What recovery does outside the target\<close>

definition marked :: "string \<Rightarrow> string \<Rightarrow> int \<Rightarrow> recovery_row list \<Rightarrow> recovery_row list" where
  "marked key st t rs = map (\<lambda>r. if rc_idempotency_key r = key then r\<lparr>rc_state := st, row_updated_at := Some t\<rparr> else r) rs"

lemma set_recovery_apply:
  "set_recovery key st w = (Inr (), (tick w)\<lparr>w_db := (w_db w)\<lparr>db_recovery := marked key st (w_clock w (w_reads w)) (db_recovery (w_db w))\<rparr>\<rparr>)"
  by (simp add: set_recovery_def bnd_apply world_apply recovery_table_def marked_def)

text \<open>Only the recovery table changes in the steps around the effect.\<close>

definition only_recovery :: "'t world \<Rightarrow> 't world \<Rightarrow> bool" where
  "only_recovery w w' \<longleftrightarrow> (\<exists>rs. w_db w' = (w_db w)\<lparr>db_recovery := rs\<rparr>) \<and> same_outside w w'"

lemma recovery_unchanged [simp]: "(d::db)\<lparr>db_recovery := db_recovery d\<rparr> = d"
  using recovery_laws.put_rows [of d] by (simp add: recovery_table_def)

lemma some_recovery [simp]: "\<exists>rs. (d::db) = d\<lparr>db_recovery := rs\<rparr>"
  by (metis recovery_unchanged)

lemma only_recovery_refl [simp]: "only_recovery w w"
  by (simp add: only_recovery_def)

lemma only_recovery_same: "w_db w' = w_db w \<Longrightarrow> same_outside w w' \<Longrightarrow> only_recovery w w'"
  by (simp add: only_recovery_def)

lemma only_recovery_trans: "only_recovery a b \<Longrightarrow> only_recovery b c \<Longrightarrow> only_recovery a c"
  unfolding only_recovery_def by (elim conjE exE, intro conjI) (auto intro: same_outside_trans)

named_theorems recovery_frames \<open>operations that change at most the recovery table\<close>

lemma only_recovery_bnd [recovery_frames]:
  assumes "keeps only_recovery m" and "\<And>a. keeps only_recovery (f a)"
  shows "keeps only_recovery (bnd m f)"
  using assms by (intro keeps_bnd transpI) (auto intro: only_recovery_trans)

lemma only_recovery_pure: "(\<And>w. w_db (snd (m w)) = w_db w) \<Longrightarrow> keeps same_outside m \<Longrightarrow> keeps only_recovery m"
  by (simp add: keeps_def only_recovery_same)

lemma only_recovery_basic [recovery_frames]:
  "keeps only_recovery (ret a)" "keeps only_recovery (raise e)" "keeps only_recovery now" "keeps only_recovery uuid4"
  "keeps only_recovery db_available" "keeps only_recovery (select_rows tb p)" "keeps only_recovery (select_one tb p)"
  by (rule only_recovery_pure; simp add: frames world_apply split: if_splits)+

lemma only_recovery_writes [recovery_frames]:
  "keeps only_recovery (set_recovery key st)" "keeps (only_recovery :: 't world \<Rightarrow> _) (insert_row recovery_table r)"
proof -
  show "keeps only_recovery (set_recovery key st)"
    by (auto simp: keeps_def only_recovery_def set_recovery_apply same_outside_def)
  show "keeps (only_recovery :: 't world \<Rightarrow> _) (insert_row recovery_table r)"
  proof (rule keepsI)
    fix w :: "'t world" and x w' assume "insert_row recovery_table r w = (x, w')"
    then have "w' = w \<or> w' = w\<lparr>w_db := (w_db w)\<lparr>db_recovery := db_recovery (w_db w) @ [r]\<rparr>\<rparr>"
      by (auto simp: insert_row_def recovery_table_def split: if_splits)
    then show "only_recovery w w'" by (elim disjE) (auto simp: only_recovery_def)
  qed
qed

lemma only_recovery_choice [recovery_frames]:
  "keeps only_recovery a \<Longrightarrow> keeps only_recovery b \<Longrightarrow> keeps only_recovery (if P then a else b)"
  "keeps only_recovery a \<Longrightarrow> (\<And>x. keeps only_recovery (f x)) \<Longrightarrow> keeps only_recovery (case v of None \<Rightarrow> a | Some x \<Rightarrow> f x)"
  by (simp, cases v) simp_all

lemma only_recovery_engine [recovery_frames]:
  assumes "keeps only_recovery m"
  shows "keeps only_recovery (engine_begin m)"
proof -
  have "only_recovery w (snd (tables_transaction m w))" for w
  proof (cases "m w")
    case (Pair r v)
    then have "only_recovery w v" using assms by (auto dest: keepsD)
    then show ?thesis using Pair
      by (cases r) (auto simp: tables_transaction_def same_outside_def only_recovery_def)
  qed
  then show ?thesis unfolding engine_begin_def by (intro recovery_frames) (simp add: keeps_def)
qed

lemma recovery_steps_frame [recovery_frames]:
  "keeps only_recovery (start_execution key)" "keeps only_recovery (confirm_execution key)"
  "keeps only_recovery (record_intent key action_id target_id fingerprint)"
  unfolding start_execution_def confirm_execution_def record_intent_def by (intro recovery_frames)+

text \<open>What an execution does: nothing, or the effect's own steps between the two transactions.\<close>

lemma execute_or_recover_Inr:
  assumes "execute_or_recover key has_effect apply_mutation w = (Inr x, w')"
  shows "x = ''EXECUTION_CONFIRMED'' \<and> (only_recovery w w' \<and> (\<exists>r\<in>set (db_recovery (w_db w)). rc_idempotency_key r = key \<and>
       rc_state r = ''EXECUTION_CONFIRMED'') \<or>
     (\<exists>w1 w2 w3 there fp. only_recovery w w1 \<and> has_effect fp w1 = (Inr there, w2) \<and>
        (if there then w3 = w2 else apply_mutation w2 = (Inr (), w3)) \<and> only_recovery w3 w' \<and>
        (\<exists>r\<in>set (db_recovery (w_db w)). rc_idempotency_key r = key \<and> rc_expected_fingerprint r = fp)))"
proof -
  from assms obtain e w1 where s: "start_execution key w = (Inr e, w1)"
    and rest: "(case e of None \<Rightarrow> ret ''EXECUTION_CONFIRMED'' | Some fp \<Rightarrow>
         bnd (has_effect fp) (\<lambda>there. bnd (if there then ret () else apply_mutation) (\<lambda>_.
         bnd (confirm_execution key) (\<lambda>_. ret ''EXECUTION_CONFIRMED'')))) w1 = (Inr x, w')"
    by (auto simp: execute_or_recover_def elim!: bnd_InrE)
  have o1: "only_recovery w w1" using recovery_steps_frame(1) s by (rule keepsD)
  have row: "\<exists>r\<in>set (db_recovery (w_db w)). rc_idempotency_key r = key \<and>
      (case e of None \<Rightarrow> rc_state r = ''EXECUTION_CONFIRMED'' | Some fp \<Rightarrow> rc_expected_fingerprint r = fp)"
    using s by (auto simp: start_execution_def engine_begin_Inr world_apply recovery_table_def set_recovery_apply
        elim!: bnd_InrE split: option.splits if_splits dest!: filter_one) blast+
  show ?thesis
  proof (cases e)
    case None
    then show ?thesis using rest o1 row by auto
  next
    case (Some fp)
    then obtain there w2 w3 w4 where h: "has_effect fp w1 = (Inr there, w2)"
        "(if there then ret () else apply_mutation) w2 = (Inr (), w3)" "confirm_execution key w3 = (Inr (), w4)"
        "x = ''EXECUTION_CONFIRMED'' \<and> w' = w4"
      using rest by (auto elim!: bnd_InrE)
    have "only_recovery w3 w'" using recovery_steps_frame(2) h(3,4) by (auto dest: keepsD)
    moreover have "if there then w3 = w2 else apply_mutation w2 = (Inr (), w3)" using h(2) by (auto split: if_splits)
    moreover obtain r where "r \<in> set (db_recovery (w_db w))" "rc_idempotency_key r = key" "rc_expected_fingerprint r = fp"
      using row Some by auto
    ultimately show ?thesis using h(1,4) o1
      by (intro conjI disjI2 exI [of _ w1] exI [of _ w2] exI [of _ w3] exI [of _ there] exI [of _ fp] bexI [of _ r]) simp_all
  qed
qed

lemma recovery_evolution [evolution]:
  "keeps evolves (start_execution key)" "keeps evolves (confirm_execution key)"
  "keeps evolves (record_intent key action_id target_id fingerprint)"
  unfolding start_execution_def confirm_execution_def record_intent_def set_recovery_def by (intro evolution)+

lemma execute_evolution:
  "(\<And>fp. keeps evolves (has_effect fp)) \<Longrightarrow> keeps evolves apply_mutation \<Longrightarrow>
     keeps evolves (execute_or_recover key has_effect apply_mutation)"
  unfolding execute_or_recover_def by (intro evolution)

subsection \<open>Crash checkpoints\<close>

datatype crash_point =
    BEFORE_CANDIDATE_APPLICATION | AFTER_SANDBOX_APPLICATION | DURING_BENCHMARK | AFTER_ADMISSION | AFTER_APPROVAL
  | BEFORE_PRODUCTION_MUTATION | AFTER_PRODUCTION_MUTATION | BEFORE_LEDGER_COMPLETION | DURING_MONITORING | DURING_ROLLBACK

fun crash_value :: "crash_point \<Rightarrow> string" where
  "crash_value BEFORE_CANDIDATE_APPLICATION = ''BEFORE_CANDIDATE_APPLICATION''"
| "crash_value AFTER_SANDBOX_APPLICATION = ''AFTER_SANDBOX_APPLICATION''"
| "crash_value DURING_BENCHMARK = ''DURING_BENCHMARK''"
| "crash_value AFTER_ADMISSION = ''AFTER_ADMISSION''"
| "crash_value AFTER_APPROVAL = ''AFTER_APPROVAL''"
| "crash_value BEFORE_PRODUCTION_MUTATION = ''BEFORE_PRODUCTION_MUTATION''"
| "crash_value AFTER_PRODUCTION_MUTATION = ''AFTER_PRODUCTION_MUTATION''"
| "crash_value BEFORE_LEDGER_COMPLETION = ''BEFORE_LEDGER_COMPLETION''"
| "crash_value DURING_MONITORING = ''DURING_MONITORING''"
| "crash_value DURING_ROLLBACK = ''DURING_ROLLBACK''"

text \<open>The journal, which outlives a crash, and the production target it is about.\<close>

record 't journal =
  jn_checkpoints :: "crash_point list"
  jn_completed :: "string list"
  jn_target :: 't

definition crash_checkpoint :: "crash_point option \<Rightarrow> crash_point \<Rightarrow> ('t journal, unit) oper" where
  "crash_checkpoint inject_at point =
     bnd (update (\<lambda>j. j\<lparr>jn_checkpoints := jn_checkpoints j @ [point]\<rparr>)) (\<lambda>_.
     ensure (inject_at \<noteq> Some point) (InjectedCrash (''injected crash at '' @ crash_value point)))"

definition on_journal_target :: "('t, 'a) oper \<Rightarrow> ('t journal, 'a) oper" where
  "on_journal_target m = focus jn_target (\<lambda>t j. j\<lparr>jn_target := t\<rparr>) m"

definition recover_production_mutation ::
  "crash_point option \<Rightarrow> string \<Rightarrow> ('t, bool) oper \<Rightarrow> ('t, unit) oper \<Rightarrow> ('t journal, bool) oper" where
  "recover_production_mutation inject_at action_id has_effect apply_mutation =
     bnd (asks (\<lambda>j. action_id \<in> set (jn_completed j))) (\<lambda>completed.
     if completed then ret False
     else
       bnd (crash_checkpoint inject_at BEFORE_PRODUCTION_MUTATION) (\<lambda>_.
       bnd (on_journal_target has_effect) (\<lambda>there.
       bnd (if there then ret () else on_journal_target apply_mutation) (\<lambda>_.
       bnd (crash_checkpoint inject_at AFTER_PRODUCTION_MUTATION) (\<lambda>_.
       bnd (crash_checkpoint inject_at BEFORE_LEDGER_COMPLETION) (\<lambda>_.
       bnd (update (\<lambda>j. j\<lparr>jn_completed := List.insert action_id (jn_completed j)\<rparr>)) (\<lambda>_. ret True)))))))"

text \<open>Attempts one after the other, each with the crash that is injected into it.\<close>

fun recovery_attempts ::
  "string \<Rightarrow> ('t, bool) oper \<Rightarrow> ('t, unit) oper \<Rightarrow> crash_point option list \<Rightarrow> 't journal \<Rightarrow> 't journal \<times> (exn + bool) list" where
  "recovery_attempts action_id has_effect apply_mutation [] j = (j, [])"
| "recovery_attempts action_id has_effect apply_mutation (c # cs) j =
     (let (r, j1) = recover_production_mutation c action_id has_effect apply_mutation j;
          (j2, rs) = recovery_attempts action_id has_effect apply_mutation cs j1
      in (j2, r # rs))"

text \<open>
  What the code assumes of the target: the effect is a function of the state that is recognisable once
  it is there; recognising it changes nothing; applying it has the whole effect or none, and all of it
  when the call returns.
\<close>

definition faithful_effect :: "('t \<Rightarrow> bool) \<Rightarrow> ('t \<Rightarrow> 't) \<Rightarrow> ('t, bool) oper \<Rightarrow> ('t, unit) oper \<Rightarrow> bool" where
  "faithful_effect eff f has_effect apply_mutation \<longleftrightarrow> (\<forall>t. eff (f t)) \<and>
     (\<forall>t. snd (has_effect t) = t \<and> (\<forall>b. fst (has_effect t) = Inr b \<longrightarrow> b = eff t)) \<and>
     (\<forall>t. snd (apply_mutation t) = f t \<or> snd (apply_mutation t) = t \<and> (\<exists>e. fst (apply_mutation t) = Inl e))"

lemma crash_checkpoint_apply:
  "crash_checkpoint c p j = (if c = Some p then Inl (InjectedCrash (''injected crash at '' @ crash_value p)) else Inr (),
     j\<lparr>jn_checkpoints := jn_checkpoints j @ [p]\<rparr>)"
  by (simp add: crash_checkpoint_def bnd_apply)

definition recovered :: "string \<Rightarrow> ('t \<Rightarrow> 't) \<Rightarrow> 't \<Rightarrow> 't journal \<Rightarrow> bool" where
  "recovered action_id f t0 j \<longleftrightarrow> jn_target j = f t0 \<or> jn_target j = t0 \<and> action_id \<notin> set (jn_completed j)"

lemma recover_step:
  assumes "faithful_effect eff f has_effect apply_mutation" and "\<not> eff t0" and "recovered action_id f t0 j"
    and "recover_production_mutation c action_id has_effect apply_mutation j = (r, j')"
  shows "recovered action_id f t0 j' \<and> (r = Inr True \<longrightarrow> jn_target j' = f t0 \<and> action_id \<in> set (jn_completed j')) \<and>
    (action_id \<in> set (jn_completed j) \<longrightarrow> r = Inr False \<and> j' = j)"
proof -
  have eff: "\<And>t. eff (f t)" "\<And>t. snd (has_effect t) = t" "\<And>t b. fst (has_effect t) = Inr b \<Longrightarrow> b = eff t"
    "\<And>t. snd (apply_mutation t) = f t \<or> snd (apply_mutation t) = t \<and> (\<exists>e. fst (apply_mutation t) = Inl e)"
    using assms(1) by (auto simp: faithful_effect_def)
  obtain b where h: "has_effect (jn_target j) = (b, jn_target j)" using eff(2) by (metis prod.collapse)
  have hb: "x = eff (jn_target j)" if "b = Inr x" for x using eff(3) [of "jn_target j"] h that by simp
  obtain u t1 where a: "apply_mutation (jn_target j) = (u, t1)" by (cases "apply_mutation (jn_target j)")
  have at: "t1 = f (jn_target j) \<or> t1 = jn_target j \<and> (\<exists>e. u = Inl e)" using eff(4) [of "jn_target j"] a by simp
  show ?thesis
    using assms(2-4) h hb a at eff(1) [of t0]
    by (auto simp: recover_production_mutation_def bnd_apply crash_checkpoint_apply on_journal_target_def focus_apply recovered_def
        split: if_splits sum.splits)
qed

text \<open>
  C22. However often a production action is attempted, and wherever each attempt crashes, its effect is
  applied at most once: the target is the original one or the original with the effect applied once.
  An attempt that reports success leaves the effect in place, and later attempts do nothing.
\<close>

theorem recovery_applies_at_most_once:
  assumes "faithful_effect eff f has_effect apply_mutation" and "\<not> eff t0" and "recovered action_id f t0 j"
    and "recovery_attempts action_id has_effect apply_mutation cs j = (j', rs)"
  shows "(jn_target j' = t0 \<or> jn_target j' = f t0) \<and> (Inr True \<in> set rs \<longrightarrow> jn_target j' = f t0) \<and>
     length (filter (\<lambda>r. r = Inr True) rs) \<le> 1"
proof -
  have "recovered action_id f t0 j' \<and> (Inr True \<in> set rs \<longrightarrow> jn_target j' = f t0) \<and>
      length (filter (\<lambda>r. r = Inr True) rs) \<le> 1 \<and>
      (action_id \<in> set (jn_completed j) \<longrightarrow> j' = j \<and> Inr True \<notin> set rs)"
    using assms(3,4)
  proof (induction cs arbitrary: j rs)
    case Nil
    then show ?case by simp
  next
    case (Cons c cs)
    obtain r j1 where 1: "recover_production_mutation c action_id has_effect apply_mutation j = (r, j1)" by fastforce
    obtain j2 rs' where 2: "recovery_attempts action_id has_effect apply_mutation cs j1 = (j2, rs')" by fastforce
    have e: "j' = j2" "rs = r # rs'" using Cons.prems(2) 1 2 by simp_all
    note s = recover_step [OF assms(1,2) Cons.prems(1) 1]
    have "recovered action_id f t0 j1" using s by blast
    from Cons.IH [OF this 2 [folded e(1)]] s show ?case unfolding e
      by (cases "r = Inr True") (auto simp: filter_empty_conv)
  qed
  then show ?thesis by (auto simp: recovered_def)
qed

theorem recovery_applies_at_most_once_witness:
  "\<exists>j' rs. recovery_attempts ''a'' (asks (\<lambda>n. 0 < n)) (update (\<lambda>n. n + 1))
       [Some AFTER_PRODUCTION_MUTATION, Some BEFORE_LEDGER_COMPLETION, None, None]
       \<lparr>jn_checkpoints = [], jn_completed = [], jn_target = (0::nat)\<rparr> = (j', rs) \<and>
     rs = [Inl (InjectedCrash ''injected crash at AFTER_PRODUCTION_MUTATION''),
       Inl (InjectedCrash ''injected crash at BEFORE_LEDGER_COMPLETION''), Inr True, Inr False] \<and> jn_target j' = 1"
proof -
  let ?j = "\<lparr>jn_checkpoints = [], jn_completed = [], jn_target = (0::nat)\<rparr>"
  obtain j' rs where run: "recovery_attempts ''a'' (asks (\<lambda>n. 0 < n)) (update (\<lambda>n. n + 1))
       [Some AFTER_PRODUCTION_MUTATION, Some BEFORE_LEDGER_COMPLETION, None, None] ?j = (j', rs)"
    and rs: "rs = [Inl (InjectedCrash ''injected crash at AFTER_PRODUCTION_MUTATION''),
       Inl (InjectedCrash ''injected crash at BEFORE_LEDGER_COMPLETION''), Inr True, Inr False]"
    by (simp add: recover_production_mutation_def bnd_apply crash_checkpoint_apply on_journal_target_def focus_apply)
  have f: "faithful_effect (\<lambda>n. 0 < n) (\<lambda>n. n + 1) (asks (\<lambda>n. 0 < n)) (update (\<lambda>n. n + 1 :: nat))"
    by (simp add: faithful_effect_def)
  have "jn_target j' = 1"
    using recovery_applies_at_most_once [OF f _ _ run, of 0] rs by (simp add: recovered_def)
  then show ?thesis using run rs by blast
qed

end
