(* ===== verification/DurableDeploy.thy ===== *)
theory DurableDeploy
  imports Recovery Actions
begin

text \<open>
  \<open>backend/app/production/durable.py\<close>: the run-bound deployment of the one admitted index. The binding of
  run, admission, authority, candidate, action and environment is loaded and checked, the target is
  locked, the intent is recorded, the index created or recognised, and the result recorded. \<open>sha\<close> is the
  digest, \<open>stamp\<close> the text of a timestamp, \<open>ad\<close> the database adapter of the target.
\<close>

subsection \<open>The bound action\<close>

record bound_action =
  bd_run :: run_row
  bd_admission :: admission_artifact_row
  bd_authority :: authority_row
  bd_candidate :: candidate_row
  bd_action :: candidate_action_row
  bd_target :: target_rec

text \<open>The join of the statement, one element for each combination of rows that matches.\<close>

definition bound_rows :: "string \<Rightarrow> db \<Rightarrow> bound_action list" where
  "bound_rows run_id d =
     concat (map (\<lambda>r. concat (map (\<lambda>ad. concat (map (\<lambda>au. concat (map (\<lambda>c. concat (map (\<lambda>ac. concat (map (\<lambda>s. map (\<lambda>t.
       \<lparr>bd_run = r, bd_admission = ad, bd_authority = au, bd_candidate = c, bd_action = ac, bd_target = t\<rparr>)
       (filter (\<lambda>t. row_id t = rn_target_id r) (db_targets d)))
       (filter (\<lambda>s. Some (row_id s) = rn_workload_snapshot_id r) (db_workload_snapshots d))))
       (filter (\<lambda>ac. ac_candidate_id ac = row_id c) (db_candidate_actions d))))
       (filter (\<lambda>c. Some (row_id c) = aa_selected_candidate_id ad) (db_candidates d))))
       (filter (\<lambda>au. au_optimization_run_id au = row_id r) (db_authority_decisions d))))
       (filter (\<lambda>ad. aa_optimization_run_id ad = row_id r) (db_admission_artifacts d))))
       (filter (\<lambda>r. row_id r = run_id) (db_runs d)))"

definition refuse_unless :: "bool \<Rightarrow> string \<Rightarrow> ('t world, unit) oper" where
  "refuse_unless b code = ensure b (DurableDeploymentError code)"

definition environment_evidence :: "string \<Rightarrow> ('t world, capability_rec option \<times> credential_rec option) oper" where
  "environment_evidence target_id = engine_connect (
     bnd (latest_capability target_id) (\<lambda>cap. bnd (credential_of target_id) (\<lambda>cred. ret (cap, cred))))"

definition bound_fingerprint :: "digest \<Rightarrow> bound_action \<Rightarrow> string \<times> string \<times> string \<Rightarrow> string" where
  "bound_fingerprint sha b env = (let au = bd_authority b; (identity, capability, security) = env in
     authority_integrity_fingerprint sha (row_id (bd_run b)) (au_candidate_id au) (au_candidate_fingerprint au)
       (au_deployment_mode au) (au_authority_type au) (au_authority_reason au) (au_production_autonomy_eligible au)
       (aa_production_eligible (bd_admission b)) identity capability security)"

definition autonomy_prerequisites :: "bound_action \<Rightarrow> bool" where
  "autonomy_prerequisites b \<longleftrightarrow> rn_deployment_mode (bd_run b) = ''FULL_AUTONOMOUS'' \<and>
     au_production_autonomy_eligible (bd_authority b) \<and> aa_production_eligible (bd_admission b) \<and>
     cn_policy_classification (bd_candidate b) = Some ''AUTO_ELIGIBLE_AFTER_ADMISSION''"

definition approves_bound :: "bound_action \<Rightarrow> int \<Rightarrow> approval_request_row \<Rightarrow> bool" where
  "approves_bound b t a \<longleftrightarrow> av_optimization_run_id a = Some (row_id (bd_run b)) \<and>
     Some (av_candidate_id a) = aa_selected_candidate_id (bd_admission b) \<and>
     av_candidate_fingerprint a = Some (au_candidate_fingerprint (bd_authority b)) \<and>
     av_status a = ''APPROVED'' \<and> t < av_expires_at a"

definition current_approval :: "bound_action \<Rightarrow> ('t world, unit) oper" where
  "current_approval b =
     bnd (engine_connect (bnd now (\<lambda>t. select_one approval_requests_table (approves_bound b t)))) (\<lambda>approval.
     refuse_unless (approval \<noteq> None) ''CURRENT_APPROVAL_REQUIRED'')"

definition load_bound_action :: "digest \<Rightarrow> string \<Rightarrow> ('t world, bound_action) oper" where
  "load_bound_action sha run_id =
     bnd (engine_connect (bnd (asks (\<lambda>w. bound_rows run_id (w_db w))) (\<lambda>rows. lift (one_or_none rows)))) (\<lambda>found.
     case found of
       None \<Rightarrow> raise (DurableDeploymentError ''AUTHORITY_BINDING_MISSING'')
     | Some b \<Rightarrow>
         bnd (refuse_unless (aa_selected_candidate_id (bd_admission b) = Some (au_candidate_id (bd_authority b)))
           ''AUTHORITY_BINDING_MISSING'') (\<lambda>_.
         bnd (refuse_unless (cn_deterministic_fingerprint (bd_candidate b) = Some (au_candidate_fingerprint (bd_authority b)))
           ''CANDIDATE_FINGERPRINT_DRIFT'') (\<lambda>_.
         bnd (refuse_unless (ac_action_type (bd_action b) = ''CREATE_INDEX'' \<and> ac_action_type (bd_action b) \<in> set auto_eligible_actions)
           ''UNSUPPORTED_TYPED_PRODUCTION_ACTION'') (\<lambda>_.
         bnd (refuse_unless (cn_status (bd_candidate b) = CAND_ADMITTED) ''CANDIDATE_NOT_ADMITTED'') (\<lambda>_.
         bnd (refuse_unless (rn_deployment_mode (bd_run b) = au_deployment_mode (bd_authority b)) ''DEPLOYMENT_MODE_DRIFT'') (\<lambda>_.
         bnd (environment_evidence (rn_target_id (bd_run b))) (\<lambda>(cap, cred).
         bnd (refuse_unless (bound_fingerprint sha b (bound_environment sha (bd_target b) cap cred) =
             au_integrity_fingerprint (bd_authority b)) ''PREDEPLOYMENT_EVIDENCE_DRIFT'') (\<lambda>_.
         bnd (refuse_unless (au_authority_type (bd_authority b) = ''AUTONOMOUS'' \<longrightarrow> autonomy_prerequisites b)
           ''AUTONOMY_PREREQUISITE_DRIFT'') (\<lambda>_.
         bnd (if au_authority_type (bd_authority b) = ''HUMAN_REQUIRED'' then current_approval b else ret ()) (\<lambda>_.
         ret b))))))))))"

subsection \<open>Fingerprints and states\<close>

definition action_of_payload :: "json \<Rightarrow> exn + create_index_action" where
  "action_of_payload j = (case j of JObj kvs \<Rightarrow> create_index_validate kvs | _ \<Rightarrow> Inl (ValidationError ''CreateIndexAction''))"

definition action_fingerprint :: "digest \<Rightarrow> create_index_action \<Rightarrow> string" where
  "action_fingerprint sha a = json_hash sha (JObj (create_index_dump a))"

definition idempotency_key :: "digest \<Rightarrow> string \<Rightarrow> string \<Rightarrow> string \<Rightarrow> string" where
  "idempotency_key sha run_id candidate_fingerprint action_fp = sha (run_id @ '':'' @ candidate_fingerprint @ '':'' @ action_fp)"

definition has_exact_index :: "target_state \<Rightarrow> create_index_action \<Rightarrow> bool" where
  "has_exact_index st a \<longleftrightarrow>
     length (filter (\<lambda>i. ix_name i = ca_index_name a \<and> ix_keys i = action_keys a) (ts_indexes st)) = 1"

definition intended :: "target_state \<Rightarrow> create_index_action \<Rightarrow> target_state" where
  "intended before a = before\<lparr>ts_indexes := ts_indexes before @ [action_spec a]\<rparr>"

definition deploy_state :: "'t adapter \<Rightarrow> create_index_action \<Rightarrow> ('t world, target_state) oper" where
  "deploy_state ad a = on_world_target (observe_state ad (ca_database a) (ca_collection a))"

subsection \<open>Recording\<close>

definition new_deployment ::
  "bound_action \<Rightarrow> target_state \<Rightarrow> create_index_action \<Rightarrow> string \<Rightarrow> string \<Rightarrow> string \<Rightarrow> int \<Rightarrow> deployment_row" where
  "new_deployment b before a fp key = (\<lambda>i t. \<lparr>row_id = i, row_created_at = t, row_updated_at = Some t,
     dp_optimization_run_id = row_id (bd_run b), dp_candidate_id = row_id (bd_candidate b),
     dp_candidate_fingerprint = au_candidate_fingerprint (bd_authority b), dp_action_fingerprint = fp,
     dp_idempotency_key = key, dp_status = ''INTENT_RECORDED'', dp_before_state = before,
     dp_inverse_action = JObj (drop_index_dump (create_index_inverse a)), dp_after_state = None\<rparr>)"

definition deployment_intent ::
  "digest \<Rightarrow> bound_action \<Rightarrow> target_state \<Rightarrow> create_index_action \<Rightarrow> string \<Rightarrow> ('t world, deployment_row \<times> bool) oper" where
  "deployment_intent sha b before a fp =
     bnd now (\<lambda>t. engine_begin (
     bnd (select_one deployments_table (\<lambda>x. dp_optimization_run_id x = row_id (bd_run b))) (\<lambda>existing.
     case existing of
       Some x \<Rightarrow>
         bnd (refuse_unless (dp_candidate_id x = row_id (bd_candidate b) \<and>
             dp_candidate_fingerprint x = au_candidate_fingerprint (bd_authority b) \<and> dp_action_fingerprint x = fp)
           ''DEPLOYMENT_ARTIFACT_BINDING_DRIFT'') (\<lambda>_. ret (x, False))
     | None \<Rightarrow>
         bnd uuid4 (\<lambda>i.
         bnd (insert_row deployments_table (new_deployment b before a fp
           (idempotency_key sha (row_id (bd_run b)) (au_candidate_fingerprint (bd_authority b)) fp) i t)) (\<lambda>x. ret (x, True))))))"

definition mark_applied :: "string \<Rightarrow> target_state \<Rightarrow> ('t world, deployment_row) oper" where
  "mark_applied artifact_id after = engine_begin (
     bnd now (\<lambda>t.
     bnd (update_rows deployments_table (\<lambda>x. row_id x = artifact_id)
       (\<lambda>x. x\<lparr>dp_status := ''APPLIED'', dp_after_state := Some after, row_updated_at := Some t\<rparr>)) (\<lambda>rows.
     lift (the_one rows))))"

definition deployment_entry ::
  "string \<Rightarrow> string \<Rightarrow> bound_action \<Rightarrow> target_state \<Rightarrow> target_state \<Rightarrow> create_index_action \<Rightarrow> pg_args" where
  "deployment_entry actor event b before after a = \<lparr>pg_target_id = rn_target_id (bd_run b), pg_run_id = Some (row_id (bd_run b)),
     pg_candidate_id = Some (row_id (bd_candidate b)), pg_action_id = row_id (bd_action b), pg_event_type = event,
     pg_before_state = target_state_json before, pg_intended_state = target_state_json (intended before a),
     pg_after_state = target_state_json after, pg_forward_action = JObj (create_index_dump a),
     pg_inverse_action = JObj (drop_index_dump (create_index_inverse a)),
     pg_evidence_hash = au_integrity_fingerprint (bd_authority b), pg_actor = actor\<rparr>"

definition run_status_of :: "string \<Rightarrow> ('t world, optimization_state) oper" where
  "run_status_of run_id = bnd (engine_connect (select_one runs_table (\<lambda>r. row_id r = run_id))) (\<lambda>found.
     case found of None \<Rightarrow> raise (DurableDeploymentError ''RUN_NOT_FOUND'') | Some r \<Rightarrow> ret (rn_status r))"

subsection \<open>Deployment\<close>

text \<open>The start of the run's deployment: an approved run moves on, any other status must already be there.\<close>

definition begin_deploying :: "bound_action \<Rightarrow> ('t world, unit) oper" where
  "begin_deploying b =
     (if rn_status (bd_run b) = APPROVED then bnd (run_transition (row_id (bd_run b)) DEPLOYING None) (\<lambda>_. ret ())
      else refuse_unless (rn_status (bd_run b) \<in> {DEPLOYING, DEPLOYED}) ''RUN_NOT_APPROVED_FOR_DEPLOYMENT'')"

text \<open>An applied artifact is only verified against the target.\<close>

definition reconcile_applied :: "bound_action \<Rightarrow> create_index_action \<Rightarrow> target_state \<Rightarrow> deployment_row \<Rightarrow> ('t world, deployment_row) oper" where
  "reconcile_applied b a before artifact =
     bnd (refuse_unless (has_exact_index before a) ''DEPLOYED_EXTERNAL_STATE_DRIFT'') (\<lambda>_.
     bnd (run_status_of (row_id (bd_run b))) (\<lambda>current.
     bnd (if current = DEPLOYING then bnd (run_transition (row_id (bd_run b)) DEPLOYED None) (\<lambda>_. ret ())
          else refuse_unless (current = DEPLOYED) ''RUN_NOT_DEPLOYING_FOR_RECOVERY'') (\<lambda>_.
     ret artifact)))"

definition exact_effect :: "'t adapter \<Rightarrow> create_index_action \<Rightarrow> string \<Rightarrow> string \<Rightarrow> ('t world, bool) oper" where
  "exact_effect ad a fp expected = bnd (deploy_state ad a) (\<lambda>st. ret (expected = fp \<and> has_exact_index st a))"

definition create_owned :: "'t adapter \<Rightarrow> create_index_action \<Rightarrow> ('t world, unit) oper" where
  "create_owned ad a =
     bnd ensure_lease_owned (\<lambda>_. on_world_target (ad_create_index ad (ca_collection a) (action_spec a)))"

definition apply_deployment ::
  "digest \<Rightarrow> (int \<Rightarrow> string) \<Rightarrow> string \<Rightarrow> 't adapter \<Rightarrow> bound_action \<Rightarrow> create_index_action \<Rightarrow> target_state \<Rightarrow>
   deployment_row \<Rightarrow> bool \<Rightarrow> ('t world, deployment_row) oper" where
  "apply_deployment sha stamp actor ad b a before artifact intent_created =
     (let fp = action_fingerprint sha a in
      bnd (record_intent (dp_idempotency_key artifact) (row_id (bd_action b)) (rn_target_id (bd_run b)) fp) (\<lambda>_.
      bnd (if intent_created
           then bnd (pg_append sha stamp (deployment_entry actor ''DEPLOYMENT_INTENT'' b before before a)) (\<lambda>_. ret ())
           else ret ()) (\<lambda>_.
      bnd ensure_lease_owned (\<lambda>_.
      bnd (execute_or_recover (dp_idempotency_key artifact) (exact_effect ad a fp) (create_owned ad a)) (\<lambda>_.
      bnd ensure_lease_owned (\<lambda>_.
      bnd (deploy_state ad a) (\<lambda>after.
      bnd (refuse_unless (has_exact_index after a) ''EXTERNAL_EFFECT_VERIFICATION_FAILED'') (\<lambda>_.
      bnd (mark_applied (row_id artifact) after) (\<lambda>persisted.
      bnd (pg_append sha stamp (deployment_entry actor ''DEPLOYMENT_APPLIED'' b before after a)) (\<lambda>_.
      bnd ensure_lease_owned (\<lambda>_.
      bnd (run_status_of (row_id (bd_run b))) (\<lambda>current.
      bnd (if current = DEPLOYING then bnd (run_transition (row_id (bd_run b)) DEPLOYED None) (\<lambda>_. ret ()) else ret ()) (\<lambda>_.
      ret persisted)))))))))))))"

definition deploy_locked ::
  "digest \<Rightarrow> (int \<Rightarrow> string) \<Rightarrow> string \<Rightarrow> 't adapter \<Rightarrow> bound_action \<Rightarrow> ('t world, deployment_row) oper" where
  "deploy_locked sha stamp actor ad b =
     bnd (lift (action_of_payload (ac_action_payload (bd_action b)))) (\<lambda>a.
     bnd (deploy_state ad a) (\<lambda>before.
     bnd (deployment_intent sha b before a (action_fingerprint sha a)) (\<lambda>(artifact, intent_created).
     bnd (begin_deploying b) (\<lambda>_.
     if dp_status artifact = ''APPLIED'' then reconcile_applied b a before artifact
     else apply_deployment sha stamp actor ad b a before artifact intent_created))))"

definition deploy_for_run ::
  "digest \<Rightarrow> (int \<Rightarrow> string) \<Rightarrow> string \<Rightarrow> 't adapter \<Rightarrow> string \<Rightarrow> ('t world, deployment_row) oper" where
  "deploy_for_run sha stamp actor ad run_id =
     bnd ensure_lease_owned (\<lambda>_.
     bnd (load_bound_action sha run_id) (\<lambda>b.
     with_mutation_lock sha (rn_target_id (bd_run b)) (raise (DurableDeploymentError ''TARGET_LOCK_UNAVAILABLE''))
       (bnd ensure_lease_owned (\<lambda>_. deploy_locked sha stamp actor ad b))))"

subsection \<open>What the deployment relies on\<close>

text \<open>
  The specification of what the deployment must find in the tables, field by field and independent of the
  loader: the environment on record, the authority of an autonomous deployment, a person's approval at time
  \<open>t\<close>, and the binding of them all to the run.
\<close>

definition newest_capability :: "db \<Rightarrow> string \<Rightarrow> capability_rec option \<Rightarrow> bool" where
  "newest_capability d target_id cap \<longleftrightarrow> (case cap of
       None \<Rightarrow> \<forall>s\<in>set (db_capability_snapshots d). cp_target_id s \<noteq> target_id
     | Some c \<Rightarrow> c \<in> set (db_capability_snapshots d) \<and> cp_target_id c = target_id \<and>
         (\<forall>s\<in>set (db_capability_snapshots d). cp_target_id s = target_id \<longrightarrow> row_created_at s \<le> row_created_at c))"

definition only_credential :: "db \<Rightarrow> string \<Rightarrow> credential_rec option \<Rightarrow> bool" where
  "only_credential d target_id cred \<longleftrightarrow>
     filter (\<lambda>c. tc_target_id c = target_id) (db_target_credentials d) = (case cred of None \<Rightarrow> [] | Some c \<Rightarrow> [c])"

definition signed_for :: "digest \<Rightarrow> bound_action \<Rightarrow> capability_rec option \<Rightarrow> credential_rec option \<Rightarrow> bool" where
  "signed_for sha b cap cred \<longleftrightarrow> au_integrity_fingerprint (bd_authority b) =
     authority_integrity_fingerprint sha (row_id (bd_run b)) (au_candidate_id (bd_authority b))
       (au_candidate_fingerprint (bd_authority b)) (au_deployment_mode (bd_authority b)) (au_authority_type (bd_authority b))
       (au_authority_reason (bd_authority b)) (au_production_autonomy_eligible (bd_authority b))
       (aa_production_eligible (bd_admission b))
       (fst (bound_environment sha (bd_target b) cap cred)) (fst (snd (bound_environment sha (bd_target b) cap cred)))
       (snd (snd (bound_environment sha (bd_target b) cap cred)))"

definition may_act_alone :: "bound_action \<Rightarrow> bool" where
  "may_act_alone b \<longleftrightarrow> rn_deployment_mode (bd_run b) = ''FULL_AUTONOMOUS'' \<and>
     au_deployment_mode (bd_authority b) = ''FULL_AUTONOMOUS'' \<and>
     au_production_autonomy_eligible (bd_authority b) \<and> aa_production_eligible (bd_admission b) \<and>
     cn_policy_classification (bd_candidate b) = Some ''AUTO_ELIGIBLE_AFTER_ADMISSION''"

definition approved_at :: "db \<Rightarrow> int \<Rightarrow> bound_action \<Rightarrow> bool" where
  "approved_at d t b \<longleftrightarrow> (\<exists>p\<in>set (db_approval_requests d). av_status p = ''APPROVED'' \<and> t < av_expires_at p \<and>
     av_optimization_run_id p = Some (row_id (bd_run b)) \<and> av_candidate_id p = row_id (bd_candidate b) \<and>
     av_candidate_fingerprint p = cn_deterministic_fingerprint (bd_candidate b))"

definition binding_holds :: "digest \<Rightarrow> string \<Rightarrow> db \<Rightarrow> int \<Rightarrow> bound_action \<Rightarrow> bool" where
  "binding_holds sha run_id d t b \<longleftrightarrow>
     bound_rows run_id d = [b] \<and>
     bd_run b \<in> set (db_runs d) \<and> row_id (bd_run b) = run_id \<and>
     bd_admission b \<in> set (db_admission_artifacts d) \<and> aa_optimization_run_id (bd_admission b) = run_id \<and>
     bd_authority b \<in> set (db_authority_decisions d) \<and> au_optimization_run_id (bd_authority b) = run_id \<and>
     bd_candidate b \<in> set (db_candidates d) \<and> aa_selected_candidate_id (bd_admission b) = Some (row_id (bd_candidate b)) \<and>
     au_candidate_id (bd_authority b) = row_id (bd_candidate b) \<and> cn_status (bd_candidate b) = CAND_ADMITTED \<and>
     cn_deterministic_fingerprint (bd_candidate b) = Some (au_candidate_fingerprint (bd_authority b)) \<and>
     bd_action b \<in> set (db_candidate_actions d) \<and> ac_candidate_id (bd_action b) = row_id (bd_candidate b) \<and>
     ac_action_type (bd_action b) = ''CREATE_INDEX'' \<and>
     bd_target b \<in> set (db_targets d) \<and> row_id (bd_target b) = rn_target_id (bd_run b) \<and>
     rn_deployment_mode (bd_run b) = au_deployment_mode (bd_authority b) \<and>
     (\<exists>cap cred. newest_capability d (rn_target_id (bd_run b)) cap \<and> only_credential d (rn_target_id (bd_run b)) cred \<and>
        signed_for sha b cap cred) \<and>
     (au_authority_type (bd_authority b) = ''AUTONOMOUS'' \<longrightarrow> may_act_alone b) \<and>
     (au_authority_type (bd_authority b) = ''HUMAN_REQUIRED'' \<longrightarrow> approved_at d t b)"

lemma bound_rows_mem:
  assumes "b \<in> set (bound_rows run_id d)"
  shows "bd_run b \<in> set (db_runs d)" "row_id (bd_run b) = run_id"
    "bd_admission b \<in> set (db_admission_artifacts d)" "aa_optimization_run_id (bd_admission b) = run_id"
    "bd_authority b \<in> set (db_authority_decisions d)" "au_optimization_run_id (bd_authority b) = run_id"
    "bd_candidate b \<in> set (db_candidates d)" "aa_selected_candidate_id (bd_admission b) = Some (row_id (bd_candidate b))"
    "bd_action b \<in> set (db_candidate_actions d)" "ac_candidate_id (bd_action b) = row_id (bd_candidate b)"
    "bd_target b \<in> set (db_targets d)" "row_id (bd_target b) = rn_target_id (bd_run b)"
  using assms by (auto simp: bound_rows_def)

lemma refuse_unless_Inr [simp]: "refuse_unless b code w = (Inr u, w') \<longleftrightarrow> b \<and> w' = w"
  by (auto simp: refuse_unless_def)

lemma sort_head_least: "sort_key f xs = y # ys \<Longrightarrow> x \<in> set xs \<Longrightarrow> f y \<le> f x"
  for f :: "'a \<Rightarrow> 'b::linorder"
proof -
  assume s: "sort_key f xs = y # ys" and x: "x \<in> set xs"
  have "sorted (map f (y # ys))" using sorted_sort_key [of f xs] by (simp only: s)
  moreover have "x \<in> set (y # ys)" using x by (simp only: s [symmetric] set_sort)
  ultimately show ?thesis by auto
qed

lemma latest_capability_Inr:
  assumes "latest_capability tid w = (Inr cap, w')"
  shows "w' = w \<and> newest_capability (w_db w) tid cap"
proof -
  let ?xs = "filter (\<lambda>c. cp_target_id c = tid) (db_capability_snapshots (w_db w))"
  let ?cs = "sort_key (\<lambda>c. - row_created_at c) ?xs"
  have r: "w' = w" "cap = (case ?cs of [] \<Rightarrow> None | c # _ \<Rightarrow> Some c)"
    using assms by (auto simp: latest_capability_def)
  have same: "set ?cs = set ?xs" by simp
  show ?thesis
  proof (cases ?cs)
    case Nil
    then have "set ?xs = {}" using same by simp
    then show ?thesis using Nil r by (auto simp: newest_capability_def filter_empty_conv)
  next
    case (Cons c cs)
    then have "c \<in> set ?xs" using same by auto
    moreover have "row_created_at s \<le> row_created_at c" if "s \<in> set ?xs" for s
      using sort_head_least [OF Cons that] by simp
    ultimately show ?thesis using Cons r by (auto simp: newest_capability_def)
  qed
qed

lemma environment_evidence_Inr:
  assumes "environment_evidence tid w = (Inr (cap, cred), w')"
  shows "w' = tick w \<and> newest_capability (w_db w) tid cap \<and> only_credential (w_db w) tid cred"
proof -
  obtain v where c: "latest_capability tid (tick w) = (Inr cap, v)" and d: "credential_of tid v = (Inr cred, w')"
    using assms by (auto simp: environment_evidence_def engine_connect_Inr elim!: bnd_InrE)
  have "w' = v \<and> only_credential (w_db v) tid cred"
    using d by (auto simp: credential_of_def select_one_def select_rows_def lift_apply target_credentials_table_def
        only_credential_def split: option.split elim!: bnd_InrE)
  then show ?thesis using latest_capability_Inr [OF c] by auto
qed

text \<open>The approval is read at the time of the clock, one reading after the connection was found available.\<close>

lemma current_approval_Inr:
  assumes "current_approval b w = (Inr u, w')"
  shows "\<exists>a\<in>set (db_approval_requests (w_db w)). approves_bound b (w_clock w (Suc (w_reads w))) a"
  using assms
  by (auto simp: current_approval_def engine_connect_Inr world_apply approval_requests_table_def elim!: bnd_InrE
      dest!: filter_one) blast

lemma load_bound_action_Inr:
  assumes "load_bound_action sha run_id w = (Inr b, w')"
  shows "binding_holds sha run_id (w_db w) (w_clock w (w_reads w + 3)) b"
proof -
  from assms obtain u1 u2 cap cred where rows: "bound_rows run_id (w_db w) = [b]"
    and chk: "aa_selected_candidate_id (bd_admission b) = Some (au_candidate_id (bd_authority b))"
      "cn_deterministic_fingerprint (bd_candidate b) = Some (au_candidate_fingerprint (bd_authority b))"
      "ac_action_type (bd_action b) = ''CREATE_INDEX''" "cn_status (bd_candidate b) = CAND_ADMITTED"
      "rn_deployment_mode (bd_run b) = au_deployment_mode (bd_authority b)"
    and env: "environment_evidence (rn_target_id (bd_run b)) (tick w) = (Inr (cap, cred), u1)"
    and fp: "bound_fingerprint sha b (bound_environment sha (bd_target b) cap cred) = au_integrity_fingerprint (bd_authority b)"
    and auto: "au_authority_type (bd_authority b) = ''AUTONOMOUS'' \<longrightarrow> autonomy_prerequisites b"
    and human: "(if au_authority_type (bd_authority b) = ''HUMAN_REQUIRED'' then current_approval b else ret ()) u1 = (Inr (), u2)"
    by (auto simp: load_bound_action_def engine_connect_Inr asks_apply lift_apply elim!: bnd_InrE split: option.splits)
  have "b \<in> set (bound_rows run_id (w_db w))" using rows by simp
  note mem = bound_rows_mem [OF this]
  have sel: "au_candidate_id (bd_authority b) = row_id (bd_candidate b)" using mem(8) chk(1) by simp
  have sig: "signed_for sha b cap cred"
    using fp by (simp add: signed_for_def bound_fingerprint_def Let_def split: prod.splits)
  have alone: "au_authority_type (bd_authority b) = ''AUTONOMOUS'' \<longrightarrow> may_act_alone b"
    using auto chk(5) by (auto simp: autonomy_prerequisites_def may_act_alone_def)
  have person: "au_authority_type (bd_authority b) = ''HUMAN_REQUIRED'' \<longrightarrow> approved_at (w_db w) (w_clock w (w_reads w + 3)) b"
    using current_approval_Inr [of b u1 "()" u2] human environment_evidence_Inr [OF env] mem(8) chk(2)
    by (auto simp: approved_at_def approves_bound_def tick_def eval_nat_numeral)
  show ?thesis
    unfolding binding_holds_def using rows mem sel chk sig alone person environment_evidence_Inr [OF env] by auto
qed

subsection \<open>Frames\<close>

text \<open>The intents on record: deployment artifacts, rollback records and setting deployments. No step removes one.\<close>

datatype intent = DeployIntent string string string string | RollbackIntent string | SettingsIntent string string string

definition deploy_key :: "deployment_row \<Rightarrow> intent" where
  "deploy_key x = DeployIntent (dp_optimization_run_id x) (dp_candidate_id x) (dp_candidate_fingerprint x) (dp_action_fingerprint x)"

definition settings_intent :: "settings_deployment_row \<Rightarrow> intent" where
  "settings_intent x = SettingsIntent (row_id x) (sy_idempotency_key x) (sy_action_fingerprint x)"

definition intents :: "'t world \<Rightarrow> intent set" where
  "intents w = deploy_key ` set (db_deployments (w_db w)) \<union> (\<lambda>r. RollbackIntent (ro_candidate_id r)) ` set (db_rollback_records (w_db w)) \<union>
     settings_intent ` set (db_settings_deployments (w_db w))"

named_theorems watching \<open>operations that leave the target, the locks and the intents in place\<close>

lemma deployments_same: "w_db w' = w_db w \<Longrightarrow> intents w' = intents w"
  by (simp add: intents_def)

lemma intents_tick [simp]: "intents (tick w) = intents w"
  by (simp add: intents_def)

lemma deploy_key_update [simp]:
  "deploy_key (x\<lparr>dp_status := s, dp_after_state := st, row_updated_at := u\<rparr>) = deploy_key x"
  by (simp add: deploy_key_def)

lemma image_if_same: "(\<And>x. g (f x) = g x) \<Longrightarrow> g ` set (map (\<lambda>x. if p x then f x else x) xs) = g ` set xs"
  unfolding set_map image_image by (rule image_cong) simp_all

context database_adapter
begin

definition watches :: "'t world \<Rightarrow> 't world \<Rightarrow> bool" where
  "watches w w' \<longleftrightarrow> (inv (w_target w) \<longrightarrow> w_target w' = w_target w) \<and> w_advisory w' = w_advisory w \<and> intents w \<subseteq> intents w'"

lemma watches_refl [simp]: "watches w w"
  by (simp add: watches_def)

lemma watches_tick [simp]: "watches w (tick w)"
  by (simp add: watches_def)

lemma watches_trans: "watches a b \<Longrightarrow> watches b c \<Longrightarrow> watches a c"
  by (auto simp: watches_def)

lemma watches_bnd [watching]:
  "keeps watches m \<Longrightarrow> (\<And>a. keeps watches (f a)) \<Longrightarrow> keeps watches (bnd m f)"
  by (intro keeps_bnd transpI) (auto intro: watches_trans)

lemma watches_same: "keeps same_outside m \<Longrightarrow> (\<And>w. intents w \<subseteq> intents (snd (m w))) \<Longrightarrow> keeps watches m"
  by (auto simp: keeps_def watches_def same_outside_def)

lemma watches_basic [watching]:
  "keeps watches (ret x)" "keeps watches (raise e)" "keeps watches (lift v)" "keeps watches (refuse_unless b s)"
  "keeps watches now" "keeps watches uuid4" "keeps watches ensure_lease_owned" "keeps watches (select_one tb p)"
  "keeps watches (asks h)"
  by (simp_all add: keeps_def refuse_unless_def world_apply del: bnd_apply)

lemma watches_choice [watching]:
  "keeps watches a \<Longrightarrow> keeps watches b \<Longrightarrow> keeps watches (if P then a else b)"
  "keeps watches a \<Longrightarrow> (\<And>x. keeps watches (f x)) \<Longrightarrow> keeps watches (case v of None \<Rightarrow> a | Some x \<Rightarrow> f x)"
  by (simp, cases v) simp_all

lemma watches_engine [watching]:
  assumes "keeps watches m"
  shows "keeps watches (engine_begin m)" and "keeps watches (engine_connect m)"
proof -
  have avail: "keeps watches db_available" by (simp add: keeps_def db_available_apply watches_def)
  have "watches w (snd (tables_transaction m w))" for w
  proof (cases "m w")
    case (Pair r v)
    then have "watches w v" using assms by (auto dest: keepsD)
    then show ?thesis using Pair by (cases r) (auto simp: tables_transaction_def watches_def intents_def)
  qed
  then have "keeps watches (tables_transaction m)" by (simp add: keeps_def)
  with avail assms show "keeps watches (engine_begin m)" "keeps watches (engine_connect m)"
    unfolding engine_begin_def engine_connect_def by (auto intro: watching)
qed

lemma watches_writes [watching]:
  "keeps watches (pg_append sha stamp a)" "keeps watches (run_transition i n reason)"
proof -
  have "keeps same_outside (pg_append sha stamp a)" unfolding pg_append_def by (intro frames)
  moreover have "intents w \<subseteq> intents (snd (pg_append sha stamp a w))" for w :: "'t world"
    by (cases "pg_append sha stamp a w"; cases "fst (pg_append sha stamp a w)")
      (auto simp: intents_def dest!: pg_append_Inr pg_append_Inl)
  ultimately show "keeps watches (pg_append sha stamp a)" by (rule watches_same)
  have "intents w \<subseteq> intents (snd (run_transition i n reason w))" for w :: "'t world"
    by (cases "run_transition i n reason w"; cases "fst (run_transition i n reason w)")
      (auto simp: intents_def moved_def dest!: run_transition_spec run_transition_fails)
  with frame_run_transition show "keeps watches (run_transition i n reason)" by (rule watches_same)
qed

lemma only_recovery_watches:
  assumes "keeps only_recovery m"
  shows "keeps watches m"
proof (rule keepsI)
  fix w :: "'t world" and r w' assume "m w = (r, w')"
  with assms have o: "only_recovery w w'" by (rule keepsD)
  then have "intents w' = intents w" by (auto simp: only_recovery_def intents_def)
  then show "watches w w'" using o by (simp add: only_recovery_def same_outside_def watches_def)
qed

lemmas watches_recovery [watching] = recovery_steps_frame [THEN only_recovery_watches]

lemma watches_artifacts [watching]:
  "keeps watches (insert_row deployments_table r)" "keeps watches (mark_applied i after)"
proof -
  show "keeps watches (insert_row deployments_table r)"
    by (auto simp: keeps_def insert_row_def deployments_table_def watches_def intents_def)
  have "keeps same_outside (mark_applied i after)" unfolding mark_applied_def by (intro frames)
  moreover have "intents w \<subseteq> intents (snd (mark_applied i after w))" for w :: "'t world"
    by (simp add: mark_applied_def engine_begin_def tables_transaction_def bnd_apply world_apply deployments_table_def
        intents_def image_if_same del: set_map split: sum.split) blast
  ultimately show "keeps watches (mark_applied i after)" by (rule watches_same)
qed

lemma watches_state [watching]: "keeps watches (deploy_state ad a)"
  using observe_pure by (auto simp: keeps_def deploy_state_def world_apply watches_def intents_def) (metis prod.collapse)

text \<open>Started in a state with \<open>P\<close>, at most the one effect \<open>E\<close> happens to the target.\<close>

definition one_effect :: "('t \<Rightarrow> bool) \<Rightarrow> ('t \<Rightarrow> 't \<Rightarrow> bool) \<Rightarrow> 't world \<Rightarrow> 't world \<Rightarrow> bool" where
  "one_effect P E w w' \<longleftrightarrow> (inv (w_target w) \<longrightarrow> P (w_target w) \<longrightarrow>
       inv (w_target w') \<and> (w_target w' = w_target w \<or> E (w_target w) (w_target w'))) \<and>
     w_advisory w' = w_advisory w \<and> intents w \<subseteq> intents w'"

lemma watches_once: "watches w w' \<Longrightarrow> one_effect P E w w'"
  by (auto simp: watches_def one_effect_def)

lemma once_unless: "keeps watches m \<Longrightarrow> keeps (one_effect P E) m"
  by (auto simp: keeps_def watches_once)

lemma once_after: "keeps watches m \<Longrightarrow> (\<And>x. keeps (one_effect P E) (f x)) \<Longrightarrow> keeps (one_effect P E) (bnd m f)"
proof -
  assume m: "keeps watches m" and f: "\<And>x. keeps (one_effect P E) (f x)"
  have "one_effect P E w w'" if "bnd m f w = (r, w')" for w r w'
  proof -
    obtain x v where v: "m w = (x, v)" by fastforce
    then have mv: "watches w v" using m by (auto dest: keepsD)
    show ?thesis
    proof (cases x)
      case (Inr y)
      then have "one_effect P E v w'" using that v f [of y] by (auto simp: bnd_apply dest: keepsD)
      with mv show ?thesis unfolding watches_def one_effect_def by fastforce
    qed (use that v mv in \<open>auto simp: bnd_apply watches_once\<close>)
  qed
  then show ?thesis by (auto intro: keepsI)
qed

lemma once_then: "keeps (one_effect P E) m \<Longrightarrow> (\<And>x. keeps watches (f x)) \<Longrightarrow> keeps (one_effect P E) (bnd m f)"
proof -
  assume m: "keeps (one_effect P E) m" and f: "\<And>x. keeps watches (f x)"
  have "one_effect P E w w'" if "bnd m f w = (r, w')" for w r w'
  proof -
    obtain x v where v: "m w = (x, v)" by fastforce
    then have mv: "one_effect P E w v" using m by (auto dest: keepsD)
    show ?thesis
    proof (cases x)
      case (Inr y)
      then have "watches v w'" using that v f [of y] by (auto simp: bnd_apply dest: keepsD)
      with mv show ?thesis unfolding watches_def one_effect_def by fastforce
    qed (use that v mv in \<open>auto simp: bnd_apply\<close>)
  qed
  then show ?thesis by (auto intro: keepsI)
qed

lemma watches_bndE:
  assumes "bnd m f w = (r, w')" and "keeps watches m"
  obtains "watches w w'" | x v where "m w = (Inr x, v)" and "watches w v" and "f x v = (r, w')"
proof -
  obtain y v where v: "m w = (y, v)" by fastforce
  with assms(2) have wv: "watches w v" by (rule keepsD)
  show ?thesis
    using assms(1) v wv that by (cases y) (auto simp: bnd_apply)
qed

end

context idempotent_adapter
begin

text \<open>At most the index of the action is created, unless a different index has its name.\<close>

definition no_conflict :: "create_index_action \<Rightarrow> 'a \<Rightarrow> bool" where
  "no_conflict a t \<longleftrightarrow> (\<forall>i\<in>set (idx t (ca_collection a)). ix_name i = ca_index_name a \<longrightarrow> i = action_spec a)"

definition index_created :: "create_index_action \<Rightarrow> 'a \<Rightarrow> 'a \<Rightarrow> bool" where
  "index_created a = created cols idx hint (ca_collection a) (action_spec a)"

lemma create_owned_once: "keeps (one_effect (no_conflict a) (index_created a)) (create_owned ad a)"
proof -
  have "keeps (one_effect (no_conflict a) (index_created a)) (on_world_target (ad_create_index ad (ca_collection a) (action_spec a)))"
  proof (rule keepsI)
    fix w :: "'a world" and r w' assume "on_world_target (ad_create_index ad (ca_collection a) (action_spec a)) w = (r, w')"
    then obtain t' where t': "ad_create_index ad (ca_collection a) (action_spec a) (w_target w) = (r, t')"
      and w': "w' = w\<lparr>w_target := t'\<rparr>"
      by (cases "ad_create_index ad (ca_collection a) (action_spec a) (w_target w)") (auto simp: on_world_target_apply)
    show "one_effect (no_conflict a) (index_created a) w w'"
      using create_unless_conflict [of "w_target w" "ca_collection a" "action_spec a" r t'] t'
      by (auto simp: w' one_effect_def index_created_def no_conflict_def intents_def)
  qed
  then show ?thesis unfolding create_owned_def by (intro once_after watching)
qed

lemma execute_once:
  "keeps (one_effect (no_conflict a) (index_created a)) (execute_or_recover key (exact_effect ad a fp) (create_owned ad a))"
proof -
  have eff: "keeps watches (exact_effect ad a fp x)" for x unfolding exact_effect_def by (intro watching)
  have act: "keeps (one_effect (no_conflict a) (index_created a)) (if there then ret () else create_owned ad a)" for there
    by (simp add: create_owned_once once_unless watching)
  have "keeps (one_effect (no_conflict a) (index_created a)) (case e of None \<Rightarrow> ret ''EXECUTION_CONFIRMED'' | Some fp' \<Rightarrow>
      bnd (exact_effect ad a fp fp') (\<lambda>there. bnd (if there then ret () else create_owned ad a)
        (\<lambda>_. bnd (confirm_execution key) (\<lambda>_. ret ''EXECUTION_CONFIRMED''))))" for e
  proof (cases e)
    case None
    then show ?thesis by (simp add: once_unless watching)
  next
    case (Some fp')
    have "keeps watches (bnd (confirm_execution key) (\<lambda>_. ret ''EXECUTION_CONFIRMED''))" by (intro watching)
    then show ?thesis unfolding Some option.case by (intro once_after [OF eff] once_then [OF act])
  qed
  then show ?thesis unfolding execute_or_recover_def by (intro once_after watching)
qed

lemma apply_once: "keeps (one_effect (no_conflict a) (index_created a)) (apply_deployment sha stamp actor ad b a before artifact fresh)"
  unfolding apply_deployment_def Let_def run_status_of_def
  by (intro once_after once_then execute_once, (intro watching)+)

lemma begin_watches [watching]: "keeps watches (begin_deploying b)"
  unfolding begin_deploying_def by (intro watching)

lemma reconcile_watches [watching]: "keeps watches (reconcile_applied b a before artifact)"
  unfolding reconcile_applied_def run_status_of_def by (intro watching)

lemma intent_watches [watching]: "keeps watches (deployment_intent sha b before a fp)"
  unfolding deployment_intent_def by (intro watching)

lemma intent_recorded:
  assumes "deployment_intent sha b before a fp w = (Inr (x, c), w')"
  shows "DeployIntent (row_id (bd_run b)) (row_id (bd_candidate b)) (au_candidate_fingerprint (bd_authority b)) fp \<in> intents w'"
proof -
  let ?k = "DeployIntent (row_id (bd_run b)) (row_id (bd_candidate b)) (au_candidate_fingerprint (bd_authority b)) fp"
  have "x \<in> set (db_deployments (w_db w')) \<and> deploy_key x = ?k"
    using assms
    by (auto simp: deployment_intent_def engine_begin_Inr world_apply deployments_table_def insert_row_def
        elim!: bnd_InrE split: option.splits if_splits dest!: filter_one) (simp_all add: deploy_key_def new_deployment_def)
  then show ?thesis unfolding intents_def by (metis UnCI imageI)
qed

lemma load_watches: "keeps watches (load_bound_action sha run_id)"
  unfolding load_bound_action_def environment_evidence_def latest_capability_def credential_of_def current_approval_def
    case_prod_beta by (intro watching)

definition changed_by :: "create_index_action \<Rightarrow> bound_action \<Rightarrow> string \<Rightarrow> 'a world \<Rightarrow> 'a world \<Rightarrow> bool" where
  "changed_by a b fp w w' \<longleftrightarrow>
     DeployIntent (row_id (bd_run b)) (row_id (bd_candidate b)) (au_candidate_fingerprint (bd_authority b)) fp \<in> intents w' \<and>
     rn_status (bd_run b) \<in> {APPROVED, DEPLOYING, DEPLOYED} \<and>
     (no_conflict a (w_target w) \<longrightarrow> inv (w_target w') \<and> created cols idx hint (ca_collection a) (action_spec a) (w_target w) (w_target w'))"

lemma deploy_locked_changes:
  assumes run: "deploy_locked sha stamp actor ad b w = (r, w')" and ok: "inv (w_target w)"
  shows "w_advisory w' = w_advisory w \<and> (w_target w' = w_target w \<or>
    (\<exists>a. action_of_payload (ac_action_payload (bd_action b)) = Inr a \<and> changed_by a b (action_fingerprint sha a) w w'))"
proof -
  have quiet: ?thesis if "watches w w'" using that ok by (simp add: watches_def)
  show ?thesis
    using run unfolding deploy_locked_def
  proof (elim watches_bndE [OF _ watches_basic(3)])
    fix a v0 assume a: "lift (action_of_payload (ac_action_payload (bd_action b))) w = (Inr a, v0)"
      and "bnd (deploy_state ad a) (\<lambda>before. bnd (deployment_intent sha b before a (action_fingerprint sha a))
        (\<lambda>(artifact, intent_created). bnd (begin_deploying b) (\<lambda>_.
           if dp_status artifact = ''APPLIED'' then reconcile_applied b a before artifact
           else apply_deployment sha stamp actor ad b a before artifact intent_created))) v0 = (r, w')"
    then have a: "action_of_payload (ac_action_payload (bd_action b)) = Inr a" and v0: "v0 = w"
      and rest: "bnd (deploy_state ad a) (\<lambda>before. bnd (deployment_intent sha b before a (action_fingerprint sha a))
        (\<lambda>(artifact, intent_created). bnd (begin_deploying b) (\<lambda>_.
           if dp_status artifact = ''APPLIED'' then reconcile_applied b a before artifact
           else apply_deployment sha stamp actor ad b a before artifact intent_created))) w = (r, w')"
      by (auto simp: lift_apply)
    from rest show ?thesis
    proof (elim watches_bndE [OF _ watches_state] watches_bndE [OF _ intent_watches])
      fix before v1 p v2
      assume 1: "watches w v1" and i: "deployment_intent sha b before a (action_fingerprint sha a) v1 = (Inr p, v2)"
        and 2: "watches v1 v2"
        and r2: "(case p of (artifact, intent_created) \<Rightarrow> bnd (begin_deploying b) (\<lambda>_.
           if dp_status artifact = ''APPLIED'' then reconcile_applied b a before artifact
           else apply_deployment sha stamp actor ad b a before artifact intent_created)) v2 = (r, w')"
      obtain artifact fresh where p: "p = (artifact, fresh)" by (cases p)
      have w2: "watches w v2" using 1 2 by (rule watches_trans)
      have key: "DeployIntent (row_id (bd_run b)) (row_id (bd_candidate b)) (au_candidate_fingerprint (bd_authority b)) (action_fingerprint sha a)
          \<in> intents v2" using i p intent_recorded by blast
      from r2 [unfolded p prod.case] show ?thesis
      proof (elim watches_bndE [OF _ begin_watches])
        assume "watches v2 w'" then show ?thesis using w2 quiet watches_trans by blast
      next
        fix u v3 assume bg: "begin_deploying b v2 = (Inr u, v3)" and 3: "watches v2 v3"
          and r3: "(if dp_status artifact = ''APPLIED'' then reconcile_applied b a before artifact
             else apply_deployment sha stamp actor ad b a before artifact fresh) v3 = (r, w')"
        have status: "rn_status (bd_run b) \<in> {APPROVED, DEPLOYING, DEPLOYED}"
          using bg by (auto simp: begin_deploying_def split: if_splits)
        have w3: "watches w v3" using w2 3 by (rule watches_trans)
        have "one_effect (no_conflict a) (index_created a) v3 w'"
          using r3 keepsD [OF apply_once] keepsD [OF reconcile_watches, THEN watches_once] by (auto split: if_splits)
        moreover have "w_target v3 = w_target w" using w3 ok by (simp add: watches_def)
        ultimately show ?thesis
          using a key status ok w3 3 unfolding one_effect_def index_created_def changed_by_def watches_def by auto
      qed
    qed (use quiet watches_trans in blast)+
  qed (rule quiet)
qed

lemma durable_deploy:
  assumes run: "deploy_for_run sha stamp actor ad run_id w = (r, w')" and ok: "inv (w_target w)"
  shows "w_advisory w' = w_advisory w \<and> (w_target w' = w_target w \<or>
    (\<exists>b a. binding_holds sha run_id (w_db w) (w_clock w (w_reads w + 4)) b \<and> action_of_payload (ac_action_payload (bd_action b)) = Inr a \<and>
       target_lock_key sha (rn_target_id (bd_run b)) \<notin> set (w_advisory w) \<and> changed_by a b (action_fingerprint sha a) w w'))"
proof -
  have quiet: ?thesis if "watches w w'" using that ok by (simp add: watches_def)
  show ?thesis
    using run unfolding deploy_for_run_def
  proof (elim watches_bndE [OF _ watches_basic(7)] watches_bndE [OF _ load_watches])
    fix u v b v1
    assume 1: "ensure_lease_owned w = (Inr u, v)" and l: "load_bound_action sha run_id v = (Inr b, v1)"
      and 2: "watches w v" "watches v v1"
      and lock: "with_mutation_lock sha (rn_target_id (bd_run b)) (raise (DurableDeploymentError ''TARGET_LOCK_UNAVAILABLE''))
        (bnd ensure_lease_owned (\<lambda>_. deploy_locked sha stamp actor ad b)) v1 = (r, w')"
    have "v = tick w" using 1 by (simp add: ensure_lease_owned_apply split: if_splits)
    then have bind: "binding_holds sha run_id (w_db w) (w_clock w (w_reads w + 4)) b"
      using load_bound_action_Inr [OF l] by (simp add: tick_def eval_nat_numeral)
    have wv: "watches w v1" using 2 by (rule watches_trans)
    obtain x v2 where t: "try_acquire sha (rn_target_id (bd_run b)) v1 = (x, v2)" by fastforce
    let ?k = "target_lock_key sha (rn_target_id (bd_run b))"
    note tc = try_acquire_cases [OF t]
    show ?thesis
    proof (cases "x = Inr (Some ?k)")
      case True
      let ?m = "bnd ensure_lease_owned (\<lambda>_. deploy_locked sha stamp actor ad b)"
      have w': "r = fst (?m v2)" "w' = release ?k (snd (?m v2))"
        using lock t True
        by (simp_all add: with_mutation_lock_def bnd_apply [of "try_acquire sha (rn_target_id (bd_run b))"] finally_do_apply)
      obtain y v4 where m: "?m v2 = (y, v4)" by fastforce
      have v2: "w_target v2 = w_target w" "?k \<notin> set (w_advisory w)" "w_advisory v2 = ?k # w_advisory w" "intents v2 = intents v1"
        using tc [THEN conjunct1, THEN deployments_same] tc True wv ok by (auto simp: watches_def)
      have out: "w_target w' = w_target v4" "w_advisory w' = remove1 ?k (w_advisory v4)" "intents w' = intents v4"
        using w'(2) m by (simp_all add: release_def intents_def)
      show ?thesis
        using m
      proof (elim watches_bndE [OF _ watches_basic(7)])
        assume "watches v2 v4" then show ?thesis using v2 out ok by (simp add: watches_def)
      next
        fix u v3 assume 3: "watches v2 v3" and d: "deploy_locked sha stamp actor ad b v3 = (y, v4)"
        have v3: "w_target v3 = w_target w" "w_advisory v3 = ?k # w_advisory w" using 3 v2 ok by (auto simp: watches_def)
        have "w_advisory v4 = w_advisory v3 \<and> (w_target v4 = w_target v3 \<or>
            (\<exists>a. action_of_payload (ac_action_payload (bd_action b)) = Inr a \<and> changed_by a b (action_fingerprint sha a) v3 v4))"
          using d by (rule deploy_locked_changes) (simp add: v3 ok)
        then show ?thesis using bind v2(2) v3 out unfolding changed_by_def by auto
      qed
    next
      case False
      then have "w_target w' = w_target v2" "w_advisory w' = w_advisory v2"
        using lock tc by (auto simp: with_mutation_lock_def bnd_apply t)
      then show ?thesis using tc False wv ok by (auto simp: watches_def)
    qed
  qed (use quiet watches_trans in blast)+
qed

end

text \<open>
  C1. Whatever the interruption, a durable deployment fails closed. If it changed the target, then at its
  start the tables held exactly one binding of run, admission, authority, candidate, action and target, all
  of the same run and the same admitted candidate; the authority's signature was the one of these facts with
  the newest capability snapshot and the credential on record; an autonomous authority had the full-autonomy
  mode, both eligibilities and an auto-eligible candidate; an authority that needs a person had an approved
  request for this run, candidate and fingerprint that expires after the clock reading the call took for it
  (the fifth reading of the environment since the start); the run was approved, deploying or
  deployed; nobody held the target's lock; an artifact with the fingerprint of the action is on record. And,
  unless a different index already has the name (the service does not look for one), the change is
  the creation of the one index of the action. In every case no lock is left behind.
\<close>

theorem durable_deploy_fails_closed:
  assumes "idempotent_adapter ad cols idx hint ok" and "ok (w_target w)" and "deploy_for_run sha stamp actor ad run_id w = (r, w')"
  shows "w_advisory w' = w_advisory w \<and> (w_target w' = w_target w \<or>
    (\<exists>b a. binding_holds sha run_id (w_db w) (w_clock w (w_reads w + 4)) b \<and>
       (au_authority_type (bd_authority b) = ''AUTONOMOUS'' \<longrightarrow>
          rn_deployment_mode (bd_run b) = ''FULL_AUTONOMOUS'' \<and> au_production_autonomy_eligible (bd_authority b) \<and>
          aa_production_eligible (bd_admission b) \<and>
          cn_policy_classification (bd_candidate b) = Some ''AUTO_ELIGIBLE_AFTER_ADMISSION'') \<and>
       (au_authority_type (bd_authority b) = ''HUMAN_REQUIRED'' \<longrightarrow>
          (\<exists>p\<in>set (db_approval_requests (w_db w)). av_status p = ''APPROVED'' \<and>
             w_clock w (w_reads w + 4) < av_expires_at p \<and> av_optimization_run_id p = Some run_id \<and>
             av_candidate_id p = row_id (bd_candidate b) \<and>
             av_candidate_fingerprint p = cn_deterministic_fingerprint (bd_candidate b))) \<and>
       rn_status (bd_run b) \<in> {APPROVED, DEPLOYING, DEPLOYED} \<and>
       action_of_payload (ac_action_payload (bd_action b)) = Inr a \<and>
       target_lock_key sha (rn_target_id (bd_run b)) \<notin> set (w_advisory w) \<and>
       (\<exists>x\<in>set (db_deployments (w_db w')). dp_optimization_run_id x = run_id \<and> dp_action_fingerprint x = action_fingerprint sha a) \<and>
       ((\<forall>i\<in>set (idx (w_target w) (ca_collection a)). ix_name i = ca_index_name a \<longrightarrow> i = action_spec a) \<longrightarrow>
         created cols idx hint (ca_collection a) (action_spec a) (w_target w) (w_target w'))))"
proof -
  have key: "\<exists>x\<in>set (db_deployments (w_db w')). dp_optimization_run_id x = i \<and> dp_action_fingerprint x = fp"
    if "DeployIntent i c cf fp \<in> intents w'" for i c cf fp
    using that by (auto simp: intents_def deploy_key_def settings_intent_def)
  from idempotent_adapter.durable_deploy [OF assms(1,3,2)]
  show ?thesis
  proof (elim conjE disjE exE)
    fix b a
    assume 1: "w_advisory w' = w_advisory w" "binding_holds sha run_id (w_db w) (w_clock w (w_reads w + 4)) b"
      "action_of_payload (ac_action_payload (bd_action b)) = Inr a"
      "target_lock_key sha (rn_target_id (bd_run b)) \<notin> set (w_advisory w)"
      and 2: "idempotent_adapter.changed_by cols idx hint ok a b (action_fingerprint sha a) w w'"
    have "row_id (bd_run b) = run_id" using 1(2) by (simp add: binding_holds_def)
    with 2 have "rn_status (bd_run b) \<in> {APPROVED, DEPLOYING, DEPLOYED}"
      "\<exists>x\<in>set (db_deployments (w_db w')). dp_optimization_run_id x = run_id \<and> dp_action_fingerprint x = action_fingerprint sha a"
      "(\<forall>i\<in>set (idx (w_target w) (ca_collection a)). ix_name i = ca_index_name a \<longrightarrow> i = action_spec a) \<longrightarrow>
         created cols idx hint (ca_collection a) (action_spec a) (w_target w) (w_target w')"
      unfolding idempotent_adapter.changed_by_def [OF assms(1)] idempotent_adapter.no_conflict_def [OF assms(1)]
      by (auto dest: key)
    moreover have "may_act_alone b" if "au_authority_type (bd_authority b) = ''AUTONOMOUS''"
      using 1(2) that by (simp add: binding_holds_def)
    moreover have "approved_at (w_db w) (w_clock w (w_reads w + 4)) b" if "au_authority_type (bd_authority b) = ''HUMAN_REQUIRED''"
      using 1(2) that by (simp add: binding_holds_def)
    ultimately show ?thesis
      using 1 \<open>row_id (bd_run b) = run_id\<close> unfolding may_act_alone_def approved_at_def
      by (intro conjI disjI2 exI [of _ b] exI [of _ a]) auto
  qed simp
qed

subsection \<open>A deployment\<close>

definition demo_authority :: "digest \<Rightarrow> authority_row" where
  "demo_authority sha = \<lparr>row_id = ''au1'', row_created_at = 0, row_updated_at = None, au_optimization_run_id = ''run1'',
     au_candidate_id = ''c1'', au_candidate_fingerprint = ''fp'', au_deployment_mode = ''FULL_AUTONOMOUS'',
     au_authority_type = ''AUTONOMOUS'', au_authority_reason = ''ok'', au_production_autonomy_eligible = True,
     au_integrity_fingerprint = (case bound_environment sha demo_target None None of (identity, capability, security) \<Rightarrow>
       authority_integrity_fingerprint sha ''run1'' ''c1'' ''fp'' ''FULL_AUTONOMOUS'' ''AUTONOMOUS'' ''ok'' True True
         identity capability security)\<rparr>"

definition deploy_db :: "digest \<Rightarrow> db" where
  "deploy_db sha = (pipeline_db APPROVED)\<lparr>db_authority_decisions := [demo_authority sha]\<rparr>"

definition demo_bound :: "digest \<Rightarrow> bound_action" where
  "demo_bound sha = \<lparr>bd_run = autonomous_run APPROVED, bd_admission = demo_artifact, bd_authority = demo_authority sha,
     bd_candidate = demo_candidate, bd_action = demo_action, bd_target = demo_target\<rparr>"

lemma demo_bound_fingerprint:
  "bound_fingerprint sha (demo_bound sha) (bound_environment sha demo_target None None) = au_integrity_fingerprint (demo_authority sha)"
  by (simp add: bound_fingerprint_def demo_bound_def demo_authority_def Let_def autonomous_run_def demo_run_def demo_artifact_def
      split: prod.split)

lemma demo_rows: "bound_rows ''run1'' (deploy_db sha) = [demo_bound sha]"
  by (simp add: bound_rows_def deploy_db_def pipeline_defs demo_bound_def demo_authority_def)

lemma demo_bound_sel [simp]:
  "bd_run (demo_bound sha) = autonomous_run APPROVED" "bd_admission (demo_bound sha) = demo_artifact"
  "bd_authority (demo_bound sha) = demo_authority sha" "bd_candidate (demo_bound sha) = demo_candidate"
  "bd_action (demo_bound sha) = demo_action" "bd_target (demo_bound sha) = demo_target"
  by (simp_all add: demo_bound_def)

lemma demo_rows_sel [simp]:
  "aa_selected_candidate_id demo_artifact = Some ''c1''" "aa_production_eligible demo_artifact"
  "au_candidate_id (demo_authority sha) = ''c1''" "au_candidate_fingerprint (demo_authority sha) = ''fp''"
  "au_deployment_mode (demo_authority sha) = ''FULL_AUTONOMOUS''" "au_authority_type (demo_authority sha) = ''AUTONOMOUS''"
  "au_production_autonomy_eligible (demo_authority sha)" "cn_deterministic_fingerprint demo_candidate = Some ''fp''"
  "cn_status demo_candidate = CAND_ADMITTED" "cn_policy_classification demo_candidate = Some ''AUTO_ELIGIBLE_AFTER_ADMISSION''"
  "row_id demo_candidate = ''c1''" "ac_action_type demo_action = ''CREATE_INDEX''" "row_id demo_action = ''act1''"
  "ac_action_payload demo_action = JObj (create_index_dump sample_action)"
  "rn_deployment_mode (autonomous_run st) = ''FULL_AUTONOMOUS''" "rn_target_id (autonomous_run st) = ''t1''"
  "row_id (autonomous_run st) = ''run1''" "rn_status (autonomous_run st) = st"
  by (simp_all add: demo_artifact_def demo_authority_def demo_candidate_def demo_action_def autonomous_run_def demo_run_def)

lemma deploy_db_sel [simp]:
  "db_capability_snapshots (deploy_db sha) = []" "db_target_credentials (deploy_db sha) = []"
  "db_deployments (deploy_db sha) = []" "db_runs (deploy_db sha) = [autonomous_run APPROVED]"
  "db_recovery (deploy_db sha) = []" "db_production_ledger (deploy_db sha) = []"
  by (simp_all add: deploy_db_def pipeline_db_def empty_db_def)

lemma demo_load:
  assumes "w_db w = deploy_db sha" and "w_faults w = (\<lambda>_. False)"
  shows "load_bound_action sha ''run1'' w = (Inr (demo_bound sha), tick (tick w))"
  using assms demo_eligible demo_bound_fingerprint [of sha] demo_rows [of sha]
  by (simp add: load_bound_action_def engine_connect_def bnd_apply world_apply refuse_unless_def environment_evidence_def
      latest_capability_def credential_of_def target_credentials_table_def autonomy_prerequisites_def one_or_none_def)

definition deploy_world :: "fake_db world" where
  "deploy_world = world_of (deploy_db id) (fake_init [''orders''])"

definition demo_index_target :: fake_db where
  "demo_index_target = \<lparr>fk_indexes = [(''orders'', [(''optimizer_1'', action_spec sample_action)])], fk_settings = []\<rparr>"

lemma demo_action_payload: "action_of_payload (JObj (create_index_dump sample_action)) = Inr sample_action"
  using sample_action_checked create_index_roundtrip_parse [of sample_action]
  by (simp add: action_of_payload_def create_index_validate_def sample_action_def)

lemma sample_action_sel [simp]:
  "ca_database sample_action = ''shop''" "ca_collection sample_action = ''orders''" "ca_index_name sample_action = ''optimizer_1''"
  by (simp_all only: sample_action_def create_index_action.select_convs)

text \<open>The steps in a world without faults.\<close>

definition calm :: "'t world \<Rightarrow> bool" where
  "calm w \<longleftrightarrow> w_faults w = (\<lambda>_. False) \<and> w_lease_lost w = (\<lambda>_. False) \<and> w_uuids w = nat_str"

lemma calmD: "calm w \<Longrightarrow> w_faults w = (\<lambda>_. False)" "calm w \<Longrightarrow> w_lease_lost w = (\<lambda>_. False)" "calm w \<Longrightarrow> w_uuids w = nat_str"
  by (simp_all add: calm_def)

lemma calm_keeps: "keeps same_outside m \<Longrightarrow> m w = (r, w') \<Longrightarrow> calm w \<Longrightarrow> calm w'"
  by (drule keepsD, assumption) (simp add: same_outside_def calm_def)

lemma calm_updates [simp]: "calm (tick w) = calm w" "calm (w\<lparr>w_db := d\<rparr>) = calm w" "calm (w\<lparr>w_target := t\<rparr>) = calm w"
  "calm (w\<lparr>w_advisory := a\<rparr>) = calm w"
  by (simp_all add: calm_def)

text \<open>Identifiers drawn so far are numerals below the number of readings.\<close>

definition ids_below :: "'t world \<Rightarrow> bool" where
  "ids_below w \<longleftrightarrow> (\<forall>e\<in>set (db_production_ledger (w_db w)). \<exists>n<w_reads w. pl_entry_id e = nat_str n)"

lemma nat_str_eq [simp]: "nat_str m = nat_str n \<longleftrightarrow> m = n"
  by (metis digits_value_nat_str)

lemma append_calm:
  assumes "calm w" and "ids_below w"
  shows "\<exists>e w'. pg_append sha stamp a w = (Inr e, w') \<and> calm w' \<and> ids_below w' \<and> w_target w' = w_target w \<and>
     w_advisory w' = w_advisory w \<and> (\<exists>es. w_db w' = (w_db w)\<lparr>db_production_ledger := es\<rparr>)"
proof -
  let ?e = "pg_new_entry sha stamp (nat_str (Suc (Suc (w_reads w)))) (w_clock w (w_reads w)) a (ledger_rows (pg_target_id a) (w_db w))"
  have fresh: "\<not> tb_clash production_ledger_table x ?e" if x: "x \<in> set (db_production_ledger (w_db w))" for x
  proof -
    have "pl_entry_id x \<noteq> pl_entry_id ?e" using assms(2) x by (fastforce simp: ids_below_def)
    moreover have "pl_sequence x \<noteq> pl_sequence ?e" if "pl_target_id x = pl_target_id ?e"
      using ledger_rows_last [OF x, of "pg_target_id a"] that by auto
    ultimately show ?thesis by (auto simp: production_ledger_table_def)
  qed
  obtain r w' where r: "pg_append sha stamp a w = (r, w')" by fastforce
  have "r = Inr ?e \<and> w' = (tick (tick (tick w)))\<lparr>w_db := (w_db w)\<lparr>db_production_ledger := db_production_ledger (w_db w) @ [?e]\<rparr>\<rparr>"
    using r fresh calmD [OF assms(1)]
    by (auto simp: pg_append_def engine_begin_def tables_transaction_def bnd_apply world_apply insert_row_def
        production_ledger_table_def split: if_splits)
  then show ?thesis using r assms by (auto simp: ids_below_def less_Suc_eq)
qed

lemma demo_states:
  assumes "w_target w = fake_init [''orders'']"
  shows "deploy_state fake_adapter sample_action w =
     (Inr \<lparr>ts_database = ''shop'', ts_collection = ''orders'', ts_namespace_exists = True, ts_indexes = []\<rparr>, w)"
    and "on_world_target (ad_create_index fake_adapter ''orders'' (action_spec sample_action)) w =
     (Inr (), w\<lparr>w_target := demo_index_target\<rparr>)"
proof -
  have "observe_state fake_adapter ''shop'' ''orders'' (fake_init [''orders'']) =
     (Inr \<lparr>ts_database = ''shop'', ts_collection = ''orders'', ts_namespace_exists = True, ts_indexes = []\<rparr>, fake_init [''orders''])"
    "ad_create_index fake_adapter ''orders'' (action_spec sample_action) (fake_init [''orders'']) = (Inr (), demo_index_target)"
    by (simp_all add: observe_state_def fake_adapter_def fake_list_namespaces_def fake_list_indexes_def fake_create_index_def
        fake_init_def demo_index_target_def fk_collection_def bnd_apply)
  then show "deploy_state fake_adapter sample_action w =
     (Inr \<lparr>ts_database = ''shop'', ts_collection = ''orders'', ts_namespace_exists = True, ts_indexes = []\<rparr>, w)"
    "on_world_target (ad_create_index fake_adapter ''orders'' (action_spec sample_action)) w = (Inr (), w\<lparr>w_target := demo_index_target\<rparr>)"
    using assms by (cases w; simp add: deploy_state_def on_world_target_apply)+
qed

lemma demo_state_after:
  assumes "w_target w = demo_index_target"
  shows "deploy_state fake_adapter sample_action w =
     (Inr \<lparr>ts_database = ''shop'', ts_collection = ''orders'', ts_namespace_exists = True, ts_indexes = [action_spec sample_action]\<rparr>, w)"
  using assms
  by (cases w) (simp add: deploy_state_def on_world_target_apply observe_state_def fake_adapter_def fake_list_namespaces_def
      fake_list_indexes_def demo_index_target_def fk_collection_def bnd_apply)

lemma transition_calm:
  assumes "calm w" and "db_runs (w_db w) = [r]" and "row_id r = i" and "(rn_status r, n) \<in> {(APPROVED, DEPLOYING), (DEPLOYING, DEPLOYED)}"
  shows "\<exists>t. run_transition i n None w =
     (Inr (set_status n None t r), (tick (tick w))\<lparr>w_db := (w_db w)\<lparr>db_runs := [set_status n None t r]\<rparr>\<rparr>)"
proof -
  have n: "n \<in> set (next_states (rn_status r))" "n \<noteq> COMPLETED" "n \<noteq> DIAGNOSING" "n \<noteq> GENERATING_CANDIDATES" "n \<noteq> CALIBRATING"
    "n \<noteq> RANKING" "n \<noteq> EVALUATING" "n \<noteq> ADMISSION" "n \<noteq> Lifecycle.ADMITTED"
    using assms(4) by auto
  show ?thesis
    using assms(2,3) n calmD [OF assms(1)]
    by (intro exI [of _ "w_clock w (Suc (w_reads w))"])
      (simp add: run_transition_def engine_begin_def tables_transaction_def bnd_apply world_apply runs_table_def one_or_none_def
        validate_transition_def stage_checks_def guard_def completion_checks_def move_run_def the_one_def)
qed

lemma record_calm:
  assumes "calm w" and "db_recovery (w_db w) = []"
  shows "\<exists>i t. record_intent key act tid fp w =
     (Inr (), (tick (tick (tick w)))\<lparr>w_db := (w_db w)\<lparr>db_recovery := [intent_row key act tid fp i t]\<rparr>\<rparr>)"
  using assms(2) calmD [OF assms(1)]
  by (auto simp: record_intent_def engine_begin_def tables_transaction_def bnd_apply world_apply recovery_table_def insert_row_def)

lemma start_calm:
  assumes "calm w" and "db_recovery (w_db w) = [intent_row key act tid fp i t]"
  shows "\<exists>rs. start_execution key w = (Inr (Some fp), (tick (tick w))\<lparr>w_db := (w_db w)\<lparr>db_recovery := rs\<rparr>\<rparr>)"
  using assms(2) calmD [OF assms(1)]
  by (auto simp: start_execution_def engine_begin_def tables_transaction_def bnd_apply world_apply recovery_table_def
      set_recovery_apply intent_row_def one_or_none_def)

lemma confirm_calm:
  assumes "calm w"
  shows "\<exists>rs. confirm_execution key w = (Inr (), (tick (tick (tick w)))\<lparr>w_db := (w_db w)\<lparr>db_recovery := rs\<rparr>\<rparr>)"
  using calmD [OF assms]
  by (intro exI) (simp add: confirm_execution_def engine_begin_def tables_transaction_def bnd_apply world_apply
      set_recovery_apply tick_def)

lemma intent_calm:
  assumes "calm w" and "db_deployments (w_db w) = []"
  shows "\<exists>i t. deployment_intent sha b before a fp w =
     (Inr (new_deployment b before a fp (idempotency_key sha (row_id (bd_run b)) (au_candidate_fingerprint (bd_authority b)) fp) i t, True),
      (tick (tick (tick w)))\<lparr>w_db := (w_db w)\<lparr>db_deployments := [new_deployment b before a fp
        (idempotency_key sha (row_id (bd_run b)) (au_candidate_fingerprint (bd_authority b)) fp) i t]\<rparr>\<rparr>)"
  using assms(2) calmD [OF assms(1)]
  by (auto simp: deployment_intent_def engine_begin_def tables_transaction_def bnd_apply world_apply deployments_table_def
      insert_row_def one_or_none_def)

lemma mark_calm:
  assumes "calm w" and "db_deployments (w_db w) = [x]"
  shows "\<exists>x'. mark_applied (row_id x) after w = (Inr x', (tick (tick w))\<lparr>w_db := (w_db w)\<lparr>db_deployments := [x']\<rparr>\<rparr>)"
  using assms(2) calmD [OF assms(1)]
  by (auto simp: mark_applied_def engine_begin_def tables_transaction_def bnd_apply world_apply deployments_table_def the_one_def)

lemma execute_calm:
  assumes "calm w" and "db_recovery (w_db w) = [intent_row key act tid fp i t]" and "w_target w = fake_init [''orders'']"
  shows "\<exists>rs. execute_or_recover key (exact_effect fake_adapter sample_action fp) (create_owned fake_adapter sample_action) w =
     (Inr ''EXECUTION_CONFIRMED'', (w\<lparr>w_db := (w_db w)\<lparr>db_recovery := rs\<rparr>, w_target := demo_index_target, w_reads := w_reads w + 6\<rparr>))"
proof -
  obtain rs where s: "start_execution key w = (Inr (Some fp), (tick (tick w))\<lparr>w_db := (w_db w)\<lparr>db_recovery := rs\<rparr>\<rparr>)"
    using start_calm [OF assms(1,2)] by blast
  let ?w = "(tick (tick w))\<lparr>w_db := (w_db w)\<lparr>db_recovery := rs\<rparr>\<rparr>"
  let ?v = "(tick ?w)\<lparr>w_target := demo_index_target\<rparr>"
  have t: "w_target ?w = fake_init [''orders'']" "w_target (tick ?w) = fake_init [''orders'']" using assms(3) by simp_all
  have e: "exact_effect fake_adapter sample_action fp fp ?w = (Inr False, ?w)"
    using demo_states(1) [OF t(1)] by (simp add: exact_effect_def bnd_apply has_exact_index_def)
  have l: "ensure_lease_owned ?w = (Inr (), tick ?w)" using calmD [OF assms(1)] by (simp add: ensure_lease_owned_apply)
  have c: "create_owned fake_adapter sample_action ?w = (Inr (), ?v)"
    unfolding create_owned_def bnd_step [where m = ensure_lease_owned, OF l] using demo_states(2) [OF t(2)] by simp
  obtain rs' where f: "confirm_execution key ?v = (Inr (), (tick (tick (tick ?v)))\<lparr>w_db := (w_db ?v)\<lparr>db_recovery := rs'\<rparr>\<rparr>)"
    using confirm_calm [of ?v key] assms(1) by auto
  show ?thesis
    unfolding execute_or_recover_def bnd_step [where m = "start_execution key", OF s] option.case bnd_step [where m = "exact_effect fake_adapter sample_action fp fp", OF e] if_False
      bnd_step [where m = "create_owned fake_adapter sample_action", OF c] bnd_step [where m = "confirm_execution key", OF f] ret_apply
    by (intro exI [of _ rs']) (simp add: tick_def)
qed

lemma lease_calm: "calm w \<Longrightarrow> ensure_lease_owned w = (Inr (), tick w)"
  by (simp add: ensure_lease_owned_apply calm_def)

lemma status_calm:
  assumes "calm w" and "db_runs (w_db w) = [r]" and "row_id r = i"
  shows "run_status_of i w = (Inr (rn_status r), tick w)"
  using assms(2,3) calmD [OF assms(1)]
  by (simp add: run_status_of_def engine_connect_def bnd_apply world_apply runs_table_def one_or_none_def)

lemma ids_below_simps [simp]:
  "ids_below w \<Longrightarrow> ids_below (tick w)" "ids_below w \<Longrightarrow> ids_below (w\<lparr>w_target := t\<rparr>)"
  "ids_below w \<Longrightarrow> w_reads w \<le> n \<Longrightarrow> ids_below (w\<lparr>w_reads := n\<rparr>)"
  by (fastforce simp: ids_below_def less_Suc_eq)+

lemma ids_below_db: "ids_below w \<Longrightarrow> db_production_ledger d = db_production_ledger (w_db w) \<Longrightarrow> ids_below (w\<lparr>w_db := d\<rparr>)"
  by (simp add: ids_below_def)

text \<open>The state in the middle of the deployment of the run.\<close>

definition midway :: "deployment_row \<Rightarrow> optimization_state \<Rightarrow> fake_db world \<Rightarrow> bool" where
  "midway x st w \<longleftrightarrow> calm w \<and> ids_below w \<and> db_deployments (w_db w) = [x] \<and>
     (\<exists>r. db_runs (w_db w) = [r] \<and> row_id r = ''run1'' \<and> rn_status r = st)"

lemma midway_tick: "midway x st w \<Longrightarrow> midway x st (tick w)"
  by (simp add: midway_def)

lemma midway_append:
  assumes "midway x st w"
  shows "\<exists>e w'. pg_append sha stamp a w = (Inr e, w') \<and> midway x st w' \<and> w_target w' = w_target w \<and>
     db_recovery (w_db w') = db_recovery (w_db w)"
proof -
  obtain e w' es where a: "pg_append sha stamp a w = (Inr e, w')" "calm w'" "ids_below w'" "w_target w' = w_target w"
      "w_db w' = (w_db w)\<lparr>db_production_ledger := es\<rparr>"
    using append_calm [of w sha stamp a] assms unfolding midway_def by blast
  then have "midway x st w'" "db_recovery (w_db w') = db_recovery (w_db w)" using assms by (simp_all add: midway_def)
  with a show ?thesis by blast
qed

lemma demo_apply:
  assumes m: "midway x DEPLOYING w" and "w_target w = fake_init [''orders'']" and "db_recovery (w_db w) = []" and "row_id (bd_run b) = ''run1''"
  shows "\<exists>y w'. apply_deployment sha stamp actor fake_adapter b sample_action before x True w = (Inr y, w') \<and> w_target w' = demo_index_target"
proof -
  let ?fp = "action_fingerprint sha sample_action" and ?k = "dp_idempotency_key x"
  note c = m [unfolded midway_def, THEN conjunct1]
  obtain i t where 1: "record_intent ?k (row_id (bd_action b)) (rn_target_id (bd_run b)) ?fp w =
      (Inr (), (tick (tick (tick w)))\<lparr>w_db := (w_db w)\<lparr>db_recovery := [intent_row ?k (row_id (bd_action b)) (rn_target_id (bd_run b)) ?fp i t]\<rparr>\<rparr>)"
    (is "_ = (_, ?w1)") using record_calm [OF c assms(3)] by blast
  have m1: "midway x DEPLOYING ?w1" "w_target ?w1 = fake_init [''orders'']" using assms by (auto simp: midway_def ids_below_db)
  obtain e w2 where 2: "pg_append sha stamp (deployment_entry actor ''DEPLOYMENT_INTENT'' b before before sample_action) ?w1 = (Inr e, w2)"
    and m2: "midway x DEPLOYING w2" "w_target w2 = w_target ?w1" "db_recovery (w_db w2) = db_recovery (w_db ?w1)"
    using midway_append [OF m1(1)] by blast
  let ?w3 = "tick w2"
  have m3: "midway x DEPLOYING ?w3" using midway_tick [OF m2(1)] .
  obtain rs where 3: "execute_or_recover ?k (exact_effect fake_adapter sample_action ?fp) (create_owned fake_adapter sample_action) ?w3 =
      (Inr ''EXECUTION_CONFIRMED'', ?w3\<lparr>w_db := (w_db ?w3)\<lparr>db_recovery := rs\<rparr>, w_target := demo_index_target, w_reads := w_reads ?w3 + 6\<rparr>)"
    (is "_ = (_, ?w4)")
    using execute_calm [of ?w3 ?k "row_id (bd_action b)" "rn_target_id (bd_run b)" ?fp i t] m3 m2 m1(2) by (auto simp: midway_def)
  have m4: "midway x DEPLOYING ?w4" using m3 by (fastforce simp: midway_def calm_def ids_below_def)
  let ?w5 = "tick ?w4"
  let ?after = "\<lparr>ts_database = ''shop'', ts_collection = ''orders'', ts_namespace_exists = True, ts_indexes = [action_spec sample_action]\<rparr>"
  have m5: "midway x DEPLOYING ?w5" using midway_tick [OF m4] .
  have 5: "deploy_state fake_adapter sample_action ?w5 = (Inr ?after, ?w5)" by (rule demo_state_after) simp
  have 6: "refuse_unless (has_exact_index ?after sample_action) ''EXTERNAL_EFFECT_VERIFICATION_FAILED'' ?w5 = (Inr (), ?w5)"
    by (simp add: has_exact_index_def)
  obtain y where 7: "mark_applied (row_id x) ?after ?w5 = (Inr y, (tick (tick ?w5))\<lparr>w_db := (w_db ?w5)\<lparr>db_deployments := [y]\<rparr>\<rparr>)"
    (is "_ = (_, ?w7)") using mark_calm [of ?w5 x ?after] m5 unfolding midway_def by blast
  have m7: "midway y DEPLOYING ?w7" using m5 by (fastforce simp: midway_def calm_def ids_below_def)
  obtain e' w8 where 8: "pg_append sha stamp (deployment_entry actor ''DEPLOYMENT_APPLIED'' b before ?after sample_action) ?w7 = (Inr e', w8)"
    and m8: "midway y DEPLOYING w8" "w_target w8 = w_target ?w7"
    using midway_append [OF m7] by blast
  obtain r where r: "db_runs (w_db (tick w8)) = [r]" "row_id r = ''run1''" "rn_status r = DEPLOYING" using m8(1) by (auto simp: midway_def)
  have c9: "calm w8" "calm (tick w8)" "calm (tick (tick w8))" using m8(1) by (simp_all add: midway_def)
  have 9: "run_status_of ''run1'' (tick w8) = (Inr DEPLOYING, tick (tick w8))" using status_calm [OF c9(2) r(1,2)] r(3) by simp
  have "db_runs (w_db (tick (tick w8))) = [r]" "(rn_status r, DEPLOYED) \<in> {(APPROVED, DEPLOYING), (DEPLOYING, DEPLOYED)}" using r by simp_all
  from transition_calm [OF c9(3) this(1) r(2) this(2)]
  obtain r' t' where 10: "run_transition ''run1'' DEPLOYED None (tick (tick w8)) =
     (Inr r', (tick (tick (tick (tick w8))))\<lparr>w_db := (w_db (tick (tick w8)))\<lparr>db_runs := [r']\<rparr>\<rparr>)" by blast
  have l: "ensure_lease_owned w2 = (Inr (), ?w3)" "ensure_lease_owned ?w4 = (Inr (), ?w5)" "ensure_lease_owned w8 = (Inr (), tick w8)"
    using lease_calm m2(1) m4 c9(1) unfolding midway_def by blast+
  have post: "(if DEPLOYING = DEPLOYING then bnd (run_transition (row_id (bd_run b)) DEPLOYED None) (\<lambda>_. ret ()) else ret ()) (tick (tick w8)) =
      (Inr (), (tick (tick (tick (tick w8))))\<lparr>w_db := (w_db (tick (tick w8)))\<lparr>db_runs := [r']\<rparr>\<rparr>)"
    unfolding if_True eqTrueI [OF refl [of DEPLOYING]] assms(4) by (rule bnd_InrI, rule 10, rule ret_apply)
  have pre: "(if True then bnd (pg_append sha stamp (deployment_entry actor ''DEPLOYMENT_INTENT'' b before before sample_action)) (\<lambda>_. ret ())
      else ret ()) ?w1 = (Inr (), w2)"
    unfolding if_True by (rule bnd_InrI, rule 2, rule ret_apply)
  have "apply_deployment sha stamp actor fake_adapter b sample_action before x True w =
      (Inr y, (tick (tick (tick (tick w8))))\<lparr>w_db := (w_db (tick (tick w8)))\<lparr>db_runs := [r']\<rparr>\<rparr>)"
    unfolding apply_deployment_def Let_def
    by (rule bnd_InrI, rule 1, rule bnd_InrI, rule pre, rule bnd_InrI, rule l(1), rule bnd_InrI, rule 3, rule bnd_InrI, rule l(2),
        rule bnd_InrI, rule 5, rule bnd_InrI, rule 6, rule bnd_InrI, rule 7, rule bnd_InrI, rule 8, rule bnd_InrI, rule l(3),
        rule bnd_InrI, unfold assms(4), rule 9, rule bnd_InrI, rule post [unfolded assms(4)], rule ret_apply)
  moreover have "w_target w8 = demo_index_target" unfolding m8(2) by simp
  ultimately show ?thesis by simp
qed

lemma demo_begin: "begin_deploying (demo_bound sha) = bnd (run_transition ''run1'' DEPLOYING None) (\<lambda>_. ret ())"
  by (simp add: begin_deploying_def)

lemma demo_deployment:
  "\<exists>x w'. deploy_for_run id int_str ''worker'' fake_adapter ''run1'' deploy_world = (Inr x, w') \<and> w_target w' = demo_index_target"
proof -
  let ?key = "target_lock_key id ''t1''" and ?b = "demo_bound id"
  let ?st = "\<lparr>ts_database = ''shop'', ts_collection = ''orders'', ts_namespace_exists = True, ts_indexes = []\<rparr>"
  let ?w1 = "tick deploy_world"
  let ?w2 = "(tick (tick (tick ?w1)))\<lparr>w_advisory := [?key]\<rparr>"
  let ?w3 = "tick ?w2"
  have d: "w_db deploy_world = deploy_db id" "calm deploy_world" "w_advisory deploy_world = []" "w_target deploy_world = fake_init [''orders'']"
    by (simp_all add: deploy_world_def world_of_def calm_def)
  have c: "calm ?w1" "calm (tick (tick ?w1))" "calm ?w2" "calm ?w3" using d(2) by simp_all
  have 1: "load_bound_action id ''run1'' ?w1 = (Inr ?b, tick (tick ?w1))"
    using calmD(1) [OF c(1)] d(1) by (intro demo_load) simp_all
  have 2: "try_acquire id ''t1'' (tick (tick ?w1)) = (Inr (Some ?key), ?w2)"
    using calmD(1) [OF d(2)] d(3) by (simp add: try_acquire_def bnd_apply db_available_apply Let_def)
  have 3: "deploy_state fake_adapter sample_action ?w3 = (Inr ?st, ?w3)" by (rule demo_states(1)) (simp add: d(4))
  obtain i t where 4: "deployment_intent id ?b ?st sample_action (action_fingerprint id sample_action) ?w3 =
     (Inr (new_deployment ?b ?st sample_action (action_fingerprint id sample_action)
        (idempotency_key id (row_id (bd_run ?b)) (au_candidate_fingerprint (bd_authority ?b)) (action_fingerprint id sample_action)) i t, True),
      (tick (tick (tick ?w3)))\<lparr>w_db := (w_db ?w3)\<lparr>db_deployments := [new_deployment ?b ?st sample_action (action_fingerprint id sample_action)
        (idempotency_key id (row_id (bd_run ?b)) (au_candidate_fingerprint (bd_authority ?b)) (action_fingerprint id sample_action)) i t]\<rparr>\<rparr>)"
    (is "_ = (Inr (?x, True), ?w4)")
    using intent_calm [OF c(4), of id ?b ?st sample_action "action_fingerprint id sample_action"] d(1) by auto
  have r: "db_runs (w_db ?w4) = [autonomous_run APPROVED]" "row_id (autonomous_run APPROVED) = ''run1''"
    "(rn_status (autonomous_run APPROVED), DEPLOYING) \<in> {(APPROVED, DEPLOYING), (DEPLOYING, DEPLOYED)}"
    using d(1) by simp_all
  have c4: "calm ?w4" using d(2) by simp
  obtain t' where 5: "run_transition ''run1'' DEPLOYING None ?w4 = (Inr (set_status DEPLOYING None t' (autonomous_run APPROVED)),
      (tick (tick ?w4))\<lparr>w_db := (w_db ?w4)\<lparr>db_runs := [set_status DEPLOYING None t' (autonomous_run APPROVED)]\<rparr>\<rparr>)"
    (is "_ = (_, ?w5)") using transition_calm [OF c4 r] by blast
  have b: "begin_deploying ?b ?w4 = (Inr (), ?w5)"
    unfolding demo_begin by (rule bnd_InrI, rule 5, rule ret_apply)
  have m5: "midway ?x DEPLOYING ?w5"
    using d(1,2) by (auto simp: midway_def set_status_def calm_def ids_below_def)
  obtain y w6 where 6: "apply_deployment id int_str ''worker'' fake_adapter ?b sample_action ?st ?x True ?w5 = (Inr y, w6)"
    and t6: "w_target w6 = demo_index_target"
    using demo_apply [OF m5, of ?b id int_str "''worker''" ?st] d(1,4) by auto
  have ns: "dp_status ?x \<noteq> ''APPLIED''" by (simp add: new_deployment_def)
  have "deploy_locked id int_str ''worker'' fake_adapter ?b ?w3 = (Inr y, w6)"
    unfolding deploy_locked_def demo_bound_sel demo_rows_sel
    apply (rule bnd_InrI, unfold lift_apply demo_action_payload, rule refl)
    apply (rule bnd_InrI, rule 3, rule bnd_InrI, rule 4, unfold prod.case, rule bnd_InrI, rule b, unfold if_not_P [OF ns], rule 6)
    done
  then have "bnd ensure_lease_owned (\<lambda>_. deploy_locked id int_str ''worker'' fake_adapter ?b) ?w2 = (Inr y, w6)"
    by - (rule bnd_InrI, rule lease_calm [OF c(3)])
  then have "with_mutation_lock id ''t1'' busy (bnd ensure_lease_owned (\<lambda>_. deploy_locked id int_str ''worker'' fake_adapter ?b)) (tick (tick ?w1)) =
      (Inr y, release ?key w6)" for busy
    unfolding with_mutation_lock_def bnd_apply [of "try_acquire id ''t1''"] 2 by (simp add: finally_do_apply)
  then have "deploy_for_run id int_str ''worker'' fake_adapter ''run1'' deploy_world = (Inr y, release ?key w6)"
    unfolding deploy_for_run_def
    by - (rule bnd_InrI, rule lease_calm [OF d(2)], rule bnd_InrI, rule 1, simp)
  then show ?thesis using t6 by (simp add: release_def)
qed

theorem durable_deploy_fails_closed_witness:
  "\<exists>x w'. deploy_for_run id int_str ''worker'' fake_adapter ''run1'' deploy_world = (Inr x, w') \<and> w_target w' \<noteq> w_target deploy_world \<and>
     w_advisory w' = w_advisory deploy_world \<and> (\<exists>b. binding_holds id ''run1'' (w_db deploy_world) (w_clock deploy_world (w_reads deploy_world + 4)) b \<and> rn_status (bd_run b) \<in> {APPROVED, DEPLOYING, DEPLOYED})"
proof -
  obtain x w' where run: "deploy_for_run id int_str ''worker'' fake_adapter ''run1'' deploy_world = (Inr x, w')"
    and t: "w_target w' = demo_index_target" using demo_deployment by blast
  have start: "w_target deploy_world = fake_init [''orders'']" by (simp add: deploy_world_def world_of_def)
  have ok: "fake_inv (w_target deploy_world)" unfolding start by (simp add: fake_inv_def fake_init_def)
  have ne: "w_target w' \<noteq> w_target deploy_world" by (simp add: t start demo_index_target_def fake_init_def)
  from durable_deploy_fails_closed [OF fakeid.idempotent_adapter_axioms ok run] show ?thesis using run ne by blast
qed

subsection \<open>A deployment lets the database evolve\<close>

lemma mark_applied_evolution [evolution]: "keeps Runs.evolves (mark_applied i st)"
  unfolding mark_applied_def by (intro evolution)

lemma evidence_reads_evolution [evolution]:
  "keeps Runs.evolves (refuse_unless b code)" "keeps Runs.evolves (environment_evidence target_id)"
  "keeps Runs.evolves (current_approval b')" "keeps Runs.evolves (run_status_of run_id)" "keeps Runs.evolves (deploy_state ad a)"
  unfolding refuse_unless_def environment_evidence_def latest_capability_def credential_of_def current_approval_def
    run_status_of_def deploy_state_def
  by (intro evolution)+

lemma deployment_parts_evolution [evolution]:
  "keeps Runs.evolves (load_bound_action sha run_id)" "keeps Runs.evolves (deployment_intent sha b before a fp)"
  "keeps Runs.evolves (begin_deploying b)" "keeps Runs.evolves (reconcile_applied b a before artifact)"
  "keeps Runs.evolves (exact_effect ad a fp expected)" "keeps Runs.evolves (create_owned ad a)"
  unfolding load_bound_action_def deployment_intent_def begin_deploying_def reconcile_applied_def exact_effect_def create_owned_def
  by (intro evolution)+

lemma apply_evolution [evolution]: "keeps Runs.evolves (apply_deployment sha stamp actor ad b a before artifact fresh)"
  unfolding apply_deployment_def Let_def by (intro evolution execute_evolution)

lemma deploy_evolution [evolution]: "keeps Runs.evolves (deploy_for_run sha stamp actor ad run_id)"
  unfolding deploy_for_run_def deploy_locked_def deploy_state_def by (intro evolution)

end
