(* ===== verification/DurableRollback.thy ===== *)
theory DurableRollback
  imports DurableDeploy Monitoring
begin

text \<open>
  \<open>backend/app/rollback/durable.py\<close>: the rollback of the index that a run's deployment artifact owns.
  A recorded outcome is returned as it is; otherwise, under the target lock, the observed state must be
  the artifact's after-state, the intent is recorded, the index dropped, the inverse effect verified and
  the outcome recorded. A drop whose recording was interrupted is recognised by the expected state of
  the intent.
\<close>

subsection \<open>The owned deployment\<close>

record owned_deployment =
  od_run :: run_row
  od_deployment :: deployment_row
  od_candidate :: candidate_row
  od_action :: candidate_action_row
  od_authority :: authority_row

definition owned_rows :: "string \<Rightarrow> db \<Rightarrow> owned_deployment list" where
  "owned_rows run_id d =
     concat (map (\<lambda>r. concat (map (\<lambda>dp. concat (map (\<lambda>c. concat (map (\<lambda>ac. map (\<lambda>au.
       \<lparr>od_run = r, od_deployment = dp, od_candidate = c, od_action = ac, od_authority = au\<rparr>)
       (filter (\<lambda>au. au_optimization_run_id au = row_id r) (db_authority_decisions d)))
       (filter (\<lambda>ac. ac_candidate_id ac = row_id c) (db_candidate_actions d))))
       (filter (\<lambda>c. row_id c = dp_candidate_id dp) (db_candidates d))))
       (filter (\<lambda>dp. dp_optimization_run_id dp = row_id r) (db_deployments d))))
       (filter (\<lambda>r. row_id r = run_id) (db_runs d)))"

definition owned_deployment_of :: "string \<Rightarrow> ('t world, owned_deployment) oper" where
  "owned_deployment_of run_id =
     bnd (engine_connect (bnd (asks (\<lambda>w. owned_rows run_id (w_db w))) (\<lambda>rows. lift (one_or_none rows)))) (\<lambda>found.
     case found of None \<Rightarrow> raise (ValueError ''deployment artifact is required for rollback'') | Some o' \<Rightarrow> ret o')"

text \<open>\<open>DropIndexAction.model_validate\<close>\<close>

definition drop_index_keys :: "string list" where
  "drop_index_keys = [''action_type'', ''database'', ''collection'', ''index_name'']"

definition drop_index_validate :: "(string \<times> json) list \<Rightarrow> exn + drop_index_action" where
  "drop_index_validate kvs =
     (case (if \<not> only_keys drop_index_keys kvs \<or> \<not> has_type ''DROP_INDEX'' kvs then None else
        Option.bind (required as_string ''database'' kvs) (\<lambda>db.
        Option.bind (required as_string ''collection'' kvs) (\<lambda>co.
        Option.bind (required as_string ''index_name'' kvs) (\<lambda>nm.
        Some \<lparr>da_database = db, da_collection = co, da_index_name = nm\<rparr>)))) of
        None \<Rightarrow> Inl (ValidationError ''DropIndexAction'')
      | Some a \<Rightarrow> if drop_index_action_ok a then Inr a else Inl (ValidationError ''DropIndexAction''))"

definition drop_of_payload :: "json \<Rightarrow> exn + drop_index_action" where
  "drop_of_payload j = (case j of JObj kvs \<Rightarrow> drop_index_validate kvs | _ \<Rightarrow> Inl (ValidationError ''DropIndexAction''))"

lemma drop_roundtrip: "drop_index_action_ok a \<Longrightarrow> drop_of_payload (JObj (drop_index_dump a)) = Inr a"
  by (cases a) (simp add: drop_of_payload_def drop_index_validate_def drop_index_dump_def only_keys_def drop_index_keys_def
      has_type_def with_default_def required_def)

subsection \<open>Guards\<close>

definition safe_reason :: "digest \<Rightarrow> owned_deployment \<Rightarrow> target_state \<Rightarrow> create_index_action \<Rightarrow> string option" where
  "safe_reason sha b st a =
     (let dp = od_deployment b; matching = filter (\<lambda>i. ix_name i = ca_index_name a) (ts_indexes st) in
      if Some (dp_candidate_fingerprint dp) \<noteq> cn_deterministic_fingerprint (od_candidate b) then Some ''CANDIDATE_FINGERPRINT_DRIFT''
      else if dp_after_state dp = None \<or> action_fingerprint sha a \<noteq> dp_action_fingerprint dp then Some ''DEPLOYMENT_ARTIFACT_INVALID''
      else if \<not> ts_namespace_exists st then Some ''NAMESPACE_MISMATCH''
      else if length matching \<noteq> 1 \<or> ix_keys (hd matching) \<noteq> action_keys a then Some ''INDEX_SPEC_MISMATCH''
      else if Some st \<noteq> dp_after_state dp then Some ''RELEVANT_DRIFT_DETECTED''
      else None)"

definition without_owned_index :: "target_state \<Rightarrow> string \<Rightarrow> target_state" where
  "without_owned_index st n = st\<lparr>ts_indexes := filter (\<lambda>i. ix_name i \<noteq> n) (ts_indexes st)\<rparr>"

subsection \<open>The rollback record\<close>

definition rollback_row :: "string \<Rightarrow> string \<Rightarrow> rollback_payload \<Rightarrow> string \<Rightarrow> int \<Rightarrow> rollback_record_row" where
  "rollback_row candidate_id status payload i t = \<lparr>row_id = i, row_created_at = t, row_updated_at = Some t,
     ro_candidate_id = candidate_id, ro_status = status, ro_rollback_payload = payload\<rparr>"

definition record_rollback :: "string \<Rightarrow> string \<Rightarrow> rollback_payload \<Rightarrow> ('t world, unit) oper" where
  "record_rollback candidate_id status payload =
     bnd now (\<lambda>t. engine_begin (
     bnd (select_one rollback_records_table (\<lambda>r. ro_candidate_id r = candidate_id)) (\<lambda>existing.
     case existing of
       None \<Rightarrow> bnd uuid4 (\<lambda>i. bnd (insert_row rollback_records_table (rollback_row candidate_id status payload i t)) (\<lambda>_. ret ()))
     | Some x \<Rightarrow>
         if ro_status x = ''INTENT_RECORDED'' \<and> status \<in> {''ROLLED_BACK'', ''ROLLBACK_BLOCKED''}
         then bnd (update_rows rollback_records_table (\<lambda>r. row_id r = row_id x)
           (\<lambda>r. r\<lparr>ro_status := status, ro_rollback_payload := payload, row_updated_at := Some t\<rparr>)) (\<lambda>_. ret ())
         else ensure (ro_status x = status) (ValueError ''rollback outcome already recorded''))))"

definition rollback_record_of :: "string \<Rightarrow> ('t world, rollback_record_row option) oper" where
  "rollback_record_of candidate_id = engine_connect (select_one rollback_records_table (\<lambda>r. ro_candidate_id r = candidate_id))"

definition blocked_reason :: "rollback_payload \<Rightarrow> string" where
  "blocked_reason p = (case p of PayloadBlocked reason _ \<Rightarrow> reason | _ \<Rightarrow> ''ROLLBACK_BLOCKED'')"

definition recorded_outcome :: "string \<Rightarrow> ('t world, (optimization_state \<times> string) option) oper" where
  "recorded_outcome candidate_id = bnd (rollback_record_of candidate_id) (\<lambda>found.
     case found of
       None \<Rightarrow> ret None
     | Some x \<Rightarrow>
         if ro_status x = ''ROLLED_BACK'' then ret (Some (ROLLED_BACK, ''ROLLBACK_APPLIED''))
         else if ro_status x = ''ROLLBACK_BLOCKED'' then ret (Some (ROLLBACK_BLOCKED, blocked_reason (ro_rollback_payload x)))
         else if ro_status x = ''INTENT_RECORDED'' then ret None
         else raise (ValueError ''invalid persisted rollback status''))"

definition rollback_ledger_exists :: "owned_deployment \<Rightarrow> ('t world, bool) oper" where
  "rollback_ledger_exists b = engine_connect (asks (\<lambda>w. \<exists>e\<in>set (db_production_ledger (w_db w)).
     pl_run_id e = Some (row_id (od_run b)) \<and> pl_candidate_id e = Some (dp_candidate_id (od_deployment b)) \<and>
     pl_event_type e = ''ROLLBACK_APPLIED''))"

definition rollback_applied_entry ::
  "string \<Rightarrow> owned_deployment \<Rightarrow> target_state \<Rightarrow> target_state \<Rightarrow> create_index_action \<Rightarrow> drop_index_action \<Rightarrow> pg_args" where
  "rollback_applied_entry actor b before after a inverse_action = \<lparr>pg_target_id = rn_target_id (od_run b), pg_run_id = Some (row_id (od_run b)),
     pg_candidate_id = Some (dp_candidate_id (od_deployment b)), pg_action_id = row_id (od_action b),
     pg_event_type = ''ROLLBACK_APPLIED'', pg_before_state = target_state_json before, pg_intended_state = target_state_json after,
     pg_after_state = target_state_json after, pg_forward_action = JObj (drop_index_dump inverse_action),
     pg_inverse_action = JObj (create_index_dump a), pg_evidence_hash = au_integrity_fingerprint (od_authority b), pg_actor = actor\<rparr>"

definition finalize_record ::
  "digest \<Rightarrow> (int \<Rightarrow> string) \<Rightarrow> string \<Rightarrow> owned_deployment \<Rightarrow> target_state \<Rightarrow> target_state \<Rightarrow> ('t world, unit) oper" where
  "finalize_record sha stamp actor b before after =
     bnd (lift (action_of_payload (ac_action_payload (od_action b)))) (\<lambda>a.
     bnd (lift (drop_of_payload (dp_inverse_action (od_deployment b)))) (\<lambda>inverse_action.
     bnd (rollback_ledger_exists b) (\<lambda>there.
     bnd (if there then ret ()
          else bnd (pg_append sha stamp (rollback_applied_entry actor b before after a inverse_action)) (\<lambda>_. ret ())) (\<lambda>_.
     record_rollback (dp_candidate_id (od_deployment b)) ''ROLLED_BACK'' (PayloadDone before after)))))"

subsection \<open>Rollback\<close>

text \<open>What an intent on record says of the state the drop leaves, and of the state before it.\<close>

definition intent_expected :: "rollback_payload \<Rightarrow> target_state option" where
  "intent_expected p = (case p of PayloadIntent _ after \<Rightarrow> Some after | _ \<Rightarrow> None)"

definition intent_before :: "rollback_payload \<Rightarrow> target_state \<Rightarrow> target_state" where
  "intent_before p st = (case p of PayloadIntent before _ \<Rightarrow> before | PayloadDone before _ \<Rightarrow> before | _ \<Rightarrow> st)"

definition drop_and_verify ::
  "digest \<Rightarrow> (int \<Rightarrow> string) \<Rightarrow> string \<Rightarrow> 't adapter \<Rightarrow> owned_deployment \<Rightarrow> create_index_action \<Rightarrow> target_state \<Rightarrow>
   ('t world, optimization_state \<times> string) oper" where
  "drop_and_verify sha stamp actor ad b a st =
     (let candidate_id = dp_candidate_id (od_deployment b); expected = without_owned_index st (ca_index_name a) in
      bnd (record_rollback candidate_id ''INTENT_RECORDED'' (PayloadIntent st expected)) (\<lambda>_.
      bnd (on_world_target (ad_drop_index ad (ca_collection a) (ca_index_name a))) (\<lambda>_.
      bnd (deploy_state ad a) (\<lambda>after.
      if after \<noteq> expected
      then bnd (record_rollback candidate_id ''ROLLBACK_BLOCKED'' (PayloadBlocked ''INVERSE_EFFECT_UNVERIFIED'' after)) (\<lambda>_.
        ret (ROLLBACK_BLOCKED, ''INVERSE_EFFECT_UNVERIFIED''))
      else bnd (finalize_record sha stamp actor b st after) (\<lambda>_. ret (ROLLED_BACK, ''ROLLBACK_APPLIED''))))))"

definition rollback_unless ::
  "digest \<Rightarrow> (int \<Rightarrow> string) \<Rightarrow> string \<Rightarrow> 't adapter \<Rightarrow> owned_deployment \<Rightarrow> create_index_action \<Rightarrow> target_state \<Rightarrow>
   ('t world, optimization_state \<times> string) oper" where
  "rollback_unless sha stamp actor ad b a st = (case safe_reason sha b st a of
       Some reason \<Rightarrow> bnd (record_rollback (dp_candidate_id (od_deployment b)) ''ROLLBACK_BLOCKED'' (PayloadBlocked reason st)) (\<lambda>_.
         ret (ROLLBACK_BLOCKED, reason))
     | None \<Rightarrow> drop_and_verify sha stamp actor ad b a st)"

definition rollback_locked ::
  "digest \<Rightarrow> (int \<Rightarrow> string) \<Rightarrow> string \<Rightarrow> 't adapter \<Rightarrow> owned_deployment \<Rightarrow> ('t world, optimization_state \<times> string) oper" where
  "rollback_locked sha stamp actor ad b =
     bnd (lift (action_of_payload (ac_action_payload (od_action b)))) (\<lambda>a.
     bnd (deploy_state ad a) (\<lambda>st.
     bnd (rollback_record_of (dp_candidate_id (od_deployment b))) (\<lambda>found.
     case found of
       Some x \<Rightarrow>
         if ro_status x = ''INTENT_RECORDED'' \<and> intent_expected (ro_rollback_payload x) = Some st
         then bnd (finalize_record sha stamp actor b (intent_before (ro_rollback_payload x) st) st) (\<lambda>_.
           ret (ROLLED_BACK, ''ROLLBACK_APPLIED''))
         else rollback_unless sha stamp actor ad b a st
     | None \<Rightarrow> rollback_unless sha stamp actor ad b a st)))"

definition rollback_for_run ::
  "digest \<Rightarrow> (int \<Rightarrow> string) \<Rightarrow> string \<Rightarrow> 't adapter \<Rightarrow> string \<Rightarrow> ('t world, optimization_state \<times> string) oper" where
  "rollback_for_run sha stamp actor ad run_id =
     bnd (owned_deployment_of run_id) (\<lambda>b.
     bnd (recorded_outcome (dp_candidate_id (od_deployment b))) (\<lambda>recorded.
     case recorded of
       Some outcome \<Rightarrow> ret outcome
     | None \<Rightarrow> with_mutation_lock sha (rn_target_id (od_run b)) (ret (ROLLBACK_BLOCKED, ''TARGET_LOCK_UNAVAILABLE''))
         (rollback_locked sha stamp actor ad b)))"

subsection \<open>What a rollback may do\<close>

lemma owned_rows_ids:
  "b \<in> set (owned_rows run_id d) \<Longrightarrow> row_id (od_run b) = run_id \<and> dp_optimization_run_id (od_deployment b) = run_id \<and>
     od_deployment b \<in> set (db_deployments d) \<and> row_id (od_candidate b) = dp_candidate_id (od_deployment b)"
  by (auto simp: owned_rows_def)

lemma owned_deployment_of_Inr:
  "owned_deployment_of run_id w = (Inr b, w') \<Longrightarrow> w' = tick w \<and> owned_rows run_id (w_db w) = [b]"
  by (auto simp: owned_deployment_of_def engine_connect_Inr world_apply elim!: bnd_InrE split: option.splits)

text \<open>The artifact proves that the index is the run's own, and that nothing changed since the deployment.\<close>

definition proves_ownership :: "digest \<Rightarrow> owned_deployment \<Rightarrow> create_index_action \<Rightarrow> target_state \<Rightarrow> bool" where
  "proves_ownership sha b a st \<longleftrightarrow>
     cn_deterministic_fingerprint (od_candidate b) = Some (dp_candidate_fingerprint (od_deployment b)) \<and>
     action_fingerprint sha a = dp_action_fingerprint (od_deployment b) \<and> ts_namespace_exists st \<and>
     dp_after_state (od_deployment b) = Some st \<and> filter (\<lambda>i. ix_name i = ca_index_name a) (ts_indexes st) = [action_spec a]"

lemma single_match:
  assumes "length (filter (\<lambda>i. ix_name i = n) xs) = 1" and "ix_keys (hd (filter (\<lambda>i. ix_name i = n) xs)) = ks"
  shows "filter (\<lambda>i. ix_name i = n) xs = [\<lparr>ix_name = n, ix_keys = ks\<rparr>]"
proof -
  obtain x where x: "filter (\<lambda>i. ix_name i = n) xs = [x]" using assms(1) by (auto simp: length_Suc_conv)
  then have "ix_name x = n" using filter_one by fastforce
  then show ?thesis using x assms(2) by (cases x) simp
qed

lemma safe_reason_None: "safe_reason sha b st a = None \<Longrightarrow> proves_ownership sha b a st"
  using single_match [of "ca_index_name a" "ts_indexes st" "action_keys a"]
  by (auto simp: safe_reason_def proves_ownership_def action_spec_def Let_def split: if_splits)

context database_adapter
begin

lemma watches_record [watching]: "keeps watches (record_rollback c st p)"
proof -
  have "keeps same_outside (record_rollback c st p)"
    unfolding record_rollback_def by (intro frames)
  moreover have "intents w \<subseteq> intents (snd (record_rollback c st p w))" for w :: "'t world"
  proof (cases "record_rollback c st p w")
    case (Pair r w')
    have "(\<lambda>r. RollbackIntent (ro_candidate_id r)) ` set (map (\<lambda>r. if P r then r\<lparr>ro_status := s, ro_rollback_payload := q, row_updated_at := u\<rparr> else r) xs)
        = (\<lambda>r. RollbackIntent (ro_candidate_id r)) ` set xs" for P s q u and xs :: "rollback_record_row list"
      by (rule image_if_same) simp
    then show ?thesis
      by (auto simp: record_rollback_def engine_begin_def tables_transaction_def bnd_apply world_apply rollback_records_table_def
          insert_row_def intents_def simp del: set_map split: sum.split option.split)
  qed
  ultimately show ?thesis by (rule watches_same)
qed

lemma watches_rollback_reads [watching]:
  "keeps watches (rollback_record_of c)" "keeps watches (recorded_outcome c)" "keeps watches (rollback_ledger_exists b)"
  "keeps watches (owned_deployment_of run_id)"
  unfolding recorded_outcome_def rollback_record_of_def rollback_ledger_exists_def owned_deployment_of_def by (intro watching)+

lemma watches_finalize [watching]: "keeps watches (finalize_record sha stamp actor b before after)"
  unfolding finalize_record_def by (intro watching)

text \<open>The index of the action is dropped, and nothing else.\<close>

definition index_dropped :: "create_index_action \<Rightarrow> 't \<Rightarrow> 't \<Rightarrow> bool" where
  "index_dropped a = dropped cols idx hint (ca_collection a) (ca_index_name a)"

lemma drop_once:
  "keeps (one_effect (\<lambda>_. True) (index_dropped a)) (on_world_target (ad_drop_index ad (ca_collection a) (ca_index_name a)))"
proof (rule keepsI)
  fix w :: "'t world" and r w' assume "on_world_target (ad_drop_index ad (ca_collection a) (ca_index_name a)) w = (r, w')"
  then obtain t' where t': "ad_drop_index ad (ca_collection a) (ca_index_name a) (w_target w) = (r, t')"
    and w': "w' = w\<lparr>w_target := t'\<rparr>"
    by (cases "ad_drop_index ad (ca_collection a) (ca_index_name a) (w_target w)") (auto simp: on_world_target_apply)
  show "one_effect (\<lambda>_. True) (index_dropped a) w w'"
    using drop_index [OF _ t'] by (auto simp: w' one_effect_def index_dropped_def intents_def)
qed

lemma drop_and_verify_once: "keeps (one_effect (\<lambda>_. True) (index_dropped a)) (drop_and_verify sha stamp actor ad b a st)"
  unfolding drop_and_verify_def Let_def by (intro once_after once_then drop_once, (intro watching)+)

lemma intent_of_rollback:
  assumes "record_rollback c ''INTENT_RECORDED'' p w = (Inr u, w')"
  shows "RollbackIntent c \<in> intents w'"
proof -
  have "\<exists>r\<in>set (db_rollback_records (w_db w')). ro_candidate_id r = c"
    using assms
    by (auto simp: record_rollback_def engine_begin_Inr world_apply rollback_records_table_def insert_row_def rollback_row_def
        elim!: bnd_InrE split: option.splits if_splits dest!: filter_one) blast
  then show ?thesis by (auto simp: intents_def)
qed

text \<open>The one case in which the target may have changed.\<close>

definition rolled_by :: "digest \<Rightarrow> owned_deployment \<Rightarrow> 't world \<Rightarrow> 't world \<Rightarrow> bool" where
  "rolled_by sha b w w' \<longleftrightarrow> (\<exists>a. action_of_payload (ac_action_payload (od_action b)) = Inr a \<and>
     proves_ownership sha b a (true_state (ca_database a) (ca_collection a) (w_target w)) \<and>
     index_dropped a (w_target w) (w_target w') \<and> RollbackIntent (dp_candidate_id (od_deployment b)) \<in> intents w')"

lemma deploy_state_true:
  assumes "inv (w_target w)" and "deploy_state ad a w = (Inr st, w')"
  shows "w' = w \<and> st = true_state (ca_database a) (ca_collection a) (w_target w)"
proof -
  obtain t' where o: "observe_state ad (ca_database a) (ca_collection a) (w_target w) = (Inr st, t')" and w': "w' = w\<lparr>w_target := t'\<rparr>"
    using assms(2) by (cases "observe_state ad (ca_database a) (ca_collection a) (w_target w)")
      (auto simp: deploy_state_def on_world_target_apply)
  from observe_Inr [OF assms(1) o] show ?thesis by (simp add: w')
qed

lemma rollback_unless_changes:
  assumes run: "rollback_unless sha stamp actor ad b a st w = (r, w')" and ok: "inv (w_target w)"
    and st: "st = true_state (ca_database a) (ca_collection a) (w_target w)"
    and a: "action_of_payload (ac_action_payload (od_action b)) = Inr a"
  shows "w_advisory w' = w_advisory w \<and> (w_target w' = w_target w \<or> rolled_by sha b w w')"
proof (cases "safe_reason sha b st a")
  case (Some reason)
  then have "keeps watches (rollback_unless sha stamp actor ad b a st :: 't world \<Rightarrow> _)"
    unfolding rollback_unless_def by (auto intro!: watching)
  then have "watches w w'" using run by (rule keepsD)
  then show ?thesis using ok by (simp add: watches_def)
next
  case None
  then have own: "proves_ownership sha b a st" by (rule safe_reason_None)
  let ?expected = "without_owned_index st (ca_index_name a)" and ?c = "dp_candidate_id (od_deployment b)"
  have rest: "keeps (one_effect (\<lambda>_. True) (index_dropped a))
    (bnd (on_world_target (ad_drop_index ad (ca_collection a) (ca_index_name a))) (\<lambda>_.
      bnd (deploy_state ad a) (\<lambda>after.
      if after \<noteq> ?expected
      then bnd (record_rollback ?c ''ROLLBACK_BLOCKED'' (PayloadBlocked ''INVERSE_EFFECT_UNVERIFIED'' after)) (\<lambda>_.
        ret (ROLLBACK_BLOCKED, ''INVERSE_EFFECT_UNVERIFIED''))
      else bnd (finalize_record sha stamp actor b st after) (\<lambda>_. ret (ROLLED_BACK, ''ROLLBACK_APPLIED'')))))"
    by (intro once_then drop_once, (intro watching)+)
  from run show ?thesis
    unfolding rollback_unless_def None option.case drop_and_verify_def Let_def
  proof (elim watches_bndE [OF _ watches_record])
    assume "watches w w'" then show ?thesis using ok by (simp add: watches_def)
  next
    fix u v assume 1: "record_rollback ?c ''INTENT_RECORDED'' (PayloadIntent st ?expected) w = (Inr u, v)" "watches w v"
      and 2: "bnd (on_world_target (ad_drop_index ad (ca_collection a) (ca_index_name a))) (\<lambda>_.
        bnd (deploy_state ad a) (\<lambda>after.
        if after \<noteq> ?expected
        then bnd (record_rollback ?c ''ROLLBACK_BLOCKED'' (PayloadBlocked ''INVERSE_EFFECT_UNVERIFIED'' after)) (\<lambda>_.
          ret (ROLLBACK_BLOCKED, ''INVERSE_EFFECT_UNVERIFIED''))
        else bnd (finalize_record sha stamp actor b st after) (\<lambda>_. ret (ROLLED_BACK, ''ROLLBACK_APPLIED'')))) v = (r, w')"
    have e: "one_effect (\<lambda>_. True) (index_dropped a) v w'" using rest 2 by (rule keepsD)
    moreover have "RollbackIntent ?c \<in> intents v" using 1(1) by (rule intent_of_rollback)
    ultimately show ?thesis
      using 1(2) ok own a st unfolding one_effect_def watches_def rolled_by_def by auto
  qed
qed

lemma rollback_locked_changes:
  assumes run: "rollback_locked sha stamp actor ad b w = (r, w')" and ok: "inv (w_target w)"
  shows "w_advisory w' = w_advisory w \<and> (w_target w' = w_target w \<or> rolled_by sha b w w')"
proof -
  have quiet: ?thesis if "watches w w'" using that ok by (simp add: watches_def)
  have later: ?thesis if v: "watches w v" and a: "action_of_payload (ac_action_payload (od_action b)) = Inr a"
      and st: "st = true_state (ca_database a) (ca_collection a) (w_target w)"
      and u: "rollback_unless sha stamp actor ad b a st v = (r, w')" for v a st
  proof -
    have t: "w_target v = w_target w" "w_advisory v = w_advisory w" using v ok by (simp_all add: watches_def)
    from rollback_unless_changes [OF u _ _ a] st t ok
    have "w_advisory w' = w_advisory v \<and> (w_target w' = w_target v \<or> rolled_by sha b v w')" by simp
    then show ?thesis using t unfolding rolled_by_def by simp
  qed
  from run show ?thesis
    unfolding rollback_locked_def
  proof (elim watches_bndE [OF _ watches_basic(3)] watches_bndE [OF _ watches_state] watches_bndE [OF _ watches_rollback_reads(1)])
    fix a v0 st v1 found v2
    assume l: "lift (action_of_payload (ac_action_payload (od_action b))) w = (Inr a, v0)"
      and d: "deploy_state ad a v0 = (Inr st, v1)" and w: "watches w v0" "watches v0 v1" "watches v1 v2"
      and k: "(case found of None \<Rightarrow> rollback_unless sha stamp actor ad b a st
         | Some x \<Rightarrow> if ro_status x = ''INTENT_RECORDED'' \<and> intent_expected (ro_rollback_payload x) = Some st
             then bnd (finalize_record sha stamp actor b (intent_before (ro_rollback_payload x) st) st) (\<lambda>_.
               ret (ROLLED_BACK, ''ROLLBACK_APPLIED''))
             else rollback_unless sha stamp actor ad b a st) v2 = (r, w')"
    from l have a: "action_of_payload (ac_action_payload (od_action b)) = Inr a" "v0 = w" by auto
    have st: "st = true_state (ca_database a) (ca_collection a) (w_target w)"
      using deploy_state_true [OF _ d] ok by (simp add: a(2))
    have wv: "watches w v2" using w by (blast intro: watches_trans)
    have fin: "keeps watches (bnd (finalize_record sha stamp actor b x y) (\<lambda>_. ret (ROLLED_BACK, ''ROLLBACK_APPLIED'')) :: 't world \<Rightarrow> _)"
      for x y by (intro watching)
    show ?thesis
      using k later [OF wv a(1) st] keepsD [OF fin, of _ _ v2 r w'] watches_trans [OF wv] quiet
      by (auto split: option.splits if_splits)
  qed (use quiet watches_trans in blast)+
qed

lemma durable_rollback:
  assumes run: "rollback_for_run sha stamp actor ad run_id w = (r, w')" and ok: "inv (w_target w)"
  shows "w_advisory w' = w_advisory w \<and> (w_target w' = w_target w \<or>
    (\<exists>b. owned_rows run_id (w_db w) = [b] \<and> target_lock_key sha (rn_target_id (od_run b)) \<notin> set (w_advisory w) \<and> rolled_by sha b w w'))"
proof -
  have quiet: ?thesis if "watches w w'" using that ok by (simp add: watches_def)
  from run show ?thesis
    unfolding rollback_for_run_def
  proof (elim watches_bndE [OF _ watches_rollback_reads(4)] watches_bndE [OF _ watches_rollback_reads(2)])
    fix b v recorded v1
    assume 1: "owned_deployment_of run_id w = (Inr b, v)" and w: "watches w v" "watches v v1"
      and k: "(case recorded of None \<Rightarrow> with_mutation_lock sha (rn_target_id (od_run b))
          (ret (ROLLBACK_BLOCKED, ''TARGET_LOCK_UNAVAILABLE'')) (rollback_locked sha stamp actor ad b)
        | Some outcome \<Rightarrow> ret outcome) v1 = (r, w')"
    have b: "owned_rows run_id (w_db w) = [b]" using owned_deployment_of_Inr [OF 1] by simp
    have wv: "watches w v1" using w by (rule watches_trans)
    show ?thesis
    proof (cases recorded)
      case (Some outcome)
      then show ?thesis using k wv quiet by simp
    next
      case None
      with k have lock: "with_mutation_lock sha (rn_target_id (od_run b)) (ret (ROLLBACK_BLOCKED, ''TARGET_LOCK_UNAVAILABLE''))
        (rollback_locked sha stamp actor ad b) v1 = (r, w')" by simp
      obtain x v2 where t: "try_acquire sha (rn_target_id (od_run b)) v1 = (x, v2)" by fastforce
      let ?k = "target_lock_key sha (rn_target_id (od_run b))"
      note tc = try_acquire_cases [OF t]
      show ?thesis
      proof (cases "x = Inr (Some ?k)")
        case True
        have w': "w' = release ?k (snd (rollback_locked sha stamp actor ad b v2))"
          using lock t True
          by (simp add: with_mutation_lock_def bnd_apply [of "try_acquire sha (rn_target_id (od_run b))"] finally_do_apply)
        obtain y v4 where m: "rollback_locked sha stamp actor ad b v2 = (y, v4)" by fastforce
        have v2: "w_target v2 = w_target w" "?k \<notin> set (w_advisory w)" "w_advisory v2 = ?k # w_advisory w"
          using tc True wv ok by (auto simp: watches_def)
        have out: "w_target w' = w_target v4" "w_advisory w' = remove1 ?k (w_advisory v4)" "intents w' = intents v4"
          using w' m by (simp_all add: release_def intents_def)
        have "w_advisory v4 = w_advisory v2 \<and> (w_target v4 = w_target v2 \<or> rolled_by sha b v2 v4)"
          using m by (rule rollback_locked_changes) (simp add: v2 ok)
        then show ?thesis using b v2 out unfolding rolled_by_def by auto
      next
        case False
        then have "w_target w' = w_target v2" "w_advisory w' = w_advisory v2"
          using lock tc by (auto simp: with_mutation_lock_def bnd_apply t)
        then show ?thesis using tc False wv ok by (auto simp: watches_def)
      qed
    qed
  qed (use quiet watches_trans in blast)+
qed

end

text \<open>
  C2. Whatever the interruption, a durable rollback removes only the index its run owns. If the target
  changed, then the run's own artifact is applied, its action and candidate fingerprints hold, the observed
  state of the collection is exactly the state after the deployment, nobody else held the lock, the intent
  is on record, and the change is the removal of that one index. No lock is left behind.
\<close>

theorem durable_rollback_drops_only_owned:
  assumes "database_adapter ad cols idx hint ok" and "ok (w_target w)" and "rollback_for_run sha stamp actor ad run_id w = (r, w')"
  shows "w_advisory w' = w_advisory w \<and> (w_target w' = w_target w \<or>
    (\<exists>b a. owned_rows run_id (w_db w) = [b] \<and> action_of_payload (ac_action_payload (od_action b)) = Inr a \<and>
       target_lock_key sha (rn_target_id (od_run b)) \<notin> set (w_advisory w) \<and>
       action_fingerprint sha a = dp_action_fingerprint (od_deployment b) \<and>
       cn_deterministic_fingerprint (od_candidate b) = Some (dp_candidate_fingerprint (od_deployment b)) \<and>
       dp_after_state (od_deployment b) = Some \<lparr>ts_database = ca_database a, ts_collection = ca_collection a, ts_namespace_exists = True,
         ts_indexes = idx (w_target w) (ca_collection a)\<rparr> \<and>
       filter (\<lambda>i. ix_name i = ca_index_name a) (idx (w_target w) (ca_collection a)) = [action_spec a] \<and>
       dropped cols idx hint (ca_collection a) (ca_index_name a) (w_target w) (w_target w') \<and>
       (\<exists>x\<in>set (db_rollback_records (w_db w')). ro_candidate_id x = dp_candidate_id (od_deployment b))))"
proof -
  from database_adapter.durable_rollback [OF assms(1,3,2)]
  show ?thesis
  proof (elim conjE disjE exE)
    fix b
    assume 1: "w_advisory w' = w_advisory w" "owned_rows run_id (w_db w) = [b]"
      "target_lock_key sha (rn_target_id (od_run b)) \<notin> set (w_advisory w)"
      and 2: "database_adapter.rolled_by cols idx hint sha b w w'"
    from 2 obtain a where a: "action_of_payload (ac_action_payload (od_action b)) = Inr a"
      and own: "proves_ownership sha b a (database_adapter.true_state cols idx (ca_database a) (ca_collection a) (w_target w))"
      and drop: "dropped cols idx hint (ca_collection a) (ca_index_name a) (w_target w) (w_target w')"
      and rec: "RollbackIntent (dp_candidate_id (od_deployment b)) \<in> intents w'"
      unfolding database_adapter.rolled_by_def [OF assms(1)] database_adapter.index_dropped_def [OF assms(1)] by auto
    have "\<exists>x\<in>set (db_rollback_records (w_db w')). ro_candidate_id x = dp_candidate_id (od_deployment b)"
      using rec by (auto simp: intents_def deploy_key_def settings_intent_def)
    moreover have "action_fingerprint sha a = dp_action_fingerprint (od_deployment b) \<and>
       cn_deterministic_fingerprint (od_candidate b) = Some (dp_candidate_fingerprint (od_deployment b)) \<and>
       dp_after_state (od_deployment b) = Some \<lparr>ts_database = ca_database a, ts_collection = ca_collection a, ts_namespace_exists = True,
         ts_indexes = idx (w_target w) (ca_collection a)\<rparr> \<and>
       filter (\<lambda>i. ix_name i = ca_index_name a) (idx (w_target w) (ca_collection a)) = [action_spec a]"
      using own unfolding proves_ownership_def database_adapter.true_state_def [OF assms(1)] by (auto split: if_splits)
    ultimately show ?thesis using 1 a drop by (intro conjI disjI2 exI [of _ b] exI [of _ a]) simp_all
  qed simp
qed

subsection \<open>A rollback\<close>

definition applied_artifact :: deployment_row where
  "applied_artifact = \<lparr>row_id = ''d1'', row_created_at = 0, row_updated_at = None, dp_optimization_run_id = ''run1'', dp_candidate_id = ''c1'',
     dp_candidate_fingerprint = ''fp'', dp_action_fingerprint = action_fingerprint id sample_action, dp_idempotency_key = ''k'',
     dp_status = ''APPLIED'', dp_before_state = \<lparr>ts_database = ''shop'', ts_collection = ''orders'', ts_namespace_exists = True, ts_indexes = []\<rparr>,
     dp_inverse_action = JObj (drop_index_dump (create_index_inverse sample_action)),
     dp_after_state = Some \<lparr>ts_database = ''shop'', ts_collection = ''orders'', ts_namespace_exists = True, ts_indexes = [action_spec sample_action]\<rparr>\<rparr>"

definition rollback_world :: "fake_db world" where
  "rollback_world = world_of ((deploy_db id)\<lparr>db_deployments := [applied_artifact]\<rparr>) demo_index_target"

definition demo_owned :: owned_deployment where
  "demo_owned = \<lparr>od_run = autonomous_run APPROVED, od_deployment = applied_artifact, od_candidate = demo_candidate, od_action = demo_action,
     od_authority = demo_authority id\<rparr>"

lemma demo_owned_rows: "owned_rows ''run1'' (w_db rollback_world) = [demo_owned]"
  by (simp add: owned_rows_def rollback_world_def deploy_db_def pipeline_defs demo_owned_def demo_authority_def applied_artifact_def)

lemma demo_drop_state:
  "ad_drop_index fake_adapter ''orders'' ''optimizer_1'' demo_index_target = (Inr (), fake_init [''orders''])"
  by (simp add: fake_adapter_def fake_drop_index_def fake_init_def demo_index_target_def)

lemma demo_reason:
  "safe_reason id demo_owned \<lparr>ts_database = ''shop'', ts_collection = ''orders'', ts_namespace_exists = True,
     ts_indexes = [action_spec sample_action]\<rparr> sample_action = None"
  by (simp add: safe_reason_def demo_owned_def applied_artifact_def Let_def)

lemma record_calm_new:
  assumes "calm w" and "db_rollback_records (w_db w) = []"
  shows "\<exists>i t. record_rollback c st p w = (Inr (), (tick (tick (tick w)))\<lparr>w_db := (w_db w)\<lparr>db_rollback_records := [rollback_row c st p i t]\<rparr>\<rparr>)"
  using assms(2) calmD [OF assms(1)]
  by (auto simp: record_rollback_def engine_begin_def tables_transaction_def bnd_apply world_apply rollback_records_table_def
      insert_row_def one_or_none_def)

lemma demo_rollback_drops:
  "\<exists>r w'. rollback_for_run id int_str ''worker'' fake_adapter ''run1'' rollback_world = (r, w') \<and> w_target w' = fake_init [''orders'']"
proof -
  let ?b = demo_owned and ?key = "target_lock_key id ''t1''"
  let ?st = "\<lparr>ts_database = ''shop'', ts_collection = ''orders'', ts_namespace_exists = True, ts_indexes = [action_spec sample_action]\<rparr>"
  let ?w1 = "tick rollback_world" and ?w2 = "tick (tick rollback_world)"
  let ?w3 = "(tick ?w2)\<lparr>w_advisory := [?key]\<rparr>" and ?w4 = "tick ((tick ?w2)\<lparr>w_advisory := [?key]\<rparr>)"
  have c: "calm rollback_world" "calm ?w1" "calm ?w2" "calm ?w3" "calm ?w4" by (simp_all add: rollback_world_def world_of_def calm_def)
  have d: "w_advisory rollback_world = []" "w_target rollback_world = demo_index_target" "db_rollback_records (w_db rollback_world) = []"
    by (simp_all add: rollback_world_def world_of_def deploy_db_def pipeline_db_def empty_db_def)
  have b: "dp_candidate_id (od_deployment ?b) = ''c1''" "rn_target_id (od_run ?b) = ''t1''"
    "ac_action_payload (od_action ?b) = JObj (create_index_dump sample_action)"
    by (simp_all add: demo_owned_def applied_artifact_def)
  have 1: "owned_deployment_of ''run1'' rollback_world = (Inr ?b, ?w1)"
    using demo_owned_rows calmD [OF c(1)]
    by (simp add: owned_deployment_of_def engine_connect_def bnd_apply world_apply one_or_none_def)
  have none: "rollback_record_of ''c1'' w = (Inr None, tick w)" if "calm w" "db_rollback_records (w_db w) = []" for w :: "fake_db world"
    using that(2) calmD [OF that(1)]
    by (simp add: rollback_record_of_def engine_connect_def bnd_apply world_apply rollback_records_table_def one_or_none_def)
  have 2: "recorded_outcome ''c1'' ?w1 = (Inr None, ?w2)"
    using none [OF c(2)] d(3) by (simp add: recorded_outcome_def bnd_apply)
  have 3: "try_acquire id ''t1'' ?w2 = (Inr (Some ?key), ?w3)"
    using calmD [OF c(3)] d(1) by (simp add: try_acquire_def bnd_apply db_available_apply Let_def)
  have 4: "deploy_state fake_adapter sample_action ?w3 = (Inr ?st, ?w3)" by (rule demo_state_after) (simp add: d(2))
  have 5: "rollback_record_of ''c1'' ?w3 = (Inr None, ?w4)" by (rule none [OF c(4)]) (simp add: d(3))
  obtain i t where 6: "record_rollback ''c1'' ''INTENT_RECORDED'' (PayloadIntent ?st (without_owned_index ?st ''optimizer_1'')) ?w4 = (Inr (),
      (tick (tick (tick ?w4)))\<lparr>w_db := (w_db ?w4)\<lparr>db_rollback_records := [rollback_row ''c1'' ''INTENT_RECORDED''
        (PayloadIntent ?st (without_owned_index ?st ''optimizer_1'')) i t]\<rparr>\<rparr>)" (is "_ = (_, ?w5)")
    using record_calm_new [OF c(5)] d(3) by fastforce
  let ?w6 = "?w5\<lparr>w_target := fake_init [''orders'']\<rparr>"
  have 7: "on_world_target (ad_drop_index fake_adapter ''orders'' ''optimizer_1'') ?w5 = (Inr (), ?w6)"
    using demo_drop_state d(2) by (simp add: on_world_target_apply)
  let ?rest = "bnd (deploy_state fake_adapter sample_action) (\<lambda>after.
      if after \<noteq> without_owned_index ?st ''optimizer_1''
      then bnd (record_rollback ''c1'' ''ROLLBACK_BLOCKED'' (PayloadBlocked ''INVERSE_EFFECT_UNVERIFIED'' after)) (\<lambda>_.
        ret (ROLLBACK_BLOCKED, ''INVERSE_EFFECT_UNVERIFIED''))
      else bnd (finalize_record id int_str ''worker'' ?b ?st after) (\<lambda>_. ret (ROLLED_BACK, ''ROLLBACK_APPLIED'')))"
  have "keeps fakead.watches ?rest" by (intro watching)
  obtain r w7 where 8: "?rest ?w6 = (r, w7)" by fastforce
  have "fake_inv (fake_init [''orders''])" by (simp add: fake_inv_def fake_init_def)
  then have w7: "w_target w7 = fake_init [''orders'']"
    using keepsD [OF \<open>keeps fakead.watches ?rest\<close> 8] by (simp add: fakead.watches_def)
  have "rollback_unless id int_str ''worker'' fake_adapter ?b sample_action ?st ?w4 = (r, w7)"
    unfolding rollback_unless_def demo_reason option.case drop_and_verify_def Let_def b sample_action_sel
    by (rule bnd_InrI, rule 6, rule bnd_InrI, rule 7, rule 8)
  then have "rollback_locked id int_str ''worker'' fake_adapter ?b ?w3 = (r, w7)"
    unfolding rollback_locked_def b
    apply -
    apply (rule bnd_InrI, unfold lift_apply demo_action_payload, rule refl)
    apply (rule bnd_InrI, rule 4, rule bnd_InrI, rule 5)
    apply simp
    done
  then have "with_mutation_lock id ''t1'' busy (rollback_locked id int_str ''worker'' fake_adapter ?b) ?w2 = (r, release ?key w7)" for busy
    unfolding with_mutation_lock_def bnd_apply [of "try_acquire id ''t1''"] 3 by (simp add: finally_do_apply)
  then have "rollback_for_run id int_str ''worker'' fake_adapter ''run1'' rollback_world = (r, release ?key w7)"
    unfolding rollback_for_run_def
    apply -
    apply (rule bnd_InrI, rule 1, rule bnd_InrI, unfold b, rule 2)
    apply simp
    done
  then show ?thesis using w7 by (auto simp: release_def)
qed

theorem durable_rollback_drops_only_owned_witness:
  "\<exists>r w'. rollback_for_run id int_str ''worker'' fake_adapter ''run1'' rollback_world = (r, w') \<and> w_target w' \<noteq> w_target rollback_world \<and>
     dropped fake_cols fake_idx fake_hint ''orders'' ''optimizer_1'' (w_target rollback_world) (w_target w')"
proof -
  obtain r w' where run: "rollback_for_run id int_str ''worker'' fake_adapter ''run1'' rollback_world = (r, w')"
    and t: "w_target w' = fake_init [''orders'']" using demo_rollback_drops by blast
  have start: "w_target rollback_world = demo_index_target" by (simp add: rollback_world_def world_of_def)
  have ok: "fake_inv (w_target rollback_world)" unfolding start by (simp add: fake_inv_def demo_index_target_def)
  have ne: "w_target w' \<noteq> w_target rollback_world" by (simp add: t start demo_index_target_def fake_init_def)
  have act: "ac_action_payload (od_action demo_owned) = JObj (create_index_dump sample_action)" by (simp add: demo_owned_def)
  from durable_rollback_drops_only_owned [OF fakead.database_adapter_axioms ok run]
  have "dropped fake_cols fake_idx fake_hint ''orders'' ''optimizer_1'' (w_target rollback_world) (w_target w')"
    using ne demo_owned_rows act demo_action_payload by auto
  then show ?thesis using run ne by blast
qed

subsection \<open>A rollback lets the database evolve\<close>

lemma rollback_parts_evolution [evolution]:
  "keeps Runs.evolves (owned_deployment_of run_id)" "keeps Runs.evolves (record_rollback c st p)" "keeps Runs.evolves (rollback_record_of c)"
  "keeps Runs.evolves (recorded_outcome c)" "keeps Runs.evolves (rollback_ledger_exists b)"
  unfolding owned_deployment_of_def record_rollback_def rollback_record_of_def recorded_outcome_def rollback_ledger_exists_def
  by (intro evolution)+

lemma finalize_evolution [evolution]: "keeps Runs.evolves (finalize_record sha stamp actor b before after)"
  unfolding finalize_record_def by (intro evolution)

lemma rollback_evolution [evolution]: "keeps Runs.evolves (rollback_for_run sha stamp actor ad run_id)"
  unfolding rollback_for_run_def rollback_locked_def rollback_unless_def drop_and_verify_def Let_def by (intro evolution)

end
