(* ===== verification/DurableSettings.thy ===== *)
theory DurableSettings
  imports DurableRollback QuerySettings
begin

text \<open>
  \<open>backend/app/production/query_settings_durable.py\<close>: the durable deployment of an index hint and its exact
  rollback. The intent is recorded before the setting is changed, a repeated call is reconciled with
  the row of its idempotency key, and each completed change has one entry in the ledger of the target.
\<close>

subsection \<open>Keys and states\<close>

definition settings_unless :: "bool \<Rightarrow> string \<Rightarrow> ('t world, unit) oper" where
  "settings_unless b code = ensure b (DurableQuerySettingsError code)"

definition settings_fingerprint :: "digest \<Rightarrow> set_hint_action \<Rightarrow> string" where
  "settings_fingerprint sha a = json_hash sha (JObj (set_hint_dump a))"

definition settings_key :: "digest \<Rightarrow> string \<Rightarrow> set_hint_action \<Rightarrow> string \<Rightarrow> string" where
  "settings_key sha target_id a evidence_hash = json_hash sha (JObj [(''target'', JStr target_id),
     (''action'', JStr (settings_fingerprint sha a)), (''evidence'', JStr evidence_hash)])"

definition ownership_token :: "digest \<Rightarrow> string \<Rightarrow> set_hint_action \<Rightarrow> string" where
  "ownership_token sha target_id a = json_hash sha (JObj [(''target'', JStr target_id),
     (''shape'', JStr (sa_query_shape_hash a)), (''action'', JStr (settings_fingerprint sha a))])"

definition observe_hint :: "'t adapter \<Rightarrow> set_hint_action \<Rightarrow> ('t world, string list option) oper" where
  "observe_hint ad a = on_world_target (current_hint ad a)"

definition impose_hint :: "'t adapter \<Rightarrow> set_hint_action \<Rightarrow> string list option \<Rightarrow> ('t world, unit) oper" where
  "impose_hint ad a h = on_world_target (ad_set_hint ad (sa_collection a) (sa_query_shape_hash a) h)"

subsection \<open>The rows\<close>

definition new_settings_row ::
  "digest \<Rightarrow> string \<Rightarrow> set_hint_action \<Rightarrow> string \<Rightarrow> string option \<Rightarrow> json \<Rightarrow> json \<Rightarrow> string \<Rightarrow> int \<Rightarrow> settings_deployment_row" where
  "new_settings_row sha target_id a evidence_hash run_id before planned i t = \<lparr>row_id = i, row_created_at = t, row_updated_at = Some t,
     sy_target_id = target_id, sy_optimization_run_id = run_id, sy_query_shape_hash = sa_query_shape_hash a,
     sy_namespace = sa_database a @ ''.'' @ sa_collection a, sy_action_fingerprint = settings_fingerprint sha a,
     sy_idempotency_key = settings_key sha target_id a evidence_hash, sy_status = ''INTENT_RECORDED'', sy_before_state = before,
     sy_intended_state = planned, sy_after_state = None, sy_inverse_action = JObj (restore_hint_dump (set_hint_inverse a)),
     sy_ownership_token = ownership_token sha target_id a\<rparr>"

definition record_settings_intent ::
  "digest \<Rightarrow> string \<Rightarrow> set_hint_action \<Rightarrow> string \<Rightarrow> string option \<Rightarrow> json \<Rightarrow> json \<Rightarrow> ('t world, settings_deployment_row) oper" where
  "record_settings_intent sha target_id a evidence_hash run_id before planned =
     bnd now (\<lambda>t. engine_begin (
     bnd uuid4 (\<lambda>i.
     insert_row settings_deployments_table (new_settings_row sha target_id a evidence_hash run_id before planned i t))))"

definition mark_settings :: "string \<Rightarrow> string \<Rightarrow> json \<Rightarrow> ('t world, settings_deployment_row) oper" where
  "mark_settings deployment_id status after = engine_begin (
     bnd now (\<lambda>t.
     bnd (update_rows settings_deployments_table (\<lambda>x. row_id x = deployment_id)
       (\<lambda>x. x\<lparr>sy_status := status, sy_after_state := Some after, row_updated_at := Some t\<rparr>)) (\<lambda>rows.
     lift (the_one rows))))"

definition settings_by_key :: "string \<Rightarrow> ('t world, settings_deployment_row option) oper" where
  "settings_by_key key = engine_connect (select_one settings_deployments_table (\<lambda>x. sy_idempotency_key x = key))"

definition settings_by_id :: "string \<Rightarrow> ('t world, settings_deployment_row option) oper" where
  "settings_by_id deployment_id = engine_connect (select_one settings_deployments_table (\<lambda>x. row_id x = deployment_id))"

subsection \<open>The ledger\<close>

definition settings_event_exists :: "settings_deployment_row \<Rightarrow> string \<Rightarrow> db \<Rightarrow> bool" where
  "settings_event_exists x event d \<longleftrightarrow> (\<exists>e\<in>set (db_production_ledger d). pl_target_id e = sy_target_id x \<and>
     pl_action_id e = row_id x \<and> pl_event_type e = event)"

definition settings_event ::
  "settings_deployment_row \<Rightarrow> string \<Rightarrow> json \<Rightarrow> json \<Rightarrow> json \<Rightarrow> json \<Rightarrow> json \<Rightarrow> string \<Rightarrow> pg_args" where
  "settings_event x event before planned after forward inverse_action evidence_hash = \<lparr>pg_target_id = sy_target_id x,
     pg_run_id = sy_optimization_run_id x, pg_candidate_id = None, pg_action_id = row_id x, pg_event_type = event,
     pg_before_state = before, pg_intended_state = planned, pg_after_state = after, pg_forward_action = forward,
     pg_inverse_action = inverse_action, pg_evidence_hash = evidence_hash, pg_actor = ''durable-query-settings-worker''\<rparr>"

definition append_once ::
  "digest \<Rightarrow> (int \<Rightarrow> string) \<Rightarrow> settings_deployment_row \<Rightarrow> string \<Rightarrow> json \<Rightarrow> json \<Rightarrow> json \<Rightarrow> json \<Rightarrow> json \<Rightarrow> string \<Rightarrow> ('t world, unit) oper" where
  "append_once sha stamp x event before planned after forward inverse_action evidence_hash =
     bnd (engine_connect (asks (\<lambda>w. settings_event_exists x event (w_db w)))) (\<lambda>there.
     if there then ret ()
     else bnd (pg_append sha stamp (settings_event x event before planned after forward inverse_action evidence_hash)) (\<lambda>_. ret ()))"

definition append_applied ::
  "digest \<Rightarrow> (int \<Rightarrow> string) \<Rightarrow> settings_deployment_row \<Rightarrow> set_hint_action \<Rightarrow> json \<Rightarrow> json \<Rightarrow> string list option \<Rightarrow> string \<Rightarrow>
   ('t world, unit) oper" where
  "append_applied sha stamp x a before planned h evidence_hash =
     append_once sha stamp x ''QUERY_SETTINGS_APPLIED'' before planned (settings_state a h) (JObj (set_hint_dump a))
       (JObj (restore_hint_dump (set_hint_inverse a))) evidence_hash"

definition append_rolled_back ::
  "digest \<Rightarrow> (int \<Rightarrow> string) \<Rightarrow> settings_deployment_row \<Rightarrow> settings_deployment_row \<Rightarrow> set_hint_action \<Rightarrow> string list option \<Rightarrow> string \<Rightarrow>
   ('t world, unit) oper" where
  "append_rolled_back sha stamp x deployment a h evidence_hash =
     append_once sha stamp x ''QUERY_SETTINGS_ROLLED_BACK'' (sy_intended_state deployment) (sy_before_state deployment)
       (settings_state a h) (JObj (restore_hint_dump (set_hint_inverse a))) (JObj (set_hint_dump a)) evidence_hash"

subsection \<open>Deployment\<close>

text \<open>The part that changes the setting: the row of the intent, the change, its verification and its record.\<close>

definition install_setting ::
  "digest \<Rightarrow> (int \<Rightarrow> string) \<Rightarrow> 't adapter \<Rightarrow> set_hint_action \<Rightarrow> string \<Rightarrow> json \<Rightarrow> json \<Rightarrow> settings_deployment_row \<Rightarrow>
   ('t world, settings_deployment_row) oper" where
  "install_setting sha stamp ad a evidence_hash before planned row =
     bnd (impose_hint ad a (Some (sa_allowed_indexes a))) (\<lambda>_.
     bnd (observe_hint ad a) (\<lambda>observed.
     bnd (settings_unless (observed = Some (sa_allowed_indexes a)) ''QUERY_SETTINGS_EFFECT_UNVERIFIED'') (\<lambda>_.
     bnd (mark_settings (row_id row) ''APPLIED'' (settings_state a observed)) (\<lambda>applied.
     bnd (append_applied sha stamp applied a before planned observed evidence_hash) (\<lambda>_. ret applied)))))"

definition apply_setting ::
  "digest \<Rightarrow> (int \<Rightarrow> string) \<Rightarrow> 't adapter \<Rightarrow> string \<Rightarrow> set_hint_action \<Rightarrow> string \<Rightarrow> string option \<Rightarrow> string list option \<Rightarrow>
   settings_deployment_row option \<Rightarrow> ('t world, settings_deployment_row) oper" where
  "apply_setting sha stamp ad target_id a evidence_hash run_id current existing =
     (let before = settings_state a current; planned = settings_state a (Some (sa_allowed_indexes a)) in
      bnd (case existing of Some x \<Rightarrow> ret x
           | None \<Rightarrow> record_settings_intent sha target_id a evidence_hash run_id before planned) (\<lambda>row.
      install_setting sha stamp ad a evidence_hash before planned row))"

definition reconcile_setting ::
  "digest \<Rightarrow> (int \<Rightarrow> string) \<Rightarrow> 't adapter \<Rightarrow> string \<Rightarrow> set_hint_action \<Rightarrow> string \<Rightarrow> string option \<Rightarrow> string list option \<Rightarrow>
   settings_deployment_row \<Rightarrow> ('t world, settings_deployment_row) oper" where
  "reconcile_setting sha stamp ad target_id a evidence_hash run_id current x =
     bnd (settings_unless (sy_action_fingerprint x = settings_fingerprint sha a) ''ACTION_FINGERPRINT_DRIFT'') (\<lambda>_.
     if sy_status x = ''APPLIED''
     then bnd (settings_unless (current = Some (sa_allowed_indexes a)) ''QUERY_SETTINGS_AFTER_STATE_DRIFT'') (\<lambda>_.
          bnd (append_applied sha stamp x a (sy_before_state x) (sy_intended_state x) current evidence_hash) (\<lambda>_. ret x))
     else if sy_status x = ''INTENT_RECORDED'' \<and> current = Some (sa_allowed_indexes a)
     then bnd (mark_settings (row_id x) ''APPLIED'' (settings_state a current)) (\<lambda>applied.
          bnd (append_applied sha stamp applied a (sy_before_state applied) (sy_intended_state applied) current evidence_hash) (\<lambda>_.
          ret applied))
     else apply_setting sha stamp ad target_id a evidence_hash run_id current (Some x))"

definition deploy_setting_locked ::
  "digest \<Rightarrow> (int \<Rightarrow> string) \<Rightarrow> 't adapter \<Rightarrow> string \<Rightarrow> set_hint_action \<Rightarrow> string \<Rightarrow> string option \<Rightarrow> ('t world, settings_deployment_row) oper" where
  "deploy_setting_locked sha stamp ad target_id a evidence_hash run_id =
     bnd (on_world_target (ad_list_indexes ad (sa_collection a))) (\<lambda>indexes.
     bnd (settings_unless (set (sa_allowed_indexes a) \<subseteq> ix_name ` set indexes) ''ALLOWED_INDEX_NOT_PRESENT'') (\<lambda>_.
     bnd (observe_hint ad a) (\<lambda>current.
     bnd (settings_by_key (settings_key sha target_id a evidence_hash)) (\<lambda>existing.
     case existing of
       Some x \<Rightarrow> reconcile_setting sha stamp ad target_id a evidence_hash run_id current x
     | None \<Rightarrow> bnd (settings_unless (current = None) ''HUMAN_QUERY_SETTINGS_PRESENT'') (\<lambda>_.
         apply_setting sha stamp ad target_id a evidence_hash run_id current None)))))"

definition deploy_setting ::
  "digest \<Rightarrow> (int \<Rightarrow> string) \<Rightarrow> 't adapter \<Rightarrow> string \<Rightarrow> set_hint_action \<Rightarrow> string \<Rightarrow> string option \<Rightarrow> ('t world, settings_deployment_row) oper" where
  "deploy_setting sha stamp ad target_id a evidence_hash run_id =
     with_mutation_lock sha target_id (raise (DurableQuerySettingsError ''TARGET_LOCK_UNAVAILABLE''))
       (deploy_setting_locked sha stamp ad target_id a evidence_hash run_id)"

subsection \<open>Rollback\<close>

text \<open>\<open>d[k]\<close> and \<open>tuple(v)\<close> on JSON values.\<close>

definition json_item :: "json \<Rightarrow> string \<Rightarrow> exn + json" where
  "json_item j k = (case j of
       JObj kvs \<Rightarrow> (case map_of kvs k of Some v \<Rightarrow> Inr v | None \<Rightarrow> Inl (KeyError k))
     | _ \<Rightarrow> Inl (TypeError ''not subscriptable with a string''))"

definition tuple_of :: "json \<Rightarrow> exn + json" where
  "tuple_of j = (case j of
       JArr xs \<Rightarrow> Inr (JArr xs)
     | JStr s \<Rightarrow> Inr (JArr (map (\<lambda>c. JStr [c]) s))
     | JObj kvs \<Rightarrow> Inr (JArr (map (\<lambda>(k, v). JStr k) kvs))
     | _ \<Rightarrow> Inl (TypeError ''not iterable''))"

definition setting_of_row :: "settings_deployment_row \<Rightarrow> exn + set_hint_action" where
  "setting_of_row x =
     sbind (json_item (sy_before_state x) ''database'') (\<lambda>database.
     sbind (json_item (sy_before_state x) ''collection'') (\<lambda>collection.
     sbind (json_item (sy_intended_state x) ''allowed_indexes'') (\<lambda>names.
     sbind (tuple_of names) (\<lambda>allowed.
     sbind (json_item (sy_before_state x) ''allowed_indexes'') (\<lambda>previous.
     set_hint_validate [(''action_type'', JStr ''SET_QUERY_SETTINGS_INDEX_HINT''), (''database'', database),
       (''collection'', collection), (''query_shape_hash'', JStr (sy_query_shape_hash x)), (''allowed_indexes'', allowed),
       (''previous_allowed_indexes'', previous)])))))"

definition restore_setting ::
  "digest \<Rightarrow> (int \<Rightarrow> string) \<Rightarrow> 't adapter \<Rightarrow> string \<Rightarrow> settings_deployment_row \<Rightarrow> set_hint_action \<Rightarrow> ('t world, settings_deployment_row) oper" where
  "restore_setting sha stamp ad evidence_hash x a =
     (let previous = sa_previous_allowed_indexes a in
      bnd (impose_hint ad a previous) (\<lambda>_.
      bnd (observe_hint ad a) (\<lambda>observed.
      bnd (settings_unless (observed = previous) ''QUERY_SETTINGS_INVERSE_UNVERIFIED'') (\<lambda>_.
      bnd (mark_settings (row_id x) ''ROLLED_BACK'' (settings_state a observed)) (\<lambda>rolled_back.
      bnd (append_rolled_back sha stamp rolled_back x a observed evidence_hash) (\<lambda>_. ret rolled_back))))))"

definition rollback_setting_locked ::
  "digest \<Rightarrow> (int \<Rightarrow> string) \<Rightarrow> 't adapter \<Rightarrow> string \<Rightarrow> settings_deployment_row \<Rightarrow> set_hint_action \<Rightarrow> ('t world, settings_deployment_row) oper" where
  "rollback_setting_locked sha stamp ad evidence_hash x a =
     bnd (observe_hint ad a) (\<lambda>current.
     let previous = sa_previous_allowed_indexes a in
     if sy_status x = ''ROLLED_BACK''
     then bnd (settings_unless (current = previous) ''QUERY_SETTINGS_ROLLBACK_DRIFT'') (\<lambda>_.
          bnd (append_rolled_back sha stamp x x a current evidence_hash) (\<lambda>_. ret x))
     else if current = previous \<and> sy_status x = ''ROLLBACK_INTENT''
     then bnd (mark_settings (row_id x) ''ROLLED_BACK'' (settings_state a current)) (\<lambda>rolled_back.
          bnd (append_rolled_back sha stamp rolled_back x a current evidence_hash) (\<lambda>_. ret rolled_back))
     else bnd (settings_unless (current = Some (sa_allowed_indexes a)) ''QUERY_SETTINGS_OWNERSHIP_DRIFT'') (\<lambda>_.
          bnd (mark_settings (row_id x) ''ROLLBACK_INTENT'' (settings_state a current)) (\<lambda>_.
          restore_setting sha stamp ad evidence_hash x a)))"

definition rollback_setting ::
  "digest \<Rightarrow> (int \<Rightarrow> string) \<Rightarrow> 't adapter \<Rightarrow> string \<Rightarrow> string \<Rightarrow> ('t world, settings_deployment_row) oper" where
  "rollback_setting sha stamp ad deployment_id evidence_hash =
     bnd (settings_by_id deployment_id) (\<lambda>found.
     case found of
       None \<Rightarrow> raise (DurableQuerySettingsError ''OWNED_APPLIED_SETTING_REQUIRED'')
     | Some x \<Rightarrow>
         bnd (settings_unless (sy_status x \<in> {''APPLIED'', ''ROLLBACK_INTENT'', ''ROLLED_BACK''}) ''OWNED_APPLIED_SETTING_REQUIRED'') (\<lambda>_.
         bnd (lift (setting_of_row x)) (\<lambda>a.
         with_mutation_lock sha (sy_target_id x) (raise (DurableQuerySettingsError ''TARGET_LOCK_UNAVAILABLE''))
           (rollback_setting_locked sha stamp ad evidence_hash x a))))"

subsection \<open>What the steps do\<close>

lemma settings_unless_Inr [simp]: "settings_unless b code w = (Inr u, w') \<longleftrightarrow> b \<and> w' = w"
  by (auto simp: settings_unless_def)

lemma mark_settings_Inr:
  assumes "mark_settings i st after w = (Inr y, w')"
  shows "\<exists>x t. filter (\<lambda>x. row_id x = i) (db_settings_deployments (w_db w)) = [x] \<and>
    y = x\<lparr>sy_status := st, sy_after_state := Some after, row_updated_at := Some t\<rparr> \<and> y \<in> set (db_settings_deployments (w_db w')) \<and>
    (\<exists>rows. w_db w' = (w_db w)\<lparr>db_settings_deployments := rows\<rparr>)"
proof -
  let ?t = "w_clock w (Suc (w_reads w))"
  let ?f = "\<lambda>x. x\<lparr>sy_status := st, sy_after_state := Some after, row_updated_at := Some ?t\<rparr>"
  obtain x where x: "filter (\<lambda>x. row_id x = i) (db_settings_deployments (w_db w)) = [x]" "y = ?f x"
    "w_db w' = (w_db w)\<lparr>db_settings_deployments := map (\<lambda>x. if row_id x = i then ?f x else x) (db_settings_deployments (w_db w))\<rparr>"
    using assms by (auto simp: mark_settings_def engine_begin_Inr world_apply settings_deployments_table_def elim!: bnd_InrE)
  have "x \<in> set (db_settings_deployments (w_db w))" "row_id x = i" using filter_one [OF x(1)] by simp_all
  then have "y \<in> set (db_settings_deployments (w_db w'))" using x(2,3) by force
  then show ?thesis using x by blast
qed

lemma pg_new_entry_action: "pl_action_id (pg_new_entry sha stamp i t a prior) = pg_action_id a"
  by (simp add: pg_new_entry_def Let_def)

lemma append_once_Inr:
  assumes "append_once sha stamp x event before planned after forward inverse_action ev w = (Inr u, w')"
  shows "settings_event_exists x event (w_db w') \<and>
    (\<exists>es. w_db w' = (w_db w)\<lparr>db_production_ledger := db_production_ledger (w_db w) @ es\<rparr> \<and> (settings_event_exists x event (w_db w) \<longrightarrow> es = []))"
proof (cases "settings_event_exists x event (w_db w)")
  case True
  then have "w_db w' = w_db w" using assms by (auto simp: append_once_def engine_connect_Inr world_apply elim!: bnd_InrE)
  then show ?thesis using True by (intro conjI exI [of _ "[]"]) simp_all
next
  case False
  then obtain e where "pg_append sha stamp (settings_event x event before planned after forward inverse_action ev) (tick w) = (Inr e, w')"
    using assms by (auto simp: append_once_def engine_connect_Inr world_apply elim!: bnd_InrE)
  from pg_append_Inr [OF this] False show ?thesis
    by (intro conjI exI [of _ "[e]"]) (auto simp: settings_event_exists_def settings_event_def pg_new_entry_action)
qed

lemma record_settings_intent_Inr:
  assumes "record_settings_intent sha tid a ev rid before planned w = (Inr x, w')"
  shows "\<exists>i t. x = new_settings_row sha tid a ev rid before planned i t \<and>
    w_db w' = (w_db w)\<lparr>db_settings_deployments := db_settings_deployments (w_db w) @ [x]\<rparr>"
  using assms
  by (auto simp: record_settings_intent_def engine_begin_Inr world_apply insert_row_def settings_deployments_table_def
      elim!: bnd_InrE split: if_splits) blast

lemma settings_select_Inr:
  "settings_by_key k w = (Inr r, w') \<Longrightarrow> w' = tick w \<and> (case r of
     None \<Rightarrow> \<forall>x\<in>set (db_settings_deployments (w_db w)). sy_idempotency_key x \<noteq> k
   | Some x \<Rightarrow> x \<in> set (db_settings_deployments (w_db w)) \<and> sy_idempotency_key x = k)"
  "settings_by_id i w = (Inr r, w') \<Longrightarrow> w' = tick w \<and> (\<forall>x. r = Some x \<longrightarrow> filter (\<lambda>x. row_id x = i) (db_settings_deployments (w_db w)) = [x])"
  by (auto simp: settings_by_key_def settings_by_id_def engine_connect_Inr world_apply settings_deployments_table_def filter_empty_conv
      split: option.splits dest!: filter_one)

text \<open>A row with its status on record, and the ledger entry of the event.\<close>

definition settled :: "string \<Rightarrow> string \<Rightarrow> settings_deployment_row \<Rightarrow> db \<Rightarrow> bool" where
  "settled st event y d \<longleftrightarrow> sy_status y = st \<and> y \<in> set (db_settings_deployments d) \<and> settings_event_exists y event d"

definition restamped :: "settings_deployment_row \<Rightarrow> settings_deployment_row \<Rightarrow> bool" where
  "restamped x y \<longleftrightarrow> (\<exists>st after t. y = x\<lparr>sy_status := st, sy_after_state := after, row_updated_at := t\<rparr>)"

lemma restamped_sel:
  "restamped x y \<Longrightarrow> row_id y = row_id x \<and> sy_before_state y = sy_before_state x \<and> sy_intended_state y = sy_intended_state x \<and>
     sy_query_shape_hash y = sy_query_shape_hash x \<and> sy_target_id y = sy_target_id x"
  by (auto simp: restamped_def)

lemma settle_Inr:
  assumes "mark_settings (row_id x) st after w = (Inr y, v)" and "x \<in> set (db_settings_deployments (w_db w))"
    and "append_once sha stamp y event b p af f iv ev v = (Inr u, w')"
  shows "settled st event y (w_db w') \<and> restamped x y"
proof -
  from mark_settings_Inr [OF assms(1)] obtain x' t where x': "filter (\<lambda>z. row_id z = row_id x) (db_settings_deployments (w_db w)) = [x']"
    and y: "y = x'\<lparr>sy_status := st, sy_after_state := Some after, row_updated_at := Some t\<rparr>" "y \<in> set (db_settings_deployments (w_db v))"
    by blast
  have "x \<in> set (filter (\<lambda>z. row_id z = row_id x) (db_settings_deployments (w_db w)))" using assms(2) by simp
  then have "x' = x" by (simp only: x') simp
  moreover have "db_settings_deployments (w_db w') = db_settings_deployments (w_db v)" using append_once_Inr [OF assms(3)] by auto
  ultimately show ?thesis using y append_once_Inr [OF assms(3)] by (auto simp: settled_def restamped_def)
qed

context database_adapter
begin

lemma settings_marks [watching]:
  "keeps watches (settings_unless b code)" "keeps watches (settings_by_key k)" "keeps watches (settings_by_id i)"
  "keeps watches (record_settings_intent sha tid a ev rid before planned)" "keeps watches (mark_settings i st after)"
proof -
  show "keeps watches (settings_unless b code)" by (simp add: keeps_def settings_unless_def)
  show "keeps watches (settings_by_key k)" "keeps watches (settings_by_id i)"
    unfolding settings_by_key_def settings_by_id_def by (intro watching)+
  have "keeps watches (insert_row settings_deployments_table r)" for r
    by (auto simp: keeps_def insert_row_def settings_deployments_table_def watches_def intents_def)
  then show "keeps watches (record_settings_intent sha tid a ev rid before planned)"
    unfolding record_settings_intent_def by (intro watching)
  have same: "settings_intent (x\<lparr>sy_status := s, sy_after_state := t, row_updated_at := u\<rparr>) = settings_intent x" for x s t u
    by (simp add: settings_intent_def)
  have "keeps same_outside (mark_settings i st after)" unfolding mark_settings_def by (intro frames)
  moreover have "intents w \<subseteq> intents (snd (mark_settings i st after w))" for w :: "'t world"
    by (simp add: mark_settings_def engine_begin_def tables_transaction_def bnd_apply world_apply settings_deployments_table_def
        intents_def image_if_same same del: set_map split: sum.split) blast
  ultimately show "keeps watches (mark_settings i st after)" by (rule watches_same)
qed

lemma settings_reads [watching]: "keeps watches (observe_hint ad a)" "keeps watches (on_world_target (ad_list_indexes ad c))"
proof -
  have "watches w (snd (on_world_target m w))" if "inv (w_target w) \<Longrightarrow> snd (m (w_target w)) = w_target w" for w :: "'t world" and m :: "('t, 'b) oper"
    using that by (simp add: on_world_target_apply watches_def intents_def)
  note q = this
  show "keeps watches (observe_hint ad a)"
    unfolding keeps_def observe_hint_def current_hint_def using q get_hint [OF _ prod.collapse [symmetric]] by blast
  show "keeps watches (on_world_target (ad_list_indexes ad c))"
    unfolding keeps_def using q list_indexes [OF _ prod.collapse [symmetric]] by blast
qed

lemma settings_appends [watching]:
  "keeps watches (append_applied sha stamp x a before planned h ev)" "keeps watches (append_rolled_back sha stamp x y a h ev)"
  unfolding append_applied_def append_rolled_back_def append_once_def by (intro watching)+

lemma observe_hint_Inr:
  assumes "observe_hint ad a w = (Inr h, w')" and "inv (w_target w)"
  shows "w' = w \<and> h = hint (w_target w) (sa_collection a) (sa_query_shape_hash a)"
  using assms get_hint [OF assms(2) prod.collapse [symmetric]]
  by (auto simp: observe_hint_def current_hint_def on_world_target_apply)

definition setting_changed :: "set_hint_action \<Rightarrow> string list option \<Rightarrow> 't \<Rightarrow> 't \<Rightarrow> bool" where
  "setting_changed a h = hinted cols idx hint (sa_collection a) (sa_query_shape_hash a) h"

lemma impose_once: "keeps (one_effect (\<lambda>_. True) (setting_changed a h)) (impose_hint ad a h)"
  unfolding keeps_def one_effect_def impose_hint_def setting_changed_def
  using set_hint [OF _ prod.collapse [symmetric]]
  by (auto simp: on_world_target_apply intents_def)

lemma impose_Inr:
  assumes "impose_hint ad a h w = (Inr u, w')" and "inv (w_target w)"
  shows "inv (w_target w') \<and> setting_changed a h (w_target w) (w_target w') \<and> w_db w' = w_db w"
  using assms set_hint [OF assms(2) prod.collapse [symmetric], of "sa_collection a" "sa_query_shape_hash a" h]
  by (auto simp: impose_hint_def on_world_target_apply setting_changed_def)

lemma list_indexes_Inr:
  "on_world_target (ad_list_indexes ad c) w = (Inr xs, w') \<Longrightarrow> inv (w_target w) \<Longrightarrow> w' = w \<and> xs = idx (w_target w) c"
  using list_indexes [OF _ prod.collapse [symmetric]] by (auto simp: on_world_target_apply)

lemma install_once: "keeps (one_effect (\<lambda>_. True) (setting_changed a (Some (sa_allowed_indexes a)))) (install_setting sha stamp ad a ev before planned row)"
  unfolding install_setting_def by (intro once_then impose_once, (intro watching)+)

text \<open>When the setting was changed, the row of its intent is on record.\<close>

lemma apply_setting_changes:
  assumes run: "apply_setting sha stamp ad tid a ev rid current existing w = (r, w')" and ok: "inv (w_target w)"
    and known: "\<And>x. existing = Some x \<Longrightarrow> x \<in> set (db_settings_deployments (w_db w)) \<and>
      sy_idempotency_key x = settings_key sha tid a ev \<and> sy_action_fingerprint x = settings_fingerprint sha a"
  shows "w_target w' = w_target w \<or> setting_changed a (Some (sa_allowed_indexes a)) (w_target w) (w_target w') \<and>
    (\<exists>i. SettingsIntent i (settings_key sha tid a ev) (settings_fingerprint sha a) \<in> intents w')"
  using run unfolding apply_setting_def Let_def
proof (rule watches_bndE)
  let ?before = "settings_state a current" and ?planned = "settings_state a (Some (sa_allowed_indexes a))"
  let ?m = "case existing of None \<Rightarrow> record_settings_intent sha tid a ev rid ?before ?planned | Some x \<Rightarrow> ret x"
  show "keeps watches ?m" by (intro watching)
  {
    assume "watches w w'"
    then show ?thesis using ok by (simp add: watches_def)
  next
    fix x v assume m: "?m w = (Inr x, v)" and wv: "watches w v"
      and rest: "install_setting sha stamp ad a ev ?before ?planned x v = (r, w')"
    note keepsD [OF install_once rest]
    moreover have "SettingsIntent (row_id x) (settings_key sha tid a ev) (settings_fingerprint sha a) \<in> intents v"
    proof (cases existing)
      case None
      then show ?thesis using record_settings_intent_Inr [of sha tid a ev rid ?before ?planned w x v] m
        by (auto simp: intents_def settings_intent_def new_settings_row_def)
    next
      case (Some z)
      then have "x = z" "v = w" using m by simp_all
      then have "settings_intent x = SettingsIntent (row_id x) (settings_key sha tid a ev) (settings_fingerprint sha a)"
        "x \<in> set (db_settings_deployments (w_db v))" using known [OF Some] by (simp_all add: settings_intent_def)
      then show ?thesis unfolding intents_def by (metis UnCI imageI)
    qed
    ultimately show ?thesis using ok wv by (auto simp: one_effect_def watches_def)
  }
qed

lemma apply_setting_Inr:
  assumes run: "apply_setting sha stamp ad tid a ev rid current existing w = (Inr y, w')" and ok: "inv (w_target w)"
    and known: "\<And>x. existing = Some x \<Longrightarrow> x \<in> set (db_settings_deployments (w_db w))"
  shows "inv (w_target w') \<and> setting_changed a (Some (sa_allowed_indexes a)) (w_target w) (w_target w') \<and>
    settled ''APPLIED'' ''QUERY_SETTINGS_APPLIED'' y (w_db w') \<and>
    (case existing of Some x \<Rightarrow> restamped x y
     | None \<Rightarrow> \<exists>i t. restamped (new_settings_row sha tid a ev rid (settings_state a current) (settings_state a (Some (sa_allowed_indexes a))) i t) y)"
proof -
  let ?before = "settings_state a current" and ?planned = "settings_state a (Some (sa_allowed_indexes a))"
  let ?m = "case existing of None \<Rightarrow> record_settings_intent sha tid a ev rid ?before ?planned | Some x \<Rightarrow> ret x"
  from run obtain x v1 u2 v2 h v3 v4 u5 where 1: "?m w = (Inr x, v1)"
    and 2: "impose_hint ad a (Some (sa_allowed_indexes a)) v1 = (Inr u2, v2)" and 3: "observe_hint ad a v2 = (Inr h, v3)"
    and 4: "mark_settings (row_id x) ''APPLIED'' (settings_state a h) v3 = (Inr y, v4)"
    and 5: "append_applied sha stamp y a ?before ?planned h ev v4 = (Inr u5, w')"
    by (auto simp: apply_setting_def install_setting_def Let_def elim!: bnd_InrE)
  have "keeps watches ?m" by (intro watching)
  then have t1: "w_target v1 = w_target w" using 1 ok keepsD by (fastforce simp: watches_def)
  have imp: "inv (w_target v2)" "setting_changed a (Some (sa_allowed_indexes a)) (w_target w) (w_target v2)" "w_db v2 = w_db v1"
    using impose_Inr [OF 2] t1 ok by simp_all
  have v3: "v3 = v2" using observe_hint_Inr [OF 3 imp(1)] by simp
  have "watches v2 v4" "watches v4 w'"
    using keepsD [OF settings_marks(5) 4] keepsD [OF settings_appends(1) 5] v3 by simp_all
  then have t: "w_target w' = w_target v2" using imp(1) by (simp add: watches_def)
  have x: "x \<in> set (db_settings_deployments (w_db v3))"
    using 1 known record_settings_intent_Inr [of sha tid a ev rid ?before ?planned w x v1] by (auto simp: v3 imp(3) split: option.splits)
  have "settled ''APPLIED'' ''QUERY_SETTINGS_APPLIED'' y (w_db w') \<and> restamped x y"
    using settle_Inr [OF 4 x] 5 unfolding append_applied_def by blast
  moreover have "case existing of Some z \<Rightarrow> x = z | None \<Rightarrow> \<exists>i t. x = new_settings_row sha tid a ev rid ?before ?planned i t"
    using 1 record_settings_intent_Inr [of sha tid a ev rid ?before ?planned w x v1] by (auto split: option.splits)
  ultimately show ?thesis using imp t by (auto split: option.splits)
qed

text \<open>What has to hold for the setting to be changed: the indexes exist, and the setting is absent or an own intent is on record.\<close>

definition setting_permitted :: "digest \<Rightarrow> string \<Rightarrow> set_hint_action \<Rightarrow> string \<Rightarrow> 't world \<Rightarrow> bool" where
  "setting_permitted sha tid a ev w \<longleftrightarrow>
     set (sa_allowed_indexes a) \<subseteq> ix_name ` set (idx (w_target w) (sa_collection a)) \<and>
     (hint (w_target w) (sa_collection a) (sa_query_shape_hash a) = None \<or>
      (\<exists>x\<in>set (db_settings_deployments (w_db w)). sy_idempotency_key x = settings_key sha tid a ev \<and>
         sy_action_fingerprint x = settings_fingerprint sha a \<and> sy_status x \<noteq> ''APPLIED''))"

lemma deploy_setting_locked_changes:
  assumes run: "deploy_setting_locked sha stamp ad tid a ev rid w = (r, w')" and ok: "inv (w_target w)"
  shows "w_target w' = w_target w \<or> setting_changed a (Some (sa_allowed_indexes a)) (w_target w) (w_target w') \<and>
    setting_permitted sha tid a ev w \<and>
    (\<exists>i. SettingsIntent i (settings_key sha tid a ev) (settings_fingerprint sha a) \<in> intents w')"
proof -
  have quiet: ?thesis if "watches w w'" using that ok by (simp add: watches_def)
  let ?k = "settings_key sha tid a ev" and ?c = "sa_collection a"
  show ?thesis
    using run unfolding deploy_setting_locked_def
  proof (elim watches_bndE [OF _ settings_reads(2)] watches_bndE [OF _ settings_marks(1)] watches_bndE [OF _ settings_reads(1)]
      watches_bndE [OF _ settings_marks(2)])
    fix xs v1 u v2 h v3 e v4
    assume 1: "on_world_target (ad_list_indexes ad ?c) w = (Inr xs, v1)"
      and 2: "settings_unless (set (sa_allowed_indexes a) \<subseteq> ix_name ` set xs) ''ALLOWED_INDEX_NOT_PRESENT'' v1 = (Inr u, v2)"
      and 3: "observe_hint ad a v2 = (Inr h, v3)" and 4: "settings_by_key ?k v3 = (Inr e, v4)"
      and rest: "(case e of None \<Rightarrow> bnd (settings_unless (h = None) ''HUMAN_QUERY_SETTINGS_PRESENT'') (\<lambda>_.
          apply_setting sha stamp ad tid a ev rid h None)
        | Some x \<Rightarrow> reconcile_setting sha stamp ad tid a ev rid h x) v4 = (r, w')"
    have l: "v1 = w" "xs = idx (w_target w) ?c" using list_indexes_Inr [OF 1 ok] by simp_all
    then have a: "v2 = w" "set (sa_allowed_indexes a) \<subseteq> ix_name ` set (idx (w_target w) ?c)" using 2 by auto
    then have o: "v3 = w" "h = hint (w_target w) ?c (sa_query_shape_hash a)" using observe_hint_Inr [OF 3] ok by simp_all
    have v4: "v4 = tick w" using settings_select_Inr(1) [OF 4] o by simp
    have ww: "watches w v4" by (simp add: v4)
    have tok: "inv (w_target v4)" using v4 ok by simp
    show ?thesis
    proof (cases e)
      case None
      show ?thesis
      proof (cases "h = None")
        case True
        then have "apply_setting sha stamp ad tid a ev rid h None v4 = (r, w')" using rest None by (simp add: bnd_apply settings_unless_def)
        from apply_setting_changes [OF this tok] show ?thesis using a(2) o(2) True v4 by (auto simp: setting_permitted_def)
      qed (use rest None v4 in \<open>auto simp: bnd_apply settings_unless_def\<close>)
    next
      case (Some x)
      have x: "x \<in> set (db_settings_deployments (w_db w))" "sy_idempotency_key x = ?k"
        using settings_select_Inr(1) [OF 4] o(1) by (auto simp: Some)
      have r: "reconcile_setting sha stamp ad tid a ev rid h x v4 = (r, w')" using rest Some by simp
      show ?thesis
      proof (cases "sy_action_fingerprint x = settings_fingerprint sha a \<and> sy_status x \<noteq> ''APPLIED'' \<and>
          \<not> (sy_status x = ''INTENT_RECORDED'' \<and> h = Some (sa_allowed_indexes a))")
        case True
        then have "apply_setting sha stamp ad tid a ev rid h (Some x) v4 = (r, w')"
          using r by (auto simp: reconcile_setting_def bnd_apply settings_unless_def)
        from apply_setting_changes [OF this tok] show ?thesis using a(2) x True v4 by (auto simp: setting_permitted_def)
      next
        case False
        let ?q = "if sy_status x = ''APPLIED''
          then bnd (settings_unless (h = Some (sa_allowed_indexes a)) ''QUERY_SETTINGS_AFTER_STATE_DRIFT'') (\<lambda>_.
            bnd (append_applied sha stamp x a (sy_before_state x) (sy_intended_state x) h ev) (\<lambda>_. ret x))
          else bnd (mark_settings (row_id x) ''APPLIED'' (settings_state a h)) (\<lambda>applied.
            bnd (append_applied sha stamp applied a (sy_before_state applied) (sy_intended_state applied) h ev) (\<lambda>_. ret applied))"
        have "keeps watches ?q" by (intro watching)
        moreover have "?q v4 = (r, w') \<or> w' = v4"
          using r False by (cases "sy_action_fingerprint x = settings_fingerprint sha a") (auto simp: reconcile_setting_def settings_unless_def bnd_apply [of "ensure _ _"])
        ultimately have "watches v4 w'" by (auto dest: keepsD)
        then show ?thesis using ww quiet watches_trans by blast
      qed
    qed
  qed (use quiet watches_trans in blast)+
qed

lemma deploy_setting_locked_frame: "keeps (one_effect (\<lambda>_. True) (\<lambda>_ _. True)) (deploy_setting_locked sha stamp ad tid a ev rid)"
proof -
  have i: "keeps (one_effect (\<lambda>_. True) (\<lambda>_ _. True)) (install_setting sha stamp ad a ev b p x)" for b p x
    using install_once [of a sha stamp ev b p x] by (auto simp: keeps_def one_effect_def)
  have ap: "keeps (one_effect (\<lambda>_. True) (\<lambda>_ _. True)) (apply_setting sha stamp ad tid a ev rid h e)" for h e
    unfolding apply_setting_def Let_def by (intro once_after i watching)
  have "keeps (one_effect (\<lambda>_. True) (\<lambda>_ _. True)) (reconcile_setting sha stamp ad tid a ev rid h x)" for h x
  proof -
    have "keeps (one_effect (\<lambda>_. True) (\<lambda>_ _. True)) (if b then m else if c then n else apply_setting sha stamp ad tid a ev rid h (Some x))"
      if "keeps watches m" "keeps watches n" for b c m n
      using that ap by (simp add: once_unless)
    note branches = this
    show ?thesis unfolding reconcile_setting_def by (intro once_after branches watching)
  qed
  then have "keeps (one_effect (\<lambda>_. True) (\<lambda>_ _. True)) (case e of Some x \<Rightarrow> reconcile_setting sha stamp ad tid a ev rid h x
     | None \<Rightarrow> bnd (settings_unless (h = None) ''HUMAN_QUERY_SETTINGS_PRESENT'') (\<lambda>_. apply_setting sha stamp ad tid a ev rid h None))" for e h
    by (cases e) (auto intro!: once_after ap watching)
  then show ?thesis unfolding deploy_setting_locked_def by (intro once_after watching)
qed

lemma deploy_setting_locked_Inr:
  assumes run: "deploy_setting_locked sha stamp ad tid a ev rid w = (Inr y, w')" and ok: "inv (w_target w)"
  shows "hint (w_target w') (sa_collection a) (sa_query_shape_hash a) = Some (sa_allowed_indexes a) \<and>
    settled ''APPLIED'' ''QUERY_SETTINGS_APPLIED'' y (w_db w') \<and>
    ((\<forall>x\<in>set (db_settings_deployments (w_db w)). sy_idempotency_key x \<noteq> settings_key sha tid a ev) \<longrightarrow>
      hint (w_target w) (sa_collection a) (sa_query_shape_hash a) = None \<and>
      setting_changed a (Some (sa_allowed_indexes a)) (w_target w) (w_target w') \<and> inv (w_target w') \<and>
      (\<exists>i t. restamped (new_settings_row sha tid a ev rid (settings_state a None) (settings_state a (Some (sa_allowed_indexes a))) i t) y))"
proof -
  let ?c = "sa_collection a" and ?q = "sa_query_shape_hash a" and ?k = "settings_key sha tid a ev"
  let ?al = "Some (sa_allowed_indexes a)"
  from run obtain xs v1 v2 h v3 e v4
    where 1: "on_world_target (ad_list_indexes ad ?c) w = (Inr xs, v1)" and 2: "v2 = v1"
      and 3: "observe_hint ad a v2 = (Inr h, v3)" and 4: "settings_by_key ?k v3 = (Inr e, v4)"
      and rest: "(case e of None \<Rightarrow> bnd (settings_unless (h = None) ''HUMAN_QUERY_SETTINGS_PRESENT'') (\<lambda>_.
          apply_setting sha stamp ad tid a ev rid h None)
        | Some x \<Rightarrow> reconcile_setting sha stamp ad tid a ev rid h x) v4 = (Inr y, w')"
    by (auto simp: deploy_setting_locked_def elim!: bnd_InrE)
  have v3: "v3 = w" "h = hint (w_target w) ?c ?q"
    using list_indexes_Inr [OF 1 ok] 2 observe_hint_Inr [OF 3] ok by simp_all
  have v4: "v4 = tick w" using settings_select_Inr(1) [OF 4] v3 by simp
  have tok: "inv (w_target v4)" using ok v4 by simp
  have hinted_here: "hint t ?c ?q = ?al" if "setting_changed a ?al t0 t" for t0 t
    using that by (simp add: setting_changed_def hinted_def)
  show ?thesis
  proof (cases e)
    case None
    then have "h = None" "apply_setting sha stamp ad tid a ev rid h None v4 = (Inr y, w')" using rest by (auto elim!: bnd_InrE)
    with apply_setting_Inr [OF this(2) tok] show ?thesis using v3 v4 hinted_here by auto
  next
    case (Some x)
    have x: "x \<in> set (db_settings_deployments (w_db w))" "sy_idempotency_key x = ?k"
      using settings_select_Inr(1) [OF 4] v3(1) by (auto simp: Some)
    have r: "reconcile_setting sha stamp ad tid a ev rid h x v4 = (Inr y, w')" using rest Some by simp
    have "hint (w_target w') ?c ?q = ?al \<and> settled ''APPLIED'' ''QUERY_SETTINGS_APPLIED'' y (w_db w')"
    proof -
      let ?A = "bnd (settings_unless (h = ?al) ''QUERY_SETTINGS_AFTER_STATE_DRIFT'') (\<lambda>_.
          bnd (append_applied sha stamp x a (sy_before_state x) (sy_intended_state x) h ev) (\<lambda>_. ret x))"
      let ?B = "bnd (mark_settings (row_id x) ''APPLIED'' (settings_state a h)) (\<lambda>applied.
          bnd (append_applied sha stamp applied a (sy_before_state applied) (sy_intended_state applied) h ev) (\<lambda>_. ret applied))"
      from r have r1: "(if sy_status x = ''APPLIED'' then ?A else if sy_status x = ''INTENT_RECORDED'' \<and> h = ?al then ?B
          else apply_setting sha stamp ad tid a ev rid h (Some x)) v4 = (Inr y, w')"
        unfolding reconcile_setting_def by (rule bnd_InrE) simp
      consider (applied) "sy_status x = ''APPLIED''" "h = ?al" "append_applied sha stamp x a (sy_before_state x) (sy_intended_state x) h ev v4 = (Inr (), w')" "y = x"
        | (recorded) u z where "h = ?al" "mark_settings (row_id x) ''APPLIED'' (settings_state a h) v4 = (Inr y, z)"
          "append_applied sha stamp y a (sy_before_state y) (sy_intended_state y) h ev z = (Inr u, w')"
        | (again) "apply_setting sha stamp ad tid a ev rid h (Some x) v4 = (Inr y, w')"
      proof (cases "sy_status x = ''APPLIED''")
        case True
        then have "?A v4 = (Inr y, w')" using r1 by simp
        then have "h = ?al \<and> append_applied sha stamp x a (sy_before_state x) (sy_intended_state x) h ev v4 = (Inr (), w') \<and> y = x"
          by (auto elim!: bnd_InrE)
        then show thesis using True that(1) by blast
      next
        case other: False
        show thesis
        proof (cases "sy_status x = ''INTENT_RECORDED'' \<and> h = ?al")
          case True
          then have "?B v4 = (Inr y, w')" using other r1 by simp
          then obtain u z where "mark_settings (row_id x) ''APPLIED'' (settings_state a h) v4 = (Inr y, z)"
            "append_applied sha stamp y a (sy_before_state y) (sy_intended_state y) h ev z = (Inr u, w')"
            by (auto elim!: bnd_InrE)
          then show thesis using True that(2) by blast
        next
          case False
          then show thesis using r1 that(3) by (simp only: if_not_P [OF other] if_not_P [OF False] if_False)
        qed
      qed
      then show ?thesis
      proof cases
        case applied
        have "w_target w' = w_target v4" using keepsD [OF settings_appends(1) applied(3)] tok by (simp add: watches_def)
        then show ?thesis
          using append_once_Inr [OF applied(3) [unfolded append_applied_def]] applied x v3 v4 by (auto simp: settled_def)
      next
        case recorded
        have "watches v4 w'" using keepsD [OF settings_marks(5) recorded(2)] keepsD [OF settings_appends(1) recorded(3)] by (rule watches_trans)
        then have "w_target w' = w_target w" using tok v4 by (simp add: watches_def)
        moreover have "x \<in> set (db_settings_deployments (w_db v4))" using x v4 by simp
        ultimately show ?thesis using settle_Inr [OF recorded(2) _ recorded(3) [unfolded append_applied_def]] recorded(1) v3 by simp
      next
        case again
        then show ?thesis using apply_setting_Inr [OF again tok] x v4 hinted_here by auto
      qed
    qed
    then show ?thesis using x by auto
  qed
qed

end

lemma locked_run:
  assumes "with_mutation_lock sha tid (raise e) m w = (r, w')"
    and "keeps (\<lambda>v v'. w_advisory v' = w_advisory v) m"
  shows "w_advisory w' = w_advisory w \<and>
    ((\<exists>x. r = Inl x) \<and> w_target w' = w_target w \<and> w_db w' = w_db w \<or>
     target_lock_key sha tid \<notin> set (w_advisory w) \<and>
     (\<exists>v v'. w_db v = w_db w \<and> w_target v = w_target w \<and> m v = (r, v') \<and> w_db w' = w_db v' \<and> w_target w' = w_target v'))"
proof -
  let ?k = "target_lock_key sha tid"
  obtain x v where t: "try_acquire sha tid w = (x, v)" by fastforce
  note tc = try_acquire_cases [OF t]
  show ?thesis
  proof (cases "x = Inr (Some ?k)")
    case True
    obtain y v' where m: "m v = (y, v')" by fastforce
    have w': "r = y" "w' = release ?k v'"
      using assms(1) t True m by (simp_all add: with_mutation_lock_def bnd_apply [of "try_acquire sha tid"] finally_do_apply)
    have v: "w_db v = w_db w" "w_target v = w_target w" "?k \<notin> set (w_advisory w)" "w_advisory v = ?k # w_advisory w"
      using tc True by auto
    have "w_advisory v' = w_advisory v" using keepsD [OF assms(2) m] .
    then have "w_advisory w' = w_advisory w" "w_db w' = w_db v'" "w_target w' = w_target v'" using w'(2) v(4) by (simp_all add: release_def)
    then show ?thesis using v m w'(1) by blast
  next
    case False
    then show ?thesis using assms(1) t tc by (auto simp: with_mutation_lock_def bnd_apply)
  qed
qed

text \<open>
  C38. A durable deployment of a query setting fails closed. Whatever the outcome, the lock is released, and if the
  target changed then nobody else held its lock, the named indexes existed, the setting was absent or a row
  of an earlier call for the same action and evidence that is not applied was on record, the row of the intent is on record, and the change is that of
  the one setting. A deployment that returns leaves the setting in place, its row applied and the event
  in the ledger.
\<close>

theorem durable_setting_fails_closed:
  assumes ad: "database_adapter ad cols idx hint ok" and ok: "ok (w_target w)"
    and run: "deploy_setting sha stamp ad tid a ev rid w = (r, w')"
  shows "w_advisory w' = w_advisory w \<and>
    (w_target w' = w_target w \<or>
      hinted cols idx hint (sa_collection a) (sa_query_shape_hash a) (Some (sa_allowed_indexes a)) (w_target w) (w_target w') \<and>
      target_lock_key sha tid \<notin> set (w_advisory w) \<and>
      set (sa_allowed_indexes a) \<subseteq> ix_name ` set (idx (w_target w) (sa_collection a)) \<and>
      (hint (w_target w) (sa_collection a) (sa_query_shape_hash a) = None \<or>
        (\<exists>x\<in>set (db_settings_deployments (w_db w)). sy_idempotency_key x = settings_key sha tid a ev \<and>
           sy_action_fingerprint x = settings_fingerprint sha a \<and> sy_status x \<noteq> ''APPLIED'')) \<and>
      (\<exists>x\<in>set (db_settings_deployments (w_db w')). sy_idempotency_key x = settings_key sha tid a ev \<and>
         sy_action_fingerprint x = settings_fingerprint sha a)) \<and>
    (\<forall>y. r = Inr y \<longrightarrow> hint (w_target w') (sa_collection a) (sa_query_shape_hash a) = Some (sa_allowed_indexes a) \<and>
       settled ''APPLIED'' ''QUERY_SETTINGS_APPLIED'' y (w_db w'))"
proof -
  have key: "\<exists>x\<in>set (db_settings_deployments (w_db v)). sy_idempotency_key x = k \<and> sy_action_fingerprint x = fp"
    if "SettingsIntent i k fp \<in> intents v" for i k fp and v :: "'a world"
    using that by (auto simp: intents_def deploy_key_def settings_intent_def)
  have frame: "keeps (\<lambda>v v'. w_advisory v' = w_advisory v) (deploy_setting_locked sha stamp ad tid a ev rid)"
    using database_adapter.deploy_setting_locked_frame [OF ad, of sha stamp tid a ev rid]
    by (simp add: keeps_def database_adapter.one_effect_def [OF ad])
  from locked_run [OF run [unfolded deploy_setting_def] frame] show ?thesis
  proof (elim conjE disjE exE)
    fix v v' assume adv: "w_advisory w' = w_advisory w" "target_lock_key sha tid \<notin> set (w_advisory w)"
      and v: "w_db v = w_db w" "w_target v = w_target w" and m: "deploy_setting_locked sha stamp ad tid a ev rid v = (r, v')"
      and w': "w_db w' = w_db v'" "w_target w' = w_target v'"
    have okv: "ok (w_target v)" using ok v by simp
    have iw: "intents w' = intents v'" using w'(1) by (simp add: intents_def)
    have "w_target w' = w_target w \<or> hinted cols idx hint (sa_collection a) (sa_query_shape_hash a) (Some (sa_allowed_indexes a)) (w_target w) (w_target w') \<and>
      set (sa_allowed_indexes a) \<subseteq> ix_name ` set (idx (w_target w) (sa_collection a)) \<and>
      (hint (w_target w) (sa_collection a) (sa_query_shape_hash a) = None \<or>
        (\<exists>x\<in>set (db_settings_deployments (w_db w)). sy_idempotency_key x = settings_key sha tid a ev \<and>
           sy_action_fingerprint x = settings_fingerprint sha a \<and> sy_status x \<noteq> ''APPLIED'')) \<and>
      (\<exists>i. SettingsIntent i (settings_key sha tid a ev) (settings_fingerprint sha a) \<in> intents w')"
      using database_adapter.deploy_setting_locked_changes [OF ad m okv] unfolding iw
      by (simp add: database_adapter.setting_changed_def [OF ad] database_adapter.setting_permitted_def [OF ad] v w')
    moreover have "\<forall>y. r = Inr y \<longrightarrow> hint (w_target w') (sa_collection a) (sa_query_shape_hash a) = Some (sa_allowed_indexes a) \<and>
       settled ''APPLIED'' ''QUERY_SETTINGS_APPLIED'' y (w_db w')"
      using database_adapter.deploy_setting_locked_Inr [OF ad _ okv] m w' by auto
    ultimately show ?thesis using adv key by blast
  qed simp_all
qed

subsection \<open>What a rollback may do\<close>

text \<open>The intent of a rollback, or its completion, is on record.\<close>

definition rolling :: "string \<Rightarrow> 't world \<Rightarrow> bool" where
  "rolling i w \<longleftrightarrow> (\<exists>y\<in>set (db_settings_deployments (w_db w)). row_id y = i \<and> sy_status y \<in> {''ROLLBACK_INTENT'', ''ROLLED_BACK''})"

definition still_rolling :: "string \<Rightarrow> 't world \<Rightarrow> 't world \<Rightarrow> bool" where
  "still_rolling i w w' \<longleftrightarrow> (rolling i w \<longrightarrow> rolling i w')"

lemma still_rolling_db: "db_settings_deployments (w_db w') = db_settings_deployments (w_db w) \<Longrightarrow> still_rolling i w w'"
  by (simp add: still_rolling_def rolling_def)

lemma still_rolling_bnd: "keeps (still_rolling i) m \<Longrightarrow> (\<And>x. keeps (still_rolling i) (f x)) \<Longrightarrow> keeps (still_rolling i) (bnd m f)"
  by (intro keeps_bnd transpI) (auto simp: still_rolling_def)

lemma append_once_settings:
  assumes "append_once sha stamp x event before planned after forward inverse_action ev w = (r, w')"
  shows "db_settings_deployments (w_db w') = db_settings_deployments (w_db w)"
proof (cases r)
  case (Inr u)
  then show ?thesis using append_once_Inr assms by fastforce
next
  case (Inl e)
  then consider "w_db w' = w_db w"
    | v where "pg_append sha stamp (settings_event x event before planned after forward inverse_action ev) (tick w) = (Inl e, w')"
    using assms by (cases "w_faults w (w_reads w)")
      (auto simp: append_once_def engine_connect_def bnd_Inl_iff world_apply split: if_splits)
  then show ?thesis by cases (auto dest!: pg_append_Inl)
qed

lemma mark_still_rolling:
  assumes "st \<in> {''ROLLBACK_INTENT'', ''ROLLED_BACK''}" and "mark_settings j st after w = (r, w')"
  shows "still_rolling i w w'"
proof (cases r)
  case (Inl e)
  then have "w_db w' = w_db w" using assms(2) engine_begin_Inl unfolding mark_settings_def by blast
  then show ?thesis by (simp add: still_rolling_db)
next
  case (Inr y)
  let ?t = "w_clock w (Suc (w_reads w))"
  have d: "db_settings_deployments (w_db w') = map (\<lambda>x. if row_id x = j then x\<lparr>sy_status := st, sy_after_state := Some after,
      row_updated_at := Some ?t\<rparr> else x) (db_settings_deployments (w_db w))"
    using assms(2) Inr by (auto simp: mark_settings_def engine_begin_Inr world_apply settings_deployments_table_def elim!: bnd_InrE)
  show ?thesis
    unfolding still_rolling_def
  proof
    assume "rolling i w"
    then obtain z where z: "z \<in> set (db_settings_deployments (w_db w))" "row_id z = i" "sy_status z \<in> {''ROLLBACK_INTENT'', ''ROLLED_BACK''}"
      by (auto simp: rolling_def)
    let ?z = "if row_id z = j then z\<lparr>sy_status := st, sy_after_state := Some after, row_updated_at := Some ?t\<rparr> else z"
    have "?z \<in> set (db_settings_deployments (w_db w'))" using z(1) unfolding d by auto
    moreover have "row_id ?z = i" "sy_status ?z \<in> {''ROLLBACK_INTENT'', ''ROLLED_BACK''}" using z assms(1) by auto
    ultimately show "rolling i w'" unfolding rolling_def by blast
  qed
qed

lemma mark_starts_rolling:
  assumes "mark_settings i ''ROLLBACK_INTENT'' after w = (Inr y, w')"
  shows "rolling i w'"
proof -
  from mark_settings_Inr [OF assms] have "y \<in> set (db_settings_deployments (w_db w'))" "row_id y = i" "sy_status y = ''ROLLBACK_INTENT''"
    by (auto dest: filter_one)
  then show ?thesis unfolding rolling_def by blast
qed

lemma restore_still_rolling: "keeps (still_rolling i) (restore_setting sha stamp ad ev x a)"
proof -
  have t: "keeps (still_rolling i) (on_world_target m)" for m :: "('t, 'b) oper"
    by (simp add: keeps_def on_world_target_apply still_rolling_db)
  have "keeps (still_rolling i) (append_rolled_back sha stamp y x a h ev)" for y h
    unfolding append_rolled_back_def by (rule keepsI) (blast intro: still_rolling_db append_once_settings)
  moreover have "keeps (still_rolling i) (mark_settings j ''ROLLED_BACK'' st)" for j st
    by (rule keepsI) (blast intro: mark_still_rolling)
  moreover have "keeps (still_rolling i) (settings_unless b c)" "keeps (still_rolling i) (ret y)" for b c and y :: settings_deployment_row
    by (simp_all add: keeps_def settings_unless_def still_rolling_db)
  ultimately show ?thesis
    unfolding restore_setting_def Let_def impose_hint_def observe_hint_def by (intro still_rolling_bnd t)
qed

context database_adapter
begin

lemma restore_once: "keeps (one_effect (\<lambda>_. True) (setting_changed a (sa_previous_allowed_indexes a))) (restore_setting sha stamp ad ev x a)"
  unfolding restore_setting_def Let_def by (intro once_then impose_once, (intro watching)+)

lemma rollback_setting_locked_changes:
  assumes run: "rollback_setting_locked sha stamp ad ev x a w = (r, w')" and ok: "inv (w_target w)"
  shows "w_target w' = w_target w \<or> setting_changed a (sa_previous_allowed_indexes a) (w_target w) (w_target w') \<and>
    sy_status x \<noteq> ''ROLLED_BACK'' \<and> hint (w_target w) (sa_collection a) (sa_query_shape_hash a) = Some (sa_allowed_indexes a) \<and>
    rolling (row_id x) w'"
proof -
  have quiet: ?thesis if "watches w w'" using that ok by (simp add: watches_def)
  let ?al = "Some (sa_allowed_indexes a)" and ?pr = "sa_previous_allowed_indexes a"
  show ?thesis
    using run unfolding rollback_setting_locked_def Let_def
  proof (rule watches_bndE [OF _ settings_reads(1)])
    let ?A = "\<lambda>h. bnd (settings_unless (h = ?pr) ''QUERY_SETTINGS_ROLLBACK_DRIFT'') (\<lambda>_.
          bnd (append_rolled_back sha stamp x x a h ev) (\<lambda>_. ret x))"
    let ?B = "\<lambda>h. bnd (mark_settings (row_id x) ''ROLLED_BACK'' (settings_state a h)) (\<lambda>y.
          bnd (append_rolled_back sha stamp y x a h ev) (\<lambda>_. ret y))"
    let ?C = "\<lambda>h. bnd (settings_unless (h = ?al) ''QUERY_SETTINGS_OWNERSHIP_DRIFT'') (\<lambda>_.
          bnd (mark_settings (row_id x) ''ROLLBACK_INTENT'' (settings_state a h)) (\<lambda>_. restore_setting sha stamp ad ev x a))"
    fix h v assume 1: "observe_hint ad a w = (Inr h, v)"
      and rest: "(if sy_status x = ''ROLLED_BACK'' then ?A h else if h = ?pr \<and> sy_status x = ''ROLLBACK_INTENT'' then ?B h else ?C h) v = (r, w')"
    have v: "v = w" "h = hint (w_target w) (sa_collection a) (sa_query_shape_hash a)" using observe_hint_Inr [OF 1 ok] by simp_all
    have "keeps watches (?A h)" "keeps watches (?B h)" by (intro watching)+
    then have "watches w w' \<or> sy_status x \<noteq> ''ROLLED_BACK'' \<and> ?C h w = (r, w')" using rest v(1) by (auto dest: keepsD split: if_splits)
    then show ?thesis
    proof (elim disjE conjE)
      assume st: "sy_status x \<noteq> ''ROLLED_BACK''" and "?C h w = (r, w')"
      from this(2) show ?thesis
      proof (elim watches_bndE [OF _ settings_marks(1)] watches_bndE [OF _ settings_marks(5)])
        fix u v1 y v2
        assume c: "settings_unless (h = ?al) ''QUERY_SETTINGS_OWNERSHIP_DRIFT'' w = (Inr u, v1)"
          and m: "mark_settings (row_id x) ''ROLLBACK_INTENT'' (settings_state a h) v1 = (Inr y, v2)"
          and ww: "watches w v1" "watches v1 v2" and rs: "restore_setting sha stamp ad ev x a v2 = (r, w')"
        have "rolling (row_id x) w'"
          using keepsD [OF restore_still_rolling rs] mark_starts_rolling [OF m] unfolding still_rolling_def by blast
        moreover have "w_target v2 = w_target w" "inv (w_target v2)" using ww ok by (simp_all add: watches_def)
        ultimately show ?thesis using keepsD [OF restore_once rs] c v(2) st by (auto simp: one_effect_def)
      qed (use quiet watches_trans in blast)+
    qed (rule quiet)
  qed (rule quiet)
qed

lemma rollback_setting_locked_frame: "keeps (one_effect (\<lambda>_. True) (\<lambda>_ _. True)) (rollback_setting_locked sha stamp ad ev x a)"
proof -
  have r: "keeps (one_effect (\<lambda>_. True) (\<lambda>_ _. True)) (restore_setting sha stamp ad ev x a)"
    using restore_once [of a sha stamp ev x] by (auto simp: keeps_def one_effect_def)
  have branches: "keeps (one_effect (\<lambda>_. True) (\<lambda>_ _. True)) (if b then m else if c then n else p)"
    if "keeps watches m" "keeps watches n" "keeps (one_effect (\<lambda>_. True) (\<lambda>_ _. True)) p" for b c m n p
    using that by (simp add: once_unless)
  show ?thesis unfolding rollback_setting_locked_def Let_def by (intro once_after branches r watching)
qed

lemma restore_setting_Inr:
  assumes run: "restore_setting sha stamp ad ev x a w = (Inr y, w')" and ok: "inv (w_target w)"
    and x: "x' \<in> set (db_settings_deployments (w_db w))" "row_id x' = row_id x"
  shows "setting_changed a (sa_previous_allowed_indexes a) (w_target w) (w_target w') \<and>
    settled ''ROLLED_BACK'' ''QUERY_SETTINGS_ROLLED_BACK'' y (w_db w')"
proof -
  from run obtain u v1 h v2 v3 u4 where 1: "impose_hint ad a (sa_previous_allowed_indexes a) w = (Inr u, v1)"
    and 2: "observe_hint ad a v1 = (Inr h, v2)" and 3: "mark_settings (row_id x) ''ROLLED_BACK'' (settings_state a h) v2 = (Inr y, v3)"
    and 4: "append_rolled_back sha stamp y x a h ev v3 = (Inr u4, w')"
    by (auto simp: restore_setting_def Let_def elim!: bnd_InrE)
  note i = impose_Inr [OF 1 ok]
  have v2: "v2 = v1" using observe_hint_Inr [OF 2] i by simp
  have "watches v2 w'" using keepsD [OF settings_marks(5) 3] keepsD [OF settings_appends(2) 4] by (rule watches_trans)
  then have "w_target w' = w_target v1" using i v2 by (simp add: watches_def)
  moreover have "settled ''ROLLED_BACK'' ''QUERY_SETTINGS_ROLLED_BACK'' y (w_db w')"
    using settle_Inr [OF 3 [folded x(2)] _ 4 [unfolded append_rolled_back_def]] x(1) i v2 by simp
  ultimately show ?thesis using i by simp
qed

lemma rollback_setting_locked_Inr:
  assumes run: "rollback_setting_locked sha stamp ad ev x a w = (Inr y, w')" and ok: "inv (w_target w)"
    and x: "x \<in> set (db_settings_deployments (w_db w))"
  shows "hint (w_target w') (sa_collection a) (sa_query_shape_hash a) = sa_previous_allowed_indexes a \<and>
    settled ''ROLLED_BACK'' ''QUERY_SETTINGS_ROLLED_BACK'' y (w_db w') \<and>
    (sy_status x = ''APPLIED'' \<longrightarrow> setting_changed a (sa_previous_allowed_indexes a) (w_target w) (w_target w'))"
proof -
  let ?al = "Some (sa_allowed_indexes a)" and ?pr = "sa_previous_allowed_indexes a"
  let ?A = "\<lambda>h. bnd (settings_unless (h = ?pr) ''QUERY_SETTINGS_ROLLBACK_DRIFT'') (\<lambda>_.
        bnd (append_rolled_back sha stamp x x a h ev) (\<lambda>_. ret x))"
  let ?B = "\<lambda>h. bnd (mark_settings (row_id x) ''ROLLED_BACK'' (settings_state a h)) (\<lambda>y.
        bnd (append_rolled_back sha stamp y x a h ev) (\<lambda>_. ret y))"
  let ?C = "\<lambda>h. bnd (settings_unless (h = ?al) ''QUERY_SETTINGS_OWNERSHIP_DRIFT'') (\<lambda>_.
        bnd (mark_settings (row_id x) ''ROLLBACK_INTENT'' (settings_state a h)) (\<lambda>_. restore_setting sha stamp ad ev x a))"
  from run obtain h v where 1: "observe_hint ad a w = (Inr h, v)"
    and rest: "(if sy_status x = ''ROLLED_BACK'' then ?A h else if h = ?pr \<and> sy_status x = ''ROLLBACK_INTENT'' then ?B h else ?C h) v = (Inr y, w')"
    unfolding rollback_setting_locked_def Let_def by (rule bnd_InrE)
  have v: "v = w" "h = hint (w_target w) (sa_collection a) (sa_query_shape_hash a)" using observe_hint_Inr [OF 1 ok] by simp_all
  consider (done') "sy_status x = ''ROLLED_BACK''" "?A h w = (Inr y, w')" | (found) "h = ?pr" "sy_status x = ''ROLLBACK_INTENT''" "?B h w = (Inr y, w')"
    | (change) "?C h w = (Inr y, w')"
    using rest v(1) by (cases "sy_status x = ''ROLLED_BACK''"; cases "h = ?pr \<and> sy_status x = ''ROLLBACK_INTENT''") (simp_all only: if_True if_False refl simp_thms)
  then show ?thesis
  proof cases
    case done'
    then have a: "h = ?pr" "append_rolled_back sha stamp x x a h ev w = (Inr (), w')" "y = x" by (auto elim!: bnd_InrE)
    have "w_target w' = w_target w" using keepsD [OF settings_appends(2) a(2)] ok by (simp add: watches_def)
    then show ?thesis using append_once_Inr [OF a(2) [unfolded append_rolled_back_def]] a v x done'(1) by (auto simp: settled_def)
  next
    case found
    then obtain z u where b: "mark_settings (row_id x) ''ROLLED_BACK'' (settings_state a h) w = (Inr y, z)"
      "append_rolled_back sha stamp y x a h ev z = (Inr u, w')" by (auto elim!: bnd_InrE)
    have "watches w w'" using keepsD [OF settings_marks(5) b(1)] keepsD [OF settings_appends(2) b(2)] by (rule watches_trans)
    then have "w_target w' = w_target w" using ok by (simp add: watches_def)
    then show ?thesis using settle_Inr [OF b(1) x b(2) [unfolded append_rolled_back_def]] found(1,2) v by simp
  next
    case change
    then obtain y1 v2 where m: "mark_settings (row_id x) ''ROLLBACK_INTENT'' (settings_state a h) w = (Inr y1, v2)"
      and r: "restore_setting sha stamp ad ev x a v2 = (Inr y, w')" by (auto elim!: bnd_InrE)
    have t: "w_target v2 = w_target w" using keepsD [OF settings_marks(5) m] ok by (simp add: watches_def)
    from mark_settings_Inr [OF m] have "y1 \<in> set (db_settings_deployments (w_db v2))" "row_id y1 = row_id x" by (auto dest: filter_one)
    from restore_setting_Inr [OF r _ this] t ok show ?thesis by (simp add: setting_changed_def hinted_def)
  qed
qed

end

lemma rollback_setting_cases:
  assumes "rollback_setting sha stamp ad i ev w = (r, w')"
  shows "(\<exists>e. r = Inl e) \<and> w_target w' = w_target w \<and> w_advisory w' = w_advisory w \<or>
    (\<exists>x a v. filter (\<lambda>x. row_id x = i) (db_settings_deployments (w_db w)) = [x] \<and>
       sy_status x \<in> {''APPLIED'', ''ROLLBACK_INTENT'', ''ROLLED_BACK''} \<and> setting_of_row x = Inr a \<and> v = tick w \<and>
       with_mutation_lock sha (sy_target_id x) (raise (DurableQuerySettingsError ''TARGET_LOCK_UNAVAILABLE''))
         (rollback_setting_locked sha stamp ad ev x a) v = (r, w'))"
proof -
  obtain f v where f: "settings_by_id i w = (f, v)" by fastforce
  have tv: "w_target v = w_target w \<and> w_advisory v = w_advisory w"
    using f by (auto simp: settings_by_id_def engine_connect_def bnd_apply world_apply split: if_splits)
  show ?thesis
  proof (cases "\<exists>x a. f = Inr (Some x) \<and> sy_status x \<in> {''APPLIED'', ''ROLLBACK_INTENT'', ''ROLLED_BACK''} \<and> setting_of_row x = Inr a")
    case True
    then obtain x a where x: "f = Inr (Some x)" "sy_status x \<in> {''APPLIED'', ''ROLLBACK_INTENT'', ''ROLLED_BACK''}" "setting_of_row x = Inr a"
      by blast
    have "bnd (settings_unless True c) g v = g () v" for c and g :: "unit \<Rightarrow> ('a world, settings_deployment_row) oper"
      by (simp add: settings_unless_def ensure_def)
    note pass = this
    have "v = tick w" "filter (\<lambda>x. row_id x = i) (db_settings_deployments (w_db w)) = [x]"
      using settings_select_Inr(2) [OF f [unfolded x(1)]] by simp_all
    moreover have "with_mutation_lock sha (sy_target_id x) (raise (DurableQuerySettingsError ''TARGET_LOCK_UNAVAILABLE''))
         (rollback_setting_locked sha stamp ad ev x a) v = (r, w')"
      using assms f x(2) unfolding rollback_setting_def bnd_apply [of "settings_by_id i"] by (simp add: x(1,3) pass bnd_step [of "lift _"])
    ultimately show ?thesis using x by blast
  next
    case False
    have "(\<exists>e. r = Inl e) \<and> w' = v"
    proof (cases f)
      case (Inl e)
      then show ?thesis using assms f by (auto simp: rollback_setting_def bnd_stop)
    next
      case (Inr y)
      note step = assms [unfolded rollback_setting_def bnd_apply [of "settings_by_id i"] f Inr prod.case sum.case]
      show ?thesis
      proof (cases y)
        case None
        then show ?thesis using step by auto
      next
        case (Some x)
        then show ?thesis using step False Inr
          by (cases "sy_status x \<in> {''APPLIED'', ''ROLLBACK_INTENT'', ''ROLLED_BACK''}"; cases "setting_of_row x")
            (auto simp: settings_unless_def ensure_def bnd_apply [of "lift _"])
      qed
    qed
    then show ?thesis using tv by auto
  qed
qed

text \<open>What the row of a deployment says of its setting, read from its columns.\<close>

definition row_describes :: "settings_deployment_row \<Rightarrow> set_hint_action \<Rightarrow> bool" where
  "row_describes x a \<longleftrightarrow> sy_query_shape_hash x = sa_query_shape_hash a \<and>
     (\<exists>b p names. sy_before_state x = JObj b \<and> sy_intended_state x = JObj p \<and>
        map_of b ''database'' = Some (JStr (sa_database a)) \<and> map_of b ''collection'' = Some (JStr (sa_collection a)) \<and>
        map_of b ''allowed_indexes'' = Some (case sa_previous_allowed_indexes a of None \<Rightarrow> JNull | Some xs \<Rightarrow> JArr (map JStr xs)) \<and>
        map_of p ''allowed_indexes'' = Some names \<and> tuple_of names = Inr (JArr (map JStr (sa_allowed_indexes a))))"

lemma json_item_Inr: "json_item j k = Inr v \<longleftrightarrow> (\<exists>kvs. j = JObj kvs \<and> map_of kvs k = Some v)"
  by (auto simp: json_item_def split: json.splits option.splits)

lemma setting_of_row_describes:
  assumes "setting_of_row x = Inr a"
  shows "row_describes x a"
proof -
  from assms obtain db co names allowed previous where
    r: "json_item (sy_before_state x) ''database'' = Inr db" "json_item (sy_before_state x) ''collection'' = Inr co"
      "json_item (sy_intended_state x) ''allowed_indexes'' = Inr names" "tuple_of names = Inr allowed"
      "json_item (sy_before_state x) ''allowed_indexes'' = Inr previous"
    and v: "set_hint_validate [(''action_type'', JStr ''SET_QUERY_SETTINGS_INDEX_HINT''), (''database'', db), (''collection'', co),
       (''query_shape_hash'', JStr (sy_query_shape_hash x)), (''allowed_indexes'', allowed), (''previous_allowed_indexes'', previous)] = Inr a"
    by (auto simp: setting_of_row_def sbind_Inr_iff)
  from v have h: "db = JStr (sa_database a)" "co = JStr (sa_collection a)" "sy_query_shape_hash x = sa_query_shape_hash a"
      "allowed = JArr (map JStr (sa_allowed_indexes a))" "nullable (as_list as_string) previous = Some (sa_previous_allowed_indexes a)"
    unfolding set_hint_validate_Inr by (simp_all add: names_json_def with_default_def)
  from h(5) have "previous = (case sa_previous_allowed_indexes a of None \<Rightarrow> JNull | Some xs \<Rightarrow> JArr (map JStr xs))"
    by (cases "sa_previous_allowed_indexes a") (auto simp: reader_Some(5) names_read split: if_splits)
  then show ?thesis using r h(1-4) by (auto simp: row_describes_def json_item_Inr)
qed

text \<open>
  A durable rollback of a query setting touches only what the optimizer owns. Whatever the outcome, the lock is
  released, and if the target changed then the row of the deployment was applied (or its rollback
  begun), nobody else held the lock, the setting was exactly the one that the row intended, the rollback is
  on record, and the change restores exactly the setting that the row found before the deployment. A rollback that returns
  leaves that setting in place, the row rolled back and the event in the ledger.
\<close>

theorem durable_setting_rollback_is_exact:
  assumes ad: "database_adapter ad cols idx hint ok" and ok: "ok (w_target w)"
    and run: "rollback_setting sha stamp ad i ev w = (r, w')"
  shows "w_advisory w' = w_advisory w \<and>
    (w_target w' = w_target w \<or>
      (\<exists>x a. x \<in> set (db_settings_deployments (w_db w)) \<and> row_id x = i \<and> sy_status x \<in> {''APPLIED'', ''ROLLBACK_INTENT''} \<and>
         row_describes x a \<and> target_lock_key sha (sy_target_id x) \<notin> set (w_advisory w) \<and>
         hint (w_target w) (sa_collection a) (sa_query_shape_hash a) = Some (sa_allowed_indexes a) \<and>
         hinted cols idx hint (sa_collection a) (sa_query_shape_hash a) (sa_previous_allowed_indexes a) (w_target w) (w_target w') \<and>
         (\<exists>y\<in>set (db_settings_deployments (w_db w')). row_id y = i \<and> sy_status y \<in> {''ROLLBACK_INTENT'', ''ROLLED_BACK''}))) \<and>
    (\<forall>y. r = Inr y \<longrightarrow> (\<exists>x a. x \<in> set (db_settings_deployments (w_db w)) \<and> row_id x = i \<and> row_describes x a \<and>
       hint (w_target w') (sa_collection a) (sa_query_shape_hash a) = sa_previous_allowed_indexes a \<and>
       settled ''ROLLED_BACK'' ''QUERY_SETTINGS_ROLLED_BACK'' y (w_db w')))"
  using rollback_setting_cases [OF run]
proof (elim disjE conjE exE)
  fix x a v assume f: "filter (\<lambda>x. row_id x = i) (db_settings_deployments (w_db w)) = [x]"
    and st: "sy_status x \<in> {''APPLIED'', ''ROLLBACK_INTENT'', ''ROLLED_BACK''}" and a: "setting_of_row x = Inr a" and v: "v = tick w"
    and lock: "with_mutation_lock sha (sy_target_id x) (raise (DurableQuerySettingsError ''TARGET_LOCK_UNAVAILABLE''))
         (rollback_setting_locked sha stamp ad ev x a) v = (r, w')"
  have x: "x \<in> set (db_settings_deployments (w_db w))" "row_id x = i" using filter_one [OF f] by simp_all
  have frame: "keeps (\<lambda>v v'. w_advisory v' = w_advisory v) (rollback_setting_locked sha stamp ad ev x a)"
    using database_adapter.rollback_setting_locked_frame [OF ad, of sha stamp ev x a]
    by (simp add: keeps_def database_adapter.one_effect_def [OF ad])
  from locked_run [OF lock frame] show ?thesis
  proof (elim conjE disjE exE)
    fix v1 v2 assume adv: "w_advisory w' = w_advisory v" "target_lock_key sha (sy_target_id x) \<notin> set (w_advisory v)"
      and v1: "w_db v1 = w_db v" "w_target v1 = w_target v" and m: "rollback_setting_locked sha stamp ad ev x a v1 = (r, v2)"
      and w': "w_db w' = w_db v2" "w_target w' = w_target v2"
    have okv: "ok (w_target v1)" using ok v v1 by simp
    have "w_target w' = w_target w \<or> hinted cols idx hint (sa_collection a) (sa_query_shape_hash a) (sa_previous_allowed_indexes a) (w_target w) (w_target w') \<and>
        sy_status x \<noteq> ''ROLLED_BACK'' \<and> hint (w_target w) (sa_collection a) (sa_query_shape_hash a) = Some (sa_allowed_indexes a) \<and> rolling i w'"
      using database_adapter.rollback_setting_locked_changes [OF ad m okv]
      by (simp add: database_adapter.setting_changed_def [OF ad] v v1 w' x(2) rolling_def)
    moreover have "hint (w_target w') (sa_collection a) (sa_query_shape_hash a) = sa_previous_allowed_indexes a \<and>
       settled ''ROLLED_BACK'' ''QUERY_SETTINGS_ROLLED_BACK'' y (w_db w')" if "r = Inr y" for y
      using database_adapter.rollback_setting_locked_Inr [OF ad m [unfolded that] okv] x(1) by (simp add: v v1 w')
    ultimately show ?thesis using adv x setting_of_row_describes [OF a] st v unfolding rolling_def by auto
  qed (auto simp: v)
qed auto

subsection \<open>Deployment and rollback\<close>

lemma json_item_state:
  "json_item (settings_state a h) ''database'' = Inr (JStr (sa_database a))"
  "json_item (settings_state a h) ''collection'' = Inr (JStr (sa_collection a))"
  "json_item (settings_state a h) ''allowed_indexes'' = Inr (option_json names_json h)"
  by (simp_all add: json_item_def settings_state_def)

lemma setting_of_new_row:
  assumes "restamped (new_settings_row sha tid a ev rid (settings_state a h) (settings_state a (Some (sa_allowed_indexes a))) i t) y"
    and "setting_of_row y = Inr b"
  shows "b = a\<lparr>sa_previous_allowed_indexes := h\<rparr>"
proof -
  have "sy_before_state y = settings_state a h" "sy_intended_state y = settings_state a (Some (sa_allowed_indexes a))"
    "sy_query_shape_hash y = sa_query_shape_hash a"
    using restamped_sel [OF assms(1)] by (simp_all add: new_settings_row_def)
  moreover have "tuple_of (option_json names_json (Some xs)) = Inr (names_json xs)" for xs
    by (simp add: tuple_of_def option_json_def names_json_def)
  ultimately have "set_hint_validate (set_hint_dump (a\<lparr>sa_previous_allowed_indexes := h\<rparr>)) = Inr b"
    using assms(2) by (simp add: setting_of_row_def json_item_state set_hint_dump_def)
  then show ?thesis
    by (cases a) (auto simp: set_hint_validate_def set_hint_dump_def only_keys_def set_hint_keys_def has_type_def with_default_def
        required_def names_roundtrip nullable_names_roundtrip split: if_splits)
qed

text \<open>
  Deploying a query setting for the first time and rolling its row back restores the target: collections,
  indexes and every setting are as they were.
\<close>

theorem durable_setting_restored:
  assumes ad: "database_adapter ad cols idx hint ok" and ok: "ok (w_target w)"
    and new: "\<forall>x\<in>set (db_settings_deployments (w_db w)). sy_idempotency_key x \<noteq> settings_key sha tid a ev"
    and deployed: "deploy_setting sha stamp ad tid a ev rid w = (Inr y, w1)"
    and kept: "w_db v = w_db w1" "w_target v = w_target w1"
    and undone: "rollback_setting sha stamp ad (row_id y) ev' v = (Inr z, w2)"
  shows "cols (w_target w2) = cols (w_target w) \<and> idx (w_target w2) = idx (w_target w) \<and> hint (w_target w2) = hint (w_target w)"
proof -
  let ?c = "sa_collection a" and ?q = "sa_query_shape_hash a"
  have frame: "keeps (\<lambda>v v'. w_advisory v' = w_advisory v) (deploy_setting_locked sha stamp ad tid a ev rid)"
    using database_adapter.deploy_setting_locked_frame [OF ad, of sha stamp tid a ev rid]
    by (simp add: keeps_def database_adapter.one_effect_def [OF ad])
  from locked_run [OF deployed [unfolded deploy_setting_def] frame] obtain u u' where u: "w_db u = w_db w" "w_target u = w_target w"
    and m: "deploy_setting_locked sha stamp ad tid a ev rid u = (Inr y, u')" and w1: "w_db w1 = w_db u'" "w_target w1 = w_target u'" by auto
  from database_adapter.deploy_setting_locked_Inr [OF ad m] ok new u w1 obtain i t where set: "settled ''APPLIED'' ''QUERY_SETTINGS_APPLIED'' y (w_db w1)"
    and none: "hint (w_target w) ?c ?q = None" and h1: "hinted cols idx hint ?c ?q (Some (sa_allowed_indexes a)) (w_target w) (w_target w1)"
    and ok1: "ok (w_target w1)"
    and mk: "restamped (new_settings_row sha tid a ev rid (settings_state a None) (settings_state a (Some (sa_allowed_indexes a))) i t) y"
    by (auto simp: database_adapter.setting_changed_def [OF ad])
  from rollback_setting_cases [OF undone] obtain x b where f: "filter (\<lambda>x. row_id x = row_id y) (db_settings_deployments (w_db v)) = [x]"
    and b: "setting_of_row x = Inr b"
    and lock: "with_mutation_lock sha (sy_target_id x) (raise (DurableQuerySettingsError ''TARGET_LOCK_UNAVAILABLE''))
         (rollback_setting_locked sha stamp ad ev' x b) (tick v) = (Inr z, w2)" by auto
  have "y \<in> set (filter (\<lambda>x. row_id x = row_id y) (db_settings_deployments (w_db v)))" using set kept by (simp add: settled_def)
  then have xy: "x = y" by (simp only: f) simp
  have ba: "b = a\<lparr>sa_previous_allowed_indexes := None\<rparr>" using setting_of_new_row [OF mk] b xy by simp
  have frame2: "keeps (\<lambda>v v'. w_advisory v' = w_advisory v) (rollback_setting_locked sha stamp ad ev' x b)"
    using database_adapter.rollback_setting_locked_frame [OF ad, of sha stamp ev' x b]
    by (simp add: keeps_def database_adapter.one_effect_def [OF ad])
  from locked_run [OF lock frame2] obtain s s' where s: "w_db s = w_db v" "w_target s = w_target v"
    and m2: "rollback_setting_locked sha stamp ad ev' x b s = (Inr z, s')" and w2: "w_target w2 = w_target s'" by auto
  have "hinted cols idx hint ?c ?q None (w_target w1) (w_target w2)"
    using database_adapter.rollback_setting_locked_Inr [OF ad m2] set ok1 s kept xy ba w2
    by (simp add: settled_def database_adapter.setting_changed_def [OF ad])
  then show ?thesis using h1 none by (auto simp: hinted_def fun_eq_iff)
qed

subsection \<open>A hint deployed and rolled back\<close>

definition setting_stage :: "settings_deployment_row list \<Rightarrow> fake_db \<Rightarrow> int list \<Rightarrow> fake_db world \<Rightarrow> bool" where
  "setting_stage xs t locks w \<longleftrightarrow> calm w \<and> ids_below w \<and> db_settings_deployments (w_db w) = xs \<and> w_target w = t \<and> w_advisory w = locks"

lemma stage_tick: "setting_stage xs t locks w \<Longrightarrow> setting_stage xs t locks (tick w)"
  by (simp add: setting_stage_def)

lemma stage_reads:
  "setting_stage xs deployed_target locks w \<Longrightarrow> observe_hint fake_adapter hint_action w = (Inr None, w)"
  "setting_stage xs hinted_target locks w \<Longrightarrow> observe_hint fake_adapter hint_action w = (Inr (Some [''optimizer_1'']), w)"
  "setting_stage xs deployed_target locks w \<Longrightarrow> on_world_target (ad_list_indexes fake_adapter ''orders'') w = (Inr (fake_idx deployed_target ''orders''), w)"
proof -
  have same: "w\<lparr>w_target := w_target w\<rparr> = w" for w :: "fake_db world" by simp
  show "setting_stage xs deployed_target locks w \<Longrightarrow> observe_hint fake_adapter hint_action w = (Inr None, w)"
    "setting_stage xs hinted_target locks w \<Longrightarrow> observe_hint fake_adapter hint_action w = (Inr (Some [''optimizer_1'']), w)"
    using same [of w] by (auto simp: setting_stage_def observe_hint_def on_world_target_apply hint_reads)
  show "setting_stage xs deployed_target locks w \<Longrightarrow>
      on_world_target (ad_list_indexes fake_adapter ''orders'') w = (Inr (fake_idx deployed_target ''orders''), w)"
    using same [of w] by (auto simp: setting_stage_def on_world_target_apply fake_defs fake_idx_def)
qed

lemma stage_writes:
  "setting_stage xs deployed_target locks w \<Longrightarrow> \<exists>w'. impose_hint fake_adapter hint_action (Some [''optimizer_1'']) w = (Inr (), w') \<and> setting_stage xs hinted_target locks w'"
  "setting_stage xs hinted_target locks w \<Longrightarrow> \<exists>w'. impose_hint fake_adapter hint_action None w = (Inr (), w') \<and> setting_stage xs deployed_target locks w'"
  by (auto simp: setting_stage_def impose_hint_def on_world_target_apply hint_reads)

lemma stage_select:
  assumes "setting_stage xs t locks w"
  shows "xs = [] \<Longrightarrow> settings_by_key k w = (Inr None, tick w)" and "xs = [x] \<Longrightarrow> settings_by_id (row_id x) w = (Inr (Some x), tick w)"
  using assms calmD(1) [of w]
  by (simp_all add: setting_stage_def settings_by_key_def settings_by_id_def engine_connect_def bnd_apply world_apply
      settings_deployments_table_def one_or_none_def)

lemma stage_intent:
  assumes "setting_stage [] t locks w"
  shows "\<exists>i c w'. record_settings_intent sha tid a ev rid before planned w = (Inr (new_settings_row sha tid a ev rid before planned i c), w') \<and>
    setting_stage [new_settings_row sha tid a ev rid before planned i c] t locks w'"
  using assms calmD(1) [of w]
  by (auto simp: setting_stage_def record_settings_intent_def engine_begin_def tables_transaction_def bnd_apply world_apply
      settings_deployments_table_def insert_row_def ids_below_db)

lemma stage_mark:
  assumes "setting_stage [x] t locks w"
  shows "\<exists>y w'. mark_settings (row_id x) st after w = (Inr y, w') \<and> setting_stage [y] t locks w' \<and> restamped x y \<and> sy_status y = st"
  using assms calmD(1) [of w]
  by (auto simp: setting_stage_def mark_settings_def engine_begin_def tables_transaction_def bnd_apply world_apply
      settings_deployments_table_def the_one_def restamped_def ids_below_db)

lemma stage_append:
  assumes "setting_stage xs t locks w"
  shows "\<exists>w'. append_once sha stamp x event before planned after forward inverse_action ev w = (Inr (), w') \<and> setting_stage xs t locks w'"
proof (cases "settings_event_exists x event (w_db w)")
  case True
  then show ?thesis using assms calmD(1) [of w]
    by (auto simp: setting_stage_def append_once_def engine_connect_def bnd_apply world_apply)
next
  case False
  have "calm (tick w)" "ids_below (tick w)" using assms by (simp_all add: setting_stage_def)
  from append_calm [OF this, of sha stamp "settings_event x event before planned after forward inverse_action ev"]
  obtain e w' es where a: "pg_append sha stamp (settings_event x event before planned after forward inverse_action ev) (tick w) = (Inr e, w')"
    "calm w'" "ids_below w'" "w_target w' = w_target w" "w_advisory w' = w_advisory w" "w_db w' = (w_db w)\<lparr>db_production_ledger := es\<rparr>" by auto
  then show ?thesis using assms False calmD(1) [of w]
    by (intro exI [of _ w']) (simp add: setting_stage_def append_once_def engine_connect_def bnd_apply world_apply)
qed

lemma stage_lock:
  assumes "setting_stage xs t [] w" and "\<And>v. setting_stage xs t [target_lock_key sha tid] v \<Longrightarrow> \<exists>y v'. m v = (Inr y, v') \<and>
    setting_stage [y] t' [target_lock_key sha tid] v' \<and> P y"
  shows "\<exists>y w'. with_mutation_lock sha tid busy m w = (Inr y, w') \<and> setting_stage [y] t' [] w' \<and> P y"
proof -
  let ?k = "target_lock_key sha tid"
  let ?v = "(tick w)\<lparr>w_advisory := [?k]\<rparr>"
  have "setting_stage xs t [?k] ?v" using assms(1) by (simp add: setting_stage_def ids_below_def less_Suc_eq) blast
  then obtain y v' where m: "m ?v = (Inr y, v')" "setting_stage [y] t' [?k] v'" "P y" using assms(2) by blast
  have "try_acquire sha tid w = (Inr (Some ?k), ?v)"
    using assms(1) calmD(1) [of w] by (simp add: setting_stage_def try_acquire_def bnd_apply db_available_apply Let_def)
  then have "with_mutation_lock sha tid busy m w = (Inr y, release ?k v')"
    using m(1) by (simp add: with_mutation_lock_def bnd_apply [of "try_acquire sha tid"] finally_do_apply)
  then show ?thesis using m(2,3) by (intro exI [of _ y] exI [of _ "release ?k v'"]) (simp add: setting_stage_def release_def ids_below_def)
qed

lemma stage_deploy:
  assumes "setting_stage [] deployed_target locks w"
  shows "\<exists>y w'. deploy_setting_locked id int_str fake_adapter ''t1'' hint_action ''ev'' None w = (Inr y, w') \<and>
    setting_stage [y] hinted_target locks w' \<and> sy_status y = ''APPLIED'' \<and>
    (\<exists>i c. restamped (new_settings_row id ''t1'' hint_action ''ev'' None (settings_state hint_action None)
      (settings_state hint_action (Some [''optimizer_1''])) i c) y)"
proof -
  let ?b = "settings_state hint_action None" and ?p = "settings_state hint_action (Some [''optimizer_1''])"
  have here: "''optimizer_1'' \<in> ix_name ` set (fake_idx deployed_target ''orders'')"
    by (simp add: fake_idx_def deployed_target_def fk_collection_def)
  obtain i c w1 where 1: "record_settings_intent id ''t1'' hint_action ''ev'' None ?b ?p (tick w) =
      (Inr (new_settings_row id ''t1'' hint_action ''ev'' None ?b ?p i c), w1)"
    and s1: "setting_stage [new_settings_row id ''t1'' hint_action ''ev'' None ?b ?p i c] deployed_target locks w1"
    using stage_intent [OF stage_tick [OF assms]] by blast
  obtain w2 where 2: "impose_hint fake_adapter hint_action (Some [''optimizer_1'']) w1 = (Inr (), w2)"
    and s2: "setting_stage [new_settings_row id ''t1'' hint_action ''ev'' None ?b ?p i c] hinted_target locks w2"
    using stage_writes(1) [OF s1] by blast
  obtain y w3 where 3: "mark_settings (row_id (new_settings_row id ''t1'' hint_action ''ev'' None ?b ?p i c)) ''APPLIED'' ?p w2 = (Inr y, w3)"
    and s3: "setting_stage [y] hinted_target locks w3" and y: "restamped (new_settings_row id ''t1'' hint_action ''ev'' None ?b ?p i c) y" "sy_status y = ''APPLIED''"
    using stage_mark [OF s2] by blast
  obtain w4 where 4: "append_applied id int_str y hint_action ?b ?p (Some [''optimizer_1'']) ''ev'' w3 = (Inr (), w4)"
    and s4: "setting_stage [y] hinted_target locks w4"
    unfolding append_applied_def using stage_append [OF s3] by blast
  have "deploy_setting_locked id int_str fake_adapter ''t1'' hint_action ''ev'' None w = (Inr y, w4)"
    using here
    by (simp add: deploy_setting_locked_def apply_setting_def install_setting_def Let_def settings_unless_def bnd_apply
        stage_reads(1,3) [OF assms] stage_select(1) [OF assms] 1 2 stage_reads(2) [OF s2] 3 4)
  then show ?thesis using s4 y by blast
qed

lemma stage_rollback:
  assumes "setting_stage [x] hinted_target locks w" and "sy_status x = ''APPLIED''"
  shows "\<exists>y w'. rollback_setting_locked id int_str fake_adapter ''ev'' x hint_action w = (Inr y, w') \<and> setting_stage [y] deployed_target locks w' \<and> True"
proof -
  let ?p = "settings_state hint_action (Some [''optimizer_1''])" and ?b = "settings_state hint_action None"
  obtain y1 w1 where 1: "mark_settings (row_id x) ''ROLLBACK_INTENT'' ?p w = (Inr y1, w1)" and s1: "setting_stage [y1] hinted_target locks w1"
    and y1: "restamped x y1" using stage_mark [OF assms(1)] by blast
  obtain w2 where 2: "impose_hint fake_adapter hint_action None w1 = (Inr (), w2)" and s2: "setting_stage [y1] deployed_target locks w2"
    using stage_writes(2) [OF s1] by blast
  have id: "row_id y1 = row_id x" using restamped_sel [OF y1] by simp
  obtain y w3 where 3: "mark_settings (row_id x) ''ROLLED_BACK'' ?b w2 = (Inr y, w3)" and s3: "setting_stage [y] deployed_target locks w3"
    using stage_mark [OF s2, unfolded id] by blast
  obtain w4 where 4: "append_rolled_back id int_str y x hint_action None ''ev'' w3 = (Inr (), w4)" and s4: "setting_stage [y] deployed_target locks w4"
    unfolding append_rolled_back_def using stage_append [OF s3] by blast
  have "rollback_setting_locked id int_str fake_adapter ''ev'' x hint_action w = (Inr y, w4)"
    using assms(2)
    by (simp add: rollback_setting_locked_def restore_setting_def Let_def settings_unless_def bnd_apply stage_reads(2) [OF assms(1)]
        1 2 stage_reads(1) [OF s2] 3 4)
  then show ?thesis using s4 by blast
qed

lemma hint_action_of_row:
  assumes "restamped (new_settings_row id ''t1'' hint_action ''ev'' None (settings_state hint_action None) (settings_state hint_action (Some [''optimizer_1''])) i c) y"
  shows "setting_of_row y = Inr hint_action" and "sy_target_id y = ''t1''"
proof -
  have "set_hint_action_ok hint_action" by (simp add: set_hint_action_ok_def within_def hint_action_def)
  then have v: "set_hint_validate (set_hint_dump hint_action) = Inr hint_action"
    by (simp add: set_hint_validate_def set_hint_dump_def only_keys_def set_hint_keys_def has_type_def with_default_def
        required_def names_roundtrip nullable_names_roundtrip) (simp add: hint_action_def)
  note m = restamped_sel [OF assms]
  show "setting_of_row y = Inr hint_action"
    using m v by (simp add: setting_of_row_def new_settings_row_def json_item_state set_hint_dump_def hint_action_def tuple_of_def
        names_json_def option_json_def)
  show "sy_target_id y = ''t1''" using m by (simp add: new_settings_row_def)
qed

definition settings_world :: "fake_db world" where
  "settings_world = world_of empty_db deployed_target"

lemma settings_world_facts:
  "setting_stage [] deployed_target [] settings_world" "fake_inv (w_target settings_world)" "w_target settings_world = deployed_target"
  "db_settings_deployments (w_db settings_world) = []"
  by (simp_all add: setting_stage_def settings_world_def world_of_def calm_def ids_below_def empty_db_def deployed_target_def fake_inv_def)

lemma settings_deployed:
  "\<exists>y w1. deploy_setting id int_str fake_adapter ''t1'' hint_action ''ev'' None settings_world = (Inr y, w1) \<and>
    setting_stage [y] hinted_target [] w1 \<and> sy_status y = ''APPLIED'' \<and> setting_of_row y = Inr hint_action \<and> sy_target_id y = ''t1''"
proof -
  have "\<exists>y w1. deploy_setting id int_str fake_adapter ''t1'' hint_action ''ev'' None settings_world = (Inr y, w1) \<and>
    setting_stage [y] hinted_target [] w1 \<and> (sy_status y = ''APPLIED'' \<and> setting_of_row y = Inr hint_action \<and> sy_target_id y = ''t1'')"
    unfolding deploy_setting_def
  proof (rule stage_lock [OF settings_world_facts(1)])
    fix v assume "setting_stage [] deployed_target [target_lock_key id ''t1''] v"
    from stage_deploy [OF this] hint_action_of_row
    show "\<exists>y v'. deploy_setting_locked id int_str fake_adapter ''t1'' hint_action ''ev'' None v = (Inr y, v') \<and>
      setting_stage [y] hinted_target [target_lock_key id ''t1''] v' \<and>
      (sy_status y = ''APPLIED'' \<and> setting_of_row y = Inr hint_action \<and> sy_target_id y = ''t1'')" by blast
  qed
  then show ?thesis by blast
qed

lemma settings_rolled_back:
  assumes "setting_stage [y] hinted_target [] w" and "sy_status y = ''APPLIED''" and "setting_of_row y = Inr hint_action" and "sy_target_id y = ''t1''"
  shows "\<exists>z w2. rollback_setting id int_str fake_adapter (row_id y) ''ev'' w = (Inr z, w2) \<and> setting_stage [z] deployed_target [] w2"
proof -
  have "\<exists>z w2. with_mutation_lock id ''t1'' (raise (DurableQuerySettingsError ''TARGET_LOCK_UNAVAILABLE''))
      (rollback_setting_locked id int_str fake_adapter ''ev'' y hint_action) (tick w) = (Inr z, w2) \<and> setting_stage [z] deployed_target [] w2 \<and> True"
    by (rule stage_lock [OF stage_tick [OF assms(1)]]) (rule stage_rollback [OF _ assms(2)])
  then show ?thesis
    using assms(2-4) stage_select(2) [OF assms(1) refl]
    by (auto simp: rollback_setting_def bnd_apply settings_unless_def)
qed

theorem durable_setting_fails_closed_witness:
  "\<exists>y w1. deploy_setting id int_str fake_adapter ''t1'' hint_action ''ev'' None settings_world = (Inr y, w1) \<and> w_target w1 \<noteq> w_target settings_world \<and>
     hinted fake_cols fake_idx fake_hint ''orders'' ''q'' (Some [''optimizer_1'']) (w_target settings_world) (w_target w1) \<and>
     settled ''APPLIED'' ''QUERY_SETTINGS_APPLIED'' y (w_db w1)"
proof -
  obtain y w1 where run: "deploy_setting id int_str fake_adapter ''t1'' hint_action ''ev'' None settings_world = (Inr y, w1)"
    and st: "setting_stage [y] hinted_target [] w1" using settings_deployed by blast
  have ne: "w_target w1 \<noteq> w_target settings_world" using st by (simp add: setting_stage_def settings_world_facts hinted_target_def deployed_target_def)
  from durable_setting_fails_closed [OF fakead.database_adapter_axioms settings_world_facts(2) run] run ne show ?thesis by auto
qed

theorem durable_setting_rollback_is_exact_witness:
  "\<exists>y w1 z w2. deploy_setting id int_str fake_adapter ''t1'' hint_action ''ev'' None settings_world = (Inr y, w1) \<and>
     rollback_setting id int_str fake_adapter (row_id y) ''ev'' w1 = (Inr z, w2) \<and> w_target w2 \<noteq> w_target w1 \<and>
     settled ''ROLLED_BACK'' ''QUERY_SETTINGS_ROLLED_BACK'' z (w_db w2)"
proof -
  obtain y w1 where run: "deploy_setting id int_str fake_adapter ''t1'' hint_action ''ev'' None settings_world = (Inr y, w1)"
    and st: "setting_stage [y] hinted_target [] w1" "sy_status y = ''APPLIED''" "setting_of_row y = Inr hint_action" "sy_target_id y = ''t1''"
    using settings_deployed by blast
  obtain z w2 where undo: "rollback_setting id int_str fake_adapter (row_id y) ''ev'' w1 = (Inr z, w2)"
    and st2: "setting_stage [z] deployed_target [] w2" using settings_rolled_back [OF st] by blast
  have ok: "fake_inv (w_target w1)" using st(1) by (simp add: setting_stage_def hinted_target_def deployed_target_def fake_inv_def)
  have ne: "w_target w2 \<noteq> w_target w1" using st(1) st2 by (simp add: setting_stage_def hinted_target_def deployed_target_def)
  from durable_setting_rollback_is_exact [OF fakead.database_adapter_axioms ok undo] run undo ne show ?thesis by blast
qed

theorem durable_setting_restored_witness:
  "\<exists>y w1 z w2. deploy_setting id int_str fake_adapter ''t1'' hint_action ''ev'' None settings_world = (Inr y, w1) \<and>
     fake_hint (w_target w1) ''orders'' ''q'' = Some [''optimizer_1''] \<and>
     rollback_setting id int_str fake_adapter (row_id y) ''ev'' w1 = (Inr z, w2) \<and> fake_hint (w_target w2) ''orders'' ''q'' = None"
proof -
  obtain y w1 where run: "deploy_setting id int_str fake_adapter ''t1'' hint_action ''ev'' None settings_world = (Inr y, w1)"
    and st: "setting_stage [y] hinted_target [] w1" "sy_status y = ''APPLIED''" "setting_of_row y = Inr hint_action" "sy_target_id y = ''t1''"
    using settings_deployed by blast
  obtain z w2 where undo: "rollback_setting id int_str fake_adapter (row_id y) ''ev'' w1 = (Inr z, w2)"
    using settings_rolled_back [OF st] by blast
  have new: "\<forall>x\<in>set (db_settings_deployments (w_db settings_world)). sy_idempotency_key x \<noteq> settings_key id ''t1'' hint_action ''ev''"
    by (simp add: settings_world_facts)
  have "fake_hint (w_target w2) = fake_hint (w_target settings_world)"
    using durable_setting_restored [OF fakead.database_adapter_axioms settings_world_facts(2) new run refl refl undo] by simp
  moreover have "fake_hint deployed_target ''orders'' ''q'' = None" "fake_hint hinted_target ''orders'' ''q'' = Some [''optimizer_1'']"
    by (simp_all add: fake_hint_def hinted_target_def deployed_target_def)
  ultimately show ?thesis using run undo st(1) by (auto simp: setting_stage_def settings_world_facts)
qed

subsection \<open>Repeated deployments\<close>

text \<open>
  A row that was rolled back is no obstacle to a repeated deployment with the same evidence: whatever setting is found by then,
  also one that somebody else has set since, it is replaced, and the ledger, which already has the event of the
  first deployment, does not record the second.
\<close>

theorem redeployment_overwrites_unledgered:
  assumes ad: "database_adapter ad cols idx hint ok" and ok: "ok (w_target w)"
    and row: "filter (\<lambda>x. sy_idempotency_key x = settings_key sha tid a ev) (db_settings_deployments (w_db w)) = [x]"
    and st: "sy_status x \<notin> {''APPLIED'', ''INTENT_RECORDED''}" and once: "settings_event_exists x ''QUERY_SETTINGS_APPLIED'' (w_db w)"
    and run: "deploy_setting sha stamp ad tid a ev rid w = (Inr y, w')"
  shows "hint (w_target w') (sa_collection a) (sa_query_shape_hash a) = Some (sa_allowed_indexes a) \<and>
    db_production_ledger (w_db w') = db_production_ledger (w_db w)"
proof -
  have frame: "keeps (\<lambda>v v'. w_advisory v' = w_advisory v) (deploy_setting_locked sha stamp ad tid a ev rid)"
    using database_adapter.deploy_setting_locked_frame [OF ad, of sha stamp tid a ev rid]
    by (simp add: keeps_def database_adapter.one_effect_def [OF ad])
  from locked_run [OF run [unfolded deploy_setting_def] frame] obtain u u' where u: "w_db u = w_db w" "w_target u = w_target w"
    and m: "deploy_setting_locked sha stamp ad tid a ev rid u = (Inr y, u')" and w': "w_db w' = w_db u'" "w_target w' = w_target u'" by auto
  have oku: "ok (w_target u)" using ok u by simp
  from m obtain xs v1 v2 h v3 e v4 where 1: "on_world_target (ad_list_indexes ad (sa_collection a)) u = (Inr xs, v1)" and 2: "v2 = v1"
      and 3: "observe_hint ad a v2 = (Inr h, v3)" and 4: "settings_by_key (settings_key sha tid a ev) v3 = (Inr e, v4)"
      and rest: "(case e of None \<Rightarrow> bnd (settings_unless (h = None) ''HUMAN_QUERY_SETTINGS_PRESENT'') (\<lambda>_.
          apply_setting sha stamp ad tid a ev rid h None)
        | Some x \<Rightarrow> reconcile_setting sha stamp ad tid a ev rid h x) v4 = (Inr y, u')"
    by (auto simp: deploy_setting_locked_def elim!: bnd_InrE)
  have v3: "v3 = u" using database_adapter.list_indexes_Inr [OF ad 1 oku] 2 database_adapter.observe_hint_Inr [OF ad 3] oku by simp
  have v4: "v4 = tick u" "e = Some x" using 4 row u
    by (auto simp: v3 settings_by_key_def engine_connect_Inr world_apply settings_deployments_table_def one_or_none_def)
  have okv: "ok (w_target v4)" using v4 oku by simp
  have "bnd (settings_unless b c) f s = (Inr q, s') \<Longrightarrow> f () s = (Inr q, s')"
    for b c s s' and f :: "unit \<Rightarrow> ('a world, settings_deployment_row) oper" and q by (auto elim!: bnd_InrE)
  then have ap: "apply_setting sha stamp ad tid a ev rid h (Some x) v4 = (Inr y, u')"
    using rest st unfolding v4(2) option.case reconcile_setting_def by fastforce
  have x: "x \<in> set (db_settings_deployments (w_db v4))" using filter_one [OF row] u v4 by simp
  obtain v5 v6 h' v7 k where 5: "impose_hint ad a (Some (sa_allowed_indexes a)) v4 = (Inr (), v5)" and 6: "observe_hint ad a v5 = (Inr h', v6)"
    and 7: "mark_settings (row_id x) ''APPLIED'' (settings_state a h') v6 = (Inr y, v7)"
    and 8: "append_applied sha stamp y a (settings_state a h) (settings_state a (Some (sa_allowed_indexes a))) h' ev v7 = (Inr k, u')"
    using ap by (auto simp: apply_setting_def install_setting_def Let_def elim!: bnd_InrE)
  have d6: "w_db v6 = w_db v4"
    using database_adapter.impose_Inr [OF ad 5 okv] database_adapter.observe_hint_Inr [OF ad 6] by simp
  have y: "restamped x y" using settle_Inr [OF 7 _ 8 [unfolded append_applied_def]] x d6 by simp
  obtain rows where d7: "w_db v7 = (w_db v6)\<lparr>db_settings_deployments := rows\<rparr>" using mark_settings_Inr [OF 7] by blast
  have "settings_event_exists y ''QUERY_SETTINGS_APPLIED'' (w_db v7)"
    using once restamped_sel [OF y] d7 d6 v4 u by (simp add: settings_event_exists_def)
  then have "db_production_ledger (w_db u') = db_production_ledger (w_db w)"
    using append_once_Inr [OF 8 [unfolded append_applied_def]] d7 d6 v4 u by auto
  moreover have "hint (w_target w') (sa_collection a) (sa_query_shape_hash a) = Some (sa_allowed_indexes a)"
    using database_adapter.deploy_setting_locked_Inr [OF ad m oku] w' by simp
  ultimately show ?thesis using w' by simp
qed

end
