(* ===== verification/Orchestrator.thy ===== *)
theory Orchestrator
  imports DurableRollback DurableApprovals
begin

text \<open>
  \<open>backend/app/runs/orchestrator.py\<close> and \<open>backend/app/worker/service.py\<close>: one resume of a run by the
  stage its row is in, the loop of a job's handler over such resumes, the dispatch of jobs and the polling
  of the worker. The services of the stages are the constructor arguments of the orchestrator,
  and its model's: the record \<open>services\<close>, in which an optional service may be absent.
\<close>

subsection \<open>Services and results\<close>

datatype orchestration_outcome = OUT_PROGRESSED | OUT_BLOCKED | OUT_TERMINAL

record orchestration_result =
  os_outcome :: orchestration_outcome
  os_status :: optimization_state
  os_blocker :: "string option"

record 't services =
  sv_snapshot :: "string \<Rightarrow> ('t world, unit) oper"
  sv_verify_snapshot :: "string \<Rightarrow> ('t world, bool) oper"
  sv_diagnosis :: "((string \<Rightarrow> ('t world, string) oper) \<times> (string \<Rightarrow> ('t world, bool) oper)) option"
  sv_candidates :: "(string \<Rightarrow> ('t world, int) oper) option"
  sv_ranking :: "(string \<Rightarrow> ('t world, unit) oper) option"
  sv_evaluation :: "(string \<Rightarrow> benchmark_profile \<Rightarrow> (string \<times> json) list \<Rightarrow> ('t world, unit) oper) option"
  sv_evaluation_executor :: "(string \<Rightarrow> ('t world, unit) oper) option"
  sv_admission :: "(string \<Rightarrow> (string \<times> admission_request) list \<Rightarrow> ('t world, string option) oper) option"
  sv_admission_requests :: "(string \<Rightarrow> ('t world, (string \<times> admission_request) list) oper) option"
  sv_authority :: "(string \<Rightarrow> ('t world, authority_result) oper) option"
  sv_approvals :: "(approval_args \<Rightarrow> ('t world, unit) oper) option"
  sv_deployment :: "(string \<Rightarrow> ('t world, unit) oper) option"
  sv_monitoring :: "(string \<Rightarrow> ('t world, monitoring_status) oper) option"

definition progressed :: "optimization_state \<Rightarrow> orchestration_result" where
  "progressed st = \<lparr>os_outcome = OUT_PROGRESSED, os_status = st, os_blocker = None\<rparr>"

definition blocked_at :: "optimization_state \<Rightarrow> string \<Rightarrow> orchestration_result" where
  "blocked_at st why = \<lparr>os_outcome = OUT_BLOCKED, os_status = st, os_blocker = Some why\<rparr>"

definition terminal_statuses :: "optimization_state list" where
  "terminal_statuses = [COMPLETED, ROLLED_BACK, ROLLBACK_BLOCKED, FAILED]"

definition get_run :: "string \<Rightarrow> ('t world, run_row option) oper" where
  "get_run run_id = get_row runs_table run_id"

definition advance ::
  "string \<Rightarrow> optimization_state \<Rightarrow> run_completion_reason option \<Rightarrow> ('t world, orchestration_result) oper" where
  "advance run_id st reason = bnd (run_transition run_id st reason) (\<lambda>r. ret (progressed (rn_status r)))"

text \<open>\<open>except SomeServiceError as error: return BLOCKED with its code\<close>\<close>

definition blocking :: "optimization_state \<Rightarrow> (exn \<Rightarrow> string option) \<Rightarrow> ('t world, orchestration_result) oper \<Rightarrow>
    ('t world, orchestration_result) oper" where
  "blocking st code m = catching m (\<lambda>e. case code e of Some c \<Rightarrow> ret (blocked_at st c) | None \<Rightarrow> raise e)"

definition snapshot_code :: "exn \<Rightarrow> string option" where
  "snapshot_code e = (case e of WorkloadSnapshotError c \<Rightarrow> Some c | _ \<Rightarrow> None)"

definition diagnosis_code :: "exn \<Rightarrow> string option" where
  "diagnosis_code e = (case e of DiagnosisServiceError c \<Rightarrow> Some c | _ \<Rightarrow> None)"

definition generation_code :: "exn \<Rightarrow> string option" where
  "generation_code e = (case e of CandidateGenerationError c \<Rightarrow> Some c | _ \<Rightarrow> None)"

definition ranking_code :: "exn \<Rightarrow> string option" where
  "ranking_code e = (case e of CandidateRankingError c \<Rightarrow> Some c | _ \<Rightarrow> None)"

definition plan_code :: "exn \<Rightarrow> string option" where
  "plan_code e = (case e of EvaluationPlanError c \<Rightarrow> Some c | _ \<Rightarrow> None)"

definition invariant :: "bool \<Rightarrow> string \<Rightarrow> ('t world, unit) oper" where
  "invariant b msg = ensure b (OrchestrationInvariantError msg)"

subsection \<open>The stages\<close>

definition active_target :: "target_rec option \<Rightarrow> bool" where
  "active_target found \<longleftrightarrow> (\<exists>t. found = Some t \<and> ta_is_active t \<and> ta_state t = ''ACTIVE'')"

definition validate_created :: "string \<Rightarrow> run_row \<Rightarrow> ('t world, unit) oper" where
  "validate_created run_id r =
     bnd (catching (bnd (lift (deployment_mode_of (rn_deployment_mode r))) (\<lambda>_. ret ()))
       (\<lambda>e. if is_value_error e then raise (OrchestrationInvariantError ''run deployment mode is invalid'') else raise e)) (\<lambda>_.
     bnd (get_row targets_table (rn_target_id r)) (\<lambda>target.
     bnd (invariant (active_target target) ''run target is not active'') (\<lambda>_.
     bnd (engine_connect (
       bnd (select_one evaluation_mappings_table (\<lambda>m. em_target_id m = rn_target_id r \<and> em_mapping_status m = ''ACTIVE'')) (\<lambda>mapping.
       bnd (select_rows jobs_table (\<lambda>j. jb_optimization_run_id j = Some run_id \<and> jb_kind j = ''OPTIMIZATION'')) (\<lambda>jobs.
       ret (mapping, jobs))))) (\<lambda>(mapping, jobs).
     case mapping of
       None \<Rightarrow> raise (OrchestrationInvariantError ''run has no valid distinct evaluation target'')
     | Some m \<Rightarrow>
         bnd (invariant (em_evaluation_target_id m \<noteq> rn_target_id r) ''run has no valid distinct evaluation target'') (\<lambda>_.
         bnd (get_row targets_table (em_evaluation_target_id m)) (\<lambda>evaluation_target.
         bnd (invariant (active_target evaluation_target) ''evaluation target is not active'') (\<lambda>_.
         invariant (length jobs = 1) ''run must have exactly one authoritative initial optimization job'')))))))"

definition at_created :: "string \<Rightarrow> run_row \<Rightarrow> ('t world, orchestration_result) oper" where
  "at_created run_id r =
     bnd (validate_created run_id r) (\<lambda>_. bnd ensure_lease_owned (\<lambda>_. advance run_id SNAPSHOTTING None))"

definition at_snapshotting :: "'t services \<Rightarrow> string \<Rightarrow> run_row \<Rightarrow> ('t world, orchestration_result) oper" where
  "at_snapshotting sv run_id r = blocking SNAPSHOTTING snapshot_code (
     bnd (if rn_workload_snapshot_id r = None then bnd ensure_lease_owned (\<lambda>_. sv_snapshot sv run_id) else ret ()) (\<lambda>_.
     bnd (get_run run_id) (\<lambda>refreshed.
     case Option.bind refreshed rn_workload_snapshot_id of
       None \<Rightarrow> raise (OrchestrationInvariantError ''snapshot service did not attach a workload snapshot'')
     | Some snapshot \<Rightarrow>
         bnd (sv_verify_snapshot sv snapshot) (\<lambda>intact.
         bnd (invariant intact ''workload snapshot integrity verification failed'') (\<lambda>_.
         bnd ensure_lease_owned (\<lambda>_. advance run_id DIAGNOSING None))))))"

definition at_diagnosing :: "'t services \<Rightarrow> string \<Rightarrow> ('t world, orchestration_result) oper" where
  "at_diagnosing sv run_id = (case sv_diagnosis sv of
       None \<Rightarrow> ret (blocked_at DIAGNOSING ''DIAGNOSIS_SERVICE_UNAVAILABLE'')
     | Some (service, intact_of) \<Rightarrow> blocking DIAGNOSING diagnosis_code (
         bnd ensure_lease_owned (\<lambda>_.
         bnd (service run_id) (\<lambda>diagnosis.
         bnd (intact_of diagnosis) (\<lambda>intact.
         bnd (invariant intact ''diagnosis integrity verification failed'') (\<lambda>_.
         bnd ensure_lease_owned (\<lambda>_. advance run_id GENERATING_CANDIDATES None)))))))"

definition at_generating :: "'t services \<Rightarrow> string \<Rightarrow> ('t world, orchestration_result) oper" where
  "at_generating sv run_id = (case sv_candidates sv of
       None \<Rightarrow> ret (blocked_at GENERATING_CANDIDATES ''CANDIDATE_GENERATION_SERVICE_UNAVAILABLE'')
     | Some service \<Rightarrow> blocking GENERATING_CANDIDATES generation_code (
         bnd ensure_lease_owned (\<lambda>_.
         bnd (service run_id) (\<lambda>count.
         bnd ensure_lease_owned (\<lambda>_.
         if count = 0 then advance run_id COMPLETED (Some NO_CANDIDATES) else advance run_id RANKING None)))))"

definition at_ranking :: "'t services \<Rightarrow> string \<Rightarrow> ('t world, orchestration_result) oper" where
  "at_ranking sv run_id = (case sv_ranking sv of
       None \<Rightarrow> ret (blocked_at RANKING ''CANDIDATE_RANKING_SERVICE_UNAVAILABLE'')
     | Some service \<Rightarrow> blocking RANKING ranking_code (
         bnd ensure_lease_owned (\<lambda>_.
         bnd (service run_id) (\<lambda>_.
         bnd ensure_lease_owned (\<lambda>_. advance run_id CALIBRATING None)))))"

definition at_calibrating :: "'t services \<Rightarrow> string \<Rightarrow> run_row \<Rightarrow> ('t world, orchestration_result) oper" where
  "at_calibrating sv run_id r = (case sv_evaluation sv of
       None \<Rightarrow> ret (blocked_at CALIBRATING ''EVALUATION_SERVICE_UNAVAILABLE'')
     | Some create_plan \<Rightarrow> blocking CALIBRATING plan_code (
         bnd ensure_lease_owned (\<lambda>_.
         bnd (create_plan run_id (if rn_deployment_mode r = ''FULL_AUTONOMOUS'' then AUTONOMOUS else SMOKE)
           [(''aa_calibration_status'', JStr ''PENDING_MEASUREMENT'')]) (\<lambda>_.
         bnd ensure_lease_owned (\<lambda>_. advance run_id EVALUATING None)))))"

definition at_evaluating :: "'t services \<Rightarrow> string \<Rightarrow> ('t world, orchestration_result) oper" where
  "at_evaluating sv run_id = (case sv_evaluation_executor sv of
       None \<Rightarrow> ret (blocked_at EVALUATING ''ISOLATED_BENCHMARK_EXECUTOR_REQUIRED'')
     | Some execute \<Rightarrow>
         bnd ensure_lease_owned (\<lambda>_.
         bnd (execute run_id) (\<lambda>_.
         bnd ensure_lease_owned (\<lambda>_. advance run_id ADMISSION None))))"

definition at_admission :: "'t services \<Rightarrow> string \<Rightarrow> ('t world, orchestration_result) oper" where
  "at_admission sv run_id = (case (sv_admission sv, sv_admission_requests sv) of
       (Some admission, Some requests_of) \<Rightarrow>
         bnd ensure_lease_owned (\<lambda>_.
         bnd (requests_of run_id) (\<lambda>rqs.
         bnd (admission run_id rqs) (\<lambda>selected.
         bnd ensure_lease_owned (\<lambda>_.
         if selected = None then advance run_id COMPLETED (Some NO_ADMITTED_CANDIDATE)
         else advance run_id Lifecycle.ADMITTED None))))
     | _ \<Rightarrow> ret (blocked_at ADMISSION ''ADMISSION_SERVICE_UNAVAILABLE''))"

definition create_bound_approval :: "(approval_args \<Rightarrow> ('t world, unit) oper) \<Rightarrow> run_row \<Rightarrow> authority_row \<Rightarrow> ('t world, unit) oper" where
  "create_bound_approval ask r au =
     bnd (engine_connect (select_one candidate_actions_table (\<lambda>a. ac_candidate_id a = au_candidate_id au))) (\<lambda>found.
     case found of
       None \<Rightarrow> raise (OrchestrationInvariantError ''selected candidate has no typed action'')
     | Some action \<Rightarrow> ask \<lparr>pq_action_id = row_id action, pq_target_id = rn_target_id r, pq_candidate_id = au_candidate_id au,
         pq_evidence_hash = au_integrity_fingerprint au, pq_requester_id = rn_requested_by_user_id r,
         pq_optimization_run_id = Some (row_id r), pq_candidate_fingerprint = Some (au_candidate_fingerprint au)\<rparr>)"

definition at_admitted :: "'t services \<Rightarrow> string \<Rightarrow> run_row \<Rightarrow> ('t world, orchestration_result) oper" where
  "at_admitted sv run_id r = (case sv_authority sv of
       None \<Rightarrow> ret (blocked_at Lifecycle.ADMITTED ''AUTHORITY_SERVICE_UNAVAILABLE'')
     | Some authority_of \<Rightarrow>
         bnd (authority_of run_id) (\<lambda>authority.
         bnd ensure_lease_owned (\<lambda>_.
         if ar_automatic authority then advance run_id APPROVED None
         else case sv_approvals sv of
             None \<Rightarrow> ret (blocked_at Lifecycle.ADMITTED ''APPROVAL_SERVICE_UNAVAILABLE'')
           | Some ask \<Rightarrow>
               bnd (create_bound_approval ask r (ar_decision authority)) (\<lambda>_.
               bnd ensure_lease_owned (\<lambda>_.
               bnd (run_transition run_id APPROVAL_PENDING None) (\<lambda>moved.
               ret (blocked_at (rn_status moved) ''WAITING_FOR_APPROVAL'')))))))"

definition at_approved :: "'t services \<Rightarrow> string \<Rightarrow> optimization_state \<Rightarrow> ('t world, orchestration_result) oper" where
  "at_approved sv run_id st = (case sv_deployment sv of
       None \<Rightarrow> ret (blocked_at st ''DURABLE_DEPLOYMENT_SERVICE_UNAVAILABLE'')
     | Some deployment \<Rightarrow>
         bnd (deployment run_id) (\<lambda>_.
         bnd (get_run run_id) (\<lambda>refreshed.
         case refreshed of
           None \<Rightarrow> raise (OrchestrationInvariantError ''run disappeared after durable deployment'')
         | Some r \<Rightarrow> ret (progressed (rn_status r)))))"

definition at_deployed :: "string \<Rightarrow> ('t world, orchestration_result) oper" where
  "at_deployed run_id = bnd ensure_lease_owned (\<lambda>_. advance run_id MONITORING None)"

definition at_monitoring :: "'t services \<Rightarrow> string \<Rightarrow> ('t world, orchestration_result) oper" where
  "at_monitoring sv run_id = (case sv_monitoring sv of
       None \<Rightarrow> ret (blocked_at MONITORING ''MONITORING_EVIDENCE_UNAVAILABLE'')
     | Some monitoring \<Rightarrow>
         bnd (monitoring run_id) (\<lambda>st.
         bnd ensure_lease_owned (\<lambda>_.
         case st of
           STABLE \<Rightarrow> advance run_id COMPLETED (Some DEPLOYMENT_SUCCEEDED)
         | WORKLOAD_SHIFT_DETECTED \<Rightarrow> advance run_id COMPLETED (Some DEPLOYMENT_SUCCEEDED)
         | MON_ROLLED_BACK \<Rightarrow> advance run_id ROLLED_BACK None
         | MON_ROLLBACK_BLOCKED \<Rightarrow> advance run_id ROLLBACK_BLOCKED None)))"

fun resume :: "'t services \<Rightarrow> string \<Rightarrow> run_row \<Rightarrow> optimization_state \<Rightarrow> ('t world, orchestration_result) oper" where
  "resume sv i r CREATED = at_created i r"
| "resume sv i r SNAPSHOTTING = at_snapshotting sv i r"
| "resume sv i r DIAGNOSING = at_diagnosing sv i"
| "resume sv i r GENERATING_CANDIDATES = at_generating sv i"
| "resume sv i r RANKING = at_ranking sv i"
| "resume sv i r CALIBRATING = at_calibrating sv i r"
| "resume sv i r EVALUATING = at_evaluating sv i"
| "resume sv i r ADMISSION = at_admission sv i"
| "resume sv i r Lifecycle.ADMITTED = at_admitted sv i r"
| "resume sv i r APPROVAL_PENDING = ret (blocked_at APPROVAL_PENDING ''WAITING_FOR_APPROVAL'')"
| "resume sv i r APPROVED = at_approved sv i APPROVED"
| "resume sv i r DEPLOYING = at_approved sv i DEPLOYING"
| "resume sv i r DEPLOYED = at_deployed i"
| "resume sv i r MONITORING = at_monitoring sv i"
| "resume sv i r st = ret \<lparr>os_outcome = OUT_TERMINAL, os_status = st, os_blocker = None\<rparr>"

definition orchestrate :: "'t services \<Rightarrow> string \<Rightarrow> ('t world, orchestration_result) oper" where
  "orchestrate sv run_id =
     bnd ensure_lease_owned (\<lambda>_.
     bnd (get_run run_id) (\<lambda>found.
     case found of
       None \<Rightarrow> raise (OrchestrationInvariantError ''optimization run does not exist'')
     | Some r \<Rightarrow> resume sv run_id r (rn_status r)))"

subsection \<open>The handler of a job\<close>

definition invariant_failure :: "exn \<Rightarrow> ('t world, orchestration_result) oper" where
  "invariant_failure e = (case e of OrchestrationInvariantError _ \<Rightarrow> raise (PermanentJobError ''ORCHESTRATION_INVARIANT_FAILURE'')
     | _ \<Rightarrow> raise e)"

text \<open>\<open>for _step in range(32)\<close>; the argument is the number of steps left.\<close>

fun orchestrate_steps :: "nat \<Rightarrow> 't services \<Rightarrow> string \<Rightarrow> ('t world, unit) oper" where
  "orchestrate_steps 0 sv run_id = raise (PermanentJobError ''ORCHESTRATION_STEP_LIMIT_EXCEEDED'')"
| "orchestrate_steps (Suc n) sv run_id =
     bnd (catching (orchestrate sv run_id) invariant_failure) (\<lambda>res.
     case os_outcome res of
       OUT_TERMINAL \<Rightarrow> ret ()
     | OUT_BLOCKED \<Rightarrow>
         if os_status res = APPROVAL_PENDING then ret ()
         else raise (TransientBlock (case os_blocker res of Some b \<Rightarrow> if b = [] then ''ORCHESTRATION_TRANSIENT_BLOCK'' else b
           | None \<Rightarrow> ''ORCHESTRATION_TRANSIENT_BLOCK''))
     | OUT_PROGRESSED \<Rightarrow> bnd ensure_lease_owned (\<lambda>_. orchestrate_steps n sv run_id))"

definition handle_optimization :: "'t services option \<Rightarrow> job \<Rightarrow> ('t world, unit) oper" where
  "handle_optimization orchestrator jo = (case jo_optimization_run_id jo of
       None \<Rightarrow> raise (PermanentJobError ''OPTIMIZATION_RUN_ID_REQUIRED'')
     | Some run_id \<Rightarrow>
         bnd (ensure (case payload_text (jo_payload jo) ''run_id'' of None \<Rightarrow> True | Some p \<Rightarrow> p = run_id)
           (PermanentJobError ''JOB_RUN_ID_MISMATCH'')) (\<lambda>_.
         bnd (get_run run_id) (\<lambda>found.
         case found of
           None \<Rightarrow> raise (PermanentJobError ''OPTIMIZATION_RUN_NOT_FOUND'')
         | Some r \<Rightarrow>
             if rn_status r \<in> set terminal_statuses then ret ()
             else bnd ensure_lease_owned (\<lambda>_.
               case orchestrator of
                 None \<Rightarrow> raise (PermanentJobError ''DURABLE_ORCHESTRATOR_REQUIRED'')
               | Some sv \<Rightarrow> orchestrate_steps 32 sv run_id))))"

definition dispatch :: "'t services option \<Rightarrow> job \<Rightarrow> ('t world, unit) oper" where
  "dispatch orchestrator jo =
     (if jo_kind jo = OPTIMIZATION then handle_optimization orchestrator jo
      else raise (PermanentJobError ''UNKNOWN_JOB_KIND''))"

subsection \<open>The worker process\<close>

text \<open>\<open>except (OSError, SQLAlchemyError)\<close>\<close>

fun is_database_error :: "exn \<Rightarrow> bool" where
  "is_database_error DatabaseUnavailable = True"
| "is_database_error (IntegrityError _) = True"
| "is_database_error MultipleResultsFound = True"
| "is_database_error NoResultFound = True"
| "is_database_error _ = False"

text \<open>
  The polling loop: \<open>stopping n\<close> says whether the stop event is set when it is looked at for the \<open>n\<close>-th
  time. The loop may run for ever; \<open>fuel\<close> bounds the number of polls and \<open>None\<close> is running out of it,
  \<open>Some n\<close> the loop left after \<open>n\<close> polls.
\<close>

definition poll :: "job_repository \<Rightarrow> string \<Rightarrow> string option \<Rightarrow> string list \<Rightarrow> 't services option \<Rightarrow> bool \<Rightarrow> ('t world, bool) oper" where
  "poll jr worker tag locked orchestrator stop_after_loss =
     catching (bnd (run_once jr worker tag locked (dispatch orchestrator)) (\<lambda>_. ret True))
       (\<lambda>e. if e = LeaseLostError then ret (\<not> stop_after_loss) else if is_database_error e then ret True else raise e)"

fun serve :: "nat \<Rightarrow> (nat \<Rightarrow> bool) \<Rightarrow> job_repository \<Rightarrow> string \<Rightarrow> string option \<Rightarrow> 't services option \<Rightarrow> nat \<Rightarrow> ('t world, nat option) oper" where
  "serve 0 stopping jr worker tag orchestrator n = ret None"
| "serve (Suc fuel) stopping jr worker tag orchestrator n =
     (if stopping (2 * n) then ret (Some n)
      else bnd (poll jr worker tag [] orchestrator (stopping (2 * n + 1))) (\<lambda>again.
        if again then serve fuel stopping jr worker tag orchestrator (Suc n) else ret (Some (Suc n))))"

subsection \<open>Runs under the worker\<close>

text \<open>The services leave the lifecycle of runs to the frozen graph, and evidence in place.\<close>

definition services_evolve :: "'t services \<Rightarrow> bool" where
  "services_evolve sv \<longleftrightarrow> (\<forall>i. keeps Runs.evolves (sv_snapshot sv i)) \<and> (\<forall>i. keeps Runs.evolves (sv_verify_snapshot sv i)) \<and>
     (\<forall>create check i. sv_diagnosis sv = Some (create, check) \<longrightarrow> keeps Runs.evolves (create i) \<and> keeps Runs.evolves (check i)) \<and>
     (\<forall>f i. sv_candidates sv = Some f \<longrightarrow> keeps Runs.evolves (f i)) \<and> (\<forall>f i. sv_ranking sv = Some f \<longrightarrow> keeps Runs.evolves (f i)) \<and>
     (\<forall>f i p c. sv_evaluation sv = Some f \<longrightarrow> keeps Runs.evolves (f i p c)) \<and>
     (\<forall>f i. sv_evaluation_executor sv = Some f \<longrightarrow> keeps Runs.evolves (f i)) \<and>
     (\<forall>f i q. sv_admission sv = Some f \<longrightarrow> keeps Runs.evolves (f i q)) \<and>
     (\<forall>f i. sv_admission_requests sv = Some f \<longrightarrow> keeps Runs.evolves (f i)) \<and>
     (\<forall>f i. sv_authority sv = Some f \<longrightarrow> keeps Runs.evolves (f i)) \<and> (\<forall>f q. sv_approvals sv = Some f \<longrightarrow> keeps Runs.evolves (f q)) \<and>
     (\<forall>f i. sv_deployment sv = Some f \<longrightarrow> keeps Runs.evolves (f i)) \<and> (\<forall>f i. sv_monitoring sv = Some f \<longrightarrow> keeps Runs.evolves (f i))"

lemma advance_evolution [evolution]: "keeps Runs.evolves (advance i st reason)"
  unfolding advance_def by (intro evolution)

lemma blocking_evolution [evolution]: "keeps Runs.evolves m \<Longrightarrow> keeps Runs.evolves (blocking st code m)"
  unfolding blocking_def by (intro evolution)

lemma invariant_evolution [evolution]: "keeps Runs.evolves (invariant b msg)" "keeps Runs.evolves (get_run i)"
  unfolding invariant_def get_run_def by (intro evolution)+

lemma validate_created_evolution [evolution]: "keeps Runs.evolves (validate_created i r)"
  unfolding validate_created_def by (intro evolution)

lemma create_bound_approval_evolution: "(\<And>q. keeps Runs.evolves (f q)) \<Longrightarrow> keeps Runs.evolves (create_bound_approval f r au)"
  unfolding create_bound_approval_def by (intro evolution)

lemma resume_evolution:
  assumes "services_evolve sv"
  shows "keeps Runs.evolves (resume sv i r st)"
proof -
  note sv = assms [unfolded services_evolve_def]
  have "keeps Runs.evolves (at_snapshotting sv i r)"
    unfolding at_snapshotting_def using sv by (intro evolution) auto
  moreover have "keeps Runs.evolves (at_diagnosing sv i)"
    unfolding at_diagnosing_def using sv by (cases "sv_diagnosis sv") (auto intro!: evolution)
  moreover have "keeps Runs.evolves (at_generating sv i)"
    unfolding at_generating_def using sv by (cases "sv_candidates sv") (auto intro!: evolution)
  moreover have "keeps Runs.evolves (at_ranking sv i)"
    unfolding at_ranking_def using sv by (cases "sv_ranking sv") (auto intro!: evolution)
  moreover have "keeps Runs.evolves (at_calibrating sv i r)"
    unfolding at_calibrating_def using sv by (cases "sv_evaluation sv") (auto intro!: evolution)
  moreover have "keeps Runs.evolves (at_evaluating sv i)"
    unfolding at_evaluating_def using sv by (cases "sv_evaluation_executor sv") (auto intro!: evolution)
  moreover have "keeps Runs.evolves (at_admission sv i)"
    unfolding at_admission_def using sv
    by (cases "sv_admission sv"; cases "sv_admission_requests sv") (auto intro!: evolution)
  moreover have "keeps Runs.evolves (at_admitted sv i r)"
  proof -
    have "keeps Runs.evolves (create_bound_approval f r au)" if "sv_approvals sv = Some f" for f au
      using sv that by (intro create_bound_approval_evolution) blast
    with sv show ?thesis
      unfolding at_admitted_def by (cases "sv_authority sv"; cases "sv_approvals sv") (simp_all add: evolution)
  qed
  moreover have "keeps Runs.evolves (at_approved sv i st)" for st
    unfolding at_approved_def using sv by (cases "sv_deployment sv") (auto intro!: evolution)
  moreover have "keeps Runs.evolves (at_monitoring sv i)"
    unfolding at_monitoring_def using sv
    by (cases "sv_monitoring sv") (auto intro!: evolution split: monitoring_status.split)
  moreover have "keeps Runs.evolves (at_created i r)" "keeps Runs.evolves (at_deployed i)"
    unfolding at_created_def at_deployed_def by (intro evolution)+
  ultimately show ?thesis by (cases st) (simp_all add: evolution)
qed

lemma orchestrate_evolution: "services_evolve sv \<Longrightarrow> keeps Runs.evolves (orchestrate sv i)"
  unfolding orchestrate_def by (intro evolution resume_evolution)

lemma invariant_failure_evolution [evolution]: "keeps Runs.evolves (invariant_failure e)"
  by (cases e) (simp_all add: invariant_failure_def evolution)

lemma steps_evolution: "services_evolve sv \<Longrightarrow> keeps Runs.evolves (orchestrate_steps n sv i)"
proof (induction n)
  case (Suc n)
  then show ?case
    by (auto intro!: evolution orchestrate_evolution split: orchestration_outcome.split)
qed (simp add: evolution)

lemma dispatch_evolution: "(\<And>sv. orchestrator = Some sv \<Longrightarrow> services_evolve sv) \<Longrightarrow> keeps Runs.evolves (dispatch orchestrator jo)"
  unfolding dispatch_def handle_optimization_def
  by (cases orchestrator) (auto intro!: evolution steps_evolution split: option.split)

lemma serve_evolution:
  assumes "\<And>sv. orchestrator = Some sv \<Longrightarrow> services_evolve sv"
  shows "keeps Runs.evolves (serve fuel stopping jr worker tag orchestrator n)"
proof (induction fuel arbitrary: n)
  case (Suc fuel)
  have "keeps Runs.evolves (poll jr worker tag [] orchestrator b)" for b
    unfolding poll_def by (intro evolution run_once_evolution dispatch_evolution assms)
  with Suc show ?case by (auto intro!: evolution)
qed (simp add: evolution)

subsection \<open>The step limit\<close>

text \<open>How many moves a run in a state can still make at most.\<close>

fun stage_rank :: "optimization_state \<Rightarrow> nat" where
  "stage_rank CREATED = 14"
| "stage_rank SNAPSHOTTING = 13"
| "stage_rank DIAGNOSING = 12"
| "stage_rank GENERATING_CANDIDATES = 11"
| "stage_rank RANKING = 10"
| "stage_rank CALIBRATING = 9"
| "stage_rank EVALUATING = 8"
| "stage_rank ADMISSION = 7"
| "stage_rank Lifecycle.ADMITTED = 6"
| "stage_rank APPROVAL_PENDING = 5"
| "stage_rank APPROVED = 4"
| "stage_rank DEPLOYING = 3"
| "stage_rank DEPLOYED = 2"
| "stage_rank MONITORING = 1"
| "stage_rank st = 0"

lemma edge_lowers_rank: "t \<in> set (next_states s) \<Longrightarrow> stage_rank t < stage_rank s"
  by (cases s) auto

lemma reach_lowers_rank: "lifecycle_reach s t \<Longrightarrow> stage_rank t \<le> stage_rank s"
  unfolding lifecycle_reach_def by (induction rule: rtranclp_induct) (auto dest!: edge_lowers_rank)

lemma stage_rank_bound: "stage_rank s \<le> 14"
  by (cases s) simp_all

definition run_is :: "string \<Rightarrow> run_row \<Rightarrow> db \<Rightarrow> bool" where
  "run_is i r d \<longleftrightarrow> filter (\<lambda>x. row_id x = i) (db_runs d) = [r]"

definition run_rank :: "string \<Rightarrow> db \<Rightarrow> nat" where
  "run_rank i d = (case filter (\<lambda>x. row_id x = i) (db_runs d) of [r] \<Rightarrow> stage_rank (rn_status r) | _ \<Rightarrow> 0)"

lemma run_rank_is: "run_is i r d \<Longrightarrow> run_rank i d = stage_rank (rn_status r)"
  by (simp add: run_is_def run_rank_def)

lemma run_rank_bound: "run_rank i d \<le> 14"
  by (simp add: run_rank_def stage_rank_bound split: list.split)

lemma run_is_moves:
  assumes "run_is i r d" and "run_is i r' d'" and "run_moves d d'"
  shows "lifecycle_reach (rn_status r) (rn_status r')"
proof -
  have "r \<in> set (filter (\<lambda>x. row_id x = i) (db_runs d))" using assms(1) by (simp add: run_is_def)
  then obtain r'' where "r'' \<in> set (filter (\<lambda>x. row_id x = i) (db_runs d'))" "lifecycle_reach (rn_status r) (rn_status r'')"
    using assms(3) by (fastforce simp: run_moves_def)
  moreover have "r'' = r'" using calculation(1) unfolding assms(2) [unfolded run_is_def] by simp
  ultimately show ?thesis by simp
qed

lemma run_is_moved:
  assumes "run_is i r d"
  shows "run_is i (set_status n reason t r) (moved i n reason t d)"
proof -
  have "filter (\<lambda>x. row_id x = i) (map (\<lambda>x. if row_id x = i then set_status n reason t x else x) rs) =
      map (set_status n reason t) (filter (\<lambda>x. row_id x = i) rs)" for rs
    by (induction rs) (simp_all add: set_status_def)
  then show ?thesis using assms by (simp add: run_is_def moved_def)
qed

text \<open>A resume that progressed took its run strictly further along the graph.\<close>

definition went_on :: "string \<Rightarrow> 't world \<Rightarrow> 't world \<Rightarrow> bool" where
  "went_on i w w' \<longleftrightarrow> (\<exists>r r'. run_is i r (w_db w) \<and> run_is i r' (w_db w') \<and> stage_rank (rn_status r') < stage_rank (rn_status r))"

lemma get_run_Inr: "get_run i w = (Inr x, w') \<Longrightarrow> w_db w' = w_db w \<and> (\<forall>r. x = Some r \<longrightarrow> run_is i r (w_db w))"
  by (auto simp: get_run_def get_row_def engine_connect_Inr world_apply runs_table_def run_is_def one_or_none_def
      split: list.splits if_splits)

lemma advance_Inr:
  assumes "advance i st reason w = (Inr res, w')" and "run_is i r d" and "db_evolves d (w_db w)"
  shows "\<exists>r'. run_is i r' (w_db w') \<and> stage_rank (rn_status r') < stage_rank (rn_status r)"
proof -
  obtain x where "run_transition i st reason w = (Inr x, w')" using assms(1) by (auto simp: advance_def)
  then obtain row t where row: "run_is i row (w_db w)" "st \<in> set (next_states (rn_status row))"
    and w': "w_db w' = moved i st reason t (w_db w)" by (auto simp: run_is_def dest!: run_transition_spec)
  have "stage_rank (rn_status row) \<le> stage_rank (rn_status r)"
    using run_is_moves [OF assms(2) row(1)] assms(3) by (simp add: db_evolves_def reach_lowers_rank)
  moreover have "stage_rank st < stage_rank (rn_status row)" using row(2) by (rule edge_lowers_rank)
  moreover have "rn_status (set_status st reason t row) = st" by (simp add: set_status_def)
  ultimately show ?thesis using run_is_moved [OF row(1), of st reason t] unfolding w' by (metis order.strict_trans2)
qed

text \<open>Whatever happened to the database before, an operation that reports progress has moved the run.\<close>

definition goes :: "string \<Rightarrow> run_row \<Rightarrow> ('t world, orchestration_result) oper \<Rightarrow> bool" where
  "goes i r m \<longleftrightarrow> (\<forall>d w res w'. run_is i r d \<longrightarrow> db_evolves d (w_db w) \<longrightarrow> m w = (Inr res, w') \<longrightarrow>
     os_outcome res = OUT_PROGRESSED \<longrightarrow> (\<exists>r'. run_is i r' (w_db w') \<and> stage_rank (rn_status r') < stage_rank (rn_status r)))"

named_theorems progress \<open>operations that move the run whenever they report progress\<close>

lemma goes_advance [progress]: "goes i r (advance i st reason)"
  unfolding goes_def using advance_Inr by blast

lemma goes_stop [progress]: "goes i r (ret (blocked_at st why))" "goes i r (raise e)"
  by (simp_all add: goes_def blocked_at_def)

lemma goes_bnd [progress]:
  assumes "keeps Runs.evolves m" and "\<And>x. goes i r (f x)"
  shows "goes i r (bnd m f)"
  unfolding goes_def
proof (intro allI impI)
  fix d w res w' assume d: "run_is i r d" "db_evolves d (w_db w)" and out: "os_outcome res = OUT_PROGRESSED"
    and "bnd m f w = (Inr res, w')"
  then obtain x v where m: "m w = (Inr x, v)" and f: "f x v = (Inr res, w')" by auto
  have "db_evolves (w_db w) (w_db v)" using keepsD [OF assms(1) m] by (simp add: Runs.evolves_def)
  with d(2) have "db_evolves d (w_db v)" by (rule db_evolves_trans)
  then show "\<exists>r'. run_is i r' (w_db w') \<and> stage_rank (rn_status r') < stage_rank (rn_status r)"
    using assms(2) [of x] d(1) out f unfolding goes_def by blast
qed

lemma goes_blocking [progress]:
  assumes "goes i r m"
  shows "goes i r (blocking st code m)"
  unfolding goes_def
proof (intro allI impI)
  fix d w res w' assume d: "run_is i r d" "db_evolves d (w_db w)" and out: "os_outcome res = OUT_PROGRESSED"
    and "blocking st code m w = (Inr res, w')"
  then have "m w = (Inr res, w')"
    by (auto simp: blocking_def catching_apply blocked_at_def split: sum.splits prod.splits option.splits)
  with assms d out show "\<exists>r'. run_is i r' (w_db w') \<and> stage_rank (rn_status r') < stage_rank (rn_status r)"
    unfolding goes_def by blast
qed

lemma goes_if [progress]: "goes i r a \<Longrightarrow> goes i r b \<Longrightarrow> goes i r (if P then a else b)"
  by simp

lemma goes_option [progress]: "goes i r a \<Longrightarrow> (\<And>x. goes i r (f x)) \<Longrightarrow> goes i r (case v of None \<Rightarrow> a | Some x \<Rightarrow> f x)"
  by (cases v) simp_all

text \<open>A deployment that returns has left the run in neither of the states it is resumed in.\<close>

definition deployment_finishes :: "'t services \<Rightarrow> bool" where
  "deployment_finishes sv \<longleftrightarrow> (\<forall>f i w w' r. sv_deployment sv = Some f \<longrightarrow> f i w = (Inr (), w') \<longrightarrow> run_is i r (w_db w') \<longrightarrow>
     rn_status r \<notin> {APPROVED, DEPLOYING})"

lemma at_approved_goes:
  assumes sv: "services_evolve sv" "deployment_finishes sv" and r: "rn_status r \<in> {APPROVED, DEPLOYING}"
  shows "goes i r (at_approved sv i st)"
proof (cases "sv_deployment sv")
  case (Some f)
  have "\<exists>r'. run_is i r' (w_db w') \<and> stage_rank (rn_status r') < stage_rank (rn_status r)"
    if d: "run_is i r d" "db_evolves d (w_db w)" and out: "at_approved sv i st w = (Inr res, w')" for d w res w'
  proof -
    from out Some obtain v x where f: "f i w = (Inr (), v)" and g: "get_run i v = (Inr (Some x), w')"
      by (auto simp: at_approved_def split: option.splits elim!: bnd_InrE)
    have x: "run_is i x (w_db v)" "w_db w' = w_db v" using get_run_Inr [OF g] by auto
    have "keeps Runs.evolves (f i)" using sv(1) Some by (simp add: services_evolve_def)
    then have "Runs.evolves w v" using f by (rule keepsD)
    then have "db_evolves d (w_db v)" using d(2) by (auto simp: Runs.evolves_def intro: db_evolves_trans)
    then have "lifecycle_reach (rn_status r) (rn_status x)" using run_is_moves [OF d(1) x(1)] by (simp add: db_evolves_def)
    then have "stage_rank (rn_status x) \<le> stage_rank (rn_status r)" by (rule reach_lowers_rank)
    moreover have "rn_status x \<notin> {APPROVED, DEPLOYING}" using sv(2) Some f x(1) by (simp add: deployment_finishes_def)
    ultimately have "stage_rank (rn_status x) < stage_rank (rn_status r)" using r by (cases "rn_status x") auto
    with x show ?thesis by auto
  qed
  then show ?thesis unfolding goes_def by blast
qed (simp add: at_approved_def goes_stop)

lemma resume_goes:
  assumes sv: "services_evolve sv" "deployment_finishes sv"
  shows "goes i r (resume sv i r (rn_status r))"
proof -
  note e = sv(1) [unfolded services_evolve_def]
  have "goes i r (at_snapshotting sv i r)"
    unfolding at_snapshotting_def using e by (intro progress evolution) auto
  moreover have "goes i r (at_diagnosing sv i)"
    unfolding at_diagnosing_def using e by (cases "sv_diagnosis sv") (auto intro!: progress evolution)
  moreover have "goes i r (at_generating sv i)"
    unfolding at_generating_def using e by (cases "sv_candidates sv") (auto intro!: progress evolution)
  moreover have "goes i r (at_ranking sv i)"
    unfolding at_ranking_def using e by (cases "sv_ranking sv") (auto intro!: progress evolution)
  moreover have "goes i r (at_calibrating sv i r)"
    unfolding at_calibrating_def using e by (cases "sv_evaluation sv") (auto intro!: progress evolution)
  moreover have "goes i r (at_evaluating sv i)"
    unfolding at_evaluating_def using e by (cases "sv_evaluation_executor sv") (auto intro!: progress evolution)
  moreover have "goes i r (at_admission sv i)"
    unfolding at_admission_def using e
    by (cases "sv_admission sv"; cases "sv_admission_requests sv") (auto intro!: progress evolution)
  moreover have "goes i r (at_admitted sv i r)"
  proof -
    have "keeps Runs.evolves (create_bound_approval f r au)" if "sv_approvals sv = Some f" for f au
      using e that by (intro create_bound_approval_evolution) blast
    with e show ?thesis
      unfolding at_admitted_def by (cases "sv_authority sv"; cases "sv_approvals sv") (simp_all add: progress evolution)
  qed
  moreover have "goes i r (at_approved sv i (rn_status r))" if "rn_status r \<in> {APPROVED, DEPLOYING}"
    using sv that by (rule at_approved_goes)
  moreover have "goes i r (at_monitoring sv i)"
    unfolding at_monitoring_def using e
    by (cases "sv_monitoring sv") (auto intro!: progress evolution split: monitoring_status.split)
  moreover have "goes i r (at_created i r)" "goes i r (at_deployed i)"
    unfolding at_created_def at_deployed_def by (intro progress evolution)+
  moreover have "goes i r (ret \<lparr>os_outcome = OUT_TERMINAL, os_status = st, os_blocker = None\<rparr>)" for st
    by (simp add: goes_def)
  ultimately show ?thesis by (cases "rn_status r") (simp_all add: goes_stop)
qed

lemma orchestrate_progress:
  assumes sv: "services_evolve sv" "deployment_finishes sv"
    and run: "orchestrate sv i w = (Inr res, w')" and out: "os_outcome res = OUT_PROGRESSED"
  shows "run_rank i (w_db w') < run_rank i (w_db w)"
proof -
  from run obtain u v v' r where l: "ensure_lease_owned w = (Inr u, v)" and g: "get_run i v = (Inr (Some r), v')"
    and s: "resume sv i r (rn_status r) v' = (Inr res, w')"
    by (auto simp: orchestrate_def split: option.splits elim!: bnd_InrE)
  have w: "w_db v' = w_db w" "run_is i r (w_db w)"
    using l get_run_Inr [OF g] by (auto simp: ensure_lease_owned_apply split: if_splits)
  then obtain r' where "run_is i r' (w_db w')" "stage_rank (rn_status r') < stage_rank (rn_status r)"
    using resume_goes [OF sv, of i r] s out unfolding goes_def by (metis db_evolves_refl)
  then show ?thesis using w by (simp add: run_rank_is)
qed

lemma step_failure: "invariant_failure e w \<noteq> (Inr res, w')"
  by (cases e) (simp_all add: invariant_failure_def)

lemma steps_enough:
  assumes sv: "services_evolve sv" "deployment_finishes sv"
  shows "run_rank i (w_db w) < n \<Longrightarrow> run_rank i (w_db w) < m \<Longrightarrow> orchestrate_steps n sv i w = orchestrate_steps m sv i w"
proof (induction n arbitrary: m w)
  case (Suc n)
  then obtain k where m: "m = Suc k" by (cases m) auto
  let ?step = "catching (orchestrate sv i) invariant_failure"
  show ?case
  proof (cases "?step w")
    case (Pair x v)
    show ?thesis
    proof (cases x)
      case (Inr res)
      then have o: "orchestrate sv i w = (Inr res, v)"
        using Pair step_failure by (auto simp: catching_apply split: sum.splits prod.splits)
      have "orchestrate_steps n sv i v' = orchestrate_steps k sv i v'"
        if "os_outcome res = OUT_PROGRESSED" and "ensure_lease_owned v = (Inr u, v')" for u v'
      proof -
        have "w_db v' = w_db v" using that(2) by (auto simp: ensure_lease_owned_apply split: if_splits)
        then have "run_rank i (w_db v') < n" "run_rank i (w_db v') < k"
          using orchestrate_progress [OF sv o that(1)] Suc.prems m by simp_all
        then show ?thesis by (rule Suc.IH)
      qed
      then show ?thesis
        using Pair Inr by (cases "ensure_lease_owned v") (auto simp: m bnd_apply split: orchestration_outcome.split sum.split)
    qed (use Pair in \<open>simp add: m bnd_apply\<close>)
  qed
qed simp

end
