(* ===== verification/Ranking.thy ===== *)
theory Ranking
  imports Authority
begin

text \<open>
  \<open>backend/app/ranking/durable.py\<close>: the advisory ranking of the candidates of a run, and the transport
  types of \<open>backend/app/ai/provider.py\<close> it uses. The provider is an HTTP service: its name, its model and its
  answer to a ranking request are a record that the definitions take as an argument; the offline
  \<open>FakeAIProvider\<close> is one.
\<close>

subsection \<open>The transport\<close>

record ranking_candidate_input =
  ri_handle :: string
  ri_safe_summary :: string

record handle_ranking =
  hr_candidate_handles :: "string list"
  hr_rationale :: string
  hr_reasons_by_handle :: "(string \<times> string) list"
  hr_risk_notes :: "string list"

record 't ai_provider =
  pv_provider_name :: string
  pv_chat_model :: string
  pv_rank_candidate_handles :: "ranking_candidate_input list \<Rightarrow> ('t world, handle_ranking) oper"

definition handle_ranking_dump :: "handle_ranking \<Rightarrow> json" where
  "handle_ranking_dump r = JObj [(''candidate_handles'', names_json (hr_candidate_handles r)), (''rationale'', JStr (hr_rationale r)),
     (''reasons_by_handle'', JObj (map (\<lambda>(k, v). (k, JStr v)) (hr_reasons_by_handle r))),
     (''risk_notes'', names_json (hr_risk_notes r))]"

text \<open>\<open>dict[str, str]\<close>\<close>

fun as_reasons :: "json \<Rightarrow> (string \<times> string) list option" where
  "as_reasons (JObj kvs) = those (map (\<lambda>(k, v). map_option (Pair k) (as_string v)) kvs)"
| "as_reasons _ = None"

definition handle_ranking_read :: "(string \<times> json) list \<Rightarrow> handle_ranking option" where
  "handle_ranking_read kvs =
     Option.bind (required (as_list as_string) ''candidate_handles'' kvs) (\<lambda>handles.
     Option.bind (required as_string ''rationale'' kvs) (\<lambda>rationale.
     Option.bind (with_default as_reasons [] ''reasons_by_handle'' kvs) (\<lambda>reasons.
     Option.bind (with_default (as_list as_string) [] ''risk_notes'' kvs) (\<lambda>notes.
     if only_keys [''candidate_handles'', ''rationale'', ''reasons_by_handle'', ''risk_notes''] kvs \<and> rationale \<noteq> []
     then Some \<lparr>hr_candidate_handles = handles, hr_rationale = rationale, hr_reasons_by_handle = reasons, hr_risk_notes = notes\<rparr>
     else None))))"

definition handle_ranking_validate :: "json \<Rightarrow> exn + handle_ranking" where
  "handle_ranking_validate j = (case j of
       JObj kvs \<Rightarrow> (case handle_ranking_read kvs of None \<Rightarrow> Inl (ValidationError ''CandidateHandleRanking'') | Some r \<Rightarrow> Inr r)
     | _ \<Rightarrow> Inl (ValidationError ''CandidateHandleRanking''))"

definition fake_rank_candidate_handles :: "ranking_candidate_input list \<Rightarrow> ('t world, handle_ranking) oper" where
  "fake_rank_candidate_handles candidates = (let handles = map ri_handle candidates in
     ret \<lparr>hr_candidate_handles = handles, hr_rationale = ''deterministic fake ranking'',
       hr_reasons_by_handle = map (\<lambda>h. (h, ''deterministic'')) handles, hr_risk_notes = []\<rparr>)"

definition fake_provider :: "'t ai_provider" where
  "fake_provider = \<lparr>pv_provider_name = ''fake'', pv_chat_model = ''fake'', pv_rank_candidate_handles = fake_rank_candidate_handles\<rparr>"

subsection \<open>The inputs of a ranking\<close>

record ranking_result =
  rk_artifact_id :: string
  rk_ordered_candidate_ids :: "string list"

record ranking_inputs =
  rp_snapshot_id :: string
  rp_generation_id :: string
  rp_candidate_ids :: "string list"
  rp_summaries :: "string list"
  rp_evidence_refs :: "string list"

text \<open>\<open>order_by(deterministic_fingerprint)\<close>; rows without a fingerprint come last.\<close>

definition by_fingerprint :: "candidate_row list \<Rightarrow> candidate_row list" where
  "by_fingerprint = sort_key (\<lambda>c. (cn_deterministic_fingerprint c = None, case_option [] id (cn_deterministic_fingerprint c)))"

definition ranked_candidates :: "string \<Rightarrow> db \<Rightarrow> candidate_row list" where
  "ranked_candidates run_id d = by_fingerprint (filter (\<lambda>c. cn_optimization_run_id c = run_id) (db_candidates d))"

definition candidate_summary :: "candidate_row \<Rightarrow> candidate_action_row \<Rightarrow> string" where
  "candidate_summary c a = json_dumps (JObj [(''action_type'', JStr (ac_action_type a)), (''typed_action'', ac_action_payload a),
     (''policy_classification'', option_json JStr (cn_policy_classification c))])"

text \<open>The dictionary of actions keeps the last action of a candidate.\<close>

definition action_by_candidate :: "candidate_action_row list \<Rightarrow> string \<Rightarrow> candidate_action_row option" where
  "action_by_candidate actions i = map_of (rev (map (\<lambda>a. (ac_candidate_id a, a)) actions)) i"

fun summaries_of :: "candidate_action_row list \<Rightarrow> candidate_row list \<Rightarrow> exn + string list" where
  "summaries_of actions [] = Inr []"
| "summaries_of actions (c # cs) = (case action_by_candidate actions (row_id c) of
       None \<Rightarrow> Inl (CandidateRankingError ''candidate action is missing'')
     | Some a \<Rightarrow> (case summaries_of actions cs of Inl e \<Rightarrow> Inl e | Inr ss \<Rightarrow> Inr (candidate_summary c a # ss)))"

record ranking_rows =
  rr_run :: "run_row option"
  rr_generation :: "generation_artifact_row option"
  rr_diagnosis :: "diagnosis_artifact_row option"
  rr_candidates :: "candidate_row list"
  rr_actions :: "candidate_action_row list"
  rr_findings :: "diagnosis_finding_row list"

definition read_ranking_rows :: "string \<Rightarrow> ('t world, ranking_rows) oper" where
  "read_ranking_rows run_id =
     bnd (select_one runs_table (\<lambda>r. row_id r = run_id)) (\<lambda>run.
     bnd (select_one generation_artifacts_table (\<lambda>g. ga_optimization_run_id g = run_id)) (\<lambda>generation.
     bnd (select_one diagnosis_artifacts_table (\<lambda>x. di_optimization_run_id x = run_id)) (\<lambda>diagnosis.
     bnd (asks (\<lambda>w. ranked_candidates run_id (w_db w))) (\<lambda>candidates.
     bnd (select_rows candidate_actions_table (\<lambda>a. ac_candidate_id a \<in> row_id ` set candidates)) (\<lambda>actions.
     bnd (case diagnosis of None \<Rightarrow> ret [] | Some x \<Rightarrow> select_rows diagnosis_findings_table (\<lambda>f. dn_diagnosis_artifact_id f = row_id x)) (\<lambda>findings.
     ret \<lparr>rr_run = run, rr_generation = generation, rr_diagnosis = diagnosis, rr_candidates = candidates, rr_actions = actions,
       rr_findings = findings\<rparr>))))))"

definition assemble_ranking :: "ranking_rows \<Rightarrow> exn + ranking_inputs" where
  "assemble_ranking rr = (case (Option.bind (rr_run rr) rn_workload_snapshot_id, rr_generation rr) of
       (Some snapshot, Some g) \<Rightarrow>
         if rr_diagnosis rr = None \<or> ga_candidate_count g = 0
         then Inl (CandidateRankingError ''a non-empty completed generation artifact is required'')
         else if int (length (rr_candidates rr)) \<noteq> ga_candidate_count g
         then Inl (CandidateRankingError ''generation artifact candidate count mismatch'')
         else (case summaries_of (rr_actions rr) (rr_candidates rr) of
             Inl e \<Rightarrow> Inl e
           | Inr summaries \<Rightarrow> Inr \<lparr>rp_snapshot_id = snapshot, rp_generation_id = row_id g,
               rp_candidate_ids = map row_id (rr_candidates rr), rp_summaries = summaries,
               rp_evidence_refs = sorted_set (concat (map dn_evidence_refs (rr_findings rr)))\<rparr>)
     | _ \<Rightarrow> Inl (CandidateRankingError ''a non-empty completed generation artifact is required''))"

definition load_ranking :: "string \<Rightarrow> ('t world, ranking_inputs) oper" where
  "load_ranking run_id = bnd (engine_connect (read_ranking_rows run_id)) (\<lambda>rows. lift (assemble_ranking rows))"

subsection \<open>The ranking of a run\<close>

definition handle_of :: "nat \<Rightarrow> string" where
  "handle_of n = ''C'' @ nat_str n"

definition handles_upto :: "nat \<Rightarrow> string list" where
  "handles_upto n = map handle_of [1..<Suc n]"

text \<open>\<open>len(xs) != len(ys) or set(xs) != set(ys) or len(set(xs)) != len(xs)\<close>, negated.\<close>

definition covers_exactly :: "string list \<Rightarrow> string list \<Rightarrow> bool" where
  "covers_exactly xs ys \<longleftrightarrow> length xs = length ys \<and> set xs = set ys \<and> distinct xs"

definition received_order :: "string list \<Rightarrow> string list \<Rightarrow> string list \<Rightarrow> exn + string list" where
  "received_order handles ids received =
     (if \<not> covers_exactly received handles then Inl (CandidateRankingError ''ranking must contain every persisted candidate exactly once'')
      else case those (map (map_of (zip handles ids)) received) of
        None \<Rightarrow> Inl (KeyError ''handle'')
      | Some ordered \<Rightarrow> if covers_exactly ordered ids then Inr ordered
          else Inl (CandidateRankingError ''ranking must contain every persisted candidate exactly once''))"

definition ranking_of_artifact :: "ranking_artifact_row \<Rightarrow> ranking_result" where
  "ranking_of_artifact a = \<lparr>rk_artifact_id = row_id a, rk_ordered_candidate_ids = ra_ordered_candidate_ids a\<rparr>"

definition existing_ranking :: "string \<Rightarrow> ('t world, ranking_result option) oper" where
  "existing_ranking run_id =
     bnd (engine_connect (select_one ranking_artifacts_table (\<lambda>a. ra_optimization_run_id a = run_id))) (\<lambda>found.
     ret (map_option ranking_of_artifact found))"

definition ranking_fingerprint :: "digest \<Rightarrow> string \<Rightarrow> string \<Rightarrow> string list \<Rightarrow> json \<Rightarrow> string" where
  "ranking_fingerprint sha run_id generation ordered output = json_hash sha (JObj [(''run_id'', JStr run_id),
     (''generation'', JStr generation), (''ordered'', names_json ordered), (''output'', output)])"

definition ranking_invocation ::
  "digest \<Rightarrow> 't ai_provider \<Rightarrow> string \<Rightarrow> ranking_inputs \<Rightarrow> string list \<Rightarrow> json \<Rightarrow> int \<Rightarrow> string \<Rightarrow> int \<Rightarrow> ai_invocation_row" where
  "ranking_invocation sha pv run_id p handles output completed = (\<lambda>i t. \<lparr>row_id = i, row_created_at = t, row_updated_at = Some t,
     ai_optimization_run_id = run_id, ai_stage = ''RANKING'', ai_provider = pv_provider_name pv, ai_model = pv_chat_model pv,
     ai_prompt_version = ''v1'', ai_schema_version = ''candidate-ranking-v1'', ai_workload_snapshot_id = rp_snapshot_id p,
     ai_input_hash = json_hash sha (JObj [(''candidate_handles'', names_json handles), (''summaries'', names_json (rp_summaries p))]),
     ai_sanitized_input = JObj [(''candidate_handles'', names_json handles), (''candidate_summaries'', names_json (rp_summaries p))],
     ai_output_hash = Some (json_hash sha output), ai_validated_output = Some output, ai_latency_ms = Some 0, ai_status = ''COMPLETED'',
     ai_safe_error_code = None, ai_completed_at = Some completed, ai_attempt_number = 1\<rparr>)"

definition ranking_artifact ::
  "digest \<Rightarrow> string \<Rightarrow> ranking_inputs \<Rightarrow> string \<Rightarrow> string list \<Rightarrow> json \<Rightarrow> string \<Rightarrow> int \<Rightarrow> ranking_artifact_row" where
  "ranking_artifact sha run_id p invocation_id ordered output = (\<lambda>i t. \<lparr>row_id = i, row_created_at = t, row_updated_at = Some t,
     ra_optimization_run_id = run_id, ra_generation_artifact_id = rp_generation_id p, ra_ai_invocation_id = invocation_id,
     ra_ordered_candidate_ids = ordered, ra_artifact_fingerprint = ranking_fingerprint sha run_id (rp_generation_id p) ordered output\<rparr>)"

definition record_ranking ::
  "digest \<Rightarrow> 't ai_provider \<Rightarrow> string \<Rightarrow> ranking_inputs \<Rightarrow> string list \<Rightarrow> json \<Rightarrow> string list \<Rightarrow> ('t world, ranking_result) oper" where
  "record_ranking sha pv run_id p handles output ordered = engine_begin (
     bnd (select_one ranking_artifacts_table (\<lambda>a. ra_optimization_run_id a = run_id)) (\<lambda>current.
     case current of
       Some a \<Rightarrow> ret (ranking_of_artifact a)
     | None \<Rightarrow>
         bnd now (\<lambda>completed.
         bnd (create_in_transaction ai_invocations_table (ranking_invocation sha pv run_id p handles output completed)) (\<lambda>ai.
         bnd (create_in_transaction ranking_artifacts_table (ranking_artifact sha run_id p (row_id ai) ordered output)) (\<lambda>row.
         ret \<lparr>rk_artifact_id = row_id row, rk_ordered_candidate_ids = ordered\<rparr>)))))"

definition rank_for_run :: "digest \<Rightarrow> 't ai_provider \<Rightarrow> string \<Rightarrow> ('t world, ranking_result) oper" where
  "rank_for_run sha pv run_id =
     bnd (existing_ranking run_id) (\<lambda>existing.
     case existing of
       Some r \<Rightarrow> ret r
     | None \<Rightarrow>
         bnd (load_ranking run_id) (\<lambda>p.
         let handles = handles_upto (length (rp_summaries p)) in
         bnd (pv_rank_candidate_handles pv (map2 (\<lambda>h s. \<lparr>ri_handle = h, ri_safe_summary = s\<rparr>) handles (rp_summaries p))) (\<lambda>result.
         bnd (lift (received_order handles (rp_candidate_ids p) (hr_candidate_handles result))) (\<lambda>ordered.
         record_ranking sha pv run_id p handles (handle_ranking_dump result) ordered))))"

subsection \<open>Verification of a ranking\<close>

definition ranking_intact :: "digest \<Rightarrow> ranking_artifact_row \<Rightarrow> json \<Rightarrow> candidate_row list \<Rightarrow> bool" where
  "ranking_intact sha a output candidates = (case handle_ranking_validate output of
       Inl e \<Rightarrow> False
     | Inr validated \<Rightarrow>
         (let handles = handles_upto (length candidates) in
          covers_exactly (hr_candidate_handles validated) handles \<and>
          those (map (map_of (zip handles (map row_id candidates))) (hr_candidate_handles validated)) = Some (ra_ordered_candidate_ids a) \<and>
          ra_artifact_fingerprint a = ranking_fingerprint sha (ra_optimization_run_id a) (ra_generation_artifact_id a)
            (ra_ordered_candidate_ids a) output))"

definition verify_ranking_integrity :: "digest \<Rightarrow> string \<Rightarrow> ('t world, bool) oper" where
  "verify_ranking_integrity sha artifact_id =
     bnd (engine_connect (
       bnd (select_one ranking_artifacts_table (\<lambda>a. row_id a = artifact_id)) (\<lambda>artifact.
       case artifact of
         None \<Rightarrow> ret None
       | Some a \<Rightarrow> bnd (select_one ai_invocations_table (\<lambda>i. row_id i = ra_ai_invocation_id a)) (\<lambda>invocation. ret (Some (a, invocation)))))) (\<lambda>found.
     case found of
       Some (a, Some i) \<Rightarrow>
         (case ai_validated_output i of
            Some (JObj kvs) \<Rightarrow>
              if ai_stage i \<noteq> ''RANKING'' \<or> ai_status i \<noteq> ''COMPLETED'' then ret False
              else if (\<exists>e. handle_ranking_validate (JObj kvs) = Inl e) then ret False
              else bnd (engine_connect (asks (\<lambda>w. ranked_candidates (ra_optimization_run_id a) (w_db w)))) (\<lambda>candidates.
                ret (ranking_intact sha a (JObj kvs) candidates))
          | _ \<Rightarrow> ret False)
     | _ \<Rightarrow> ret False)"

subsection \<open>A recorded ranking orders the candidates and verifies\<close>

lemma handle_of_inject [simp]: "handle_of m = handle_of n \<longleftrightarrow> m = n"
  using nat_str_inject [of m "[]" n "[]"] by (auto simp: handle_of_def delimited_def)

lemma distinct_handles: "distinct (handles_upto n)"
  by (simp add: handles_upto_def distinct_map inj_on_def)

lemma length_handles [simp]: "length (handles_upto n) = n"
  by (simp add: handles_upto_def)

lemma covers_exactly_iff: "covers_exactly xs ys \<longleftrightarrow> distinct xs \<and> distinct ys \<and> set xs = set ys"
  unfolding covers_exactly_def by (metis card_distinct distinct_card)

lemma reasons_roundtrip: "as_reasons (JObj (map (\<lambda>(k, v). (k, JStr v)) kvs)) = Some kvs"
proof -
  have "those (map ((\<lambda>(k, v). map_option (Pair k) (as_string v)) \<circ> (\<lambda>(k, v). (k, JStr v))) kvs) = Some kvs"
    by (rule those_map_Some) auto
  then show ?thesis by simp
qed

lemma ranking_dump_roundtrip: "hr_rationale r \<noteq> [] \<Longrightarrow> handle_ranking_validate (handle_ranking_dump r) = Inr r"
  using names_roundtrip [of "hr_candidate_handles r"] names_roundtrip [of "hr_risk_notes r"]
    reasons_roundtrip [of "hr_reasons_by_handle r"]
  by (simp add: handle_ranking_validate_def handle_ranking_dump_def handle_ranking_read_def required_def with_default_def
      only_keys_def names_json_def del: as_reasons.simps as_list.simps)

lemma received_order_Inr:
  "received_order handles ids received = Inr ordered \<longleftrightarrow> covers_exactly received handles \<and>
     those (map (map_of (zip handles ids)) received) = Some ordered \<and> covers_exactly ordered ids"
  by (auto simp: received_order_def split: option.splits)

lemma summaries_length: "summaries_of actions cs = Inr ss \<Longrightarrow> length ss = length cs"
  by (induction cs arbitrary: ss) (auto split: option.splits sum.splits)

lemma read_ranking_rows_Inr:
  "read_ranking_rows run_id w = (Inr rr, w') \<Longrightarrow> rr_candidates rr = ranked_candidates run_id (w_db w) \<and> w' = w"
  by (auto simp: read_ranking_rows_def world_apply elim!: bnd_InrE split: option.splits)

lemma assemble_ranking_Inr:
  "assemble_ranking rr = Inr p \<Longrightarrow> rp_candidate_ids p = map row_id (rr_candidates rr) \<and> length (rp_summaries p) = length (rr_candidates rr)"
  by (auto simp: assemble_ranking_def summaries_length split: option.splits if_splits sum.splits)

lemma load_ranking_Inr:
  assumes "load_ranking run_id w = (Inr p, w')"
  shows "rp_candidate_ids p = map row_id (ranked_candidates run_id (w_db w)) \<and>
    length (rp_summaries p) = length (ranked_candidates run_id (w_db w)) \<and> w_db w' = w_db w"
  using assms
  by (auto simp: load_ranking_def engine_connect_Inr elim!: bnd_InrE dest!: read_ranking_rows_Inr assemble_ranking_Inr)

lemma inserted_Inr:
  assumes "create_in_transaction tb b w = (Inr x, w')"
  shows "\<exists>i t. x = b i t \<and> (\<forall>y\<in>set (tb_rows tb (w_db w)). \<not> tb_clash tb y x) \<and>
    w_db w' = tb_put tb (tb_rows tb (w_db w) @ [x]) (w_db w) \<and> w_faults w' = w_faults w"
  using assms by (auto simp: create_in_transaction_def insert_row_def bnd_apply world_apply split: if_splits)

definition fresh_in :: "'a timestamped_scheme \<Rightarrow> 'a timestamped_scheme list \<Rightarrow> bool" where
  "fresh_in x rs \<longleftrightarrow> (\<forall>y\<in>set rs. row_id y \<noteq> row_id x)"

lemma only_new: "fresh_in x rs \<Longrightarrow> filter (\<lambda>y. row_id y = row_id x) (rs @ [x]) = [x]"
  by (auto simp: fresh_in_def filter_empty_conv)

definition provider_ok :: "'t ai_provider \<Rightarrow> bool" where
  "provider_ok pv \<longleftrightarrow> (\<forall>cs w r w'. pv_rank_candidate_handles pv cs w = (r, w') \<longrightarrow> w_db w' = w_db w \<and>
     (\<forall>res. r = Inr res \<longrightarrow> hr_rationale res \<noteq> []))"

lemma fake_provider_ok: "provider_ok fake_provider"
  by (auto simp: provider_ok_def fake_provider_def fake_rank_candidate_handles_def Let_def)

text \<open>What is left behind by a recording that inserted: one artifact over one invocation.\<close>

lemma record_ranking_Inr:
  assumes "record_ranking sha pv run_id p handles output ordered w = (Inr res, w')"
    and "filter (\<lambda>a. ra_optimization_run_id a = run_id) (db_ranking_artifacts (w_db w)) = []"
  shows "\<exists>ai a. w_db w' = (w_db w)\<lparr>db_ai_invocations := db_ai_invocations (w_db w) @ [ai],
      db_ranking_artifacts := db_ranking_artifacts (w_db w) @ [a]\<rparr> \<and>
    fresh_in ai (db_ai_invocations (w_db w)) \<and> fresh_in a (db_ranking_artifacts (w_db w)) \<and>
    ai_stage ai = ''RANKING'' \<and> ai_status ai = ''COMPLETED'' \<and> ai_validated_output ai = Some output \<and>
    ra_optimization_run_id a = run_id \<and> ra_ai_invocation_id a = row_id ai \<and> ra_ordered_candidate_ids a = ordered \<and>
    ra_artifact_fingerprint a = ranking_fingerprint sha run_id (ra_generation_artifact_id a) ordered output \<and> res = ranking_of_artifact a"
proof -
  from assms obtain c ai v a where
    1: "create_in_transaction ai_invocations_table (ranking_invocation sha pv run_id p handles output c) (tick (tick w)) = (Inr ai, v)"
    and 2: "create_in_transaction ranking_artifacts_table (ranking_artifact sha run_id p (row_id ai) ordered output) v = (Inr a, w')"
    and res: "res = \<lparr>rk_artifact_id = row_id a, rk_ordered_candidate_ids = ordered\<rparr>"
    by (auto simp: record_ranking_def engine_begin_Inr world_apply ranking_artifacts_table_def elim!: bnd_InrE split: option.splits)
  from inserted_Inr [OF 1] obtain i t where ai: "ai = ranking_invocation sha pv run_id p handles output c i t"
    "fresh_in ai (db_ai_invocations (w_db w))"
    "w_db v = (w_db w)\<lparr>db_ai_invocations := db_ai_invocations (w_db w) @ [ai]\<rparr>"
    by (auto simp: ai_invocations_table_def same_id_def fresh_in_def)
  from inserted_Inr [OF 2] obtain i t where a: "a = ranking_artifact sha run_id p (row_id ai) ordered output i t"
    "fresh_in a (db_ranking_artifacts (w_db w))"
    "w_db w' = (w_db v)\<lparr>db_ranking_artifacts := db_ranking_artifacts (w_db w) @ [a]\<rparr>"
    by (auto simp: ranking_artifacts_table_def same_id_def fresh_in_def ai(3))
  have "ai_stage ai = ''RANKING'' \<and> ai_status ai = ''COMPLETED'' \<and> ai_validated_output ai = Some output"
    by (simp add: ai(1) ranking_invocation_def)
  moreover have "ra_optimization_run_id a = run_id \<and> ra_ai_invocation_id a = row_id ai \<and> ra_ordered_candidate_ids a = ordered \<and>
      ra_artifact_fingerprint a = ranking_fingerprint sha run_id (ra_generation_artifact_id a) ordered output"
    by (simp add: a(1) ranking_artifact_def)
  ultimately show ?thesis using ai(2,3) a(2,3) res by (intro exI [of _ ai] exI [of _ a]) (simp add: ranking_of_artifact_def)
qed

lemma existing_ranking_Inr:
  assumes "existing_ranking run_id w = (Inr x, w')"
  shows "w_db w' = w_db w \<and> (case x of None \<Rightarrow> filter (\<lambda>a. ra_optimization_run_id a = run_id) (db_ranking_artifacts (w_db w)) = []
    | Some r \<Rightarrow> \<exists>a\<in>set (db_ranking_artifacts (w_db w)). ra_optimization_run_id a = run_id \<and> r = ranking_of_artifact a)"
proof -
  from assms obtain found where f: "one_or_none (filter (\<lambda>a. ra_optimization_run_id a = run_id) (db_ranking_artifacts (w_db w))) = Inr found"
    and x: "x = map_option ranking_of_artifact found" "w_db w' = w_db w"
    by (auto simp: existing_ranking_def engine_connect_Inr world_apply ranking_artifacts_table_def elim!: bnd_InrE)
  show ?thesis
  proof (cases found)
    case (Some a)
    then have "a \<in> set (filter (\<lambda>a. ra_optimization_run_id a = run_id) (db_ranking_artifacts (w_db w)))"
      using f by (simp add: one_or_none_mem)
    then show ?thesis using x Some by auto
  qed (use f x in simp)
qed

lemma ranked_candidates_same: "db_candidates d' = db_candidates d \<Longrightarrow> ranked_candidates run_id d' = ranked_candidates run_id d"
  by (simp add: ranked_candidates_def)

lemma set_ranked: "set (ranked_candidates run_id d) = {c \<in> set (db_candidates d). cn_optimization_run_id c = run_id}"
  by (auto simp: ranked_candidates_def by_fingerprint_def)

lemma verify_recorded:
  assumes db: "w_db v = d\<lparr>db_ai_invocations := db_ai_invocations d @ [ai], db_ranking_artifacts := db_ranking_artifacts d @ [a]\<rparr>"
    and fresh: "fresh_in ai (db_ai_invocations d)" "fresh_in a (db_ranking_artifacts d)"
    and ai: "ai_stage ai = ''RANKING''" "ai_status ai = ''COMPLETED''" "ai_validated_output ai = Some (handle_ranking_dump result)"
    and a: "ra_ai_invocation_id a = row_id ai" "ra_optimization_run_id a = run_id"
      "ra_artifact_fingerprint a = ranking_fingerprint sha run_id (ra_generation_artifact_id a) (ra_ordered_candidate_ids a) (handle_ranking_dump result)"
    and result: "hr_rationale result \<noteq> []"
    and order: "received_order (handles_upto (length (ranked_candidates run_id d))) (map row_id (ranked_candidates run_id d))
      (hr_candidate_handles result) = Inr (ra_ordered_candidate_ids a)"
    and calm: "\<And>n. \<not> w_faults v n"
  shows "\<exists>v'. verify_ranking_integrity sha (row_id a) v = (Inr True, v')"
proof -
  note 1 = only_new [OF fresh(1)] only_new [OF fresh(2)]
  have rows: "select_one ranking_artifacts_table (\<lambda>x. row_id x = row_id a) (tick v) = (Inr (Some a), tick v)"
    "select_one ai_invocations_table (\<lambda>i. row_id i = row_id ai) (tick v) = (Inr (Some ai), tick v)"
    using 1 by (simp_all add: world_apply ranking_artifacts_table_def ai_invocations_table_def db one_or_none_def)
  obtain kvs where dump: "handle_ranking_dump result = JObj kvs" by (simp add: handle_ranking_dump_def)
  have valid: "handle_ranking_validate (JObj kvs) = Inr result" using ranking_dump_roundtrip [OF result] by (simp add: dump)
  have same: "ranked_candidates run_id (w_db v) = ranked_candidates run_id d" by (rule ranked_candidates_same) (simp add: db)
  have "ranking_intact sha a (JObj kvs) (ranked_candidates run_id (w_db v))"
    using order valid a by (simp add: ranking_intact_def received_order_Inr same dump Let_def)
  then show ?thesis
    using rows calm ai a valid dump
    by (simp add: verify_ranking_integrity_def engine_connect_def bnd_apply db_available_apply)
qed

text \<open>
  C12. Whatever order the advisory provider proposes: a ranking that is recorded for a run lists the
  identifier of every candidate of the run exactly once, and the verification of the recorded artifact
  accepts it as long as the tables it reads are unchanged. When the run had a ranking already, that
  one is returned and nothing changes.
\<close>

theorem ranking_is_verified_permutation:
  assumes pv: "provider_ok pv" and run: "rank_for_run sha pv run_id w = (Inr res, w')"
  shows "(\<exists>a\<in>set (db_ranking_artifacts (w_db w)). ra_optimization_run_id a = run_id \<and> res = ranking_of_artifact a \<and> w_db w' = w_db w) \<or>
    distinct (rk_ordered_candidate_ids res) \<and>
    set (rk_ordered_candidate_ids res) = row_id ` {c \<in> set (db_candidates (w_db w)). cn_optimization_run_id c = run_id} \<and>
    (\<forall>v. w_db v = w_db w' \<and> (\<forall>n. \<not> w_faults v n) \<longrightarrow> (\<exists>v'. verify_ranking_integrity sha (rk_artifact_id res) v = (Inr True, v')))"
proof -
  from run obtain x v where ex: "existing_ranking run_id w = (Inr x, v)"
    and rest: "(case x of Some r \<Rightarrow> ret r | None \<Rightarrow> bnd (load_ranking run_id) (\<lambda>p.
         let handles = handles_upto (length (rp_summaries p)) in
         bnd (pv_rank_candidate_handles pv (map2 (\<lambda>h s. \<lparr>ri_handle = h, ri_safe_summary = s\<rparr>) handles (rp_summaries p))) (\<lambda>result.
         bnd (lift (received_order handles (rp_candidate_ids p) (hr_candidate_handles result))) (\<lambda>ordered.
         record_ranking sha pv run_id p handles (handle_ranking_dump result) ordered)))) v = (Inr res, w')"
    by (auto simp: rank_for_run_def)
  note ex = existing_ranking_Inr [OF ex]
  show ?thesis
  proof (cases x)
    case (Some r)
    then show ?thesis using ex rest by auto
  next
    case None
    let ?cs = "ranked_candidates run_id (w_db w)"
    from rest None obtain p v1 result v2 ordered where l: "load_ranking run_id v = (Inr p, v1)"
      and r: "pv_rank_candidate_handles pv (map2 (\<lambda>h s. \<lparr>ri_handle = h, ri_safe_summary = s\<rparr>)
        (handles_upto (length (rp_summaries p))) (rp_summaries p)) v1 = (Inr result, v2)"
      and o: "received_order (handles_upto (length (rp_summaries p))) (rp_candidate_ids p) (hr_candidate_handles result) = Inr ordered"
      and rec: "record_ranking sha pv run_id p (handles_upto (length (rp_summaries p))) (handle_ranking_dump result) ordered v2 = (Inr res, w')"
      by (auto simp: Let_def elim!: bnd_InrE)
    have d: "w_db v2 = w_db w" "hr_rationale result \<noteq> []"
      using load_ranking_Inr [OF l] pv r ex by (auto simp: provider_ok_def)
    have o: "received_order (handles_upto (length ?cs)) (map row_id ?cs) (hr_candidate_handles result) = Inr ordered"
      using o load_ranking_Inr [OF l] ex by simp
    have none: "filter (\<lambda>a. ra_optimization_run_id a = run_id) (db_ranking_artifacts (w_db v2)) = []" using ex None d by simp
    from record_ranking_Inr [OF rec none] obtain ai a where
      w': "w_db w' = (w_db w)\<lparr>db_ai_invocations := db_ai_invocations (w_db w) @ [ai], db_ranking_artifacts := db_ranking_artifacts (w_db w) @ [a]\<rparr>"
      and fresh: "fresh_in ai (db_ai_invocations (w_db w))" "fresh_in a (db_ranking_artifacts (w_db w))"
      and ai: "ai_stage ai = ''RANKING''" "ai_status ai = ''COMPLETED''" "ai_validated_output ai = Some (handle_ranking_dump result)"
      and a: "ra_ai_invocation_id a = row_id ai" "ra_optimization_run_id a = run_id" "ra_ordered_candidate_ids a = ordered"
        "ra_artifact_fingerprint a = ranking_fingerprint sha run_id (ra_generation_artifact_id a) ordered (handle_ranking_dump result)"
      and res: "res = ranking_of_artifact a" unfolding d by blast
    have "distinct ordered \<and> set ordered = row_id ` {c \<in> set (db_candidates (w_db w)). cn_optimization_run_id c = run_id}"
      using o by (simp add: received_order_Inr covers_exactly_iff set_ranked)
    moreover have "\<exists>v'. verify_ranking_integrity sha (row_id a) u = (Inr True, v')" if "w_db u = w_db w'" "\<forall>n. \<not> w_faults u n" for u
      using that w' by (intro verify_recorded [OF _ fresh ai a(1,2) _ d(2)]) (simp_all add: a o)
    ultimately show ?thesis by (simp add: res ranking_of_artifact_def a) blast
  qed
qed

definition demo_generation :: generation_artifact_row where
  "demo_generation = \<lparr>row_id = ''g1'', row_created_at = 0, row_updated_at = None, ga_optimization_run_id = ''run1'',
     ga_workload_snapshot_id = ''s1'', ga_diagnosis_artifact_id = ''d1'', ga_generator_version = ''v1'', ga_candidate_count = 1,
     ga_ordered_candidate_fingerprints = [''fp''], ga_artifact_fingerprint = ''gf'', ga_completed_at = 0\<rparr>"

definition demo_diagnosis :: diagnosis_artifact_row where
  "demo_diagnosis = \<lparr>row_id = ''d1'', row_created_at = 0, row_updated_at = None, di_optimization_run_id = ''run1'',
     di_workload_snapshot_id = ''s1'', di_target_id = ''t1'', di_ai_invocation_id = ''i1'', di_schema_version = ''v1'',
     di_source_snapshot_fingerprint = ''sf'', di_deterministic_evidence_hash = ''eh'', di_artifact_fingerprint = ''df''\<rparr>"

definition ranking_world :: "unit world" where
  "ranking_world = world_of ((pipeline_db RANKING)\<lparr>db_generation_artifacts := [demo_generation], db_diagnosis_artifacts := [demo_diagnosis]\<rparr>) ()"

lemma demo_ranking:
  "\<exists>res w'. rank_for_run id fake_provider ''run1'' ranking_world = (Inr res, w') \<and> db_ranking_artifacts (w_db ranking_world) = []"
proof -
  have rows: "ranked_candidates ''run1'' (w_db ranking_world) = [demo_candidate]"
    by (simp add: ranking_world_def pipeline_defs ranked_candidates_def by_fingerprint_def)
  let ?rr = "\<lparr>rr_run = Some (autonomous_run RANKING), rr_generation = Some demo_generation, rr_diagnosis = Some demo_diagnosis,
    rr_candidates = [demo_candidate], rr_actions = [demo_action], rr_findings = []\<rparr>"
  have read: "read_ranking_rows ''run1'' v = (Inr ?rr, v)" if "w_db v = w_db ranking_world" for v :: "unit world"
    using that rows by (simp add: read_ranking_rows_def bnd_apply world_apply table_defs one_or_none_def ranking_world_def pipeline_defs
        demo_generation_def demo_diagnosis_def)
  obtain p where p: "assemble_ranking ?rr = Inr p" "rp_candidate_ids p = [''c1'']" "length (rp_summaries p) = 1"
    by (simp add: assemble_ranking_def autonomous_run_def demo_generation_def action_by_candidate_def demo_action_def demo_candidate_def)
  have order: "received_order (handles_upto 1) [''c1''] (handles_upto 1) = Inr [''c1'']"
    by (simp add: received_order_Inr covers_exactly_iff handles_upto_def)
  obtain s where s: "rp_summaries p = [s]" using p(3) by (cases "rp_summaries p") auto
  show ?thesis
    using read p(1,2) order s
    by (simp add: rank_for_run_def existing_ranking_def load_ranking_def engine_connect_def engine_begin_def tables_transaction_def
        record_ranking_def create_in_transaction_def insert_row_def bnd_apply world_apply table_defs one_or_none_def ranking_world_def pipeline_defs Let_def
        fake_provider_def fake_rank_candidate_handles_def handles_upto_def)
qed

theorem ranking_is_verified_permutation_witness:
  "\<exists>res w'. rank_for_run id fake_provider ''run1'' ranking_world = (Inr res, w') \<and>
    set (rk_ordered_candidate_ids res) = row_id ` {c \<in> set (db_candidates (w_db ranking_world)). cn_optimization_run_id c = ''run1''}"
proof -
  obtain res w' where "rank_for_run id fake_provider ''run1'' ranking_world = (Inr res, w')" "db_ranking_artifacts (w_db ranking_world) = []"
    using demo_ranking by auto
  with ranking_is_verified_permutation [OF fake_provider_ok this(1)] show ?thesis by auto
qed

end
