(* ===== verification/Generation.thy ===== *)
theory Generation
  imports Ranking Candidates
begin

text \<open>
  The persistence half of \<open>backend/app/candidates/durable.py\<close>: the inputs of a run read from the tables, the indexes
  of the target read through the adapter, and the one transaction that records the candidates, their actions
  and the generation artifact.
\<close>

subsection \<open>Inputs\<close>

record generation_inputs =
  gi_snapshot_id :: string
  gi_diagnosis_id :: string
  gi_findings :: "diagnosis_finding list"
  gi_shapes :: "snapshot_shape list"

record generation_result =
  gr_artifact_id :: string
  gr_candidate_ids :: "string list"
  gr_candidate_count :: int

text \<open>The shapes of a snapshot joined with their query shape and its namespace.\<close>

definition joined_shape :: "snapshot_shape_row \<Rightarrow> query_shape_row \<Rightarrow> namespace_row \<Rightarrow> snapshot_shape" where
  "joined_shape s q n = \<lparr>ss_id = row_id s, ss_query_shape_id = sq_query_shape_id s, ss_query_shape_hash = sq_query_shape_hash s,
     ss_operation = sq_operation s, ss_protected_execution_time_share = sq_protected_execution_time_share s,
     ss_normalized_shape = qs_normalized_shape q, ss_real_namespace = ns_name n, ss_allowlisted = ns_allowlisted n\<rparr>"

definition snapshot_shapes_of :: "string \<Rightarrow> db \<Rightarrow> snapshot_shape list" where
  "snapshot_shapes_of snapshot d =
     concat (map (\<lambda>s. concat (map (\<lambda>q. map (joined_shape s q) (filter (\<lambda>n. row_id n = qs_namespace_id q) (db_namespaces d)))
       (filter (\<lambda>q. row_id q = sq_query_shape_id s) (db_query_shapes d))))
     (filter (\<lambda>s. sq_workload_snapshot_id s = snapshot) (db_snapshot_shapes d)))"

definition diagnosis_matches :: "run_row \<Rightarrow> string \<Rightarrow> diagnosis_artifact_row option \<Rightarrow> bool" where
  "diagnosis_matches r snapshot diagnosis \<longleftrightarrow> (case diagnosis of None \<Rightarrow> False
     | Some x \<Rightarrow> di_workload_snapshot_id x = snapshot \<and> di_target_id x = rn_target_id r)"

definition load_inputs :: "string \<Rightarrow> ('t world, generation_inputs) oper" where
  "load_inputs run_id = engine_connect (
     bnd (select_one runs_table (\<lambda>r. row_id r = run_id)) (\<lambda>run.
     case run of
       None \<Rightarrow> raise (CandidateGenerationError ''immutable workload snapshot is required'')
     | Some r \<Rightarrow> (case rn_workload_snapshot_id r of
         None \<Rightarrow> raise (CandidateGenerationError ''immutable workload snapshot is required'')
       | Some snapshot \<Rightarrow>
           bnd (select_one diagnosis_artifacts_table (\<lambda>x. di_optimization_run_id x = run_id)) (\<lambda>diagnosis.
           bnd (ensure (diagnosis_matches r snapshot diagnosis)
             (CandidateGenerationError ''durable diagnosis does not match run snapshot and target'')) (\<lambda>_.
           bnd (select_rows diagnosis_findings_table (\<lambda>f. dn_diagnosis_artifact_id f = row_id (the diagnosis))) (\<lambda>findings.
           bnd (asks (\<lambda>w. snapshot_shapes_of snapshot (w_db w))) (\<lambda>shapes.
           ret \<lparr>gi_snapshot_id = snapshot, gi_diagnosis_id = row_id (the diagnosis),
             gi_findings = map (\<lambda>f. \<lparr>df_query_shape_ids = dn_query_shape_ids f, df_evidence_refs = dn_evidence_refs f\<rparr>) findings,
             gi_shapes = shapes\<rparr>)))))))"

subsection \<open>Recording\<close>

definition candidate_row_of ::
  "digest \<Rightarrow> string \<Rightarrow> generation_inputs \<Rightarrow> candidate_definition \<Rightarrow> string \<Rightarrow> int \<Rightarrow> candidate_row" where
  "candidate_row_of sha run_id gi x = (\<lambda>i t. \<lparr>row_id = i, row_created_at = t, row_updated_at = Some t,
     cn_optimization_run_id = run_id, cn_query_shape_id = cd_query_shape_id x, cn_status = CAND_PROPOSED,
     cn_candidate_hash = json_hash sha (JObj [(''run_id'', JStr run_id), (''fingerprint'', JStr (cd_fingerprint x))]),
     cn_source_snapshot_id = Some (gi_snapshot_id gi), cn_source_diagnosis_id = Some (gi_diagnosis_id gi),
     cn_deterministic_fingerprint = Some (cd_fingerprint x), cn_generation_rule_id = Some ''candidate-generator-v1'',
     cn_generation_rule_version = Some ''1'', cn_affected_query_shape_ids = Some [cd_query_shape_id x],
     cn_evidence_refs = Some (cd_evidence_refs x), cn_policy_classification = Some ''AUTO_ELIGIBLE_AFTER_ADMISSION''\<rparr>)"

definition action_row_of :: "string \<Rightarrow> candidate_definition \<Rightarrow> string \<Rightarrow> int \<Rightarrow> candidate_action_row" where
  "action_row_of candidate_id x = (\<lambda>i t. \<lparr>row_id = i, row_created_at = t, row_updated_at = Some t, ac_candidate_id = candidate_id,
     ac_action_type = ''CREATE_INDEX'', ac_action_payload = JObj (create_index_dump (cd_action x)), ac_reversible = True\<rparr>)"

definition record_candidate :: "digest \<Rightarrow> string \<Rightarrow> generation_inputs \<Rightarrow> candidate_definition \<Rightarrow> ('t world, string) oper" where
  "record_candidate sha run_id gi x =
     bnd (create_in_transaction candidates_table (candidate_row_of sha run_id gi x)) (\<lambda>row.
     bnd (create_in_transaction candidate_actions_table (action_row_of (row_id row) x)) (\<lambda>_. ret (row_id row)))"

fun record_candidates :: "digest \<Rightarrow> string \<Rightarrow> generation_inputs \<Rightarrow> candidate_definition list \<Rightarrow> ('t world, string list) oper" where
  "record_candidates sha run_id gi [] = ret []"
| "record_candidates sha run_id gi (x # xs) =
     bnd (record_candidate sha run_id gi x) (\<lambda>i. bnd (record_candidates sha run_id gi xs) (\<lambda>js. ret (i # js)))"

definition generation_artifact_of ::
  "digest \<Rightarrow> string \<Rightarrow> generation_inputs \<Rightarrow> candidate_definition list \<Rightarrow> int \<Rightarrow> string \<Rightarrow> int \<Rightarrow> generation_artifact_row" where
  "generation_artifact_of sha run_id gi xs completed = (\<lambda>i t. \<lparr>row_id = i, row_created_at = t, row_updated_at = Some t,
     ga_optimization_run_id = run_id, ga_workload_snapshot_id = gi_snapshot_id gi, ga_diagnosis_artifact_id = gi_diagnosis_id gi,
     ga_generator_version = ''1'', ga_candidate_count = int (length xs), ga_ordered_candidate_fingerprints = map cd_fingerprint xs,
     ga_artifact_fingerprint = json_hash sha (JObj [(''run_id'', JStr run_id), (''snapshot'', JStr (gi_snapshot_id gi)),
       (''diagnosis'', JStr (gi_diagnosis_id gi)), (''generator'', JStr ''1''), (''candidates'', names_json (map cd_fingerprint xs))]),
     ga_completed_at = completed\<rparr>)"

definition generation_of_artifact :: "generation_artifact_row \<Rightarrow> candidate_row list \<Rightarrow> generation_result" where
  "generation_of_artifact a rows = \<lparr>gr_artifact_id = row_id a, gr_candidate_ids = map row_id rows, gr_candidate_count = ga_candidate_count a\<rparr>"

definition existing_generation :: "string \<Rightarrow> ('t world, generation_result option) oper" where
  "existing_generation run_id =
     bnd (engine_connect (
       bnd (select_one generation_artifacts_table (\<lambda>g. ga_optimization_run_id g = run_id)) (\<lambda>artifact.
       case artifact of
         None \<Rightarrow> ret None
       | Some a \<Rightarrow> bnd (asks (\<lambda>w. ranked_candidates run_id (w_db w))) (\<lambda>rows. ret (Some (a, rows)))))) (\<lambda>found.
     case found of
       None \<Rightarrow> ret None
     | Some (a, rows) \<Rightarrow>
         bnd (ensure (int (length rows) = ga_candidate_count a)
           (CandidateGenerationError ''candidate generation artifact does not match persisted candidates'')) (\<lambda>_.
         ret (Some (generation_of_artifact a rows))))"

definition record_generation ::
  "digest \<Rightarrow> string \<Rightarrow> generation_inputs \<Rightarrow> candidate_definition list \<Rightarrow> ('t world, generation_result) oper" where
  "record_generation sha run_id gi xs = engine_begin (
     bnd (select_one generation_artifacts_table (\<lambda>g. ga_optimization_run_id g = run_id)) (\<lambda>artifact.
     case artifact of
       Some a \<Rightarrow> bnd (asks (\<lambda>w. ranked_candidates run_id (w_db w))) (\<lambda>rows. ret (generation_of_artifact a rows))
     | None \<Rightarrow>
         bnd (record_candidates sha run_id gi xs) (\<lambda>ids.
         bnd now (\<lambda>completed.
         bnd (create_in_transaction generation_artifacts_table (generation_artifact_of sha run_id gi xs completed)) (\<lambda>row.
         ret \<lparr>gr_artifact_id = row_id row, gr_candidate_ids = ids, gr_candidate_count = int (length ids)\<rparr>)))))"

definition generate_for_run :: "digest \<Rightarrow> 't adapter \<Rightarrow> string \<Rightarrow> ('t world, generation_result) oper" where
  "generate_for_run sha ad run_id =
     bnd (existing_generation run_id) (\<lambda>existing.
     case existing of
       Some g \<Rightarrow> ret g
     | None \<Rightarrow>
         bnd (load_inputs run_id) (\<lambda>gi.
         bnd (on_world_target (index_metadata ad (referenced_shapes (gi_findings gi) (gi_shapes gi)))) (\<lambda>indexes.
         bnd (lift (candidate_definitions sha (gi_findings gi) (gi_shapes gi) indexes)) (\<lambda>xs.
         record_generation sha run_id gi xs))))"

subsection \<open>What a generation leaves behind\<close>

text \<open>
  One proposed candidate row and one typed action row for each definition, in its order: the rows carry what the
  definition says and the identifiers of the run's snapshot and diagnosis.
\<close>

definition recorded ::
  "string \<Rightarrow> generation_inputs \<Rightarrow> candidate_definition list \<Rightarrow> string list \<Rightarrow> candidate_row list \<Rightarrow> candidate_action_row list \<Rightarrow> bool" where
  "recorded run_id gi xs ids rows actions \<longleftrightarrow> map row_id rows = ids \<and> map ac_candidate_id actions = ids \<and> distinct ids \<and>
     map cn_deterministic_fingerprint rows = map (\<lambda>x. Some (cd_fingerprint x)) xs \<and>
     map ac_action_payload actions = map (\<lambda>x. JObj (create_index_dump (cd_action x))) xs \<and>
     map cn_query_shape_id rows = map cd_query_shape_id xs \<and> map cn_evidence_refs rows = map (\<lambda>x. Some (cd_evidence_refs x)) xs \<and>
     (\<forall>r\<in>set rows. cn_optimization_run_id r = run_id \<and> cn_status r = CAND_PROPOSED \<and>
        cn_source_snapshot_id r = Some (gi_snapshot_id gi) \<and> cn_source_diagnosis_id r = Some (gi_diagnosis_id gi)) \<and>
     (\<forall>a\<in>set actions. ac_action_type a = ''CREATE_INDEX'' \<and> ac_reversible a)"

lemma record_candidate_Inr:
  assumes "record_candidate sha run_id gi x w = (Inr i, w')"
  shows "\<exists>r a. w_db w' = (w_db w)\<lparr>db_candidates := db_candidates (w_db w) @ [r], db_candidate_actions := db_candidate_actions (w_db w) @ [a]\<rparr> \<and>
    recorded run_id gi [x] [i] [r] [a] \<and> i \<notin> row_id ` set (db_candidates (w_db w))"
proof -
  from assms obtain r v a where 1: "create_in_transaction candidates_table (candidate_row_of sha run_id gi x) w = (Inr r, v)"
    and 2: "create_in_transaction candidate_actions_table (action_row_of (row_id r) x) v = (Inr a, w')" and i: "i = row_id r"
    by (auto simp: record_candidate_def elim!: bnd_InrE)
  from inserted_Inr [OF 1] have "row_id r \<notin> row_id ` set (db_candidates (w_db w))"
      "w_db v = (w_db w)\<lparr>db_candidates := db_candidates (w_db w) @ [r]\<rparr>" "cn_optimization_run_id r = run_id" "cn_status r = CAND_PROPOSED"
      "cn_deterministic_fingerprint r = Some (cd_fingerprint x)" "cn_query_shape_id r = cd_query_shape_id x"
      "cn_evidence_refs r = Some (cd_evidence_refs x)" "cn_source_snapshot_id r = Some (gi_snapshot_id gi)"
      "cn_source_diagnosis_id r = Some (gi_diagnosis_id gi)"
    by (auto simp: candidates_table_def same_id_def candidate_row_of_def)
  moreover from inserted_Inr [OF 2] have "w_db w' = (w_db v)\<lparr>db_candidate_actions := db_candidate_actions (w_db v) @ [a]\<rparr>"
      "ac_candidate_id a = row_id r" "ac_action_payload a = JObj (create_index_dump (cd_action x))"
      "ac_action_type a = ''CREATE_INDEX''" "ac_reversible a"
    by (auto simp: candidate_actions_table_def action_row_of_def)
  ultimately show ?thesis using i by (intro exI [of _ r] exI [of _ a]) (simp add: recorded_def)
qed

lemma record_candidates_Inr:
  "record_candidates sha run_id gi xs w = (Inr ids, w') \<Longrightarrow>
   \<exists>rows actions. w_db w' = (w_db w)\<lparr>db_candidates := db_candidates (w_db w) @ rows, db_candidate_actions := db_candidate_actions (w_db w) @ actions\<rparr> \<and>
     recorded run_id gi xs ids rows actions \<and> set ids \<inter> row_id ` set (db_candidates (w_db w)) = {}"
proof (induction xs arbitrary: w ids)
  case Nil
  then show ?case by (intro exI [of _ "[]"]) (auto simp: recorded_def)
next
  case (Cons x xs)
  then obtain i v js where 1: "record_candidate sha run_id gi x w = (Inr i, v)"
    and 2: "record_candidates sha run_id gi xs v = (Inr js, w')" and ids: "ids = i # js"
    by (auto elim!: bnd_InrE)
  from record_candidate_Inr [OF 1] obtain r a where
    v: "w_db v = (w_db w)\<lparr>db_candidates := db_candidates (w_db w) @ [r], db_candidate_actions := db_candidate_actions (w_db w) @ [a]\<rparr>"
    and r: "recorded run_id gi [x] [i] [r] [a]" "i \<notin> row_id ` set (db_candidates (w_db w))" by blast
  from Cons.IH [OF 2] obtain rows actions where
    w': "w_db w' = (w_db v)\<lparr>db_candidates := db_candidates (w_db v) @ rows, db_candidate_actions := db_candidate_actions (w_db v) @ actions\<rparr>"
    and rs: "recorded run_id gi xs js rows actions" "set js \<inter> row_id ` set (db_candidates (w_db v)) = {}" by blast
  have "w_db w' = (w_db w)\<lparr>db_candidates := db_candidates (w_db w) @ r # rows, db_candidate_actions := db_candidate_actions (w_db w) @ a # actions\<rparr>"
    using w' v by simp
  moreover have "recorded run_id gi (x # xs) ids (r # rows) (a # actions) \<and> set ids \<inter> row_id ` set (db_candidates (w_db w)) = {}"
    using r rs v ids by (auto simp: recorded_def)
  ultimately show ?case by blast
qed

lemma summaries_total: "(\<And>c. c \<in> set cs \<Longrightarrow> action_by_candidate actions (row_id c) \<noteq> None) \<Longrightarrow> \<exists>ss. summaries_of actions cs = Inr ss"
  by (induction cs) (fastforce split: option.splits)+

lemma action_found: "row_id c \<in> ac_candidate_id ` set actions \<Longrightarrow> action_by_candidate actions (row_id c) \<noteq> None"
  by (auto simp: action_by_candidate_def map_of_eq_None_iff image_image)

text \<open>What the ranking needs to load the inputs of a run.\<close>

lemma load_ranking_ready:
  assumes run: "filter (\<lambda>r. row_id r = run_id) (db_runs (w_db v)) = [r]" "rn_workload_snapshot_id r = Some snapshot"
    and g: "filter (\<lambda>g. ga_optimization_run_id g = run_id) (db_generation_artifacts (w_db v)) = [g]"
    and x: "filter (\<lambda>x. di_optimization_run_id x = run_id) (db_diagnosis_artifacts (w_db v)) = [x]"
    and count: "ga_candidate_count g = int (length (ranked_candidates run_id (w_db v)))" "ga_candidate_count g \<noteq> 0"
    and actions: "row_id ` set (ranked_candidates run_id (w_db v)) \<subseteq> ac_candidate_id ` set (db_candidate_actions (w_db v))"
    and calm: "\<not> w_faults v (w_reads v)"
  shows "\<exists>p v'. load_ranking run_id v = (Inr p, v') \<and> rp_candidate_ids p = map row_id (ranked_candidates run_id (w_db v))"
proof -
  let ?cs = "ranked_candidates run_id (w_db v)"
  let ?as = "filter (\<lambda>a. ac_candidate_id a \<in> row_id ` set ?cs) (db_candidate_actions (w_db v))"
  have "action_by_candidate ?as (row_id c) \<noteq> None" if "c \<in> set ?cs" for c
    proof -
    have "row_id c \<in> ac_candidate_id ` set (db_candidate_actions (w_db v))" using that actions by auto
    then obtain a where a: "a \<in> set (db_candidate_actions (w_db v))" "ac_candidate_id a = row_id c" by auto
    then have "a \<in> set ?as" using that by simp
    then have "row_id c \<in> ac_candidate_id ` set ?as" using a(2) by (metis imageI)
    then show ?thesis by (rule action_found)
  qed
  then obtain ss where ss: "summaries_of ?as ?cs = Inr ss" using summaries_total [of ?cs ?as] by blast
  have "read_ranking_rows run_id (tick v) = (Inr \<lparr>rr_run = Some r, rr_generation = Some g, rr_diagnosis = Some x, rr_candidates = ?cs,
      rr_actions = ?as, rr_findings = filter (\<lambda>f. dn_diagnosis_artifact_id f = row_id x) (db_diagnosis_findings (w_db v))\<rparr>, tick v)"
    using run(1) g x by (simp add: read_ranking_rows_def bnd_apply world_apply table_defs one_or_none_def)
  then show ?thesis
    using run(2) count ss calm by (simp add: load_ranking_def engine_connect_def bnd_apply db_available_apply assemble_ranking_def)
qed

definition inputs_from :: "diagnosis_artifact_row \<Rightarrow> string \<Rightarrow> db \<Rightarrow> generation_inputs" where
  "inputs_from x snapshot d = \<lparr>gi_snapshot_id = snapshot, gi_diagnosis_id = row_id x,
     gi_findings = map (\<lambda>f. \<lparr>df_query_shape_ids = dn_query_shape_ids f, df_evidence_refs = dn_evidence_refs f\<rparr>)
       (filter (\<lambda>f. dn_diagnosis_artifact_id f = row_id x) (db_diagnosis_findings d)),
     gi_shapes = snapshot_shapes_of snapshot d\<rparr>"

lemma load_inputs_Inr:
  assumes "load_inputs run_id w = (Inr gi, w')"
  shows "w_db w' = w_db w \<and> w_target w' = w_target w \<and> (\<exists>r snapshot x. filter (\<lambda>r. row_id r = run_id) (db_runs (w_db w)) = [r] \<and>
    rn_workload_snapshot_id r = Some snapshot \<and>
    filter (\<lambda>x. di_optimization_run_id x = run_id) (db_diagnosis_artifacts (w_db w)) = [x] \<and>
    di_workload_snapshot_id x = snapshot \<and> di_target_id x = rn_target_id r \<and> gi = inputs_from x snapshot (w_db w))"
proof -
  have rows: "tb_rows runs_table = db_runs" "tb_rows diagnosis_artifacts_table = db_diagnosis_artifacts"
    "tb_rows diagnosis_findings_table = db_diagnosis_findings" by (simp_all add: table_defs)
  show ?thesis
    using assms
    by (auto simp: load_inputs_def engine_connect_Inr world_apply rows diagnosis_matches_def inputs_from_def elim!: bnd_InrE
        split: option.splits if_splits)
qed

text \<open>Reading changes neither the tables nor the target.\<close>

definition only_reads :: "'t world \<Rightarrow> 't world \<Rightarrow> bool" where
  "only_reads w w' \<longleftrightarrow> w_db w' = w_db w \<and> w_target w' = w_target w"

named_theorems reading \<open>operations that only read\<close>

lemma reading_steps [reading]:
  "keeps only_reads (ret x)" "keeps only_reads (raise e)" "keeps only_reads (asks f)" "keeps only_reads (lift v)"
  "keeps only_reads (ensure b e)" "keeps only_reads (select_one tb p)" "keeps only_reads (select_rows tb p)" "keeps only_reads db_available"
  by (auto simp: keeps_def only_reads_def world_apply)

lemma reading_bnd [reading]: "keeps only_reads m \<Longrightarrow> (\<And>a. keeps only_reads (f a)) \<Longrightarrow> keeps only_reads (bnd m f)"
  by (intro keeps_bnd transpI) (auto simp: only_reads_def)

lemma reading_option [reading]:
  "keeps only_reads a \<Longrightarrow> (\<And>x. keeps only_reads (f x)) \<Longrightarrow> keeps only_reads (case v of None \<Rightarrow> a | Some x \<Rightarrow> f x)"
  by (cases v) simp_all

lemma reading_pair [reading]:
  "(\<And>a b. keeps only_reads (f a b)) \<Longrightarrow> keeps only_reads (case p of (a, b) \<Rightarrow> f a b)"
  by (cases p) simp

lemma reads_of_generation:
  "keeps only_reads (existing_generation run_id)" "keeps only_reads (load_inputs run_id)"
  unfolding existing_generation_def load_inputs_def engine_connect_def by (intro reading)+

lemma record_generation_fails:
  assumes "record_generation sha run_id gi xs w = (Inl e, w')"
  shows "w_db w' = w_db w"
  using assms
  by (auto simp: record_generation_def engine_begin_def tables_transaction_def bnd_apply db_available_apply
      split: prod.splits sum.splits if_splits)

text \<open>A generation that raises leaves the tables as they were.\<close>

lemma generation_fails:
  assumes "generate_for_run sha ad run_id w = (Inl e, w')"
  shows "w_db w' = w_db w"
proof -
  have same: "w_db v' = w_db v" if "keeps only_reads m" "m v = (x, v')" for m :: "('b world, 'c) oper" and x v v'
    using keepsD [OF that] by (simp add: only_reads_def)
  note ex = same [OF reads_of_generation(1)] and li = same [OF reads_of_generation(2)]
  show ?thesis
    using assms
    by (auto simp: generate_for_run_def bnd_Inl_iff on_world_target_apply lift_apply split: option.splits
        dest!: ex li record_generation_fails) 
qed

lemma existing_generation_None:
  assumes "existing_generation run_id w = (Inr x, w')" and "filter (\<lambda>g. ga_optimization_run_id g = run_id) (db_generation_artifacts (w_db w)) = []"
  shows "x = None \<and> w_db w' = w_db w"
proof -
  have rows: "tb_rows generation_artifacts_table = db_generation_artifacts" by (simp add: table_defs)
  show ?thesis
    using assms by (auto simp: existing_generation_def engine_connect_Inr world_apply rows elim!: bnd_InrE split: option.splits)
qed

lemma record_generation_Inr:
  assumes "record_generation sha run_id gi xs w = (Inr res, w')"
    and new: "filter (\<lambda>g. ga_optimization_run_id g = run_id) (db_generation_artifacts (w_db w)) = []"
  shows "\<exists>rows actions g. w_db w' = (w_db w)\<lparr>db_candidates := db_candidates (w_db w) @ rows,
      db_candidate_actions := db_candidate_actions (w_db w) @ actions, db_generation_artifacts := db_generation_artifacts (w_db w) @ [g]\<rparr> \<and>
    recorded run_id gi xs (gr_candidate_ids res) rows actions \<and> set (gr_candidate_ids res) \<inter> row_id ` set (db_candidates (w_db w)) = {} \<and>
    ga_optimization_run_id g = run_id \<and> ga_candidate_count g = int (length xs) \<and>
    ga_workload_snapshot_id g = gi_snapshot_id gi \<and> ga_diagnosis_artifact_id g = gi_diagnosis_id gi \<and>
    ga_ordered_candidate_fingerprints g = map cd_fingerprint xs \<and> gr_artifact_id res = row_id g \<and>
    gr_candidate_count res = int (length xs)"
proof -
  have t: "tb_rows generation_artifacts_table = db_generation_artifacts" by (simp add: table_defs)
  from assms obtain ids v c g where 1: "record_candidates sha run_id gi xs (tick w) = (Inr ids, v)"
    and 2: "create_in_transaction generation_artifacts_table (generation_artifact_of sha run_id gi xs c) (tick v) = (Inr g, w')"
    and res: "res = \<lparr>gr_artifact_id = row_id g, gr_candidate_ids = ids, gr_candidate_count = int (length ids)\<rparr>"
    by (auto simp: record_generation_def engine_begin_Inr world_apply t elim!: bnd_InrE split: option.splits)
  from record_candidates_Inr [OF 1] obtain rows actions where
    v: "w_db v = (w_db w)\<lparr>db_candidates := db_candidates (w_db w) @ rows, db_candidate_actions := db_candidate_actions (w_db w) @ actions\<rparr>"
    and r: "recorded run_id gi xs ids rows actions" "set ids \<inter> row_id ` set (db_candidates (w_db w)) = {}" by auto
  from inserted_Inr [OF 2] have "w_db w' = (w_db v)\<lparr>db_generation_artifacts := db_generation_artifacts (w_db v) @ [g]\<rparr>"
    "ga_optimization_run_id g = run_id" "ga_candidate_count g = int (length xs)" "ga_workload_snapshot_id g = gi_snapshot_id gi"
    "ga_diagnosis_artifact_id g = gi_diagnosis_id gi" "ga_ordered_candidate_fingerprints g = map cd_fingerprint xs"
    by (auto simp: generation_artifacts_table_def generation_artifact_of_def)
  moreover have "length ids = length xs" using r(1) unfolding recorded_def by (metis length_map)
  ultimately show ?thesis
    using v r res by (intro exI [of _ rows] exI [of _ actions] exI [of _ g]) simp
qed

lemma record_generation_target:
  assumes "record_generation sha run_id gi xs w = (Inr res, w')"
  shows "w_target w' = w_target w"
proof -
  have "keeps same_outside (record_candidates sha run_id gi xs :: ('b world, string list) oper)"
  proof (induction xs)
    case (Cons x xs)
    have "keeps same_outside (record_candidate sha run_id gi x :: ('b world, string) oper)"
      unfolding record_candidate_def create_in_transaction_def by (intro frames)
    with Cons show ?case unfolding record_candidates.simps by (intro frames)
  qed (simp only: record_candidates.simps frames)
  then have "keeps same_outside (record_generation sha run_id gi xs :: ('b world, generation_result) oper)"
    unfolding record_generation_def create_in_transaction_def by (intro frames)
  from keepsD [OF this] assms show ?thesis unfolding same_outside_def by blast
qed

text \<open>What was recorded is what the ranking loads.\<close>

lemma recorded_ready:
  assumes w': "w_db w' = (w_db w)\<lparr>db_candidates := db_candidates (w_db w) @ rows,
      db_candidate_actions := db_candidate_actions (w_db w) @ actions, db_generation_artifacts := db_generation_artifacts (w_db w) @ [g]\<rparr>"
    and r: "recorded run_id gi xs ids rows actions"
    and g: "ga_optimization_run_id g = run_id" "ga_candidate_count g = int (length xs)"
    and run: "filter (\<lambda>r. row_id r = run_id) (db_runs (w_db w)) = [rn]" "rn_workload_snapshot_id rn = Some snapshot"
      "filter (\<lambda>x. di_optimization_run_id x = run_id) (db_diagnosis_artifacts (w_db w)) = [x]"
    and new: "\<forall>c\<in>set (db_candidates (w_db w)). cn_optimization_run_id c \<noteq> run_id"
      "\<forall>g\<in>set (db_generation_artifacts (w_db w)). ga_optimization_run_id g \<noteq> run_id"
    and v: "w_db v = w_db w'" "\<not> w_faults v (w_reads v)" and some: "xs \<noteq> []"
  shows "\<exists>p v'. load_ranking run_id v = (Inr p, v') \<and> set (rp_candidate_ids p) = set ids"
proof -
  have only: "filter (\<lambda>c. cn_optimization_run_id c = run_id) (db_candidates (w_db w')) = rows"
    using new(1) r by (auto simp: w' recorded_def filter_id_conv filter_empty_conv)
  have len: "length rows = length xs" using r unfolding recorded_def by (metis length_map)
  have ids: "row_id ` set rows = set ids" "ac_candidate_id ` set actions = set ids"
    using r unfolding recorded_def by (metis set_map)+
  have ranked: "set (ranked_candidates run_id (w_db v)) = set rows" "length (ranked_candidates run_id (w_db v)) = length rows"
    using only v(1) by (simp_all add: ranked_candidates_def by_fingerprint_def)
  have none: "filter (\<lambda>g. ga_optimization_run_id g = run_id) (db_generation_artifacts (w_db w)) = []"
    using new(2) by (simp add: filter_empty_conv)
  have gf: "filter (\<lambda>g. ga_optimization_run_id g = run_id) (db_generation_artifacts (w_db v)) = [g]"
    using none v(1) w' g(1) by simp
  have sub: "row_id ` set (ranked_candidates run_id (w_db v)) \<subseteq> ac_candidate_id ` set (db_candidate_actions (w_db v))"
    using ranked(1) ids v(1) w' by auto
  have count: "ga_candidate_count g = int (length (ranked_candidates run_id (w_db v)))" "ga_candidate_count g \<noteq> 0"
    using ranked(2) len g some by simp_all
  have rx: "filter (\<lambda>r. row_id r = run_id) (db_runs (w_db v)) = [rn]"
      "filter (\<lambda>x. di_optimization_run_id x = run_id) (db_diagnosis_artifacts (w_db v)) = [x]"
    using run(1,3) v(1) w' by simp_all
  obtain p v' where "load_ranking run_id v = (Inr p, v')" "rp_candidate_ids p = map row_id (ranked_candidates run_id (w_db v))"
    using load_ranking_ready [OF rx(1) run(2) gf rx(2) count sub v(2)] by blast
  then show ?thesis using ranked(1) ids by auto
qed

text \<open>
  C14. A new generation happens in one transaction or not at all. When it raises, the tables are what they were.
  When it returns, the definitions computed from the run's snapshot, its diagnosis and the indexes the
  adapter reports for the target were recorded completely: one proposed candidate and one typed CREATE INDEX action
  for each, in their order, exactly one artifact with their number and their fingerprints, and nothing else. And the run is
  then ready for the next stage: if there is a candidate at all, the ranking service can load it and gets exactly
  these candidates.
\<close>

theorem generated_candidates_can_be_ranked:
  assumes run: "generate_for_run sha ad run_id w = (r, w')"
    and new: "\<forall>c\<in>set (db_candidates (w_db w)). cn_optimization_run_id c \<noteq> run_id"
      "\<forall>g\<in>set (db_generation_artifacts (w_db w)). ga_optimization_run_id g \<noteq> run_id"
  shows "(\<forall>e. r = Inl e \<longrightarrow> w_db w' = w_db w) \<and>
    (\<forall>res. r = Inr res \<longrightarrow> (\<exists>rn snapshot x indexes xs rows actions g.
      filter (\<lambda>r. row_id r = run_id) (db_runs (w_db w)) = [rn] \<and> rn_workload_snapshot_id rn = Some snapshot \<and>
      filter (\<lambda>x. di_optimization_run_id x = run_id) (db_diagnosis_artifacts (w_db w)) = [x] \<and>
      di_workload_snapshot_id x = snapshot \<and> di_target_id x = rn_target_id rn \<and>
      index_metadata ad (referenced_shapes (gi_findings (inputs_from x snapshot (w_db w))) (gi_shapes (inputs_from x snapshot (w_db w))))
        (w_target w) = (Inr indexes, w_target w') \<and>
      candidate_definitions sha (gi_findings (inputs_from x snapshot (w_db w))) (gi_shapes (inputs_from x snapshot (w_db w))) indexes = Inr xs \<and>
      w_db w' = (w_db w)\<lparr>db_candidates := db_candidates (w_db w) @ rows,
        db_candidate_actions := db_candidate_actions (w_db w) @ actions,
        db_generation_artifacts := db_generation_artifacts (w_db w) @ [g]\<rparr> \<and>
      recorded run_id (inputs_from x snapshot (w_db w)) xs (gr_candidate_ids res) rows actions \<and>
      ga_optimization_run_id g = run_id \<and> ga_workload_snapshot_id g = snapshot \<and> ga_diagnosis_artifact_id g = row_id x \<and>
      ga_candidate_count g = int (length xs) \<and> ga_ordered_candidate_fingerprints g = map cd_fingerprint xs \<and>
      gr_artifact_id res = row_id g \<and> gr_candidate_count res = int (length xs) \<and>
      (xs \<noteq> [] \<longrightarrow> (\<forall>v. w_db v = w_db w' \<and> \<not> w_faults v (w_reads v) \<longrightarrow>
        (\<exists>p v'. load_ranking run_id v = (Inr p, v') \<and> set (rp_candidate_ids p) = set (gr_candidate_ids res))))))"
proof (cases r)
  case (Inl e)
  then show ?thesis using generation_fails run by blast
next
  case (Inr res)
  note run = run [unfolded Inr]
  have none: "filter (\<lambda>g. ga_optimization_run_id g = run_id) (db_generation_artifacts (w_db w)) = []"
    using new(2) by (simp add: filter_empty_conv)
  from run obtain x v0 where ex: "existing_generation run_id w = (Inr x, v0)"
    and rest: "(case x of Some g \<Rightarrow> ret g | None \<Rightarrow> bnd (load_inputs run_id) (\<lambda>gi.
       bnd (on_world_target (index_metadata ad (referenced_shapes (gi_findings gi) (gi_shapes gi)))) (\<lambda>indexes.
       bnd (lift (candidate_definitions sha (gi_findings gi) (gi_shapes gi) indexes)) (\<lambda>xs.
       record_generation sha run_id gi xs)))) v0 = (Inr res, w')"
    by (auto simp: generate_for_run_def)
  have x: "x = None" "w_db v0 = w_db w" using existing_generation_None [OF ex none] by simp_all
  from rest x(1) obtain gi v1 indexes v2 xs where l: "load_inputs run_id v0 = (Inr gi, v1)"
    and m: "on_world_target (index_metadata ad (referenced_shapes (gi_findings gi) (gi_shapes gi))) v1 = (Inr indexes, v2)"
    and xs: "candidate_definitions sha (gi_findings gi) (gi_shapes gi) indexes = Inr xs"
    and rec: "record_generation sha run_id gi xs v2 = (Inr res, w')"
    by (auto simp: lift_apply elim!: bnd_InrE)
  have t0: "w_target v0 = w_target w" using keepsD [OF reads_of_generation(1) ex] by (simp add: only_reads_def)
  from load_inputs_Inr [OF l] x(2) obtain rn snapshot x where
    li: "filter (\<lambda>r. row_id r = run_id) (db_runs (w_db w)) = [rn]" "rn_workload_snapshot_id rn = Some snapshot"
      "filter (\<lambda>x. di_optimization_run_id x = run_id) (db_diagnosis_artifacts (w_db w)) = [x]"
      "di_workload_snapshot_id x = snapshot" "di_target_id x = rn_target_id rn" "gi = inputs_from x snapshot (w_db w)"
    and v1: "w_db v1 = w_db w" "w_target v1 = w_target w" by (auto simp: t0)
  have d: "w_db v2 = w_db w" using m v1 by (auto simp: on_world_target_apply)
  have t: "index_metadata ad (referenced_shapes (gi_findings gi) (gi_shapes gi)) (w_target w) = (Inr indexes, w_target v2)"
    using m v1(2) by (auto simp: on_world_target_apply intro: prod_eqI)
  have t': "w_target w' = w_target v2" using rec by (rule record_generation_target)
  from record_generation_Inr [OF rec] none obtain rows actions g where
    w': "w_db w' = (w_db w)\<lparr>db_candidates := db_candidates (w_db w) @ rows,
      db_candidate_actions := db_candidate_actions (w_db w) @ actions, db_generation_artifacts := db_generation_artifacts (w_db w) @ [g]\<rparr>"
    and r: "recorded run_id gi xs (gr_candidate_ids res) rows actions"
    and g: "ga_optimization_run_id g = run_id" "ga_candidate_count g = int (length xs)" "gr_candidate_count res = int (length xs)"
      "ga_workload_snapshot_id g = gi_snapshot_id gi" "ga_diagnosis_artifact_id g = gi_diagnosis_id gi"
      "ga_ordered_candidate_fingerprints g = map cd_fingerprint xs" "gr_artifact_id res = row_id g"
    unfolding d by blast
  have ready: "\<exists>p v'. load_ranking run_id v = (Inr p, v') \<and> set (rp_candidate_ids p) = set (gr_candidate_ids res)"
    if "w_db v = w_db w'" "\<not> w_faults v (w_reads v)" "xs \<noteq> []" for v
    using recorded_ready [OF w' r g(1,2) li(1,2,3) new that] .
  have ids: "gi_snapshot_id gi = snapshot" "gi_diagnosis_id gi = row_id x" by (simp_all add: li(6) inputs_from_def)
  show ?thesis
    using li(1-5) t t' xs w' r g ids ready Inr
    by (intro conjI allI impI exI [of _ rn] exI [of _ snapshot] exI [of _ x] exI [of _ indexes] exI [of _ xs] exI [of _ rows]
        exI [of _ actions] exI [of _ g]) (auto simp: li(6))
qed

subsection \<open>A generation\<close>

definition demo_shape_row :: snapshot_shape_row where
  "demo_shape_row = \<lparr>row_id = ''w1'', row_created_at = 0, row_updated_at = None, sq_workload_snapshot_id = ''s1'',
     sq_query_shape_id = ''s1'', sq_query_shape_hash = ''q'', sq_operation = ''find'', sq_namespace = ''shop.orders'',
     sq_observed_operation_count = 1, sq_successful_operation_count = None, sq_failure_count = None, sq_timeout_count = None,
     sq_aggregate_execution_time_ms = None, sq_workload_operation_share = 1, sq_execution_time_share = None, sq_manually_critical = False,
     sq_protected_manual_critical = False, sq_protected_operation_share = False, sq_protected_execution_time_share = True,
     sq_base_protected = True, sq_provider = ''profiler''\<rparr>"

definition demo_query_shape :: query_shape_row where
  "demo_query_shape = \<lparr>row_id = ''s1'', row_created_at = 0, row_updated_at = None, qs_namespace_id = ''n1'', qs_shape_hash = ''q'',
     qs_normalized_shape = ss_normalized_shape demo_snapshot_shape, qs_operation = ''find''\<rparr>"

definition demo_namespace :: namespace_row where
  "demo_namespace = \<lparr>row_id = ''n1'', row_created_at = 0, row_updated_at = None, ns_target_id = ''t1'', ns_name = ''shop.orders'',
     ns_allowlisted = True\<rparr>"

definition generation_db :: db where
  "generation_db = (pipeline_db GENERATING_CANDIDATES)\<lparr>db_candidates := [], db_candidate_actions := [], db_diagnosis_artifacts := [demo_diagnosis],
     db_snapshot_shapes := [demo_shape_row], db_query_shapes := [demo_query_shape], db_namespaces := [demo_namespace]\<rparr>"

definition generation_world :: "fake_db world" where
  "generation_world = world_of generation_db (fake_init [''orders''])"

lemma demo_joined: "joined_shape demo_shape_row demo_query_shape demo_namespace = demo_snapshot_shape"
  by (simp add: joined_shape_def demo_shape_row_def demo_query_shape_def demo_namespace_def demo_snapshot_shape_def)

lemma generation_db_sel [simp]:
  "db_runs generation_db = [autonomous_run GENERATING_CANDIDATES]" "db_candidates generation_db = []" "db_candidate_actions generation_db = []"
  "db_diagnosis_artifacts generation_db = [demo_diagnosis]" "db_snapshot_shapes generation_db = [demo_shape_row]"
  "db_query_shapes generation_db = [demo_query_shape]" "db_namespaces generation_db = [demo_namespace]"
  "db_generation_artifacts generation_db = []" "db_diagnosis_findings generation_db = []"
  by (simp_all add: generation_db_def pipeline_db_def empty_db_def)

lemma demo_shapes: "snapshot_shapes_of ''s1'' generation_db = [demo_snapshot_shape]"
proof -
  have "row_id demo_query_shape = sq_query_shape_id demo_shape_row" "row_id demo_namespace = qs_namespace_id demo_query_shape"
    "sq_workload_snapshot_id demo_shape_row = ''s1''"
    by (simp_all add: demo_shape_row_def demo_query_shape_def demo_namespace_def)
  then show ?thesis by (simp add: snapshot_shapes_of_def demo_joined)
qed

lemma demo_generation_runs:
  "\<exists>res w'. generate_for_run id fake_adapter ''run1'' generation_world = (Inr res, w') \<and> gr_candidate_count res = 1"
proof -
  let ?w = generation_world
  have sel: "rn_workload_snapshot_id (autonomous_run GENERATING_CANDIDATES) = Some ''s1''" "row_id (autonomous_run GENERATING_CANDIDATES) = ''run1''"
    "rn_target_id (autonomous_run GENERATING_CANDIDATES) = ''t1''" "row_id demo_diagnosis = ''d1''"
    "di_optimization_run_id demo_diagnosis = ''run1''" "di_workload_snapshot_id demo_diagnosis = ''s1''" "di_target_id demo_diagnosis = ''t1''"
    by (simp_all add: autonomous_run_def demo_run_def demo_diagnosis_def)
  let ?gi = "\<lparr>gi_snapshot_id = ''s1'', gi_diagnosis_id = ''d1'', gi_findings = [], gi_shapes = [demo_snapshot_shape]\<rparr>"
  have ex: "existing_generation ''run1'' v = (Inr None, tick v)" if "w_db v = generation_db" "w_faults v = (\<lambda>_. False)" for v :: "fake_db world"
    using that by (simp add: existing_generation_def engine_connect_def bnd_apply world_apply generation_artifacts_table_def one_or_none_def)
  have l: "load_inputs ''run1'' v = (Inr ?gi, tick v)" if "w_db v = generation_db" "w_faults v = (\<lambda>_. False)" for v :: "fake_db world"
    using that demo_shapes
    by (simp add: load_inputs_def engine_connect_def bnd_apply world_apply table_defs one_or_none_def sel diagnosis_matches_def)
  have m: "index_metadata fake_adapter (referenced_shapes [] [demo_snapshot_shape]) (fake_init [''orders'']) =
      (Inr [(''shop.orders'', [])], fake_init [''orders''])"
  proof -
    have sel: "ss_real_namespace demo_snapshot_shape = ''shop.orders''" "ss_query_shape_id demo_snapshot_shape = ''s1''"
      "ss_operation demo_snapshot_shape = ''find''" "ss_protected_execution_time_share demo_snapshot_shape" "ss_allowlisted demo_snapshot_shape"
      by (simp_all add: demo_snapshot_shape_def)
    have "referenced_shapes [] [demo_snapshot_shape] = [demo_snapshot_shape]"
      by (simp add: referenced_shapes_def load_evidence_def protected_refs_def add_refs_def sel)
    then show ?thesis
      by (simp add: index_metadata_def index_metadata_step_def bnd_apply sel fake_adapter_def fake_list_namespaces_def
          fake_list_indexes_def fake_init_def fk_collection_def)
  qed
  obtain x where x: "candidate_definitions id [] [demo_snapshot_shape] [(''shop.orders'', [])] = Inr [x]"
    using demo_definitions [of "[]"] by auto
  have r: "\<exists>res v'. record_generation id ''run1'' ?gi [x] v = (Inr res, v') \<and> gr_candidate_count res = 1"
    if "w_db v = generation_db" "w_faults v = (\<lambda>_. False)" for v :: "fake_db world"
    using that by (simp add: record_generation_def engine_begin_def tables_transaction_def bnd_apply world_apply table_defs one_or_none_def
        record_candidate_def create_in_transaction_def insert_row_def)
  have w: "w_db ?w = generation_db" "w_faults ?w = (\<lambda>_. False)" "w_target ?w = fake_init [''orders'']"
    by (simp_all add: generation_world_def world_of_def)
  show ?thesis
    using ex [OF w(1,2)] l [of "tick ?w"] m x r [of "(tick (tick ?w))\<lparr>w_target := fake_init [''orders'']\<rparr>"] w
    by (simp add: generate_for_run_def bnd_apply on_world_target_apply)
qed

theorem generated_candidates_can_be_ranked_witness:
  "\<exists>res w' p v'. generate_for_run id fake_adapter ''run1'' generation_world = (Inr res, w') \<and> gr_candidate_count res = 1 \<and>
     length (db_generation_artifacts (w_db w')) = 1 \<and>
     load_ranking ''run1'' (world_of (w_db w') (fake_init [])) = (Inr p, v') \<and> set (rp_candidate_ids p) = set (gr_candidate_ids res)"
proof -
  obtain res w' where run: "generate_for_run id fake_adapter ''run1'' generation_world = (Inr res, w')" and n: "gr_candidate_count res = 1"
    using demo_generation_runs by blast
  have start: "db_generation_artifacts (w_db generation_world) = []" by (simp add: generation_world_def world_of_def)
  have "\<forall>c\<in>set (db_candidates (w_db generation_world)). cn_optimization_run_id c \<noteq> ''run1''"
    "\<forall>g\<in>set (db_generation_artifacts (w_db generation_world)). ga_optimization_run_id g \<noteq> ''run1''"
    by (simp_all add: generation_world_def world_of_def)
  note g = generated_candidates_can_be_ranked [OF run this, THEN conjunct2, rule_format, OF refl]
  from g obtain xs :: "candidate_definition list" and artifact rows actions where
    w': "w_db w' = (w_db generation_world)\<lparr>db_candidates := db_candidates (w_db generation_world) @ rows,
        db_candidate_actions := db_candidate_actions (w_db generation_world) @ actions,
        db_generation_artifacts := db_generation_artifacts (w_db generation_world) @ [artifact]\<rparr>"
    and c: "gr_candidate_count res = int (length xs)"
    and ready: "xs \<noteq> [] \<longrightarrow> (\<forall>v :: fake_db world. w_db v = w_db w' \<and> \<not> w_faults v (w_reads v) \<longrightarrow>
        (\<exists>p v'. load_ranking ''run1'' v = (Inr p, v') \<and> set (rp_candidate_ids p) = set (gr_candidate_ids res)))"
    by blast
  have "xs \<noteq> []" using c n by auto
  with ready have "\<exists>p v'. load_ranking ''run1'' (world_of (w_db w') (fake_init [])) = (Inr p, v') \<and> set (rp_candidate_ids p) = set (gr_candidate_ids res)"
    by (auto simp: world_of_def)
  moreover have "length (db_generation_artifacts (w_db w')) = 1" using w' start by simp
  ultimately show ?thesis using run n by blast
qed

lemma generation_evolution [evolution]: "keeps Runs.evolves (generate_for_run sha ad run_id)"
proof -
  have "keeps Runs.evolves (record_candidates sha run_id gi xs)" for gi xs
  proof (induction xs)
    case (Cons x xs)
    have "keeps Runs.evolves (record_candidate sha run_id gi x)"
      unfolding record_candidate_def create_in_transaction_def by (intro evolution)
    with Cons show ?case unfolding record_candidates.simps by (intro evolution)
  qed (simp only: record_candidates.simps evolution_basic)
  then show ?thesis
    unfolding generate_for_run_def existing_generation_def load_inputs_def record_generation_def create_in_transaction_def
    by (auto intro!: evolution split: option.split)
qed

end
