(* ===== verification/Evaluation.thy ===== *)
theory Evaluation
  imports Ranking
begin

text \<open>
  \<open>backend/app/evaluation/durable.py\<close> and \<open>backend/app/admission/durable.py\<close>: the plan that freezes which
  ranked candidates are measured, the trial pairs recorded for them, and the verdicts of the admission
  engine with the selection of the highest ranked admitted candidate. How \<open>asdict\<close> and \<open>json.dumps\<close> write a
  verdict with its floating-point numbers is a parameter, \<open>evidence_of\<close>.
\<close>

subsection \<open>Evaluation plans\<close>

record evaluation_plan_result =
  pr_plan_id :: string
  pr_selected_candidate_ids :: "string list"
  pr_profile :: benchmark_profile

fun profile_value :: "benchmark_profile \<Rightarrow> string" where
  "profile_value SMOKE = ''SMOKE''"
| "profile_value AUTONOMOUS = ''AUTONOMOUS''"
| "profile_value PUBLICATION = ''PUBLICATION''"

text \<open>\<open>{"profile": ..., ..., **calibration}\<close>: a key of \<open>calibration\<close> replaces the one before it.\<close>

definition plan_calibration :: "benchmark_profile \<Rightarrow> (string \<times> json) list \<Rightarrow> json" where
  "plan_calibration profile calibration = (let st = profile_settings_of profile in
     JObj (fold (\<lambda>(k, v) d. AList.update k v d) calibration
       [(''profile'', JStr (profile_value profile)), (''warmup_seconds'', JNum (int (ps_warmup_seconds st))),
        (''measurement_seconds'', JNum (int (ps_measurement_seconds st))), (''bootstrap_samples'', JNum (int (ps_bootstrap_samples st)))]))"

definition plan_of_row :: "evaluation_plan_row \<Rightarrow> evaluation_plan_result" where
  "plan_of_row p = \<lparr>pr_plan_id = row_id p, pr_selected_candidate_ids = ep_selected_candidate_ids p, pr_profile = ep_profile p\<rparr>"

definition evaluation_plan_of ::
  "digest \<Rightarrow> string \<Rightarrow> ranking_artifact_row \<Rightarrow> benchmark_profile \<Rightarrow> string list \<Rightarrow> json \<Rightarrow> string \<Rightarrow> int \<Rightarrow> evaluation_plan_row" where
  "evaluation_plan_of sha run_id ranking profile selected calibration = (\<lambda>i t. \<lparr>row_id = i, row_created_at = t, row_updated_at = Some t,
     ep_optimization_run_id = run_id, ep_ranking_artifact_id = row_id ranking, ep_profile = profile,
     ep_selected_candidate_ids = selected, ep_calibration = calibration,
     ep_artifact_fingerprint = json_hash sha (JObj [(''run_id'', JStr run_id), (''ranking'', JStr (row_id ranking)),
       (''selected'', names_json selected), (''calibration'', calibration)])\<rparr>)"

definition create_plan_for_run ::
  "digest \<Rightarrow> string \<Rightarrow> benchmark_profile \<Rightarrow> (string \<times> json) list \<Rightarrow> ('t world, evaluation_plan_result) oper" where
  "create_plan_for_run sha run_id profile calibration = engine_begin (
     bnd (select_one evaluation_plans_table (\<lambda>p. ep_optimization_run_id p = run_id)) (\<lambda>existing.
     case existing of
       Some p \<Rightarrow> ret (plan_of_row p)
     | None \<Rightarrow>
         bnd (select_one ranking_artifacts_table (\<lambda>a. ra_optimization_run_id a = run_id)) (\<lambda>ranking.
         case ranking of
           None \<Rightarrow> raise (EvaluationPlanError ''valid durable ranking is required before calibration'')
         | Some a \<Rightarrow>
             (let selected = take (min 3 (length (ra_ordered_candidate_ids a))) (ra_ordered_candidate_ids a) in
              bnd (ensure (selected \<noteq> []) (EvaluationPlanError ''evaluation plan cannot be empty'')) (\<lambda>_.
              bnd (create_in_transaction evaluation_plans_table
                (evaluation_plan_of sha run_id a profile selected (plan_calibration profile calibration))) (\<lambda>row.
              ret \<lparr>pr_plan_id = row_id row, pr_selected_candidate_ids = selected, pr_profile = profile\<rparr>))))))"

subsection \<open>Trial pairs\<close>

definition measuring :: "string \<Rightarrow> string \<Rightarrow> string \<Rightarrow> int \<Rightarrow> evaluation_run_row" where
  "measuring candidate_id environment = (\<lambda>i t. \<lparr>row_id = i, row_created_at = t, row_updated_at = Some t, er_candidate_id = candidate_id,
     er_status = ''MEASURING'', er_environment_fingerprint = environment\<rparr>)"

definition trial_pair :: "string \<Rightarrow> int \<Rightarrow> trial_measurement \<Rightarrow> trial_measurement \<Rightarrow> string \<Rightarrow> int \<Rightarrow> trial_pair_row" where
  "trial_pair evaluation n baseline candidate = (\<lambda>i t. \<lparr>row_id = i, row_created_at = t, row_updated_at = Some t,
     tp_evaluation_run_id = evaluation, tp_pair_number = n, tp_baseline_measurement = baseline, tp_candidate_measurement = candidate\<rparr>)"

definition trial_metric :: "string \<Rightarrow> string \<Rightarrow> real \<Rightarrow> real \<Rightarrow> string \<Rightarrow> int \<Rightarrow> trial_metric_row" where
  "trial_metric pair nm b c = (\<lambda>i t. \<lparr>row_id = i, row_created_at = t, row_updated_at = Some t, tm_trial_pair_id = pair,
     tm_metric_name = nm, tm_baseline_value = b, tm_candidate_value = c\<rparr>)"

definition record_metric :: "string \<Rightarrow> (string \<times> real) list \<Rightarrow> (string \<times> real) list \<Rightarrow> string \<Rightarrow> ('t world, unit) oper" where
  "record_metric pair baseline candidate nm = (case (map_of baseline nm, map_of candidate nm) of
       (Some b, Some c) \<Rightarrow> bnd (create_in_transaction trial_metrics_table (trial_metric pair nm b c)) (\<lambda>_. ret ())
     | _ \<Rightarrow> ret ())"

definition evaluation_of_candidate :: "string \<Rightarrow> string \<Rightarrow> ('t world, evaluation_run_row) oper" where
  "evaluation_of_candidate candidate_id environment =
     bnd (select_one evaluation_runs_table (\<lambda>e. er_candidate_id e = candidate_id)) (\<lambda>found.
     case found of Some e \<Rightarrow> ret e | None \<Rightarrow> create_in_transaction evaluation_runs_table (measuring candidate_id environment))"

definition record_pair ::
  "string \<Rightarrow> int \<Rightarrow> string \<Rightarrow> (string \<times> real) list \<Rightarrow> (string \<times> real) list \<Rightarrow> string \<Rightarrow> ('t world, string) oper" where
  "record_pair candidate_id n environment baseline candidate arm_order =
     bnd (ensure (arm_order \<in> {''AB'', ''BA''}) (EvaluationPlanError ''trial arm order must be AB or BA'')) (\<lambda>_. engine_begin (
     bnd (evaluation_of_candidate candidate_id environment) (\<lambda>evaluation.
     bnd (select_one trial_pairs_table (\<lambda>p. tp_evaluation_run_id p = row_id evaluation \<and> tp_pair_number p = n)) (\<lambda>found.
     case found of
       Some p \<Rightarrow> ret (row_id p)
     | None \<Rightarrow>
         bnd (create_in_transaction trial_pairs_table (trial_pair (row_id evaluation) n
           \<lparr>me_metrics = baseline, me_arm_order = arm_order\<rparr> \<lparr>me_metrics = candidate, me_arm_order = arm_order\<rparr>)) (\<lambda>pair.
         bnd (for_each (record_metric (row_id pair) baseline candidate) (sorted_set (map fst baseline @ map fst candidate))) (\<lambda>_.
         ret (row_id pair)))))))"

definition mark_complete :: "string \<Rightarrow> ('t world, unit) oper" where
  "mark_complete candidate_id = engine_begin (
     bnd now (\<lambda>t.
     bnd (update_rows evaluation_runs_table (\<lambda>e. er_candidate_id e = candidate_id)
       (\<lambda>e. e\<lparr>er_status := ''COMPLETED'', row_updated_at := Some t\<rparr>)) (\<lambda>_. ret ())))"

subsection \<open>Admission\<close>

record admission_outcome =
  ao_artifact_id :: string
  ao_selected_candidate_id :: "string option"
  ao_admitted_candidate_ids :: "string list"
  ao_production_eligible :: bool

fun admission_value :: "admission_status \<Rightarrow> string" where
  "admission_value Admission.ADMITTED = ''ADMITTED''"
| "admission_value REJECTED_SAFETY_INVARIANT = ''REJECTED_SAFETY_INVARIANT''"
| "admission_value REJECTED_REGRESSION = ''REJECTED_REGRESSION''"
| "admission_value REJECTED_NO_MEANINGFUL_BENEFIT = ''REJECTED_NO_MEANINGFUL_BENEFIT''"
| "admission_value INCONCLUSIVE_NOISE = ''INCONCLUSIVE_NOISE''"
| "admission_value INCONCLUSIVE_ENVIRONMENT = ''INCONCLUSIVE_ENVIRONMENT''"
| "admission_value INCONCLUSIVE_MISSING_METRIC = ''INCONCLUSIVE_MISSING_METRIC''"

definition admission_decision :: "string \<Rightarrow> admission_result \<Rightarrow> string \<Rightarrow> string \<Rightarrow> int \<Rightarrow> admission_decision_row" where
  "admission_decision candidate_id res evidence_hash = (\<lambda>i t. \<lparr>row_id = i, row_created_at = t, row_updated_at = Some t,
     ae_candidate_id = candidate_id, ae_verdict = admission_value (ar_status res), ae_evidence_hash = evidence_hash\<rparr>)"

definition set_candidate_status :: "string \<Rightarrow> candidate_status \<Rightarrow> ('t world, unit) oper" where
  "set_candidate_status candidate_id st =
     bnd now (\<lambda>t.
     bnd (update_rows candidates_table (\<lambda>c. row_id c = candidate_id) (\<lambda>c. c\<lparr>cn_status := st, row_updated_at := Some t\<rparr>)) (\<lambda>_. ret ()))"

text \<open>The loop over the plan: the admitted candidates, their eligibility, and the evidence of all verdicts.\<close>

record admission_progress =
  ap_admitted :: "string list"
  ap_eligible :: "(string \<times> bool) list"
  ap_results :: "(string \<times> json) list"

definition decide_candidate ::
  "digest \<Rightarrow> (admission_result \<Rightarrow> json) \<Rightarrow> (string \<Rightarrow> admission_result option) \<Rightarrow> string \<Rightarrow> admission_progress \<Rightarrow>
   ('t world, admission_progress) oper" where
  "decide_candidate sha evidence_of verdict candidate_id ap = (case verdict candidate_id of
       None \<Rightarrow> raise (KeyError candidate_id)
     | Some res \<Rightarrow>
         bnd (create_in_transaction admission_decisions_table
           (admission_decision candidate_id res (json_hash sha (evidence_of res)))) (\<lambda>_.
         if ar_status res = Admission.ADMITTED
         then bnd (set_candidate_status candidate_id CAND_ADMITTED) (\<lambda>_.
           ret \<lparr>ap_admitted = ap_admitted ap @ [candidate_id],
             ap_eligible = AList.update candidate_id (ar_production_eligible res) (ap_eligible ap),
             ap_results = AList.update candidate_id (evidence_of res) (ap_results ap)\<rparr>)
         else bnd (set_candidate_status candidate_id CAND_REJECTED) (\<lambda>_.
           ret (ap\<lparr>ap_results := AList.update candidate_id (evidence_of res) (ap_results ap)\<rparr>))))"

fun decide_candidates ::
  "digest \<Rightarrow> (admission_result \<Rightarrow> json) \<Rightarrow> (string \<Rightarrow> admission_result option) \<Rightarrow> string list \<Rightarrow> admission_progress \<Rightarrow>
   ('t world, admission_progress) oper" where
  "decide_candidates sha evidence_of verdict [] ap = ret ap"
| "decide_candidates sha evidence_of verdict (c # cs) ap =
     bnd (decide_candidate sha evidence_of verdict c ap) (decide_candidates sha evidence_of verdict cs)"

definition admission_artifact ::
  "digest \<Rightarrow> string \<Rightarrow> evaluation_plan_row \<Rightarrow> admission_progress \<Rightarrow> string option \<Rightarrow> bool \<Rightarrow> string \<Rightarrow> int \<Rightarrow> admission_artifact_row" where
  "admission_artifact sha run_id plan ap selected eligible = (\<lambda>i t. \<lparr>row_id = i, row_created_at = t, row_updated_at = Some t,
     aa_optimization_run_id = run_id, aa_evaluation_plan_id = row_id plan, aa_selected_candidate_id = selected,
     aa_admitted_candidate_ids = ap_admitted ap, aa_production_eligible = eligible,
     aa_artifact_fingerprint = json_hash sha (JObj [(''run_id'', JStr run_id), (''plan'', JStr (row_id plan)),
       (''results'', JObj (ap_results ap)), (''selected'', option_json JStr selected), (''production_eligible'', JBool eligible)])\<rparr>)"

definition outcome_of_artifact :: "admission_artifact_row \<Rightarrow> admission_outcome" where
  "outcome_of_artifact a = \<lparr>ao_artifact_id = row_id a, ao_selected_candidate_id = aa_selected_candidate_id a,
     ao_admitted_candidate_ids = aa_admitted_candidate_ids a, ao_production_eligible = aa_production_eligible a\<rparr>"

definition selected_of :: "admission_progress \<Rightarrow> string list \<Rightarrow> string option" where
  "selected_of ap ranked = find (\<lambda>c. c \<in> set (ap_admitted ap)) ranked"

definition eligible_of :: "admission_progress \<Rightarrow> string option \<Rightarrow> bool" where
  "eligible_of ap selected = (case selected of None \<Rightarrow> False | Some c \<Rightarrow> map_of (ap_eligible ap) c = Some True)"

definition admission_verdict :: "digest \<Rightarrow> numerics \<Rightarrow> (string \<times> admission_request) list \<Rightarrow> string \<Rightarrow> admission_result option" where
  "admission_verdict sha nm requests c = map_option (evaluate_candidate_admission sha nm) (map_of requests c)"

definition decide_admission ::
  "digest \<Rightarrow> numerics \<Rightarrow> (admission_result \<Rightarrow> json) \<Rightarrow> string \<Rightarrow> (string \<times> admission_request) list \<Rightarrow> ('t world, admission_outcome) oper" where
  "decide_admission sha nm evidence_of run_id requests = engine_begin (
     bnd (select_one admission_artifacts_table (\<lambda>a. aa_optimization_run_id a = run_id)) (\<lambda>existing.
     case existing of
       Some a \<Rightarrow> ret (outcome_of_artifact a)
     | None \<Rightarrow>
         bnd (select_one evaluation_plans_table (\<lambda>p. ep_optimization_run_id p = run_id)) (\<lambda>found.
         case found of
           None \<Rightarrow> raise (ValueError ''durable evaluation plan is required before admission'')
         | Some plan \<Rightarrow>
             (let ranked = ep_selected_candidate_ids plan in
              bnd (ensure (fst ` set requests = set ranked)
                (ValueError ''admission requests must exactly match frozen evaluation selection'')) (\<lambda>_.
              bnd (decide_candidates sha evidence_of (admission_verdict sha nm requests) ranked
                \<lparr>ap_admitted = [], ap_eligible = [], ap_results = []\<rparr>) (\<lambda>ap.
              let selected = selected_of ap ranked; eligible = eligible_of ap selected in
              bnd (create_in_transaction admission_artifacts_table (admission_artifact sha run_id plan ap selected eligible)) (\<lambda>row.
              ret \<lparr>ao_artifact_id = row_id row, ao_selected_candidate_id = selected, ao_admitted_candidate_ids = ap_admitted ap,
                ao_production_eligible = eligible\<rparr>)))))))"

subsection \<open>What an admission decides\<close>

definition passes :: "(string \<Rightarrow> admission_result option) \<Rightarrow> string \<Rightarrow> bool" where
  "passes verdict c \<longleftrightarrow> (\<exists>res. verdict c = Some res \<and> ar_status res = Admission.ADMITTED)"

definition decided_status :: "(string \<Rightarrow> admission_result option) \<Rightarrow> string list \<Rightarrow> candidate_row \<Rightarrow> string \<times> candidate_status" where
  "decided_status verdict cs r = (row_id r, if row_id r \<in> set cs then (if passes verdict (row_id r) then CAND_ADMITTED else CAND_REJECTED)
     else cn_status r)"

definition statuses :: "db \<Rightarrow> (string \<times> candidate_status) list" where
  "statuses d = map (\<lambda>r. (row_id r, cn_status r)) (db_candidates d)"

lemma set_candidate_status_Inr:
  assumes "set_candidate_status c st w = (Inr u, w')"
  shows "statuses (w_db w') = map (\<lambda>r. (row_id r, if row_id r = c then st else cn_status r)) (db_candidates (w_db w)) \<and>
    db_admission_decisions (w_db w') = db_admission_decisions (w_db w)"
  using assms
  by (auto simp: set_candidate_status_def bnd_apply world_apply candidates_table_def statuses_def)

lemma decide_candidate_Inr:
  assumes "decide_candidate sha evidence_of verdict c ap w = (Inr ap', w')"
  shows "\<exists>res. verdict c = Some res \<and> c \<notin> ae_candidate_id ` set (db_admission_decisions (w_db w)) \<and>
    ae_candidate_id ` set (db_admission_decisions (w_db w')) = insert c (ae_candidate_id ` set (db_admission_decisions (w_db w))) \<and>
    ap_admitted ap' = ap_admitted ap @ filter (passes verdict) [c] \<and>
    ap_eligible ap' = (if passes verdict c then AList.update c (ar_production_eligible res) (ap_eligible ap) else ap_eligible ap) \<and>
    statuses (w_db w') = map (decided_status verdict [c]) (db_candidates (w_db w))"
proof -
  from assms obtain res where v: "verdict c = Some res" by (auto simp: decide_candidate_def split: option.splits)
  with assms obtain row w1 where
    i: "create_in_transaction admission_decisions_table (admission_decision c res (json_hash sha (evidence_of res))) w = (Inr row, w1)"
    and rest: "(if ar_status res = Admission.ADMITTED
         then bnd (set_candidate_status c CAND_ADMITTED) (\<lambda>_.
           ret \<lparr>ap_admitted = ap_admitted ap @ [c], ap_eligible = AList.update c (ar_production_eligible res) (ap_eligible ap),
             ap_results = AList.update c (evidence_of res) (ap_results ap)\<rparr>)
         else bnd (set_candidate_status c CAND_REJECTED) (\<lambda>_.
           ret (ap\<lparr>ap_results := AList.update c (evidence_of res) (ap_results ap)\<rparr>))) w1 = (Inr ap', w')"
    by (auto simp: decide_candidate_def)
  have new: "c \<notin> ae_candidate_id ` set (db_admission_decisions (w_db w))"
    "ae_candidate_id ` set (db_admission_decisions (w_db w1)) = insert c (ae_candidate_id ` set (db_admission_decisions (w_db w)))"
    "db_candidates (w_db w1) = db_candidates (w_db w)"
    using inserted_Inr [OF i] by (auto simp: admission_decisions_table_def admission_decision_def same_id_def)
  have p: "passes verdict c \<longleftrightarrow> ar_status res = Admission.ADMITTED" by (simp add: passes_def v)
  show ?thesis
    using rest new v p
    by (auto simp: decided_status_def elim!: bnd_InrE dest!: set_candidate_status_Inr split: if_splits)
qed

lemma decide_candidates_Inr:
  assumes "decide_candidates sha evidence_of verdict cs ap w = (Inr ap', w')"
  shows "distinct cs \<and> (\<forall>c\<in>set cs. verdict c \<noteq> None \<and> c \<notin> ae_candidate_id ` set (db_admission_decisions (w_db w))) \<and>
    ap_admitted ap' = ap_admitted ap @ filter (passes verdict) cs \<and>
    (\<forall>c. map_of (ap_eligible ap') c = (if c \<in> set cs \<and> passes verdict c then map_option ar_production_eligible (verdict c) else map_of (ap_eligible ap) c)) \<and>
    statuses (w_db w') = map (decided_status verdict cs) (db_candidates (w_db w))"
  using assms
proof (induction cs arbitrary: ap w)
  case Nil
  then show ?case by (simp add: statuses_def decided_status_def)
next
  case (Cons c cs)
  then obtain ap1 w1 where one: "decide_candidate sha evidence_of verdict c ap w = (Inr ap1, w1)"
    and rest: "decide_candidates sha evidence_of verdict cs ap1 w1 = (Inr ap', w')" by auto
  note IH = Cons.IH [OF rest]
  from decide_candidate_Inr [OF one] obtain res where res: "verdict c = Some res"
      "c \<notin> ae_candidate_id ` set (db_admission_decisions (w_db w))"
      "ae_candidate_id ` set (db_admission_decisions (w_db w1)) = insert c (ae_candidate_id ` set (db_admission_decisions (w_db w)))"
      "ap_admitted ap1 = ap_admitted ap @ filter (passes verdict) [c]"
      "ap_eligible ap1 = (if passes verdict c then AList.update c (ar_production_eligible res) (ap_eligible ap) else ap_eligible ap)"
      "statuses (w_db w1) = map (decided_status verdict [c]) (db_candidates (w_db w))" by blast
  have "map (decided_status verdict cs) (db_candidates (w_db w1)) =
      map (\<lambda>(i, st). (i, if i \<in> set cs then (if passes verdict i then CAND_ADMITTED else CAND_REJECTED) else st)) (statuses (w_db w1))"
    by (simp add: statuses_def decided_status_def)
  also have "\<dots> = map (decided_status verdict (c # cs)) (db_candidates (w_db w))"
    unfolding res(6) by (simp add: decided_status_def)
  finally have "statuses (w_db w') = map (decided_status verdict (c # cs)) (db_candidates (w_db w))" using IH by simp
  moreover have "distinct (c # cs)" using IH res(3) by auto
  moreover have "\<forall>x\<in>set (c # cs). verdict x \<noteq> None \<and> x \<notin> ae_candidate_id ` set (db_admission_decisions (w_db w))"
    using IH res(1-3) by auto
  moreover have "ap_admitted ap' = ap_admitted ap @ filter (passes verdict) (c # cs)" using IH res(4) by simp
  moreover have "map_of (ap_eligible ap') x =
      (if x \<in> set (c # cs) \<and> passes verdict x then map_option ar_production_eligible (verdict x) else map_of (ap_eligible ap) x)" for x
    using IH res(1,5) by (auto simp: update_conv')
  ultimately show ?case by blast
qed

text \<open>
  C11. A new admission decides exactly the frozen selection of the plan, once per candidate: the candidates whose
  request the engine admits are the admitted ones, in the order of the plan; their rows are ADMITTED and the rows of the
  others REJECTED; the highest ranked admitted candidate is selected; and the artifact is eligible for production exactly
  when the verdict of the selected candidate is.
\<close>

theorem admission_selects_highest_ranked:
  assumes run: "decide_admission sha nm evidence_of run_id requests w = (Inr res, w')"
    and new: "\<forall>a\<in>set (db_admission_artifacts (w_db w)). aa_optimization_run_id a \<noteq> run_id"
  shows "\<exists>plan. filter (\<lambda>p. ep_optimization_run_id p = run_id) (db_evaluation_plans (w_db w)) = [plan] \<and>
    fst ` set requests = set (ep_selected_candidate_ids plan) \<and> distinct (ep_selected_candidate_ids plan) \<and>
    ao_admitted_candidate_ids res = filter (passes (admission_verdict sha nm requests)) (ep_selected_candidate_ids plan) \<and>
    ao_selected_candidate_id res = find (passes (admission_verdict sha nm requests)) (ep_selected_candidate_ids plan) \<and>
    (ao_production_eligible res \<longleftrightarrow> (\<exists>c verdict. ao_selected_candidate_id res = Some c \<and>
       admission_verdict sha nm requests c = Some verdict \<and> ar_production_eligible verdict)) \<and>
    statuses (w_db w') = map (decided_status (admission_verdict sha nm requests) (ep_selected_candidate_ids plan)) (db_candidates (w_db w)) \<and>
    (\<exists>a\<in>set (db_admission_artifacts (w_db w')). aa_optimization_run_id a = run_id \<and> outcome_of_artifact a = res)"
proof -
  let ?v = "admission_verdict sha nm requests"
  let ?sel = selected_of
  let ?el = "\<lambda>ap ranked. eligible_of ap (selected_of ap ranked)"
  have rows: "tb_rows admission_artifacts_table = db_admission_artifacts" "tb_rows evaluation_plans_table = db_evaluation_plans"
    by (simp_all add: table_defs)
  have none: "filter (\<lambda>a. aa_optimization_run_id a = run_id) (db_admission_artifacts (w_db w)) = []"
    using new by (simp add: filter_empty_conv)
  from run none obtain plan ap w1 row where
    plan: "filter (\<lambda>p. ep_optimization_run_id p = run_id) (db_evaluation_plans (w_db w)) = [plan]"
    and rq: "fst ` set requests = set (ep_selected_candidate_ids plan)"
    and loop: "decide_candidates sha evidence_of ?v (ep_selected_candidate_ids plan)
      \<lparr>ap_admitted = [], ap_eligible = [], ap_results = []\<rparr> (tick w) = (Inr ap, w1)"
    and ins: "create_in_transaction admission_artifacts_table (admission_artifact sha run_id plan ap
      (?sel ap (ep_selected_candidate_ids plan)) (?el ap (ep_selected_candidate_ids plan))) w1 = (Inr row, w')"
    and res: "res = \<lparr>ao_artifact_id = row_id row, ao_selected_candidate_id = ?sel ap (ep_selected_candidate_ids plan),
      ao_admitted_candidate_ids = ap_admitted ap, ao_production_eligible = ?el ap (ep_selected_candidate_ids plan)\<rparr>"
    by (auto simp: decide_admission_def engine_begin_Inr world_apply rows Let_def elim!: bnd_InrE split: option.splits if_splits)
  let ?r = "ep_selected_candidate_ids plan"
  note l = decide_candidates_Inr [OF loop, simplified]
  have adm: "ap_admitted ap = filter (passes ?v) ?r" using l by simp
  have sel: "?sel ap ?r = find (passes ?v) ?r" unfolding selected_of_def adm by (rule find_cong) auto
  have el: "?el ap ?r \<longleftrightarrow> (\<exists>c verdict. find (passes ?v) ?r = Some c \<and> ?v c = Some verdict \<and> ar_production_eligible verdict)"
  proof (cases "find (passes ?v) ?r")
    case (Some c)
    then have "c \<in> set ?r" "passes ?v c" by (auto dest: find_SomeD)
    then have "map_of (ap_eligible ap) c = map_option ar_production_eligible (?v c)" using l by simp
    then show ?thesis unfolding sel Some eligible_of_def by auto
  qed (simp add: sel eligible_of_def)
  from inserted_Inr [OF ins] have row: "w_db w' = (w_db w1)\<lparr>db_admission_artifacts := db_admission_artifacts (w_db w1) @ [row]\<rparr>"
    "aa_optimization_run_id row = run_id" "outcome_of_artifact row = res"
    by (auto simp: admission_artifacts_table_def admission_artifact_def outcome_of_artifact_def res)
  have "statuses (w_db w') = statuses (w_db w1)" by (simp add: row(1) statuses_def)
  then have "statuses (w_db w') = map (decided_status ?v ?r) (db_candidates (w_db w))" using l by simp
  moreover have "\<exists>a\<in>set (db_admission_artifacts (w_db w')). aa_optimization_run_id a = run_id \<and> outcome_of_artifact a = res"
    using row by simp
  ultimately show ?thesis using plan rq l adm sel el by (intro exI [of _ plan]) (simp add: res)
qed

definition demo_plan :: evaluation_plan_row where
  "demo_plan = \<lparr>row_id = ''ep1'', row_created_at = 0, row_updated_at = None, ep_optimization_run_id = ''run1'',
     ep_ranking_artifact_id = ''ra1'', ep_profile = AUTONOMOUS, ep_selected_candidate_ids = [''c1''], ep_calibration = JNull,
     ep_artifact_fingerprint = ''pf''\<rparr>"

definition admission_world :: "unit world" where
  "admission_world = world_of ((pipeline_db ADMISSION)\<lparr>db_admission_artifacts := [], db_evaluation_plans := [demo_plan]\<rparr>) ()"

lemma demo_admission:
  "\<exists>res w'. decide_admission id demo_numerics (\<lambda>_. JNull) ''run1'' [(''c1'', three_pair_request)] admission_world = (Inr res, w')"
  using conjunct1 [OF three_pair_admitted [of id]]
  by (simp add: decide_admission_def engine_begin_def tables_transaction_def bnd_apply world_apply table_defs one_or_none_def
      admission_world_def pipeline_defs demo_plan_def admission_verdict_def decide_candidate_def create_in_transaction_def insert_row_def
      set_candidate_status_def Let_def)

theorem admission_selects_highest_ranked_witness:
  "\<exists>res w'. decide_admission id demo_numerics (\<lambda>_. JNull) ''run1'' [(''c1'', three_pair_request)] admission_world = (Inr res, w') \<and>
     ao_selected_candidate_id res = Some ''c1'' \<and> ao_admitted_candidate_ids res = [''c1'']"
proof -
  obtain res w' where run: "decide_admission id demo_numerics (\<lambda>_. JNull) ''run1'' [(''c1'', three_pair_request)] admission_world = (Inr res, w')"
    using demo_admission by auto
  have new: "\<forall>a\<in>set (db_admission_artifacts (w_db admission_world)). aa_optimization_run_id a \<noteq> ''run1''"
    by (simp add: admission_world_def world_of_def)
  have "db_evaluation_plans (w_db admission_world) = [demo_plan]" by (simp add: admission_world_def world_of_def)
  moreover have "passes (admission_verdict id demo_numerics [(''c1'', three_pair_request)]) ''c1''"
    using three_pair_admitted [of id] by (simp add: passes_def admission_verdict_def)
  ultimately show ?thesis
    using admission_selects_highest_ranked [OF run new] run by (auto simp: demo_plan_def)
qed

subsection \<open>The stages let the database evolve\<close>

lemma provider_evolution: "provider_ok pv \<Longrightarrow> keeps Runs.evolves (pv_rank_candidate_handles pv cs)"
  by (rule keepsI) (auto simp: provider_ok_def Runs.evolves_def)

lemma ranking_evolution:
  assumes "provider_ok pv"
  shows "keeps Runs.evolves (rank_for_run sha pv run_id)"
  unfolding rank_for_run_def existing_ranking_def load_ranking_def read_ranking_rows_def record_ranking_def Let_def create_in_transaction_def
  by (intro evolution provider_evolution assms)

lemma evaluation_evolution [evolution]:
  "keeps Runs.evolves (create_plan_for_run sha run_id profile calibration)" "keeps Runs.evolves (mark_complete c)"
  "keeps Runs.evolves (evaluation_of_candidate c environment)"
  unfolding create_plan_for_run_def mark_complete_def evaluation_of_candidate_def Let_def create_in_transaction_def
  by (intro evolution)+

lemma decide_candidates_evolution [evolution]: "keeps Runs.evolves (decide_candidates sha evidence_of verdict cs ap)"
proof (induction cs arbitrary: ap)
  case (Cons c cs)
  have "keeps Runs.evolves (decide_candidate sha evidence_of verdict c ap)"
    unfolding decide_candidate_def set_candidate_status_def create_in_transaction_def by (intro evolution)
  with Cons show ?case unfolding decide_candidates.simps by (intro evolution_bnd)
qed (simp add: evolution)

lemma admission_evolution [evolution]: "keeps Runs.evolves (decide_admission sha nm evidence_of run_id requests)"
  unfolding decide_admission_def Let_def create_in_transaction_def by (intro evolution)

end
