(* ===== verification/DurableMonitoring.thy ===== *)
theory DurableMonitoring
  imports DurableRollback Monitoring Ranking
begin

text \<open>
  \<open>backend/app/monitoring/durable.py\<close> and \<open>backend/app/monitoring/persistence.py\<close>: the monitoring of the deployment
  of a run, with the durable rollback as its coordinator, and the evidence it persists. The collector of windows is
  a callable of the constructor: \<open>collect\<close> returns \<open>None\<close> where the code catches an \<open>OSError\<close> or a timeout. How JSON
  writes a floating-point number is the parameter \<open>num\<close>.
\<close>

fun monitoring_value :: "monitoring_status \<Rightarrow> string" where
  "monitoring_value STABLE = ''STABLE''"
| "monitoring_value WORKLOAD_SHIFT_DETECTED = ''WORKLOAD_SHIFT_DETECTED''"
| "monitoring_value MON_ROLLED_BACK = ''ROLLED_BACK''"
| "monitoring_value MON_ROLLBACK_BLOCKED = ''ROLLBACK_BLOCKED''"

fun rollback_value :: "rollback_status \<Rightarrow> string" where
  "rollback_value RB_ROLLED_BACK = ''ROLLED_BACK''"
| "rollback_value RB_ROLLBACK_BLOCKED = ''ROLLBACK_BLOCKED''"

subsection \<open>Evidence\<close>

definition window_fields :: "(real \<Rightarrow> json) \<Rightarrow> string \<Rightarrow> monitoring_window \<Rightarrow> json" where
  "window_fields num workload_key x = (let m = mw_metrics x in JObj [
     (''p50_latency_ms'', option_json num (ms_p50_latency_ms m)), (''p95_latency_ms'', option_json num (ms_p95_latency_ms m)),
     (''p99_latency_ms'', option_json num (ms_p99_latency_ms m)), (''error_count'', JNum (ms_error_count m)),
     (''timeout_count'', JNum (ms_timeout_count m)), (''replica_healthy'', JBool (mw_replica_healthy x)),
     (workload_key, JArr (map (\<lambda>s. JObj [(''name'', JStr (sh_name s)), (''fraction'', num (sh_fraction s))]) (mw_workload_distribution x)))])"

definition durable_window :: "(real \<Rightarrow> json) \<Rightarrow> monitoring_window \<Rightarrow> json" where
  "durable_window num = window_fields num ''workload''"

definition window_payload :: "(real \<Rightarrow> json) \<Rightarrow> monitoring_window \<Rightarrow> json" where
  "window_payload num = window_fields num ''workload_distribution''"

definition decision_payload :: "monitoring_decision \<Rightarrow> json" where
  "decision_payload d = JObj [(''catastrophic_p99'', JBool (md_catastrophic_p99 d)), (''new_errors'', JBool (md_new_errors d)),
     (''new_timeouts'', JBool (md_new_timeouts d)), (''replica_unhealthy'', JBool (md_replica_unhealthy d)),
     (''sustained_protected_regression'', JBool (md_sustained_protected_regression d)), (''workload_comparable'', JBool (md_workload_comparable d))]"

text \<open>\<open>PostgresMonitoringEvidenceStore.persist\<close>, a store for the monitor.\<close>

definition persist_evidence :: "(real \<Rightarrow> json) \<Rightarrow> monitoring_result \<Rightarrow> ('t world, unit) oper" where
  "persist_evidence num res =
     bnd (create_row audit_events_table (audit_event None None ''POST_DEPLOYMENT_MONITORING_WINDOW'' (JObj [
       (''status'', JStr (monitoring_value (mr_status res))), (''baseline'', JArr (map (window_payload num) (mr_baseline res))),
       (''observed'', JArr (map (window_payload num) (mr_observed res))), (''decision'', decision_payload (mr_decision res))]))) (\<lambda>_.
     ret ())"

definition monitoring_payload :: "(real \<Rightarrow> json) \<Rightarrow> monitoring_result \<Rightarrow> json" where
  "monitoring_payload num res = JObj [(''status'', JStr (monitoring_value (mr_status res))),
     (''baseline_windows'', JArr (map (durable_window num) (mr_baseline res))),
     (''observed_windows'', JArr (map (durable_window num) (mr_observed res))),
     (''rollback_required'', JBool (rollback_required (mr_decision res)))]"

definition experience_outcome :: "monitoring_status \<Rightarrow> string" where
  "experience_outcome st = (if st \<in> {STABLE, WORKLOAD_SHIFT_DETECTED} then ''DEPLOYMENT_SUCCEEDED'' else monitoring_value st)"

definition experience_of :: "string \<Rightarrow> monitoring_result \<Rightarrow> string \<Rightarrow> int \<Rightarrow> experience_row" where
  "experience_of candidate res = (\<lambda>i t. \<lparr>row_id = i, row_created_at = t, row_updated_at = Some t, ex_candidate_id = Some candidate,
     ex_outcome = Some (experience_outcome (mr_status res)), ex_embedding = None,
     ex_evidence = JObj [(''monitoring_status'', JStr (monitoring_value (mr_status res))),
       (''rollback_required'', JBool (rollback_required (mr_decision res)))],
     ex_adapter_type = ''mongodb'', ex_action_type = ''CREATE_INDEX'', ex_query_structure_summary = JObj [], ex_workload_features = JObj [],
     ex_bottleneck = None, ex_candidate_summary = JObj [], ex_prediction = JObj [], ex_admission_outcome = Some ''ADMITTED'',
     ex_actual_postdeploy_outcome = Some (monitoring_value (mr_status res)),
     ex_rollback_outcome = map_option (\<lambda>r. rollback_value (rr_status r)) (mr_rollback_result res),
     ex_embedding_model = ''embeddinggemma'', ex_embedding_model_version = ''deferred''\<rparr>)"

subsection \<open>Monitoring a run\<close>

text \<open>The coordinator ignores the request: what may be removed is derived from the deployment of the run.\<close>

definition durable_coordinator ::
  "digest \<Rightarrow> (int \<Rightarrow> string) \<Rightarrow> string \<Rightarrow> 't adapter \<Rightarrow> string \<Rightarrow> rollback_request \<Rightarrow> ('t world, rollback_result) oper" where
  "durable_coordinator sha stamp actor ad run_id request =
     bnd (rollback_for_run sha stamp actor ad run_id) (\<lambda>(st, reason).
     ret \<lparr>rr_status = (if st = ROLLED_BACK then RB_ROLLED_BACK else RB_ROLLBACK_BLOCKED),
       rr_reason_codes = (if st = ROLLED_BACK then [] else [reason]), rr_ledger_entry = None\<rparr>)"

text \<open>\<open>connection.scalar\<close>: the first row's value, if there is a row.\<close>

definition deployed_candidate :: "string \<Rightarrow> ('t world, string option) oper" where
  "deployed_candidate run_id = engine_connect (
     bnd (select_rows deployments_table (\<lambda>x. dp_optimization_run_id x = run_id)) (\<lambda>rows.
     ret (case rows of [] \<Rightarrow> None | x # _ \<Rightarrow> Some (dp_candidate_id x))))"

definition record_experience :: "string \<Rightarrow> monitoring_result \<Rightarrow> ('t world, unit) oper" where
  "record_experience candidate res =
     bnd (engine_connect (select_rows experience_records_table (\<lambda>x. ex_candidate_id x = Some candidate \<and>
       ex_outcome x = Some (experience_outcome (mr_status res))))) (\<lambda>rows.
     if rows = [] then bnd (create_row experience_records_table (experience_of candidate res)) (\<lambda>_. ret ()) else ret ())"

definition record_monitoring :: "(real \<Rightarrow> json) \<Rightarrow> string \<Rightarrow> monitoring_result \<Rightarrow> ('t world, monitoring_result) oper" where
  "record_monitoring num run_id res =
     bnd (create_row audit_events_table (audit_event None (Some run_id) ''DURABLE_POST_DEPLOYMENT_MONITORING'' (monitoring_payload num res))) (\<lambda>_.
     bnd (deployed_candidate run_id) (\<lambda>candidate.
     bnd (case candidate of None \<Rightarrow> ret () | Some c \<Rightarrow> record_experience c res) (\<lambda>_. ret res)))"

definition monitor_for_run ::
  "digest \<Rightarrow> (int \<Rightarrow> string) \<Rightarrow> string \<Rightarrow> 't adapter \<Rightarrow> (real \<Rightarrow> json) \<Rightarrow>
   (string \<Rightarrow> ('t world, (monitoring_window list \<times> monitoring_window list) option) oper) \<Rightarrow> string \<Rightarrow> ('t world, monitoring_result) oper" where
  "monitor_for_run sha stamp actor ad num collect run_id =
     bnd (collect run_id) (\<lambda>windows.
     case windows of
       None \<Rightarrow> raise (MonitoringEvidenceUnavailable ''MONITORING_TELEMETRY_UNAVAILABLE'')
     | Some (baseline, observed) \<Rightarrow>
         bnd (monitor (durable_coordinator sha stamp actor ad run_id) None DEFAULT_MONITORING_POLICY baseline observed
           (Some \<lparr>rq_target_id = ''durable'', rq_applied_ledger_entry_id = run_id, rq_actor = ''durable-monitor''\<rparr>))
           (record_monitoring num run_id))"

subsection \<open>What is on record when monitoring returns\<close>

lemma monitor_Inr:
  assumes "monitor rb None p baseline observed request s = (Inr res, s')"
  shows "decide p baseline observed = Inr (mr_decision res) \<and>
    (s' = s \<or> rollback_required (mr_decision res) \<and> (\<exists>q out. request = Some q \<and> rb q s = (Inr out, s')))"
  using assms
  by (auto simp: monitor_def persist_def elim!: bnd_InrE split: option.splits if_splits)

lemma created_Inr:
  assumes "create_row tb b w = (Inr x, w')"
  shows "\<exists>i t. x = b i t \<and> w_db w' = tb_put tb (tb_rows tb (w_db w) @ [x]) (w_db w)"
proof -
  from assms have "create_in_transaction tb b (tick w) = (Inr x, w')" by (auto simp: create_row_def engine_begin_Inr)
  from inserted_Inr [OF this] show ?thesis by auto
qed

definition experience_recorded :: "string \<Rightarrow> monitoring_result \<Rightarrow> db \<Rightarrow> bool" where
  "experience_recorded c res d \<longleftrightarrow> (\<exists>x\<in>set (db_experience_records d). ex_candidate_id x = Some c \<and>
     ex_outcome x = Some (experience_outcome (mr_status res)))"

lemma record_experience_Inr:
  assumes "record_experience c res w = (Inr u, w')"
  shows "experience_recorded c res (w_db w') \<and> (\<exists>xs. w_db w' = (w_db w)\<lparr>db_experience_records := db_experience_records (w_db w) @ xs\<rparr>)"
proof -
  let ?P = "\<lambda>x. ex_candidate_id x = Some c \<and> ex_outcome x = Some (experience_outcome (mr_status res))"
  have t: "tb_rows experience_records_table = db_experience_records" by (simp add: table_defs)
  show ?thesis
  proof (cases "filter ?P (db_experience_records (w_db w)) = []")
    case True
    then obtain x v where "create_row experience_records_table (experience_of c res) v = (Inr x, w')" "w_db v = w_db w"
      using assms by (auto simp: record_experience_def engine_connect_Inr world_apply t elim!: bnd_InrE)
    from created_Inr [OF this(1)] this(2) show ?thesis
      by (auto simp: experience_recorded_def experience_of_def experience_records_table_def)
  next
    case False
    then have "w_db w' = w_db w" using assms by (auto simp: record_experience_def engine_connect_Inr world_apply t elim!: bnd_InrE)
    moreover have "\<exists>x\<in>set (db_experience_records (w_db w)). ?P x" using False by (auto simp: filter_empty_conv)
    ultimately show ?thesis by (auto simp: experience_recorded_def intro: exI [of _ "[]"])
  qed
qed

lemma record_monitoring_Inr:
  assumes "record_monitoring num run_id res w = (Inr out, w')"
  shows "out = res \<and> (\<exists>e. db_audit_events (w_db w') = db_audit_events (w_db w) @ [e] \<and> ev_optimization_run_id e = Some run_id \<and>
      ev_event_type e = ''DURABLE_POST_DEPLOYMENT_MONITORING'' \<and> ev_event_payload e = monitoring_payload num res) \<and>
    db_deployments (w_db w') = db_deployments (w_db w) \<and>
    (\<forall>x xs. filter (\<lambda>x. dp_optimization_run_id x = run_id) (db_deployments (w_db w')) = x # xs \<longrightarrow>
       experience_recorded (dp_candidate_id x) res (w_db w'))"
proof -
  have t: "tb_rows deployments_table = db_deployments" by (simp add: table_defs)
  from assms obtain e v1 c v2 u where 1: "create_row audit_events_table (audit_event None (Some run_id)
      ''DURABLE_POST_DEPLOYMENT_MONITORING'' (monitoring_payload num res)) w = (Inr e, v1)"
    and 2: "deployed_candidate run_id v1 = (Inr c, v2)"
    and 3: "(case c of None \<Rightarrow> ret () | Some c \<Rightarrow> record_experience c res) v2 = (Inr u, w')" and out: "out = res"
    by (auto simp: record_monitoring_def elim!: bnd_InrE)
  from created_Inr [OF 1] have e: "w_db v1 = (w_db w)\<lparr>db_audit_events := db_audit_events (w_db w) @ [e]\<rparr>"
    "ev_optimization_run_id e = Some run_id" "ev_event_type e = ''DURABLE_POST_DEPLOYMENT_MONITORING''"
    "ev_event_payload e = monitoring_payload num res"
    by (auto simp: audit_events_table_def audit_event_def)
  from 2 have c: "w_db v2 = w_db v1"
    "c = (case filter (\<lambda>x. dp_optimization_run_id x = run_id) (db_deployments (w_db v1)) of [] \<Rightarrow> None | x # _ \<Rightarrow> Some (dp_candidate_id x))"
    by (auto simp: deployed_candidate_def engine_connect_Inr world_apply t elim!: bnd_InrE)
  show ?thesis
  proof (cases c)
    case None
    then show ?thesis using 3 out e c by (auto split: list.splits)
  next
    case (Some i)
    then have r: "record_experience i res v2 = (Inr u, w')" using 3 by simp
    from record_experience_Inr [OF r] show ?thesis using Some out e c by (auto split: list.splits)
  qed
qed

lemma coordinator_evolution [evolution]: "keeps Runs.evolves (durable_coordinator sha stamp actor ad run_id request)"
  unfolding durable_coordinator_def by (intro evolution)

lemma record_monitoring_evolution [evolution]: "keeps Runs.evolves (record_monitoring num run_id res)"
  unfolding record_monitoring_def deployed_candidate_def record_experience_def create_row_def create_in_transaction_def by (intro evolution)

lemma monitoring_evolution:
  assumes "keeps Runs.evolves (collect run_id)"
  shows "keeps Runs.evolves (monitor_for_run sha stamp actor ad num collect run_id)"
  unfolding monitor_for_run_def monitor_def persist_def option.case by (intro evolution assms)

lemma record_monitoring_frame: "keeps same_outside (record_monitoring num run_id res)"
  unfolding record_monitoring_def deployed_candidate_def record_experience_def by (intro frames)

text \<open>The collector reads the target, at most.\<close>

definition collector_reads :: "(string \<Rightarrow> ('t world, 'a) oper) \<Rightarrow> bool" where
  "collector_reads collect \<longleftrightarrow> (\<forall>i w r w'. collect i w = (r, w') \<longrightarrow> w_target w' = w_target w)"

lemma rollback_drops:
  assumes "database_adapter ad cols idx hint ok" and "ok (w_target w)" and "rollback_for_run sha stamp actor ad run_id w = (r, w')"
  shows "w_target w' = w_target w \<or> (\<exists>b a. owned_rows run_id (w_db w) = [b] \<and> action_of_payload (ac_action_payload (od_action b)) = Inr a \<and>
    dropped cols idx hint (ca_collection a) (ca_index_name a) (w_target w) (w_target w'))"
  using database_adapter.durable_rollback [OF assms(1,3,2)]
  by (auto simp: database_adapter.rolled_by_def [OF assms(1)] database_adapter.index_dropped_def [OF assms(1)])

text \<open>
  C13. When the monitoring of a run returns, what it decided follows from the collected windows, the audit trail only grew and ends in the event with
  its result, and a deployed candidate has an experience record with the outcome. The target is as it was
  unless the decision required a rollback, and then at most the one index that the deployment of the run owns
  is gone.
\<close>

theorem durable_monitoring_is_recorded:
  assumes ad: "database_adapter ad cols idx hint ok" and ok: "ok (w_target w)" and reads: "collector_reads collect"
    and run: "monitor_for_run sha stamp actor ad num collect run_id w = (Inr res, w')"
  shows "\<exists>v baseline observed. collect run_id w = (Inr (Some (baseline, observed)), v) \<and>
    decide DEFAULT_MONITORING_POLICY baseline observed = Inr (mr_decision res) \<and>
    (\<exists>es e. db_audit_events (w_db w') = es @ [e] \<and> prefix (db_audit_events (w_db v)) es \<and> ev_optimization_run_id e = Some run_id \<and>
       ev_event_type e = ''DURABLE_POST_DEPLOYMENT_MONITORING'' \<and> ev_event_payload e = monitoring_payload num res) \<and>
    (\<forall>x xs. filter (\<lambda>x. dp_optimization_run_id x = run_id) (db_deployments (w_db w')) = x # xs \<longrightarrow>
       experience_recorded (dp_candidate_id x) res (w_db w')) \<and>
    (w_target w' = w_target w \<or> rollback_required (mr_decision res) \<and>
      (\<exists>b a. owned_rows run_id (w_db v) = [b] \<and> action_of_payload (ac_action_payload (od_action b)) = Inr a \<and>
       dropped cols idx hint (ca_collection a) (ca_index_name a) (w_target w) (w_target w')))"
proof -
  let ?rq = "\<lparr>rq_target_id = ''durable'', rq_applied_ledger_entry_id = run_id, rq_actor = ''durable-monitor''\<rparr>"
  from run obtain baseline observed v res1 u where c: "collect run_id w = (Inr (Some (baseline, observed)), v)"
    and m: "monitor (durable_coordinator sha stamp actor ad run_id) None DEFAULT_MONITORING_POLICY baseline observed (Some ?rq) v = (Inr res1, u)"
    and rec: "record_monitoring num run_id res1 u = (Inr res, w')"
    by (auto simp: monitor_for_run_def elim!: bnd_InrE split: option.splits)
  note rm = record_monitoring_Inr [OF rec]
  have res: "res = res1" using rm by simp
  have tv: "w_target v = w_target w" using reads c by (auto simp: collector_reads_def)
  have tu: "w_target w' = w_target u" using keepsD [OF record_monitoring_frame rec] by (simp add: same_outside_def)
  note mi = monitor_Inr [OF m]
  have target: "w_target w' = w_target w \<or> rollback_required (mr_decision res) \<and>
      (\<exists>b a. owned_rows run_id (w_db v) = [b] \<and> action_of_payload (ac_action_payload (od_action b)) = Inr a \<and>
       dropped cols idx hint (ca_collection a) (ca_index_name a) (w_target w) (w_target w'))"
  proof (cases "u = v")
    case False
    with mi obtain out where req: "rollback_required (mr_decision res1)" and co: "durable_coordinator sha stamp actor ad run_id ?rq v = (Inr out, u)"
      by auto
    then obtain st reason where "rollback_for_run sha stamp actor ad run_id v = (Inr (st, reason), u)"
      by (auto simp: durable_coordinator_def elim!: bnd_InrE)
    from rollback_drops [OF ad _ this] ok req show ?thesis unfolding res tu tv by auto
  qed (simp add: tu tv)
  have "Runs.evolves v u"
    using mi keepsD [OF coordinator_evolution] by (elim conjE disjE exE) auto
  then have "prefix (db_audit_events (w_db v)) (db_audit_events (w_db u))" by (simp add: Runs.evolves_def db_evolves_def evidence_grows_def)
  moreover obtain e where "db_audit_events (w_db w') = db_audit_events (w_db u) @ [e]" "ev_optimization_run_id e = Some run_id"
      "ev_event_type e = ''DURABLE_POST_DEPLOYMENT_MONITORING''" "ev_event_payload e = monitoring_payload num res" using rm res by blast
  ultimately have "\<exists>es e. db_audit_events (w_db w') = es @ [e] \<and> prefix (db_audit_events (w_db v)) es \<and> ev_optimization_run_id e = Some run_id \<and>
       ev_event_type e = ''DURABLE_POST_DEPLOYMENT_MONITORING'' \<and> ev_event_payload e = monitoring_payload num res" by blast
  moreover have "\<forall>x xs. filter (\<lambda>x. dp_optimization_run_id x = run_id) (db_deployments (w_db w')) = x # xs \<longrightarrow>
       experience_recorded (dp_candidate_id x) res (w_db w')" using rm res by blast
  moreover have "decide DEFAULT_MONITORING_POLICY baseline observed = Inr (mr_decision res)" using mi res by blast
  ultimately show ?thesis using c target by (intro exI [of _ v] exI [of _ baseline] exI [of _ observed] conjI)
qed

definition demo_windows :: "(monitoring_window list \<times> monitoring_window list) option" where
  "demo_windows = Some (replicate 10 (demo_window 10), [demo_window 10])"

lemma demo_stable:
  "\<exists>d. decide DEFAULT_MONITORING_POLICY (replicate 10 (demo_window 10)) [demo_window 10] = Inr d \<and> \<not> rollback_required d \<and>
    quiet_status d = STABLE"
  by (simp add: decide_def DEFAULT_MONITORING_POLICY_def demo_window_def demo_metrics_def max_of_def numeral_eq_Suc
      average_def p99_of_def ratio_def at_least_def last_n_def demo_distances(2) rollback_required_def quiet_status_def)

lemma demo_monitoring:
  "\<exists>res w'. monitor_for_run id int_str ''worker'' fake_adapter (\<lambda>_. JNull) (\<lambda>_. ret demo_windows) ''run1'' rollback_world = (Inr res, w') \<and>
    mr_status res = STABLE"
proof -
  obtain d where d: "decide DEFAULT_MONITORING_POLICY (replicate 10 (demo_window 10)) [demo_window 10] = Inr d"
    "\<not> rollback_required d" "quiet_status d = STABLE" using demo_stable by blast
  have valid: "validate_window_counts DEFAULT_MONITORING_POLICY (replicate 10 (demo_window 10)) [demo_window 10] = Inr ()"
    by (simp add: validate_window_counts_def DEFAULT_MONITORING_POLICY_def)
  have rows: "db_audit_events (w_db rollback_world) = []" "db_experience_records (w_db rollback_world) = []"
    "db_deployments (w_db rollback_world) = [applied_artifact]" "dp_optimization_run_id applied_artifact = ''run1''"
    "w_faults rollback_world = (\<lambda>_. False)"
    by (simp_all add: rollback_world_def world_of_def deploy_db_def pipeline_db_def empty_db_def applied_artifact_def)
  let ?res = "\<lparr>mr_status = STABLE, mr_baseline = replicate 10 (demo_window 10), mr_observed = [demo_window 10], mr_decision = d,
    mr_rollback_result = None\<rparr>"
  obtain w' where "record_monitoring (\<lambda>_. JNull) ''run1'' ?res rollback_world = (Inr ?res, w')"
    using rows
    by (simp add: record_monitoring_def deployed_candidate_def record_experience_def create_row_def create_in_transaction_def
        engine_begin_def engine_connect_def tables_transaction_def insert_row_def bnd_apply world_apply table_defs)
  then show ?thesis
    using d valid by (intro exI [of _ ?res] exI [of _ w']) (simp add: monitor_for_run_def monitor_def demo_windows_def bnd_apply persist_def)
qed

theorem durable_monitoring_is_recorded_witness:
  "\<exists>res w'. monitor_for_run id int_str ''worker'' fake_adapter (\<lambda>_. JNull) (\<lambda>_. ret demo_windows) ''run1'' rollback_world = (Inr res, w') \<and>
     mr_status res = STABLE \<and> (\<exists>es e. db_audit_events (w_db w') = es @ [e] \<and> ev_event_payload e = monitoring_payload (\<lambda>_. JNull) res)"
proof -
  obtain res w' where run: "monitor_for_run id int_str ''worker'' fake_adapter (\<lambda>_. JNull) (\<lambda>_. ret demo_windows) ''run1'' rollback_world = (Inr res, w')"
    and st: "mr_status res = STABLE" using demo_monitoring by blast
  have start: "w_target rollback_world = demo_index_target" by (simp add: rollback_world_def world_of_def)
  have ok: "fake_inv (w_target rollback_world)" unfolding start by (simp add: fake_inv_def demo_index_target_def)
  have quiet: "collector_reads (\<lambda>_. ret demo_windows :: (fake_db world, _) oper)" by (simp add: collector_reads_def)
  from durable_monitoring_is_recorded [OF fakead.database_adapter_axioms ok quiet run] run st show ?thesis by blast
qed

end
