(* ===== verification/Worker.thy ===== *)
theory Worker
  imports Orchestrator Generation Evaluation DurableMonitoring
begin

text \<open>
  The worker with the modelled services: candidate generation, ranking, evaluation plan, admission, authority, approvals,
  deployment and monitoring as services of the orchestrator, that they let the database evolve, and that a deployment which
  returns has moved its run.
\<close>

subsection \<open>The durable deployment as a service\<close>

text \<open>The run has begun its deployment.\<close>

definition past_approval :: "string \<Rightarrow> db \<Rightarrow> bool" where
  "past_approval i d \<longleftrightarrow> (\<exists>r\<in>set (db_runs d). row_id r = i \<and> lifecycle_reach DEPLOYING (rn_status r))"

lemma past_approval_moves: "past_approval i d \<Longrightarrow> db_evolves d d' \<Longrightarrow> past_approval i d'"
  unfolding past_approval_def db_evolves_def run_moves_def by (metis lifecycle_reach_trans)

lemma past_approval_evolves: "past_approval i (w_db w) \<Longrightarrow> m w = (x, w') \<Longrightarrow> keeps Runs.evolves m \<Longrightarrow> past_approval i (w_db w')"
  by (auto simp: Runs.evolves_def dest!: keepsD intro: past_approval_moves)

lemma run_is_only: "run_is i r d \<Longrightarrow> x \<in> set (db_runs d) \<Longrightarrow> row_id x = i \<Longrightarrow> x = r"
  using filter_set [of "\<lambda>x. row_id x = i" "db_runs d"] by (auto simp: run_is_def)

lemma run_is_member: "run_is i r d \<Longrightarrow> r \<in> set (db_runs d) \<and> row_id r = i"
  by (auto simp: run_is_def dest!: arg_cong [where f = set])

lemma past_approval_status:
  assumes "past_approval i d" and "run_is i r d"
  shows "rn_status r \<noteq> APPROVED"
proof -
  obtain x where x: "x \<in> set (db_runs d)" "row_id x = i" and reach: "lifecycle_reach DEPLOYING (rn_status x)"
    using assms(1) by (auto simp: past_approval_def)
  have "x = r" using assms(2) x by (rule run_is_only)
  then have "stage_rank (rn_status r) \<le> 3" using reach_lowers_rank [OF reach] by simp
  then show ?thesis by auto
qed

lemma transition_run_is:
  assumes "run_transition i st reason w = (Inr x, w')"
  shows "\<exists>r. run_is i r (w_db w') \<and> rn_status r = st"
proof -
  obtain row t where "run_is i row (w_db w)" and w': "w_db w' = moved i st reason t (w_db w)"
    using assms by (auto simp: run_is_def dest!: run_transition_spec)
  from run_is_moved [OF this(1), of st reason t] have "run_is i (set_status st reason t row) (w_db w')" by (simp only: w')
  moreover have "rn_status (set_status st reason t row) = st" by (simp add: set_status_def)
  ultimately show ?thesis by blast
qed

lemma begin_past_approval:
  assumes run: "begin_deploying b v = (Inr u, v')" and b: "bd_run b \<in> set (db_runs d)" and d: "db_evolves d (w_db v)"
  shows "past_approval (row_id (bd_run b)) (w_db v')"
proof (cases "rn_status (bd_run b) = APPROVED")
  case True
  then obtain x v1 where "run_transition (row_id (bd_run b)) DEPLOYING None v = (Inr x, v1)" "v' = v1"
    using run by (auto simp: begin_deploying_def)
  then show ?thesis by (auto simp: past_approval_def dest!: transition_run_is run_is_member)
next
  case False
  then have v: "v' = v" "rn_status (bd_run b) \<in> {DEPLOYING, DEPLOYED}" using run by (auto simp: begin_deploying_def)
  have "lifecycle_reach DEPLOYING (rn_status (bd_run b))" using v(2) by (auto intro: lifecycle_reach_edge)
  then have "past_approval (row_id (bd_run b)) d" using b by (auto simp: past_approval_def)
  then show ?thesis using d v(1) by (auto intro: past_approval_moves)
qed

definition settled :: "string \<Rightarrow> db \<Rightarrow> bool" where
  "settled i d \<longleftrightarrow> (\<forall>r. run_is i r d \<longrightarrow> rn_status r \<notin> {APPROVED, DEPLOYING})"

lemma run_status_of_Inr: "run_status_of i w = (Inr st, v) \<Longrightarrow> w_db v = w_db w \<and> (\<exists>r. run_is i r (w_db w) \<and> rn_status r = st)"
  by (auto simp: run_status_of_def engine_connect_Inr world_apply runs_table_def run_is_def one_or_none_def
      elim!: bnd_InrE split: option.splits list.splits)

lemma run_is_unique: "run_is i r d \<Longrightarrow> run_is i r' d \<Longrightarrow> r' = r"
  by (simp add: run_is_def)

lemma finish_moved:
  assumes "run_transition i DEPLOYED reason v = (Inr x, w')"
  shows "settled i (w_db w')"
proof -
  obtain r' where r': "run_is i r' (w_db w')" "rn_status r' = DEPLOYED" using transition_run_is [OF assms] by blast
  have "rn_status x = DEPLOYED" if "run_is i x (w_db w')" for x using run_is_unique [OF r'(1) that] r'(2) by simp
  then show ?thesis by (simp add: settled_def)
qed

lemma finish_stays:
  assumes past: "past_approval i (w_db w)" and st: "run_status_of i w = (Inr st, w')" and "st \<noteq> DEPLOYING"
  shows "settled i (w_db w')"
proof -
  obtain r where w': "w_db w' = w_db w" and r: "run_is i r (w_db w)" "rn_status r = st" using run_status_of_Inr [OF st] by auto
  show ?thesis
    unfolding settled_def using assms(3) w' r past_approval_status [OF past r(1)] run_is_unique by auto
qed

lemma bound_row: "b \<in> set (bound_rows i d) \<Longrightarrow> bd_run b \<in> set (db_runs d) \<and> row_id (bd_run b) = i"
  by (auto simp: bound_rows_def)

lemma loaded_row:
  assumes "load_bound_action sha i w = (Inr b, w')"
  shows "bd_run b \<in> set (db_runs (w_db w)) \<and> row_id (bd_run b) = i"
proof -
  have "b \<in> set (bound_rows i (w_db w))" using load_bound_action_Inr [OF assms] by (auto simp: binding_holds_def)
  then show ?thesis by (rule bound_row)
qed

definition settles :: "string \<Rightarrow> ('t world, 'a) oper \<Rightarrow> bool" where
  "settles i m \<longleftrightarrow> (\<forall>w x w'. past_approval i (w_db w) \<longrightarrow> m w = (Inr x, w') \<longrightarrow> settled i (w_db w'))"

lemma settles_bnd: "keeps Runs.evolves m \<Longrightarrow> (\<And>a. settles i (f a)) \<Longrightarrow> settles i (bnd m f)"
  unfolding settles_def by (auto elim!: bnd_InrE intro: past_approval_evolves)

lemma settles_finish:
  "settles i (bnd (run_status_of i) (\<lambda>st. bnd (if st = DEPLOYING then bnd (run_transition i DEPLOYED None) (\<lambda>_. ret ()) else ret ()) (\<lambda>_. ret x)))"
  "settles i (bnd (run_status_of i) (\<lambda>st. bnd (if st = DEPLOYING then bnd (run_transition i DEPLOYED None) (\<lambda>_. ret ())
     else refuse_unless (st = DEPLOYED) code) (\<lambda>_. ret x)))"
  unfolding settles_def by (auto elim!: bnd_InrE split: if_splits) (erule finish_moved | erule (1) finish_stays, simp)+

lemma apply_settles: "settles (row_id (bd_run b)) (apply_deployment sha stamp actor ad b a before artifact fresh)"
  unfolding apply_deployment_def Let_def by (intro settles_finish settles_bnd evolution execute_evolution)

lemma reconcile_settles: "settles (row_id (bd_run b)) (reconcile_applied b a before artifact)"
  unfolding reconcile_applied_def by (intro settles_finish settles_bnd evolution)

lemma locked_settles:
  assumes run: "deploy_locked sha stamp actor ad b w = (Inr x, w')"
    and b: "bd_run b \<in> set (db_runs d)" and d: "db_evolves d (w_db w)"
  shows "settled (row_id (bd_run b)) (w_db w')"
proof -
  from run obtain a before v1 artifact fresh v2 u v3 where
    1: "deploy_state ad a w = (Inr before, v1)" and
    2: "deployment_intent sha b before a (action_fingerprint sha a) v1 = (Inr (artifact, fresh), v2)" and
    3: "begin_deploying b v2 = (Inr u, v3)" and
    4: "(if dp_status artifact = ''APPLIED'' then reconcile_applied b a before artifact
         else apply_deployment sha stamp actor ad b a before artifact fresh) v3 = (Inr x, w')"
    by (auto simp: deploy_locked_def elim!: bnd_InrE)
  have "db_evolves d (w_db v2)"
    using d keepsD [OF evidence_reads_evolution(5) 1] keepsD [OF deployment_parts_evolution(2) 2]
    by (auto simp: Runs.evolves_def intro: db_evolves_trans)
  with 3 b have past: "past_approval (row_id (bd_run b)) (w_db v3)" by (rule begin_past_approval)
  have "settles (row_id (bd_run b)) (if dp_status artifact = ''APPLIED'' then reconcile_applied b a before artifact
      else apply_deployment sha stamp actor ad b a before artifact fresh)"
    by (simp add: apply_settles reconcile_settles)
  with 4 past show ?thesis unfolding settles_def by blast
qed

lemma deploy_settles:
  assumes run: "deploy_for_run sha stamp actor ad i w = (Inr x, w')"
  shows "settled i (w_db w')"
proof -
  let ?m = "\<lambda>b. bnd ensure_lease_owned (\<lambda>_. deploy_locked sha stamp actor ad b)"
  from run obtain v b v1 where l: "load_bound_action sha i v = (Inr b, v1)"
    and lock: "with_mutation_lock sha (rn_target_id (bd_run b)) (raise (DurableDeploymentError ''TARGET_LOCK_UNAVAILABLE''))
      (?m b) v1 = (Inr x, w')"
    by (auto simp: deploy_for_run_def elim!: bnd_InrE)
  note b = loaded_row [OF l]
  have db: "db_evolves (w_db v) (w_db v1)" using keepsD [OF deployment_parts_evolution(1) l] by (simp add: Runs.evolves_def)
  from lock obtain key v2 v3 where t: "try_acquire sha (rn_target_id (bd_run b)) v1 = (Inr (Some key), v2)"
    and m: "?m b v2 = (Inr x, v3)" and w': "w_db w' = w_db v3"
    by (auto simp: with_mutation_lock_def finally_do_apply release_def elim!: bnd_InrE split: option.splits) (metis prod.collapse)
  from m obtain u v4 where o: "ensure_lease_owned v2 = (Inr u, v4)" and d: "deploy_locked sha stamp actor ad b v4 = (Inr x, v3)"
    by (auto elim!: bnd_InrE)
  have "w_db v4 = w_db v1" using o try_acquire_cases [OF t] by (auto simp: ensure_lease_owned_apply split: if_splits)
  then show ?thesis using locked_settles [OF d, of "w_db v"] b db w' by simp
qed

subsection \<open>The modelled services\<close>

text \<open>What the services are constructed with: the digest, the adapter, the provider and the other parameters of the models.\<close>

record 't environment =
  en_sha :: digest
  en_stamp :: "int \<Rightarrow> string"
  en_actor :: string
  en_adapter :: "'t adapter"
  en_ttl :: int
  en_provider :: "'t ai_provider"
  en_numerics :: numerics
  en_evidence :: "admission_result \<Rightarrow> json"
  en_number :: "real \<Rightarrow> json"
  en_collect :: "string \<Rightarrow> ('t world, (monitoring_window list \<times> monitoring_window list) option) oper"

definition environment_ok :: "'t environment \<Rightarrow> bool" where
  "environment_ok e \<longleftrightarrow> provider_ok (en_provider e) \<and> (\<forall>i. keeps Runs.evolves (en_collect e i))"

definition durable_services :: "'t environment \<Rightarrow> 't services \<Rightarrow> 't services" where
  "durable_services e sv = sv\<lparr>
     sv_candidates := Some (\<lambda>i. bnd (generate_for_run (en_sha e) (en_adapter e) i) (\<lambda>g. ret (gr_candidate_count g))),
     sv_ranking := Some (\<lambda>i. bnd (rank_for_run (en_sha e) (en_provider e) i) (\<lambda>_. ret ())),
     sv_evaluation := Some (\<lambda>i profile calibration. bnd (create_plan_for_run (en_sha e) i profile calibration) (\<lambda>_. ret ())),
     sv_admission := Some (\<lambda>i requests. bnd (decide_admission (en_sha e) (en_numerics e) (en_evidence e) i requests)
       (\<lambda>res. ret (ao_selected_candidate_id res))),
     sv_authority := Some (Authority.decide_for_run (en_sha e)),
     sv_approvals := Some (\<lambda>q. bnd (request_durable (en_ttl e) q) (\<lambda>_. ret ())),
     sv_deployment := Some (\<lambda>i. bnd (deploy_for_run (en_sha e) (en_stamp e) (en_actor e) (en_adapter e) i) (\<lambda>_. ret ())),
     sv_monitoring := Some (\<lambda>i. bnd (monitor_for_run (en_sha e) (en_stamp e) (en_actor e) (en_adapter e) (en_number e) (en_collect e) i)
       (\<lambda>res. ret (mr_status res)))\<rparr>"

lemma durable_services_evolve:
  assumes "services_evolve sv" and "environment_ok e"
  shows "services_evolve (durable_services e sv)"
proof -
  have "keeps Runs.evolves (rank_for_run (en_sha e) (en_provider e) i)"
    "keeps Runs.evolves (monitor_for_run (en_sha e) (en_stamp e) (en_actor e) (en_adapter e) (en_number e) (en_collect e) i)" for i
    using assms(2) by (simp_all add: environment_ok_def ranking_evolution monitoring_evolution)
  then show ?thesis
    using assms(1) unfolding services_evolve_def durable_services_def by (simp add: evolution)
qed

lemma durable_deployment_finishes: "deployment_finishes (durable_services e sv)"
  by (auto simp: deployment_finishes_def durable_services_def settled_def elim!: bnd_InrE dest: deploy_settles)

definition demo_environment :: "fake_db environment" where
  "demo_environment = \<lparr>en_sha = id, en_stamp = int_str, en_actor = ''w1'', en_adapter = fake_adapter, en_ttl = 3600, en_provider = fake_provider,
     en_numerics = demo_numerics, en_evidence = (\<lambda>_. JNull), en_number = (\<lambda>_. JNull), en_collect = (\<lambda>_. ret demo_windows)\<rparr>"

lemma demo_environment_ok: "environment_ok demo_environment"
  by (simp add: environment_ok_def demo_environment_def fake_provider_ok evolution)

definition shipped_services :: "(string \<Rightarrow> ('t world, unit) oper) \<Rightarrow> (string \<Rightarrow> ('t world, bool) oper) \<Rightarrow> 't services" where
  "shipped_services snapshot verify_snapshot = \<lparr>sv_snapshot = snapshot, sv_verify_snapshot = verify_snapshot, sv_diagnosis = None,
     sv_candidates = None, sv_ranking = None, sv_evaluation = None, sv_evaluation_executor = None, sv_admission = None,
     sv_admission_requests = None, sv_authority = None, sv_approvals = None, sv_deployment = None, sv_monitoring = None\<rparr>"

lemma shipped_services_evolve:
  "(\<And>i. keeps Runs.evolves (snapshot i)) \<Longrightarrow> (\<And>i. keeps Runs.evolves (check i)) \<Longrightarrow> services_evolve (shipped_services snapshot check)"
  by (simp add: services_evolve_def shipped_services_def)

subsection \<open>Properties of the worker\<close>

text \<open>
  C8. Whatever the faults, lost leases, jobs and clock, however long the worker polls: with the durable candidate
  generation, ranking, plan, admission, authority, approvals, deployment and monitoring, and other services that respect it, no run disappears or changes
  its target, every run's status moves along the frozen graph only, and no row of evidence (ledger, audit events,
  authority and approval decisions, artifacts of the stages) is lost or changed.
\<close>

theorem worker_respects_lifecycle:
  assumes "services_evolve sv" and "environment_ok e"
  shows "Runs.evolves w (snd (serve fuel stopping jr worker tag (Some (durable_services e sv)) n w))"
  using serve_evolution [of "Some (durable_services e sv)"] durable_services_evolve [OF assms]
  unfolding keeps_def by simp

theorem worker_respects_lifecycle_witness:
  "Runs.evolves deploy_world (snd (serve 3 (\<lambda>_. False) default_job_repository ''w1'' None
     (Some (durable_services demo_environment (shipped_services (\<lambda>_. ret ()) (\<lambda>_. ret True)))) 0 deploy_world))"
  by (rule worker_respects_lifecycle) (simp_all add: shipped_services_evolve demo_environment_ok evolution)

text \<open>
  C9. The handler's bound of 32 resumes is never what ends a job: a resume that reports progress has moved its run
  strictly further along the graph (a deployment that returns has left APPROVED and DEPLOYING), so
  that 15 steps already do all that any larger number of steps does, from any state of the database.
\<close>

theorem orchestration_within_step_limit:
  assumes "services_evolve sv" and "environment_ok e" and "15 \<le> n"
  shows "orchestrate_steps n (durable_services e sv) i w =
     orchestrate_steps 32 (durable_services e sv) i w"
  using run_rank_bound [of i "w_db w"] assms(3)
  by (intro steps_enough durable_services_evolve assms(1,2) durable_deployment_finishes) simp_all

theorem orchestration_within_step_limit_witness:
  "orchestrate_steps 15 (durable_services demo_environment (shipped_services (\<lambda>_. ret ()) (\<lambda>_. ret True))) ''run1'' deploy_world =
   orchestrate_steps 32 (durable_services demo_environment (shipped_services (\<lambda>_. ret ()) (\<lambda>_. ret True))) ''run1'' deploy_world"
  by (rule orchestration_within_step_limit) (simp_all add: shipped_services_evolve demo_environment_ok evolution)

lemma get_run_apply:
  assumes "run_is i r (w_db w)"
  shows "get_run i w = (if w_faults w (w_reads w) then Inl DatabaseUnavailable else Inr (Some r), tick w)"
  using assms by (simp add: get_run_def get_row_def engine_connect_def bnd_apply world_apply runs_table_def run_is_def one_or_none_def)

subsection \<open>The worker as it is started\<close>

text \<open>The handler finds no diagnosis service: it raises and has done nothing but read.\<close>

lemma handler_stops_at_diagnosis:
  assumes "run_is i r (w_db w)" and "rn_status r = DIAGNOSING" and "jo_optimization_run_id jo = Some i"
    and "payload_text (jo_payload jo) ''run_id'' \<in> {None, Some i}"
    and "handle_optimization (Some (shipped_services snapshot check)) jo w = (res, w')"
  shows "(\<exists>n. w' = w\<lparr>w_reads := n\<rparr>) \<and> (res = Inl (TransientBlock ''DIAGNOSIS_SERVICE_UNAVAILABLE'') \<or>
     res = Inl LeaseLostError \<and> (\<exists>n. w_lease_lost w n) \<or> res = Inl DatabaseUnavailable \<and> (\<exists>n. w_faults w n))"
proof -
  have "run_is i r (w_db v) \<Longrightarrow> orchestrate_steps 32 (shipped_services snapshot check) i v = (x, v') \<Longrightarrow>
      (\<exists>n. v' = v\<lparr>w_reads := n\<rparr>) \<and> (x = Inl (TransientBlock ''DIAGNOSIS_SERVICE_UNAVAILABLE'') \<or>
       x = Inl LeaseLostError \<and> (\<exists>n. w_lease_lost v n) \<or> x = Inl DatabaseUnavailable \<and> (\<exists>n. w_faults v n))" for v v' x
    using assms(2) by (auto simp: numeral_eq_Suc orchestrate_def bnd_apply catching_apply ensure_lease_owned_apply get_run_apply
        at_diagnosing_def shipped_services_def blocked_at_def invariant_failure_def tick_def split: if_splits)
  from this [of "tick (tick w)" res w'] show ?thesis
    using assms by (auto simp: handle_optimization_def bnd_apply get_run_apply terminal_statuses_def ensure_lease_owned_apply
        tick_def split: if_splits)
qed

lemma filter_key_one: "distinct (map key xs) \<Longrightarrow> x \<in> set xs \<Longrightarrow> filter (\<lambda>y. key y = key x) xs = [x]"
proof (induction xs)
  case (Cons y ys)
  then have "filter (\<lambda>z. key z = key x) ys = []" if "y = x" using that by (auto simp: filter_empty_conv) (metis image_eqI)
  with Cons show ?case by auto
qed simp

text \<open>A table that changed in the row of \<open>c\<close> only, which is now \<open>x\<close>.\<close>

definition job_replaced :: "job_row \<Rightarrow> job_row \<Rightarrow> db \<Rightarrow> db \<Rightarrow> bool" where
  "job_replaced c x d d' \<longleftrightarrow> row_id x = row_id c \<and>
     d' = d\<lparr>db_jobs := map (\<lambda>j. if row_id j = row_id c then x else j) (db_jobs d)\<rparr>"

lemma only_row_of_id:
  assumes "distinct (job_ids d)" and "c \<in> set (db_jobs d)"
  shows "map (\<lambda>j. if row_id j = row_id c then f j else j) (db_jobs d) = map (\<lambda>j. if row_id j = row_id c then f c else j) (db_jobs d)"
    and "filter (\<lambda>j. row_id j = row_id c) (db_jobs d) = [c]"
proof -
  show "map (\<lambda>j. if row_id j = row_id c then f j else j) (db_jobs d) = map (\<lambda>j. if row_id j = row_id c then f c else j) (db_jobs d)"
    using assms distinct_ids_eq [OF assms(1)] by (intro map_cong) auto
  show "filter (\<lambda>j. row_id j = row_id c) (db_jobs d) = [c]"
    using assms filter_key_one [of row_id] by (simp add: job_ids_def)
qed

lemma claim_takes:
  fixes w :: "'t world" and jr worker c
  assumes "first_claimable (w_clock w (w_reads w)) tag locked (db_jobs (w_db w)) = Some c" and "distinct (job_ids (w_db w))"
  defines "x \<equiv> leased_to jr worker (w_clock w (w_reads w)) c"
  shows "claim jr worker tag locked w =
    (if w_faults w (Suc (w_reads w)) then (Inl DatabaseUnavailable, tick (tick w))
     else (Inr (Some (job_of x)),
       (tick (tick w))\<lparr>w_db := (w_db w)\<lparr>db_jobs := map (\<lambda>j. if row_id j = row_id c then x else j) (db_jobs (w_db w))\<rparr>\<rparr>))"
proof -
  have c: "c \<in> set (db_jobs (w_db w))" using assms(1) by (rule first_claimable_mem)
  have put: "tb_put jobs_table js d = d\<lparr>db_jobs := js\<rparr>" for js d by (simp add: jobs_table_def)
  show ?thesis
    using assms(1) only_row_of_id [OF assms(2) c]
    by (simp add: claim_def engine_begin_def bnd_apply oper_simps tables_transaction_def put one_or_none_def x_def)
qed

lemma fail_takes:
  fixes w :: "'t world" and jr worker code permanent jo x
  assumes c: "x \<in> set (db_jobs (w_db w))" and d: "distinct (job_ids (w_db w))" and own: "owns (row_id x) worker x" and i: "jo_id jo = row_id x"
  defines "y \<equiv> failed_row jr jo code permanent (w_clock w (w_reads w)) x"
  shows "fail_job jr jo worker code permanent w =
    (if w_faults w (Suc (w_reads w)) then (Inl DatabaseUnavailable, tick (tick w))
     else (Inr (), (tick (tick w))\<lparr>w_db := (w_db w)\<lparr>db_jobs := map (\<lambda>j. if row_id j = row_id x then y else j) (db_jobs (w_db w))\<rparr>\<rparr>))"
proof -
  have "owns (row_id x) worker j = (row_id j = row_id x)" if "j \<in> set (db_jobs (w_db w))" for j
    using that own distinct_ids_eq [OF d that c] by (auto simp: owns_def)
  then have "filter (owns (row_id x) worker) (db_jobs (w_db w)) = [x]"
      "map (\<lambda>j. if owns (row_id x) worker j then f j else j) (db_jobs (w_db w)) =
       map (\<lambda>j. if row_id j = row_id x then f x else j) (db_jobs (w_db w))" for f
    using only_row_of_id [OF d c] by (simp_all cong: filter_cong map_cong)
  moreover have put: "tb_put jobs_table js d = d\<lparr>db_jobs := js\<rparr>" for js d by (simp add: jobs_table_def)
  ultimately show ?thesis
    by (simp add: fail_job_def engine_begin_def bnd_apply oper_simps tables_transaction_def i y_def)
qed

lemma failed_row_sel [simp]:
  "jb_attempts (failed_row jr jo code permanent t x) = jb_attempts x" "jb_lease_owner (failed_row jr jo code permanent t x) = None"
  "jb_status (failed_row jr jo code permanent t x) = (if permanent \<or> jr_max_attempts jr \<le> jo_attempts jo then ''FAILED'' else ''PENDING'')"
  "jb_last_error_code (failed_row jr jo code permanent t x) = Some (take 128 code)"
  "jb_available_at (failed_row jr jo code permanent t x) =
     (if permanent \<or> jr_max_attempts jr \<le> jo_attempts jo then jb_available_at x else t + backoff_seconds (jo_attempts jo))"
  by (simp_all add: failed_row_def Let_def)

lemma replace_twice:
  assumes "row_id x = row_id c"
  shows "map (\<lambda>j. if row_id j = row_id x then y else j) (map (\<lambda>j. if row_id j = row_id c then x else j) js) =
     map (\<lambda>j. if row_id j = row_id c then y else j) js"
  using assms by auto

text \<open>
  C26. The worker as \<open>main\<close> wires it has no diagnosis service. When a poll claims the optimization job of
  a run in DIAGNOSING, the run and every other row of every table stay as they are, and the job is
  not completed: if the poll returns, the job is unleased with one more attempt, failed for good once
  the attempts are used up and pending again otherwise, with the name of a transient error;
  if it raises, the lease or the database was lost and the job is as it was or leased to the worker.
  If no lease is lost and the database is reachable, the poll returns.
\<close>

theorem shipped_worker_stops_at_diagnosis:
  assumes "run_once jr worker tag locked (dispatch (Some (shipped_services snapshot check))) w = (res, w')"
    and "first_claimable (w_clock w (w_reads w)) tag locked (db_jobs (w_db w)) = Some c" and "distinct (job_ids (w_db w))"
    and "jb_kind c = ''OPTIMIZATION''" and "jb_optimization_run_id c = Some i" and "payload_text (jb_payload c) ''run_id'' \<in> {None, Some i}"
    and "filter (\<lambda>r. row_id r = i) (db_runs (w_db w)) = [r]" and "rn_status r = DIAGNOSING"
  shows "\<exists>x. row_id x = row_id c \<and>
    w_db w' = (w_db w)\<lparr>db_jobs := map (\<lambda>j. if row_id j = row_id c then x else j) (db_jobs (w_db w))\<rparr> \<and>
    (case res of
       Inr worked \<Rightarrow> worked \<and> jb_attempts x = jb_attempts c + 1 \<and> jb_lease_owner x = None \<and>
         jb_status x = (if jr_max_attempts jr \<le> jb_attempts c + 1 then ''FAILED'' else ''PENDING'') \<and>
         (jb_last_error_code x = Some ''RuntimeError'' \<or> jb_last_error_code x = Some ''OperationalError'' \<and> (\<exists>n. w_faults w n))
     | Inl e \<Rightarrow> (e = LeaseLostError \<and> (\<exists>n. w_lease_lost w n) \<or> e = DatabaseUnavailable \<and> (\<exists>n. w_faults w n)) \<and>
         (x = c \<or> x = leased_to jr worker (w_clock w (w_reads w)) c))"
proof -
  let ?x = "leased_to jr worker (w_clock w (w_reads w)) c"
  let ?put = "\<lambda>x. (w_db w)\<lparr>db_jobs := map (\<lambda>j. if row_id j = row_id c then x else j) (db_jobs (w_db w))\<rparr>"
  let ?w1 = "(tick (tick w))\<lparr>w_db := ?put ?x\<rparr>"
  have c: "c \<in> set (db_jobs (w_db w))" using assms(2) by (rule first_claimable_mem)
  have "map (\<lambda>j. if row_id j = row_id c then c else j) (db_jobs (w_db w)) = db_jobs (w_db w)"
    using distinct_ids_eq [OF assms(3) _ c] by (intro map_idI) auto
  then have nop: "?put c = w_db w" by simp
  show ?thesis
  proof (cases "w_faults w (Suc (w_reads w))")
    case True
    then have "res = Inl DatabaseUnavailable" "w_db w' = ?put c"
      using assms(1) nop by (auto simp: run_once_def bnd_apply claim_takes [OF assms(2,3)])
    then show ?thesis using True by (intro exI [of _ c]) auto
  next
    case False
    obtain hr w2 where h: "handle_optimization (Some (shipped_services snapshot check)) (job_of ?x) ?w1 = (hr, w2)" by fastforce
    have jo: "jo_kind (job_of ?x) = ''OPTIMIZATION''" "jo_optimization_run_id (job_of ?x) = Some i" "jo_id (job_of ?x) = row_id ?x"
      "payload_text (jo_payload (job_of ?x)) ''run_id'' \<in> {None, Some i}" "jo_attempts (job_of ?x) = jb_attempts c + 1"
      using assms(4-6) by (simp_all add: job_of_def leased_to_def)
    have "run_is i r (w_db ?w1)" using assms(7) by (simp add: run_is_def)
    from handler_stops_at_diagnosis [OF this assms(8) jo(2,4) h] obtain n where w2: "w2 = ?w1\<lparr>w_reads := n\<rparr>"
      and hr: "hr = Inl (TransientBlock ''DIAGNOSIS_SERVICE_UNAVAILABLE'') \<or> hr = Inl LeaseLostError \<and> (\<exists>n. w_lease_lost w n) \<or>
        hr = Inl DatabaseUnavailable \<and> (\<exists>n. w_faults w n)" by auto
    have db2: "w_db w2 = ?put ?x" "w_faults w2 = w_faults w" using w2 by simp_all
    have mem: "?x \<in> set (db_jobs (w_db w2))" using c by (auto simp: db2 image_iff intro!: bexI [of _ c])
    have ids: "distinct (job_ids (w_db w2))"
      using assms(3) by (simp add: db2 job_ids_def comp_def if_distrib [of row_id] cong: if_cong map_cong)
    have own: "owns (row_id ?x) worker ?x" by (simp add: owns_def leased_to_def)
    have run: "(res, w') = (case on_job_error jr (job_of ?x) worker (case hr of Inl e \<Rightarrow> e) w2 of (Inl e, v) \<Rightarrow> (Inl e, v) | (Inr _, v) \<Rightarrow> (Inr True, v))"
      using assms(1) False hr h jo(1)
      by (auto simp: run_once_def bnd_apply claim_takes [OF assms(2,3)] catching_apply dispatch_def OPTIMIZATION_def split: prod.splits sum.splits)
    show ?thesis
    proof (cases "hr = Inl LeaseLostError")
      case True
      then show ?thesis using run hr db2 by (intro exI [of _ ?x]) (auto simp: on_job_error_def)
    next
      case other: False
      then obtain code where e: "on_job_error jr (job_of ?x) worker (case hr of Inl e \<Rightarrow> e) w2 = fail_job jr (job_of ?x) worker code False w2"
          "code = ''RuntimeError'' \<or> code = ''OperationalError'' \<and> (\<exists>n. w_faults w n)"
        using hr by (intro that [of "if hr = Inl DatabaseUnavailable then ''OperationalError'' else ''RuntimeError''"])
          (auto simp: on_job_error_def)
      have t: "take 128 code = code" using e(2) by auto
      let ?y = "failed_row jr (job_of ?x) code False (w_clock w2 (w_reads w2)) ?x"
      have "(w_db w2)\<lparr>db_jobs := map (\<lambda>j. if row_id j = row_id ?x then ?y else j) (db_jobs (w_db w2))\<rparr> = ?put ?y"
        unfolding db2(1) by (simp add: replace_twice)
      then have fj: "fail_job jr (job_of ?x) worker code False w2 =
          (if w_faults w (Suc n) then (Inl DatabaseUnavailable, tick (tick w2)) else (Inr (), (tick (tick w2))\<lparr>w_db := ?put ?y\<rparr>))"
        using fail_takes [OF mem ids own jo(3), of jr code False] db2(2) w2 by (simp del: db2)
      show ?thesis
      proof (cases "w_faults w (Suc n)")
        case True
        then have "res = Inl DatabaseUnavailable" "w_db w' = ?put ?x" using run unfolding e(1) fj by (simp_all add: db2(1))
        then show ?thesis using True by (intro exI [of _ ?x]) auto
      next
        case False
        then have "res = Inr True" "w_db w' = ?put ?y" using run unfolding e(1) fj by simp_all
        then show ?thesis
          using jo(5) e(2) t by (intro exI [of _ ?y]) (auto simp: leased_to_def)
      qed
    qed
  qed
qed

definition diagnosing_world :: "unit world" where
  "diagnosing_world = world_of ((pipeline_db DIAGNOSING)\<lparr>db_jobs :=
     [pending_job ''j1'' 0 0 [(''run_id'', JStr ''run1'')] (Some ''run1'') ''OPTIMIZATION'']\<rparr>) ()"

theorem shipped_worker_stops_at_diagnosis_witness:
  "\<exists>x w'. run_once default_job_repository ''w1'' None [] (dispatch (Some (shipped_services (\<lambda>_. ret ()) (\<lambda>_. ret True)))) diagnosing_world = (Inr True, w') \<and>
     db_jobs (w_db w') = [x] \<and> jb_status x = ''PENDING'' \<and> jb_attempts x = 1 \<and> jb_last_error_code x = Some ''RuntimeError'' \<and>
     db_runs (w_db w') = [autonomous_run DIAGNOSING]"
proof -
  let ?j = "pending_job ''j1'' 0 0 [(''run_id'', JStr ''run1'')] (Some ''run1'') ''OPTIMIZATION''"
  obtain res w' where run: "run_once default_job_repository ''w1'' None [] (dispatch (Some (shipped_services (\<lambda>_. ret ()) (\<lambda>_. ret True))))
      diagnosing_world = (res, w')" by fastforce
  have d: "db_jobs (w_db diagnosing_world) = [?j]" "db_runs (w_db diagnosing_world) = [autonomous_run DIAGNOSING]"
      "w_faults diagnosing_world = (\<lambda>_. False)" "w_lease_lost diagnosing_world = (\<lambda>_. False)"
    by (simp_all add: diagnosing_world_def world_of_def pipeline_db_def)
  have j: "row_id ?j = ''j1''" "jb_kind ?j = ''OPTIMIZATION''" "jb_optimization_run_id ?j = Some ''run1''" "jb_attempts ?j = 0"
      "payload_text (jb_payload ?j) ''run_id'' = Some ''run1''"
    by (simp_all add: pending_job_def payload_text_def)
  have claimed: "first_claimable (w_clock diagnosing_world (w_reads diagnosing_world)) None [] (db_jobs (w_db diagnosing_world)) = Some ?j"
    by (simp add: d first_claimable_def claimable_def pending_job_def) (simp add: diagnosing_world_def world_of_def)
  from shipped_worker_stops_at_diagnosis [OF run claimed, of "''run1''" "autonomous_run DIAGNOSING"] obtain x where
    w': "w_db w' = (w_db diagnosing_world)\<lparr>db_jobs := [x]\<rparr>"
    and x: "case res of Inr worked \<Rightarrow> worked \<and> jb_attempts x = 1 \<and> jb_status x = ''PENDING'' \<and> jb_last_error_code x = Some ''RuntimeError''
      | Inl e \<Rightarrow> False"
    using j d by (cases res) (auto simp: job_ids_def default_job_repository_def)
  from x have "res = Inr True" "jb_attempts x = 1" "jb_status x = ''PENDING''" "jb_last_error_code x = Some ''RuntimeError''"
    by (auto split: sum.splits)
  then show ?thesis using run d w' by (intro exI [of _ x] exI [of _ w']) simp
qed

end
