(* ===== verification/Spec2Isabelle.thy ===== *)
theory Spec2Isabelle
  imports Json Lifecycle Adapter Ledger Actions Approvals Autonomy Admission Executor QuerySettings
    Candidates Workload Monitoring Schema World Runs Jobs DurableApprovals Authority PgLedger Recovery DurableDeploy DurableRollback DurableSettings
    Orchestrator Ranking Generation Evaluation DurableMonitoring Worker
begin

text \<open>
  An autonomous NoSQL query optimizer: \<open>src/backend/app\<close>. A request creates an optimization run and a job in
  PostgreSQL; a worker claims the job and resumes the run stage by stage: snapshot, diagnosis,
  candidates, ranking, calibration, evaluation, admission, authority, approval, deployment, monitoring. Every stage is a
  service that reads what the earlier ones recorded, checks it, and records an immutable artifact.
  Only two services change the monitored MongoDB, the deployment and the rollback, and both do it
  through the typed adapter, under an advisory lock, from recorded evidence. This development models the services of that
  chain, the in-memory components they grew from, and the job queue and worker that drive them.

  How the models are built.

  \<^item> A method is a definition of the same name (or the name of what it does), with its guards in the order of the
  code. An operation on a state is a function from the state to an outcome, \<open>Inl\<close> of the exception or \<open>Inr\<close> of
  the value, and the state left behind (\<open>Prelude\<close>); an exception undoes only what a transaction undoes.
  \<^item> The durable services share one state, the \<open>world\<close> (\<open>World\<close>): the tables (\<open>Schema\<close>, from \<open>db/models.py\<close>),
  the locks, the target, and what the environment decides, read once per use from sequences that are
  arguments: the clock, the identifiers of \<open>uuid4\<close>, whether a connection fails, whether the lease of the running job is
  lost. A theorem for every world is therefore a theorem for every interleaving of faults.
  \<^item> Code outside the repository is a parameter: the digest \<open>sha\<close> (SHA-256), the text \<open>stamp\<close> of a timestamp, the
  database adapter, the ranking provider, the random generator and percentile of NumPy (\<open>numerics\<close>), the
  numbers of JSON floats, the collection of monitoring windows. What is assumed of a parameter is a
  hypothesis of the theorem that needs it: \<open>database_adapter\<close> and \<open>idempotent_adapter\<close> (locales), \<open>provider_ok\<close>,
  \<open>numerics_ok\<close>, and that the digest has no collision where fingerprints are compared. The locales are interpreted on the
  in-memory adapter of \<open>adapters/fake.py\<close>.
  \<^item> Floating-point numbers are reals, so rounding is not modelled; NaN and infinity of an observation are a
  constructor, and \<open>math.log\<close> raises for an argument that is not positive.
  \<^item> Pydantic's \<open>model_validate\<close> and \<open>model_dump\<close> are read off the declarations of \<open>actions/schemas.py\<close>, at the JSON type of
  each value, without Pydantic's coercions.

  The theories and what they model (paths under \<open>src/backend/app\<close>).

  \<^item> \<open>Prelude\<close>, \<open>Json\<close>: operations with exceptions, query results; \<open>json.dumps\<close> with sorted keys and its injectivity up to
  the order of keys, \<open>json_hash\<close>, collisions.
  \<^item> \<open>Lifecycle\<close>: \<open>state_machine/optimization.py\<close>, the states, the frozen graph and the machine.
  \<^item> \<open>Adapter\<close>: \<open>adapters/contracts.py\<close> as a locale with the laws of every operation, \<open>adapters/fake.py\<close> as its instance.
  \<^item> \<open>Actions\<close>: \<open>actions/schemas.py\<close>, the typed actions, their validation from JSON, their inverses; the acceptance
  of a payload is proved equivalent to a specification on the raw JSON.
  \<^item> \<open>Ledger\<close>, \<open>Approvals\<close>: \<open>ledger/chain.py\<close> and \<open>approvals/flow.py\<close>, the in-memory chain and approval flow.
  \<^item> \<open>Autonomy\<close>: \<open>autonomy\<close>, \<open>safetybench\<close> and the fingerprints of \<open>authority/durable.py\<close>.
  \<^item> \<open>Admission\<close>: \<open>admission/models.py\<close>, \<open>policy.py\<close>, \<open>statistics.py\<close>: transforms, margins, bootstrap bounds, verdict.
  \<^item> \<open>Executor\<close>, \<open>QuerySettings\<close>: \<open>production/executor.py\<close>, \<open>rollback/owned_index.py\<close>, \<open>production/query_settings.py\<close>.
  \<^item> \<open>Candidates\<close>, \<open>Generation\<close>: \<open>candidates/index_generator.py\<close> and \<open>candidates/durable.py\<close>.
  \<^item> \<open>Workload\<close>, \<open>Monitoring\<close>: \<open>metrics/collector.py\<close>, \<open>workloads/snapshots.py\<close>, \<open>monitoring/workload_shift.py\<close> and
  \<open>monitoring/post_deployment.py\<close>.
  \<^item> \<open>Schema\<close>, \<open>World\<close>, \<open>Runs\<close>: \<open>db/models.py\<close> and \<open>db/repositories.py\<close>; \<open>Runs\<close> is the persisted transition of a run
  and the relation \<open>evolves\<close> that every service keeps.
  \<^item> \<open>Jobs\<close>: \<open>worker/durable.py\<close> and \<open>runs/service.py\<close>, the queue with leases and the creation of a run with its job.
  \<^item> \<open>DurableApprovals\<close>, \<open>Authority\<close>: \<open>approvals/durable.py\<close> and \<open>authority/durable.py\<close>.
  \<^item> \<open>PgLedger\<close>, \<open>Recovery\<close>: \<open>ledger/postgres.py\<close>, \<open>production/target_lock.py\<close>, \<open>recovery\<close>.
  \<^item> \<open>DurableDeploy\<close>, \<open>DurableRollback\<close>, \<open>DurableSettings\<close>: \<open>production/durable.py\<close>, \<open>rollback/durable.py\<close>,
  \<open>production/query_settings_durable.py\<close>.
  \<^item> \<open>Ranking\<close>, \<open>Evaluation\<close>, \<open>DurableMonitoring\<close>: \<open>ranking/durable.py\<close>, \<open>evaluation/durable.py\<close> with \<open>admission/durable.py\<close>,
  \<open>monitoring/durable.py\<close> with \<open>monitoring/persistence.py\<close>.
  \<^item> \<open>Orchestrator\<close>, \<open>Worker\<close>: \<open>runs/orchestrator.py\<close>, \<open>worker/service.py\<close>, and the orchestrator with the modelled services.

  What the lemmas show.

  \<^item> Fail-closed change of the target (\<open>Executor\<close>, \<open>QuerySettings\<close>, \<open>DurableDeploy\<close>, \<open>DurableRollback\<close>, \<open>DurableSettings\<close>,
  \<open>Monitoring\<close>, \<open>DurableMonitoring\<close>): for every run of the operation, returning or raising, the target is as it
  was or changed by exactly the one typed effect, and then every gate held, read from the tables field by field. The frame lemmas
  (\<open>watching\<close>, \<open>frames\<close>, \<open>one_effect\<close>) carry these through the steps; round trips show that the inverse restores the
  target.
  \<^item> Admission, authority and approval (\<open>Admission\<close>, \<open>Authority\<close>, \<open>DurableApprovals\<close>, \<open>Evaluation\<close>): what an
  admission, an autonomous decision and an approval imply, four eyes over all histories.
  \<^item> Lifecycle (\<open>Lifecycle\<close>, \<open>Runs\<close>, \<open>Orchestrator\<close>, \<open>Worker\<close>): paths of the graph, refinement of the machine by the
  persisted transition, and that under the polling worker runs only move along the graph and evidence is never lost.
  \<^item> Queue (\<open>Jobs\<close>): a job is completed at most once, a lease is exclusive, a run has its one initial job.
  \<^item> Ledgers and fingerprints (\<open>Json\<close>, \<open>Ledger\<close>, \<open>PgLedger\<close>, \<open>Autonomy\<close>): chains verify, the same head is the same history.
  \<^item> Recovery (\<open>Recovery\<close>): a mutation is applied at most once whatever the crashes.
  \<^item> Selection of work (\<open>Candidates\<close>, \<open>Generation\<close>, \<open>Ranking\<close>, \<open>Workload\<close>): candidates are new, plain and recorded
  completely in one transaction, a ranking is a permutation of them, and a new analysis is asked for once for each shift.

  Bounds and fuel. The handler's loop of 32 resumes is \<open>orchestrate_steps 32\<close>; that 15 steps already do all that 32 do is proved from
  the rank of the states. \<open>run_until_idle\<close> and the polling loop \<open>serve\<close> may run for ever: their fuel is an argument, \<open>None\<close> is
  running out of it, and what is proved of them holds for every fuel. All other recursions are structural or on a list.

  What is not modelled. The advisory lock is always released (the exception of a failing unlock statement is left out).
  Diagnosis, snapshot aggregation and the isolated benchmark are optional services of the orchestrator here, arguments that are
  assumed to respect the lifecycle: they prompt a model, aggregate telemetry in SQL or run MongoDB. HTTP routes, authentication,
  encryption and redaction, logging, the MongoDB driver, migrations, benchmarks, scripts and the frontend are input and output around
  the modelled services or calls of libraries. A row lock (\<open>FOR UPDATE\<close>) and a transaction make a block atomic; between the blocks
  of one operation the database is changed by nobody else except where histories of operations are the subject
  (\<open>Jobs\<close>, \<open>DurableApprovals\<close>, \<open>Approvals\<close>).
\<close>

end
